(* ===== verification/Prelude.thy ===== *)
theory Prelude
  imports Main "HOL-Library.Word" "HOL-Library.Monad_Syntax"
begin

unbundle bit_operations_syntax

text \<open>
  Shared vocabulary of the development: the C integer widths, the monad in which
  undefined behaviour of C is a value, the C string and array idioms every component
  uses (bounded copies, first-match scans over fixed tables), and the generic lemmas
  about them.

  A C function that can run into undefined behaviour (a null or dangling pointer
  dereference, a write past a buffer) returns an \<open>option\<close>: \<open>None\<close> is the undefined
  behaviour, so that a theorem \<open>f s = Some r\<close> says that the call is defined and what it
  returns. Components whose operations cannot fault are plain state transformers.
\<close>

section \<open>Machine integers\<close>

type_synonym u8 = "8 word"
type_synonym u16 = "16 word"
type_synonym u32 = "32 word"
type_synonym u64 = "64 word"

text \<open>A C truth value stored in an \<open>int\<close>.\<close>

definition of_cbool :: "bool \<Rightarrow> int" where
  "of_cbool b = (if b then 1 else 0)"

lemma of_cbool_iff [simp]: "of_cbool b = 1 \<longleftrightarrow> b" "of_cbool b = 0 \<longleftrightarrow> \<not> b"
  by (simp_all add: of_cbool_def)

text \<open>Collections: facts on words the components share, the invariants' preservation
  rules, and the unfolding rules of the small handlers.\<close>

named_theorems word_facts \<open>facts on machine words shared by the components\<close>
named_theorems vm_inv \<open>preservation rules for the component invariants\<close>
named_theorems handler_defs \<open>unfolding rules of the small handlers\<close>

lemma and_mask_12 [word_facts]: "(x :: u32) AND 0xFFF = take_bit 12 x"
  by (simp add: take_bit_eq_mask mask_eq_exp_minus_1)

lemma and_mask_10 [word_facts]: "(x :: u32) AND 0x3FF = take_bit 10 x"
  by (simp add: take_bit_eq_mask mask_eq_exp_minus_1)

lemma unat_ucast_u32_u64 [simp]: "unat (ucast (x :: u32) :: u64) = unat x"
  by transfer (simp add: take_bit_take_bit min_def)

lemma bit_less_2p: "(x :: 'a :: len word) < 2 ^ n \<Longrightarrow> bit x m \<Longrightarrow> m < n"
  by (metis less_mask_eq bit_and_iff bit_mask_iff)

section \<open>What holds of a result\<close>

text \<open>\<open>pred_option P m\<close>: if \<open>m\<close> is defined, its value satisfies \<open>P\<close>; the rules follow a
  computation step by step.\<close>

lemma pred_option_bind: "pred_option P (m \<bind> f) = pred_option (\<lambda>x. pred_option P (f x)) m"
  by (cases m) simp_all

lemma pred_optionI: "(\<And>x. m = Some x \<Longrightarrow> P x) \<Longrightarrow> pred_option P m"
  by (cases m) simp_all

lemma pred_optionD: "pred_option P m \<Longrightarrow> m = Some x \<Longrightarrow> P x"
  by simp

lemma pred_option_weaken: "pred_option P m \<Longrightarrow> (\<And>x. P x \<Longrightarrow> Q x) \<Longrightarrow> pred_option Q m"
  by (cases m) simp_all

section \<open>C strings\<close>

text \<open>
  \<open>strncpy(dst, src, sizeof(dst) - 1)\<close> followed by the terminating NUL: a bounded copy
  keeps at most \<open>n - 1\<close> characters in a buffer of \<open>n\<close>.
\<close>

definition c_copy :: "nat \<Rightarrow> string \<Rightarrow> string" where
  "c_copy n s = take (n - 1) s"

lemma length_c_copy: "0 < n \<Longrightarrow> length (c_copy n s) < n"
  by (simp add: c_copy_def)

lemma c_copy_fits [simp]: "length s < n \<Longrightarrow> c_copy n s = s"
  by (simp add: c_copy_def)

lemma c_copy_idem [simp]: "c_copy n (c_copy n s) = c_copy n s"
  by (simp add: c_copy_def)

section \<open>Scanning a table\<close>

text \<open>
  \<open>for (i = 0; i < N; i++) if (P(a[i])) \<dots> break;\<close>: the first index of a table that
  satisfies a test.
\<close>

fun first_index :: "('a \<Rightarrow> bool) \<Rightarrow> 'a list \<Rightarrow> nat option" where
  "first_index P [] = None"
| "first_index P (x # xs) = (if P x then Some 0 else map_option Suc (first_index P xs))"

lemma first_index_None_iff: "first_index P xs = None \<longleftrightarrow> (\<forall>x \<in> set xs. \<not> P x)"
  by (induction xs) auto

lemma first_index_SomeD:
  "first_index P xs = Some i \<Longrightarrow> i < length xs \<and> P (xs ! i) \<and> (\<forall>j < i. \<not> P (xs ! j))"
proof (induction xs arbitrary: i)
  case Nil
  then show ?case by simp
next
  case (Cons x xs)
  show ?case
  proof (cases "P x")
    case True
    with Cons.prems show ?thesis by simp
  next
    case False
    with Cons.prems obtain k where k: "first_index P xs = Some k" "i = Suc k" by auto
    with Cons.IH [of k] False show ?thesis by (auto simp: nth_Cons split: nat.splits)
  qed
qed

lemma first_index_SomeI:
  "i < length xs \<Longrightarrow> P (xs ! i) \<Longrightarrow> (\<And>j. j < i \<Longrightarrow> \<not> P (xs ! j)) \<Longrightarrow> first_index P xs = Some i"
proof (induction xs arbitrary: i)
  case Nil
  then show ?case by simp
next
  case (Cons x xs)
  show ?case
  proof (cases i)
    case 0
    with Cons.prems show ?thesis by simp
  next
    case (Suc k)
    have "\<not> P x" using Cons.prems(3) [of 0] Suc by simp
    moreover have "first_index P xs = Some k"
      using Cons.prems Suc by (intro Cons.IH) force+
    ultimately show ?thesis using Suc by simp
  qed
qed

lemma first_index_exists: "x \<in> set xs \<Longrightarrow> P x \<Longrightarrow> \<exists>i. first_index P xs = Some i"
  using first_index_None_iff [of P xs] by (cases "first_index P xs") auto

text \<open>A unique match is the first match.\<close>

lemma first_index_unique:
  assumes "i < length xs" and "P (xs ! i)" and "\<And>j. j < length xs \<Longrightarrow> P (xs ! j) \<Longrightarrow> j = i"
  shows "first_index P xs = Some i"
proof (rule first_index_SomeI)
  show "i < length xs" and "P (xs ! i)" by fact+
  fix j assume "j < i"
  with assms(1) assms(3) [of j] show "\<not> P (xs ! j)" by auto
qed

section \<open>Counting table entries\<close>

definition count_if :: "('a \<Rightarrow> bool) \<Rightarrow> 'a list \<Rightarrow> nat" where
  "count_if P xs = length (filter P xs)"

lemma count_if_le [simp]: "count_if P xs \<le> length xs"
  by (simp add: count_if_def)

lemma count_if_Nil [simp]: "count_if P [] = 0"
  by (simp add: count_if_def)

lemma count_if_Cons [simp]: "count_if P (x # xs) = (if P x then Suc (count_if P xs) else count_if P xs)"
  by (simp add: count_if_def)

lemma count_if_update:
  "i < length xs \<Longrightarrow>
    count_if P (xs[i := y]) + (if P (xs ! i) then 1 else 0)
      = count_if P xs + (if P y then 1 else 0)"
proof (induction xs arbitrary: i)
  case Nil
  then show ?case by simp
next
  case (Cons x xs)
  then show ?case by (cases i) (auto split: if_splits)
qed

lemma count_if_replicate [simp]: "count_if P (replicate n x) = (if P x then n else 0)"
  by (simp add: count_if_def)

lemma count_if_full_iff: "count_if P xs = length xs \<longleftrightarrow> (\<forall>x \<in> set xs. P x)"
proof (induction xs)
  case Nil
  then show ?case by simp
next
  case (Cons x xs)
  have "count_if P xs \<noteq> Suc (length xs)" using count_if_le [of P xs] by linarith
  with Cons show ?case by auto
qed

section \<open>Iterating an operation\<close>

text \<open>Running a fixed operation a number of times, the last call outermost.\<close>

lemma funpow_invariant:
  "Q s \<Longrightarrow> (\<And>x. Q x \<Longrightarrow> Q (f x)) \<Longrightarrow> Q ((f ^^ n) s)"
  by (induction n) auto

text \<open>A run of a state transformer over a list of operations keeps what every step keeps.\<close>

lemma fold_invariant_all:
  "Q s \<Longrightarrow> (\<And>x s. Q s \<Longrightarrow> Q (f x s)) \<Longrightarrow> Q (fold f xs s)"
  by (induction xs arbitrary: s) auto

end
