(* ===== verification/CLib.thy ===== *)
theory CLib
  imports Prelude
begin

text \<open>
  The C library functions on strings and numbers that several components use, as the
  standard describes them in the C locale: \<^verbatim>\<open>printf\<close> and \<^verbatim>\<open>scanf\<close> of decimals, the
  \<^verbatim>\<open>ctype\<close> classes, \<^verbatim>\<open>atoi\<close>, \<^verbatim>\<open>strtol\<close>, \<^verbatim>\<open>strtok\<close>, \<^verbatim>\<open>strstr\<close>.
  A C string is the list of its characters before the terminating zero.
\<close>

section \<open>Numbers\<close>

text \<open>\<^verbatim>\<open>%d\<close> of a non-negative number.\<close>

fun dec :: "nat \<Rightarrow> string" where
  "dec n = (if n < 10 then [char_of (48 + n)] else dec (n div 10) @ [char_of (48 + n mod 10)])"

declare dec.simps [simp del]

definition is_space :: "char \<Rightarrow> bool" where
  "is_space c \<longleftrightarrow> c \<in> {CHR '' '', CHR 0x09, CHR 0x0A, CHR 0x0B, CHR 0x0C, CHR 0x0D}"

definition is_digit :: "char \<Rightarrow> bool" where
  "is_digit c \<longleftrightarrow> 48 \<le> (of_char c :: nat) \<and> (of_char c :: nat) \<le> 57"

definition digits_val :: "string \<Rightarrow> nat" where
  "digits_val s = foldl (\<lambda>a c. 10 * a + (of_char c - 48)) 0 s"

text \<open>\<^verbatim>\<open>%d\<close> of \<^verbatim>\<open>sscanf\<close>: blanks, a sign and digits; the number and the rest.\<close>

definition scan_int :: "string \<Rightarrow> (int \<times> string) option" where
  "scan_int s =
     (let s1 = dropWhile is_space s;
          neg = (s1 \<noteq> [] \<and> hd s1 = CHR ''-'');
          s2 = (if s1 \<noteq> [] \<and> hd s1 \<in> {CHR ''-'', CHR ''+''} then tl s1 else s1);
          ds = takeWhile is_digit s2
      in if ds = [] then None
         else Some (if neg then - int (digits_val ds) else int (digits_val ds), dropWhile is_digit s2))"

lemma digit_char: "n < 10 \<Longrightarrow> (of_char (char_of (48 + n)) :: nat) = 48 + n"
  by simp

lemma dec_digits: "dec n \<noteq> [] \<and> (\<forall>c \<in> set (dec n). is_digit c) \<and> digits_val (dec n) = n"
proof (induction n rule: dec.induct)
  case (1 n)
  show ?case
  proof (cases "n < 10")
    case True
    then show ?thesis by (subst (1 2 3) dec.simps) (simp add: is_digit_def digits_val_def)
  next
    case False
    with 1 show ?thesis by (subst (1 2 3) dec.simps) (auto simp: is_digit_def digits_val_def)
  qed
qed

lemma length_dec: "n < 1000 \<Longrightarrow> length (dec n) \<le> 3"
  by (subst dec.simps, subst dec.simps, subst dec.simps) auto

lemma scan_dec:
  assumes "r = [] \<or> \<not> is_digit (hd r)"
  shows "scan_int (dec n @ r) = Some (int n, r)"
proof -
  note d = dec_digits [of n]
  obtain c cs where cs: "dec n = c # cs" using d by (cases "dec n") auto
  have c: "is_digit c" using d cs by simp
  then have "\<not> is_space c" "c \<noteq> CHR ''-''" "c \<noteq> CHR ''+''" by (auto simp: is_digit_def is_space_def)
  then have "dropWhile is_space (dec n @ r) = dec n @ r" "hd (dec n @ r) \<notin> {CHR ''-'', CHR ''+''}" by (simp_all add: cs)
  moreover have "takeWhile is_digit (dec n @ r) = dec n" "dropWhile is_digit (dec n @ r) = r"
    using d assms by (cases r; simp add: takeWhile_append dropWhile_append)+
  ultimately show ?thesis using d by (simp add: scan_int_def Let_def)
qed

text \<open>\<^verbatim>\<open>%d\<close>\<close>

definition dec_int :: "int \<Rightarrow> string" where
  "dec_int i = (if i < 0 then CHR ''-'' # dec (nat (- i)) else dec (nat i))"

lemma scan_dec_int:
  assumes "r = [] \<or> \<not> is_digit (hd r)"
  shows "scan_int (dec_int i @ r) = Some (i, r)"
proof (cases "i < 0")
  case False
  then show ?thesis using scan_dec [OF assms, of "nat i"] by (simp add: dec_int_def)
next
  case True
  note d = dec_digits [of "nat (- i)"]
  have t: "takeWhile is_digit (dec (nat (- i)) @ r) = dec (nat (- i))"
    "dropWhile is_digit (dec (nat (- i)) @ r) = r"
    using d assms by (cases r; simp add: takeWhile_append dropWhile_append)+
  with True d show ?thesis by (simp add: dec_int_def scan_int_def is_space_def Let_def)
qed

lemma dec_length: "n < 10 ^ Suc k \<Longrightarrow> length (dec n) \<le> Suc k"
proof (induction k arbitrary: n)
  case 0
  then show ?case by (subst dec.simps) simp
next
  case (Suc k)
  then have "n div 10 < 10 ^ Suc k" by (simp add: less_mult_imp_div_less)
  with Suc.IH [of "n div 10"] show ?case by (subst dec.simps) simp
qed

text \<open>\<^verbatim>\<open>atoi\<close>: undefined when the number does not fit an \<^verbatim>\<open>int\<close>, 0 when there is none.\<close>

definition fits_int :: "int \<Rightarrow> bool" where
  "fits_int v \<longleftrightarrow> - (2 ^ 31) \<le> v \<and> v < 2 ^ 31"

definition atoi :: "string \<Rightarrow> int option" where
  "atoi s = (case scan_int s of None \<Rightarrow> Some 0 | Some (v, r) \<Rightarrow> if fits_int v then Some v else None)"

lemma atoi_dec_int [simp]: "fits_int i \<Longrightarrow> atoi (dec_int i) = Some i"
  using scan_dec_int [of "[]" i] by (simp add: atoi_def)

text \<open>\<^verbatim>\<open>strtol\<close> leaves the end pointer at the end of the string.\<close>

definition strtol_all :: "string \<Rightarrow> bool" where
  "strtol_all s \<longleftrightarrow> (case scan_int s of None \<Rightarrow> s = [] | Some (v, r) \<Rightarrow> r = [])"

section \<open>Strings\<close>

abbreviation nl :: string where "nl \<equiv> [CHR 0x0A]"

definition is_alnum :: "char \<Rightarrow> bool" where
  "is_alnum c \<longleftrightarrow> (let n = (of_char c :: nat) in
     48 \<le> n \<and> n \<le> 57 \<or> 65 \<le> n \<and> n \<le> 90 \<or> 97 \<le> n \<and> n \<le> 122)"

text \<open>Splitting at the delimiters; \<^verbatim>\<open>strtok\<close> skips the empty parts.\<close>

primrec split_at :: "char set \<Rightarrow> string \<Rightarrow> string list" where
  "split_at D [] = [[]]"
| "split_at D (c # s) =
     (if c \<in> D then [] # split_at D s
      else (case split_at D s of [] \<Rightarrow> [[c]] | t # ts \<Rightarrow> (c # t) # ts))"

definition strtok_all :: "char set \<Rightarrow> string \<Rightarrow> string list" where
  "strtok_all D s = filter (\<lambda>t. t \<noteq> []) (split_at D s)"

lemma split_at_plain: "\<forall>c \<in> set t. c \<notin> D \<Longrightarrow> split_at D t = [t]"
  by (induction t) auto

lemma split_at_delim: "\<forall>c \<in> set t. c \<notin> D \<Longrightarrow> d \<in> D \<Longrightarrow> split_at D (t @ d # r) = t # split_at D r"
  by (induction t) auto

lemma strtok_all_skip: "strtok_all D s = strtok_all D (dropWhile (\<lambda>c. c \<in> D) s)"
  by (induction s) (simp_all add: strtok_all_def)

definition starts_with :: "string \<Rightarrow> string \<Rightarrow> bool" where
  "starts_with p s \<longleftrightarrow> take (length p) s = p"

text \<open>The offset of the first occurrence.\<close>

fun strstr :: "string \<Rightarrow> string \<Rightarrow> nat option" where
  "strstr [] n = (if n = [] then Some 0 else None)"
| "strstr (c # s) n = (if starts_with n (c # s) then Some 0 else map_option Suc (strstr s n))"

definition strchr :: "string \<Rightarrow> char \<Rightarrow> nat option" where
  "strchr s c = first_index (\<lambda>x. x = c) s"

text \<open>White space cut at both ends.\<close>

definition trim_end :: "string \<Rightarrow> string" where
  "trim_end s = rev (dropWhile is_space (rev s))"

lemma trim_end_plain: "s = [] \<or> \<not> is_space (last s) \<Longrightarrow> trim_end s = s"
  by (cases s rule: rev_cases) (simp_all add: trim_end_def)

section \<open>Input\<close>

text \<open>\<^verbatim>\<open>fgets\<close> with a buffer of \<open>n\<close> bytes: at most \<open>n - 1\<close> characters, up to and with a newline.\<close>

definition fgets :: "nat \<Rightarrow> string \<Rightarrow> string" where
  "fgets n s = (let l = takeWhile (\<lambda>c. c \<noteq> CHR 0x0A) s in
     take (n - 1) (if length l < length s then l @ [CHR 0x0A] else l))"

lemma fgets_progress: "s \<noteq> [] \<Longrightarrow> 1 < n \<Longrightarrow> fgets n s \<noteq> []"
  by (cases s) (auto simp: fgets_def Let_def)

text \<open>\<^verbatim>\<open>%lx\<close>\<close>

fun hex :: "nat \<Rightarrow> string" where
  "hex n = (if n < 16 then [''0123456789abcdef'' ! n] else hex (n div 16) @ [''0123456789abcdef'' ! (n mod 16)])"

declare hex.simps [simp del]

lemma hex_digit: "n < 16 \<Longrightarrow> ''0123456789abcdef'' ! n \<in> set ''0123456789abcdef''"
  by (intro nth_mem) simp

lemma hex_chars: "hex n \<noteq> [] \<and> set (hex n) \<subseteq> set ''0123456789abcdef''"
proof (induction n rule: hex.induct)
  case (1 n)
  show ?case
  proof (cases "n < 16")
    case True
    with hex_digit [of n] show ?thesis by (subst (1 2) hex.simps) simp
  next
    case False
    with 1 hex_digit [of "n mod 16"] show ?thesis by (subst (1 2) hex.simps) auto
  qed
qed

lemma hex_length: "n < 16 ^ Suc k \<Longrightarrow> length (hex n) \<le> Suc k"
proof (induction k arbitrary: n)
  case 0
  then show ?case by (subst hex.simps) simp
next
  case (Suc k)
  then have "n div 16 < 16 ^ Suc k" by (simp add: less_mult_imp_div_less)
  with Suc.IH [of "n div 16"] show ?case by (subst hex.simps) simp
qed

end
