(* ===== verification/VfsPerms.thy ===== *)
theory VfsPerms
  imports Prelude
begin

text \<open>
  The Unix permission bits of the virtual file system (\<^verbatim>\<open>src/vfs/vfs.c\<close>,
  \<^verbatim>\<open>include/vfs/vfs.h\<close>): the mode constants, the \<^verbatim>\<open>rwxr-xr-x\<close> formatter and the
  parser of the octal and the symbolic form. A \<^verbatim>\<open>char\<close> is signed; shifting a negative
  \<^verbatim>\<open>int\<close> left is undefined behaviour.
\<close>

section \<open>Mode bits\<close>

definition VFS_S_IRUSR :: u32 where "VFS_S_IRUSR = 256"
definition VFS_S_IWUSR :: u32 where "VFS_S_IWUSR = 128"
definition VFS_S_IXUSR :: u32 where "VFS_S_IXUSR = 64"
definition VFS_S_IRGRP :: u32 where "VFS_S_IRGRP = 32"
definition VFS_S_IWGRP :: u32 where "VFS_S_IWGRP = 16"
definition VFS_S_IXGRP :: u32 where "VFS_S_IXGRP = 8"
definition VFS_S_IROTH :: u32 where "VFS_S_IROTH = 4"
definition VFS_S_IWOTH :: u32 where "VFS_S_IWOTH = 2"
definition VFS_S_IXOTH :: u32 where "VFS_S_IXOTH = 1"

text \<open>0644 and 0755.\<close>

definition VFS_DEFAULT_FILE_PERMS :: u32 where "VFS_DEFAULT_FILE_PERMS = 420"
definition VFS_DEFAULT_DIR_PERMS :: u32 where "VFS_DEFAULT_DIR_PERMS = 493"

lemmas vfs_mode_defs =
  VFS_S_IRUSR_def VFS_S_IWUSR_def VFS_S_IXUSR_def VFS_S_IRGRP_def VFS_S_IWGRP_def
  VFS_S_IXGRP_def VFS_S_IROTH_def VFS_S_IWOTH_def VFS_S_IXOTH_def

section \<open>Formatting and parsing\<close>

definition vfs_format_permissions :: "u32 \<Rightarrow> string" where
  "vfs_format_permissions mode =
     [if mode AND VFS_S_IRUSR \<noteq> 0 then CHR ''r'' else CHR ''-'',
      if mode AND VFS_S_IWUSR \<noteq> 0 then CHR ''w'' else CHR ''-'',
      if mode AND VFS_S_IXUSR \<noteq> 0 then CHR ''x'' else CHR ''-'',
      if mode AND VFS_S_IRGRP \<noteq> 0 then CHR ''r'' else CHR ''-'',
      if mode AND VFS_S_IWGRP \<noteq> 0 then CHR ''w'' else CHR ''-'',
      if mode AND VFS_S_IXGRP \<noteq> 0 then CHR ''x'' else CHR ''-'',
      if mode AND VFS_S_IROTH \<noteq> 0 then CHR ''r'' else CHR ''-'',
      if mode AND VFS_S_IWOTH \<noteq> 0 then CHR ''w'' else CHR ''-'',
      if mode AND VFS_S_IXOTH \<noteq> 0 then CHR ''x'' else CHR ''-'']"

definition schar :: "char \<Rightarrow> int" where
  "schar c = (let n = (of_char c :: int) in if n < 128 then n else n - 256)"

text \<open>\<^verbatim>\<open>if (perm_str[i] == c) mode |= flag;\<close>\<close>

definition or_flag :: "string \<Rightarrow> nat \<Rightarrow> char \<Rightarrow> u32 \<Rightarrow> int \<Rightarrow> int" where
  "or_flag s i c flag mode = (if s ! i = c then mode OR uint flag else mode)"

definition parse_symbolic :: "string \<Rightarrow> int" where
  "parse_symbolic s =
     (let m0 = 0;
          m1 = or_flag s 0 CHR ''r'' VFS_S_IRUSR m0;
          m2 = or_flag s 1 CHR ''w'' VFS_S_IWUSR m1;
          m3 = or_flag s 2 CHR ''x'' VFS_S_IXUSR m2;
          m4 = or_flag s 3 CHR ''r'' VFS_S_IRGRP m3;
          m5 = or_flag s 4 CHR ''w'' VFS_S_IWGRP m4;
          m6 = or_flag s 5 CHR ''x'' VFS_S_IXGRP m5;
          m7 = or_flag s 6 CHR ''r'' VFS_S_IROTH m6;
          m8 = or_flag s 7 CHR ''w'' VFS_S_IWOTH m7
      in or_flag s 8 CHR ''x'' VFS_S_IXOTH m8)"

definition vfs_parse_permissions :: "string option \<Rightarrow> int option" where
  "vfs_parse_permissions perm_str =
     (case perm_str of None \<Rightarrow> Some (uint VFS_DEFAULT_FILE_PERMS)
      | Some s \<Rightarrow>
         if length s = 3 \<and> schar CHR ''0'' \<le> schar (s ! 0) \<and> schar (s ! 0) \<le> schar CHR ''7''
         then (let own = schar (s ! 0) - schar CHR ''0'';
                   grp = schar (s ! 1) - schar CHR ''0'';
                   others = schar (s ! 2) - schar CHR ''0''
               in if grp < 0 then None
                  else Some (push_bit 6 own OR push_bit 3 grp OR others))
         else if length s = 9 then Some (parse_symbolic s)
         else Some (uint VFS_DEFAULT_FILE_PERMS))"

section \<open>Round trips\<close>

lemma and_single_bit: "(x :: u32) AND (push_bit k 1) \<noteq> 0 \<longleftrightarrow> k < 32 \<and> bit x k"
  unfolding bit_eq_iff [of "x AND push_bit k 1" 0] by (auto simp: bit_and_iff bit_exp_iff)

lemma mode_bit_tests:
  "(x :: u32) AND 256 \<noteq> 0 \<longleftrightarrow> bit x 8" "x AND 128 \<noteq> 0 \<longleftrightarrow> bit x 7" "x AND 64 \<noteq> 0 \<longleftrightarrow> bit x 6"
  "x AND 32 \<noteq> 0 \<longleftrightarrow> bit x 5" "x AND 16 \<noteq> 0 \<longleftrightarrow> bit x 4" "x AND 8 \<noteq> 0 \<longleftrightarrow> bit x 3"
  "x AND 4 \<noteq> 0 \<longleftrightarrow> bit x 2" "x AND 2 \<noteq> 0 \<longleftrightarrow> bit x 1" "x AND 1 \<noteq> 0 \<longleftrightarrow> bit x 0"
  using and_single_bit [of x 8] and_single_bit [of x 7] and_single_bit [of x 6] and_single_bit [of x 5]
    and_single_bit [of x 4] and_single_bit [of x 3] and_single_bit [of x 2] and_single_bit [of x 1]
    and_single_bit [of x 0] by (simp_all add: push_bit_eq_mult)

lemma or_flag_bit:
  "uint flag = push_bit k 1 \<Longrightarrow> bit (or_flag s i c flag m) n \<longleftrightarrow> bit m n \<or> s ! i = c \<and> n = k"
  by (auto simp: or_flag_def bit_or_iff bit_exp_iff)

lemma or_flag_bits:
  "bit (or_flag s i c VFS_S_IRUSR m) n \<longleftrightarrow> bit m n \<or> s ! i = c \<and> n = 8"
  "bit (or_flag s i c VFS_S_IWUSR m) n \<longleftrightarrow> bit m n \<or> s ! i = c \<and> n = 7"
  "bit (or_flag s i c VFS_S_IXUSR m) n \<longleftrightarrow> bit m n \<or> s ! i = c \<and> n = 6"
  "bit (or_flag s i c VFS_S_IRGRP m) n \<longleftrightarrow> bit m n \<or> s ! i = c \<and> n = 5"
  "bit (or_flag s i c VFS_S_IWGRP m) n \<longleftrightarrow> bit m n \<or> s ! i = c \<and> n = 4"
  "bit (or_flag s i c VFS_S_IXGRP m) n \<longleftrightarrow> bit m n \<or> s ! i = c \<and> n = 3"
  "bit (or_flag s i c VFS_S_IROTH m) n \<longleftrightarrow> bit m n \<or> s ! i = c \<and> n = 2"
  "bit (or_flag s i c VFS_S_IWOTH m) n \<longleftrightarrow> bit m n \<or> s ! i = c \<and> n = 1"
  "bit (or_flag s i c VFS_S_IXOTH m) n \<longleftrightarrow> bit m n \<or> s ! i = c \<and> n = 0"
  by (intro or_flag_bit; simp add: vfs_mode_defs push_bit_eq_mult)+

lemma less_9_cases: "n < 9 \<longleftrightarrow> n = 0 \<or> n = Suc 0 \<or> n = 2 \<or> n = 3 \<or> n = 4 \<or> n = 5 \<or> n = 6 \<or> n = 7 \<or> n = (8 :: nat)"
  by arith

lemma parse_format: "parse_symbolic (vfs_format_permissions mode) = uint (mode AND 0x1FF)"
proof (rule bit_eqI)
  fix n
  have m: "(0x1FF :: u32) = mask 9" by (simp add: mask_eq_exp_minus_1)
  have "bit (uint (mode AND 0x1FF)) n \<longleftrightarrow> bit mode n \<and> n < 9"
    unfolding m by (auto simp: bit_uint_iff bit_and_iff bit_mask_iff)
  moreover have "bit (parse_symbolic (vfs_format_permissions mode)) n \<longleftrightarrow> bit mode n \<and> n < 9"
    unfolding less_9_cases parse_symbolic_def Let_def or_flag_bits
    by (auto simp: vfs_format_permissions_def vfs_mode_defs mode_bit_tests [simplified] intro: gr0I)
  ultimately show "bit (parse_symbolic (vfs_format_permissions mode)) n \<longleftrightarrow> bit (uint (mode AND 0x1FF)) n"
    by simp
qed

text \<open>
  The listing form of a mode is read back exactly: parsing what
  \<open>vfs_format_permissions\<close> prints gives the nine permission bits of the mode, so two modes
  print alike exactly when those bits agree; and three octal digits are read as the mode
  they write.
\<close>

theorem permissions_roundtrip:
  "vfs_parse_permissions (Some (vfs_format_permissions mode)) = Some (uint (mode AND 0x1FF)) \<and>
   (vfs_format_permissions mode = vfs_format_permissions mode' \<longleftrightarrow> mode AND 0x1FF = mode' AND 0x1FF) \<and>
   vfs_parse_permissions (Some (map (\<lambda>d. char_of (48 + d)) [a mod 8, b mod 8, c mod 8]))
     = Some (int (a mod 8 * 64 + b mod 8 * 8 + c mod 8))"
proof -
  have len: "length (vfs_format_permissions mode) = 9" for mode by (simp add: vfs_format_permissions_def)
  have eq: "vfs_format_permissions mode = vfs_format_permissions mode' \<longleftrightarrow> mode AND 0x1FF = mode' AND 0x1FF"
  proof
    assume "vfs_format_permissions mode = vfs_format_permissions mode'"
    then have "uint (mode AND 0x1FF) = uint (mode' AND 0x1FF)" by (metis parse_format)
    then show "mode AND 0x1FF = mode' AND 0x1FF" by (simp only: word_uint_eq_iff)
  next
    assume e: "mode AND 0x1FF = mode' AND 0x1FF"
    have m: "(0x1FF :: u32) = mask 9" by (simp add: mask_eq_exp_minus_1)
    have "bit mode n \<longleftrightarrow> bit mode' n" if "n < 9" for n
      using arg_cong [OF e, of "\<lambda>x. bit x n"] that unfolding m by (simp add: bit_and_iff bit_mask_iff)
    then show "vfs_format_permissions mode = vfs_format_permissions mode'"
      by (simp add: vfs_format_permissions_def vfs_mode_defs mode_bit_tests)
  qed
  have dig: "schar (char_of (48 + d)) = 48 + int d" if "d < 8" for d
  proof -
    have "(of_char (char_of (48 + d)) :: nat) = 48 + d" using that by simp
    then have "(of_char (char_of (48 + d)) :: int) = 48 + int d" by (metis of_nat_of_char of_nat_add of_nat_numeral)
    with that show ?thesis by (simp add: schar_def Let_def)
  qed
  have z: "schar CHR ''0'' = 48" "schar CHR ''7'' = 55" by (simp_all add: schar_def)
  have or: "push_bit 6 (int x) OR push_bit 3 (int y) OR int w = int (x * 64 + y * 8 + w)"
    if "x < 8" "y < 8" "w < 8" for x y w
  proof -
    from that have "x \<in> {0,1,2,3,4,5,6,7}" "y \<in> {0,1,2,3,4,5,6,7}" "w \<in> {0,1,2,3,4,5,6,7}" by auto
    then show ?thesis by (auto simp: push_bit_eq_mult)
  qed
  have le: "a mod 8 \<le> 7" by (simp add: less_Suc_eq_le [symmetric])
  have oct: "vfs_parse_permissions (Some (map (\<lambda>d. char_of (48 + d)) [a mod 8, b mod 8, c mod 8]))
     = Some (int (a mod 8 * 64 + b mod 8 * 8 + c mod 8))"
    using or [of "a mod 8" "b mod 8" "c mod 8"] le
    by (simp add: vfs_parse_permissions_def dig z Let_def del: push_bit_numeral)
  show ?thesis using eq oct len by (simp add: vfs_parse_permissions_def parse_format)
qed

end
