(* ===== verification/VfsNodes.thy ===== *)
theory VfsNodes
  imports VfsPerms "HOL-Library.Sublist"
begin

text \<open>
  The node store of the virtual file system (\<^verbatim>\<open>src/vfs/vfs.c\<close>): nodes allocated with
  \<^verbatim>\<open>malloc\<close> in an explicit heap, path strings and their tokens, and the lookup of a path.
  A dangling pointer is an address the heap does not hold; dereferencing it is undefined
  behaviour (\<open>None\<close>). The chain a directory's \<^verbatim>\<open>children\<close> field starts and the \<^verbatim>\<open>next\<close>
  fields continue is the list \<open>children\<close>. The lemmas say what adding, removing and updating
  a node does to every path (\<open>fs_view\<close>).
\<close>

section \<open>Nodes\<close>

type_synonym vptr = nat

record VNode =
  vname :: string
  is_directory :: bool
  is_symlink :: bool
  symlink_target :: "string option"
  vsize :: nat
  vdata :: "u8 list option"
  vhost_path :: "string option"
  vparent :: "vptr option"
  children :: "vptr list"
  vmode :: u32
  vowner :: string
  vgroup :: string
  created_time :: int
  modified_time :: int

type_synonym node_store = "vptr \<Rightarrow> VNode option"

section \<open>Paths\<close>

text \<open>The tokens \<^verbatim>\<open>strtok\<close> finds between slashes: the non-empty parts.\<close>

primrec split_slash :: "string \<Rightarrow> string list" where
  "split_slash [] = [[]]"
| "split_slash (c # s) =
     (if c = CHR ''/'' then [] # split_slash s
      else (case split_slash s of [] \<Rightarrow> [[c]] | t # ts \<Rightarrow> (c # t) # ts))"

definition path_tokens :: "string \<Rightarrow> string list" where
  "path_tokens s = filter (\<lambda>t. t \<noteq> []) (split_slash s)"

text \<open>The parts before and after the slash \<^verbatim>\<open>strrchr\<close> finds.\<close>

definition after_slash :: "string \<Rightarrow> string" where
  "after_slash s = rev (takeWhile (\<lambda>c. c \<noteq> CHR ''/'') (rev s))"

definition before_slash :: "string \<Rightarrow> string" where
  "before_slash s = rev (tl (dropWhile (\<lambda>c. c \<noteq> CHR ''/'') (rev s)))"

text \<open>
  Parent path and last name as \<^verbatim>\<open>vfs_mkdir\<close> and \<^verbatim>\<open>vfs_create_file\<close> copy them into their
  256-byte buffers; a part that does not fit overruns its buffer.
\<close>

definition split_path :: "string \<Rightarrow> (string \<times> string) option" where
  "split_path path =
     (let (parent_path, name) =
        (if CHR ''/'' \<in> set path then (before_slash path, after_slash path) else (''/'', path))
      in if 256 \<le> length parent_path \<or> 256 \<le> length name then None
         else Some (if parent_path = [] then ''/'' else parent_path, name))"

lemma split_slash_not_Nil [simp]: "split_slash s \<noteq> []"
  by (induction s) (auto split: list.splits)

lemma split_slash_append:
  "split_slash (s @ CHR ''/'' # t) = split_slash s @ split_slash t"
  by (induction s) (auto split: list.splits)

lemma split_slash_plain: "CHR ''/'' \<notin> set s \<Longrightarrow> split_slash s = [s]"
  by (induction s) auto

lemma before_after_slash:
  assumes "CHR ''/'' \<in> set s"
  shows "s = before_slash s @ CHR ''/'' # after_slash s" and "CHR ''/'' \<notin> set (after_slash s)"
proof -
  let ?P = "\<lambda>c. c \<noteq> CHR ''/''"
  obtain d where d: "dropWhile ?P (rev s) = CHR ''/'' # d"
    using assms hd_dropWhile [of ?P "rev s"] by (cases "dropWhile ?P (rev s)") auto
  have "rev s = takeWhile ?P (rev s) @ CHR ''/'' # d" using d takeWhile_dropWhile_id [of ?P "rev s"] by simp
  then show "s = before_slash s @ CHR ''/'' # after_slash s"
    using d by (simp add: before_slash_def after_slash_def) (metis rev_rev_ident rev_append rev.simps(2) append_assoc append_Cons append_Nil)
  show "CHR ''/'' \<notin> set (after_slash s)" by (auto simp: after_slash_def dest: set_takeWhileD)
qed

text \<open>The tokens of a path are those of its parent and its last name.\<close>

lemma split_path_tokens:
  assumes "split_path path = Some (pp, nm)"
  shows "path_tokens path = path_tokens pp @ (if nm = [] then [] else [nm])"
    and "CHR ''/'' \<notin> set nm" and "length nm < 256" and "length pp < 256" and "pp \<noteq> []"
    and "length path \<le> length pp + 1 + length nm"
proof -
  have slash: "path_tokens ''/'' = []" by (simp add: path_tokens_def)
  have nil: "path_tokens [] = []" by (simp add: path_tokens_def)
  have "path_tokens path = path_tokens pp @ (if nm = [] then [] else [nm]) \<and> CHR ''/'' \<notin> set nm \<and>
    length path \<le> length pp + 1 + length nm"
  proof (cases "CHR ''/'' \<in> set path")
    case True
    note ba = before_after_slash [OF True]
    have tok: "path_tokens path = path_tokens (before_slash path) @ (if after_slash path = [] then [] else [after_slash path])"
      unfolding path_tokens_def using ba(2)
      by (subst ba(1), subst split_slash_append) (simp add: split_slash_plain)
    have len: "length path = length (before_slash path) + 1 + length (after_slash path)"
      by (subst ba(1)) simp
    from assms True have "nm = after_slash path" "pp = (if before_slash path = [] then ''/'' else before_slash path)"
      by (auto simp: split_path_def split: if_splits)
    with tok ba(2) slash nil len show ?thesis by auto
  next
    case False
    from assms False have "nm = path" "pp = ''/''" by (auto simp: split_path_def split: if_splits)
    with False slash show ?thesis by (simp add: path_tokens_def split_slash_plain)
  qed
  then show "path_tokens path = path_tokens pp @ (if nm = [] then [] else [nm])"
    and "CHR ''/'' \<notin> set nm" and "length path \<le> length pp + 1 + length nm" by auto
  show "length nm < 256" "length pp < 256" "pp \<noteq> []"
    using assms by (auto simp: split_path_def Let_def split: if_splits prod.splits)
qed

section \<open>Lookup\<close>

text \<open>The scan of a directory's children for a name.\<close>

fun find_child :: "node_store \<Rightarrow> string \<Rightarrow> vptr list \<Rightarrow> vptr option option" where
  "find_child h nm [] = Some None"
| "find_child h nm (a # as) =
     do { n \<leftarrow> h a; (if vname n = nm then Some (Some a) else find_child h nm as) }"

text \<open>The token loop of \<^verbatim>\<open>vfs_find_node\<close>.\<close>

fun walk :: "node_store \<Rightarrow> vptr \<Rightarrow> string list \<Rightarrow> vptr option option" where
  "walk h a [] = Some (Some a)"
| "walk h a (t # ts) =
     do { n \<leftarrow> h a; r \<leftarrow> find_child h t (children n);
          (case r of None \<Rightarrow> Some None | Some b \<Rightarrow> walk h b ts) }"

text \<open>The tree invariant: links go both ways, only directories have children, and the root
  is the only node without a parent.\<close>

definition vfs_wf :: "node_store \<Rightarrow> vptr \<Rightarrow> bool" where
  "vfs_wf h root \<longleftrightarrow>
     (\<exists>n. h root = Some n \<and> vparent n = None \<and> is_directory n) \<and>
     (\<forall>a n. h a = Some n \<longrightarrow> distinct (children n) \<and> (\<not> is_directory n \<longrightarrow> children n = []) \<and>
        (\<forall>c \<in> set (children n). \<exists>m. h c = Some m \<and> vparent m = Some a)) \<and>
     (\<forall>a n. h a = Some n \<longrightarrow>
        (case vparent n of None \<Rightarrow> a = root | Some p \<Rightarrow> \<exists>m. h p = Some m \<and> a \<in> set (children m)))"

text \<open>What a path shows: the attributes and the data of the node it leads to.\<close>

definition entry_of :: "VNode \<Rightarrow> VNode" where
  "entry_of n = n\<lparr>vparent := None, children := []\<rparr>"

definition fs_view :: "node_store \<Rightarrow> vptr \<Rightarrow> string list \<Rightarrow> VNode option" where
  "fs_view h root ts =
     (case walk h root ts of Some (Some a) \<Rightarrow> map_option entry_of (h a) | _ \<Rightarrow> None)"

lemma wf_root: "vfs_wf h root \<Longrightarrow> \<exists>n. h root = Some n \<and> vparent n = None \<and> is_directory n"
  by (simp add: vfs_wf_def)

lemma wf_child:
  "vfs_wf h root \<Longrightarrow> h a = Some n \<Longrightarrow> c \<in> set (children n) \<Longrightarrow> \<exists>m. h c = Some m \<and> vparent m = Some a"
  by (simp add: vfs_wf_def)

lemma wf_parent:
  "vfs_wf h root \<Longrightarrow> h a = Some n \<Longrightarrow> vparent n = Some p \<Longrightarrow> \<exists>m. h p = Some m \<and> a \<in> set (children m)"
  unfolding vfs_wf_def by (drule conjunct2, drule conjunct2, drule spec [of _ a]) auto

lemma wf_distinct: "vfs_wf h root \<Longrightarrow> h a = Some n \<Longrightarrow> distinct (children n)"
  by (simp add: vfs_wf_def)

lemma wf_leaf: "vfs_wf h root \<Longrightarrow> h a = Some n \<Longrightarrow> \<not> is_directory n \<Longrightarrow> children n = []"
  by (simp add: vfs_wf_def)

lemma wf_orphan: "vfs_wf h root \<Longrightarrow> h a = Some n \<Longrightarrow> vparent n = None \<Longrightarrow> a = root"
  unfolding vfs_wf_def by (drule conjunct2, drule conjunct2, drule spec [of _ a]) auto

lemma wf_root_no_child: "vfs_wf h root \<Longrightarrow> h a = Some n \<Longrightarrow> root \<notin> set (children n)"
  using wf_root [of h root] wf_child [of h root a n root] by auto

text \<open>Scanning children that are all held by the store is defined.\<close>

lemma find_child_defined:
  "\<forall>a \<in> set as. h a \<noteq> None \<Longrightarrow> \<exists>r. find_child h nm as = Some r"
  by (induction as) auto

lemma find_child_SomeD:
  "find_child h nm as = Some (Some a) \<Longrightarrow> a \<in> set as \<and> (\<exists>n. h a = Some n \<and> vname n = nm)"
  by (induction as) (auto split: bind_splits if_splits)

lemma find_child_NoneD:
  "find_child h nm as = Some None \<Longrightarrow> a \<in> set as \<Longrightarrow> h a = Some n \<Longrightarrow> vname n \<noteq> nm"
  by (induction as) (auto split: bind_splits if_splits)

lemma find_child_cong:
  "(\<And>a. a \<in> set as \<Longrightarrow> map_option vname (h' a) = map_option vname (h a)) \<Longrightarrow>
     find_child h' nm as = find_child h nm as"
proof (induction as)
  case Nil
  then show ?case by simp
next
  case (Cons a as)
  then have "map_option vname (h' a) = map_option vname (h a)" by simp
  with Cons show ?case by (cases "h a"; cases "h' a") auto
qed

lemma walk_snoc:
  "walk h a (ts @ [t]) =
     do { r \<leftarrow> walk h a ts;
          (case r of None \<Rightarrow> Some None | Some b \<Rightarrow> do { n \<leftarrow> h b; find_child h t (children n) }) }"
proof (induction ts arbitrary: a)
  case Nil
  show ?case by (auto split: option.splits bind_splits)
next
  case (Cons u us)
  then show ?case by (auto split: option.splits bind_splits)
qed

lemma walk_defined:
  assumes wf: "vfs_wf h root"
  shows "\<exists>r. walk h root ts = Some r \<and> (\<forall>a. r = Some a \<longrightarrow> h a \<noteq> None)"
proof (induction ts rule: rev_induct)
  case Nil
  then show ?case using wf_root [OF wf] by auto
next
  case (snoc t ts)
  then obtain r where r: "walk h root ts = Some r" "\<forall>a. r = Some a \<longrightarrow> h a \<noteq> None" by blast
  show ?case
  proof (cases r)
    case None
    with r show ?thesis by (simp add: walk_snoc)
  next
    case (Some b)
    with r obtain n where n: "h b = Some n" by auto
    have ch: "\<forall>c \<in> set (children n). h c \<noteq> None" using wf_child [OF wf n] by fastforce
    from find_child_defined [OF ch] obtain x where x: "find_child h t (children n) = Some x" by blast
    with ch find_child_SomeD [of h t "children n"] r n Some show ?thesis
      by (cases x) (auto simp: walk_snoc)
  qed
qed

lemma walk_snocD:
  assumes wf: "vfs_wf h root" and w: "walk h root (ts @ [t]) = Some (Some a)"
  shows "\<exists>p m n. walk h root ts = Some (Some p) \<and> h p = Some m \<and> a \<in> set (children m) \<and>
    h a = Some n \<and> vname n = t \<and> vparent n = Some p"
proof -
  from w obtain p m where p: "walk h root ts = Some (Some p)" "h p = Some m"
    "find_child h t (children m) = Some (Some a)"
    by (auto simp: walk_snoc split: option.splits bind_splits)
  from find_child_SomeD [OF p(3)] obtain n where "a \<in> set (children m)" "h a = Some n" "vname n = t" by auto
  moreover from wf_child [OF wf p(2) this(1)] this(2) have "vparent n = Some p" by auto
  ultimately show ?thesis using p by blast
qed

text \<open>Every node is reached by one path only.\<close>

lemma walk_inj:
  assumes wf: "vfs_wf h root"
  shows "walk h root ts = Some (Some a) \<Longrightarrow> walk h root us = Some (Some a) \<Longrightarrow> ts = us"
proof (induction ts arbitrary: us a rule: rev_induct)
  case Nil
  then have a: "a = root" by simp
  show ?case
  proof (cases us rule: rev_cases)
    case Nil
    then show ?thesis by simp
  next
    case (snoc vs v)
    from walk_snocD [OF wf Nil(2) [unfolded snoc]] wf_root_no_child [OF wf] a show ?thesis by blast
  qed
next
  case (snoc t ts)
  from walk_snocD [OF wf snoc.prems(1)] obtain p m n where p: "walk h root ts = Some (Some p)" "h a = Some n"
    "vname n = t" "vparent n = Some p" by blast
  show ?case
  proof (cases us rule: rev_cases)
    case Nil
    with snoc.prems(2) wf_root [OF wf] p show ?thesis by auto
  next
    case (snoc vs v)
    from walk_snocD [OF wf snoc.prems(2) [unfolded snoc]] p obtain
      "walk h root vs = Some (Some p)" "v = t" by auto
    with snoc.IH [OF p(1)] snoc show ?thesis by simp
  qed
qed

lemma fs_view_walk:
  "walk h root ts = Some (Some a) \<Longrightarrow> h a = Some n \<Longrightarrow> fs_view h root ts = Some (entry_of n)"
  by (simp add: fs_view_def)

lemma fs_view_None_iff:
  "vfs_wf h root \<Longrightarrow> fs_view h root ts = None \<longleftrightarrow> walk h root ts = Some None"
  using walk_defined [of h root ts] by (auto simp: fs_view_def split: option.splits)

end
