(* ===== verification/VfsTree.thy ===== *)
theory VfsTree
  imports VfsNodes
begin

text \<open>
  What the three changes the file operations make to the node tree do to every path:
  attaching a new node, detaching a leaf and updating a node in place. Each keeps the tree
  invariant.
\<close>

section \<open>Attaching a node\<close>

definition attach :: "vptr \<Rightarrow> VNode \<Rightarrow> vptr \<Rightarrow> VNode \<Rightarrow> node_store \<Rightarrow> node_store" where
  "attach p m a n h = h(a \<mapsto> n\<lparr>vparent := Some p\<rparr>, p \<mapsto> m\<lparr>children := a # children m\<rparr>)"

lemma attach_wf:
  assumes wf: "vfs_wf h root" and p: "h p = Some m" "is_directory m" and a: "h a = None" "children n = []"
  shows "vfs_wf (attach p m a n h) root"
proof -
  from p a have ap: "a \<noteq> p" by auto
  have used: "a \<notin> set (children k)" if "h x = Some k" for x k
    using wf_child [OF wf that, of a] a by auto
  have get: "attach p m a n h x = (if x = p then Some (m\<lparr>children := a # children m\<rparr>)
      else if x = a then Some (n\<lparr>vparent := Some p\<rparr>) else h x)" for x
    by (simp add: attach_def)
  have keeps: "\<exists>m'. attach p m a n h c = Some m' \<and> vparent m' = vparent k" if "h c = Some k" for c k
    using that p a by (auto simp: get)
  show ?thesis
    unfolding vfs_wf_def
  proof (intro conjI allI impI)
    from wf_root [OF wf] obtain r where "h root = Some r" "vparent r = None" "is_directory r" by blast
    then show "\<exists>r. attach p m a n h root = Some r \<and> vparent r = None \<and> is_directory r"
      using p a by (auto simp: get)
  next
    fix x k assume k: "attach p m a n h x = Some k"
    show "distinct (children k)"
      using k a used [OF p(1)] wf_distinct [OF wf] p by (auto simp: get split: if_splits)
    show "\<forall>c \<in> set (children k). \<exists>m'. attach p m a n h c = Some m' \<and> vparent m' = Some x"
    proof
      fix c assume c: "c \<in> set (children k)"
      show "\<exists>m'. attach p m a n h c = Some m' \<and> vparent m' = Some x"
      proof (cases "x = p \<and> c = a")
        case True
        with ap show ?thesis by (auto simp: get)
      next
        case False
        with k c a have "\<exists>k'. h x = Some k' \<and> c \<in> set (children k')"
          using p by (auto simp: get split: if_splits)
        with wf_child [OF wf] keeps show ?thesis by (metis (no_types))
      qed
    qed
    show "children k = []" if "\<not> is_directory k"
      using k that a p wf_leaf [OF wf] by (auto simp: get split: if_splits)
    show "case vparent k of None \<Rightarrow> x = root | Some q \<Rightarrow> \<exists>m'. attach p m a n h q = Some m' \<and> x \<in> set (children m')"
    proof (cases "vparent k")
      case None
      with k p have "\<exists>k'. h x = Some k' \<and> vparent k' = None" by (auto simp: get split: if_splits)
      with wf_orphan [OF wf] None show ?thesis by auto
    next
      case (Some q)
      show ?thesis
      proof (cases "x = a")
        case True
        with k ap Some show ?thesis by (auto simp: get)
      next
        case False
        with k p Some have "\<exists>k'. h x = Some k' \<and> vparent k' = Some q" by (auto simp: get split: if_splits)
        then obtain m' where "h q = Some m'" "x \<in> set (children m')" using wf_parent [OF wf] by blast
        with Some a p show ?thesis by (auto simp: get)
      qed
    qed
  qed
qed

text \<open>The new node is found under its name, hides what was below that name, and changes no
  other path.\<close>

lemma attach_walk:
  assumes wf: "vfs_wf h root" and p: "walk h root pt = Some (Some p)" "h p = Some m"
    and a: "h a = None" "children n = []" "vname n = nm"
  shows "walk (attach p m a n h) root ts =
    (if ts = pt @ [nm] then Some (Some a)
     else if strict_prefix (pt @ [nm]) ts then Some None else walk h root ts)"
proof (induction ts rule: rev_induct)
  case Nil
  then show ?case by simp
next
  case (snoc t ts)
  from p a have ap: "a \<noteq> p" by auto
  have pre: "strict_prefix (pt @ [nm]) (ts @ [t]) \<longleftrightarrow> ts = pt @ [nm] \<or> strict_prefix (pt @ [nm]) ts"
    by (auto simp: strict_prefix_def prefix_snoc)
  have names: "map_option vname (attach p m a n h c) = map_option vname (h c)" if "c \<noteq> a" for c
    using p that by (auto simp: attach_def)
  have at_p: "attach p m a n h p = Some (m\<lparr>children := a # children m\<rparr>)"
    and at_a: "attach p m a n h a = Some (n\<lparr>vparent := Some p\<rparr>)" using ap by (simp_all add: attach_def)
  show ?case
  proof (cases "ts = pt @ [nm] \<or> strict_prefix (pt @ [nm]) ts")
    case True
    then have ne: "ts @ [t] \<noteq> pt @ [nm]" by (auto simp: strict_prefix_def prefix_def)
    show ?thesis
      using True snoc.IH a(2) ap ne pre by (auto simp: walk_snoc attach_def)
  next
    case False
    with snoc.IH have IH: "walk (attach p m a n h) root ts = walk h root ts" by auto
    from walk_defined [OF wf, of ts] obtain r where r: "walk h root ts = Some r"
      "\<forall>b. r = Some b \<longrightarrow> h b \<noteq> None" by blast
    show ?thesis
    proof (cases r)
      case None
      then have "ts \<noteq> pt" using p r by auto
      with None r IH False pre show ?thesis by (simp add: walk_snoc)
    next
      case (Some b)
      with r obtain k where k: "h b = Some k" by auto
      have nch: "a \<notin> set (children k)" using wf_child [OF wf k, of a] a by auto
      have scan: "find_child (attach p m a n h) t (children k) = find_child h t (children k)"
        using nch names by (intro find_child_cong) metis
      have b: "b = p \<longleftrightarrow> ts = pt" using walk_inj [OF wf, of ts p pt] p r Some by auto
      show ?thesis
      proof (cases "ts = pt")
        case True
        with b p k have "b = p" "k = m" by auto
        then show ?thesis using True r Some IH scan ap a pre False p
          by (auto simp: walk_snoc at_p at_a)
      next
        case False2: False
        have "b \<noteq> a" using k a by auto
        with False2 b have "attach p m a n h b = Some k" by (simp add: attach_def k)
        with False2 False pre r Some IH scan k show ?thesis by (simp add: walk_snoc)
      qed
    qed
  qed
qed

lemma entry_of_attach [simp]:
  "entry_of (k\<lparr>vparent := x\<rparr>) = entry_of k" "entry_of (k\<lparr>children := cs\<rparr>) = entry_of k"
  by (simp_all add: entry_of_def)

lemma attach_view:
  assumes wf: "vfs_wf h root" and p: "walk h root pt = Some (Some p)" "h p = Some m"
    and a: "h a = None" "children n = []" "vname n = nm"
  shows "fs_view (attach p m a n h) root ts =
    (if ts = pt @ [nm] then Some (entry_of n)
     else if strict_prefix (pt @ [nm]) ts then None else fs_view h root ts)"
proof -
  from p a have ap: "a \<noteq> p" by auto
  have "map_option entry_of (attach p m a n h b) = map_option entry_of (h b)" if "b \<noteq> a" for b
    using that p by (auto simp: attach_def)
  moreover have "b \<noteq> a" if "walk h root ts = Some (Some b)" for b
    using walk_defined [OF wf, of ts] that a by auto
  ultimately show ?thesis
    using attach_walk [OF assms, of ts] ap
    by (auto simp: fs_view_def attach_def split: option.splits)
qed

section \<open>Detaching a leaf\<close>

definition detach :: "vptr \<Rightarrow> VNode \<Rightarrow> vptr \<Rightarrow> node_store \<Rightarrow> node_store" where
  "detach p m a h = (h(p \<mapsto> m\<lparr>children := remove1 a (children m)\<rparr>))(a := None)"

lemma detach_wf:
  assumes wf: "vfs_wf h root" and p: "h p = Some m" "a \<in> set (children m)"
    and a: "h a = Some n" "children n = []"
  shows "vfs_wf (detach p m a h) root"
proof -
  from wf_child [OF wf p] a have par: "vparent n = Some p" by auto
  from p a have ap: "a \<noteq> p" by auto
  have ar: "a \<noteq> root" using wf_root [OF wf] a par by auto
  have get: "detach p m a h x = (if x = a then None
      else if x = p then Some (m\<lparr>children := remove1 a (children m)\<rparr>) else h x)" for x
    by (simp add: detach_def)
  have keeps: "\<exists>m'. detach p m a h c = Some m' \<and> vparent m' = vparent k" if "h c = Some k" "c \<noteq> a" for c k
    using that p by (auto simp: get)
  have dm: "distinct (children m)" using wf_distinct [OF wf p(1)] .
  show ?thesis
    unfolding vfs_wf_def
  proof (intro conjI allI impI)
    from wf_root [OF wf] obtain r where "h root = Some r" "vparent r = None" "is_directory r" by blast
    then show "\<exists>r. detach p m a h root = Some r \<and> vparent r = None \<and> is_directory r"
      using p ar by (auto simp: get)
  next
    fix x k assume k: "detach p m a h x = Some k"
    then have xa: "x \<noteq> a" by (auto simp: get)
    show "distinct (children k)"
      using k wf_distinct [OF wf] dm by (auto simp: get split: if_splits)
    show "\<forall>c \<in> set (children k). \<exists>m'. detach p m a h c = Some m' \<and> vparent m' = Some x"
    proof
      fix c assume c: "c \<in> set (children k)"
      obtain k' where k': "h x = Some k'" "c \<in> set (children k')" "x = p \<longrightarrow> c \<noteq> a"
        using k c p dm xa by (auto simp: get split: if_splits)
      from wf_child [OF wf k'(1,2)] obtain c' where c': "h c = Some c'" "vparent c' = Some x" by blast
      have "c \<noteq> a" using c' a par k'(3) by auto
      with keeps c' show "\<exists>m'. detach p m a h c = Some m' \<and> vparent m' = Some x" by metis
    qed
    show "children k = []" if "\<not> is_directory k"
    proof -
      from k that p have "\<exists>k'. h x = Some k' \<and> \<not> is_directory k' \<and> (children k' = [] \<longrightarrow> children k = [])"
        by (auto simp: get split: if_splits)
      with wf_leaf [OF wf] show ?thesis by blast
    qed
    obtain k' where k': "h x = Some k'" "vparent k' = vparent k" using k p by (auto simp: get split: if_splits)
    show "case vparent k of None \<Rightarrow> x = root | Some q \<Rightarrow> \<exists>m'. detach p m a h q = Some m' \<and> x \<in> set (children m')"
    proof (cases "vparent k")
      case None
      with wf_orphan [OF wf k'(1)] k' show ?thesis by auto
    next
      case (Some q)
      with k' wf_parent [OF wf k'(1)] obtain m' where m': "h q = Some m'" "x \<in> set (children m')" by auto
      have "q \<noteq> a" using m' a by auto
      with m' p xa have "\<exists>m''. detach p m a h q = Some m'' \<and> x \<in> set (children m'')" by (auto simp: get)
      with Some show ?thesis by simp
    qed
  qed
qed

text \<open>A name occurs once among the children of a directory.\<close>

definition unique_in :: "node_store \<Rightarrow> vptr list \<Rightarrow> bool" where
  "unique_in h cs \<longleftrightarrow> distinct (map (\<lambda>c. map_option vname (h c)) cs)"

lemma find_child_remove1:
  assumes "h a = Some n" and "distinct cs" and "t \<noteq> vname n"
  shows "find_child h t (remove1 a cs) = find_child h t cs"
  using assms
proof (induction cs)
  case Nil
  then show ?case by simp
next
  case (Cons c cs)
  then show ?case by (cases "h c") auto
qed

lemma find_child_gone:
  assumes "unique_in h cs" and "a \<in> set cs" and "h a = Some n" and "\<forall>c \<in> set cs. h c \<noteq> None"
  shows "find_child h (vname n) (remove1 a cs) = Some None"
  using assms
proof (induction cs)
  case Nil
  then show ?case by simp
next
  case (Cons c cs)
  show ?case
  proof (cases "c = a")
    case True
    have "vname k \<noteq> vname n" if "b \<in> set cs" "h b = Some k" for b k
    proof -
      from that(1) have "map_option vname (h b) \<in> (\<lambda>c. map_option vname (h c)) ` set cs" by blast
      with Cons.prems(1,3) True that show ?thesis by (force simp: unique_in_def)
    qed
    moreover have "find_child h t cs = Some None" if "\<forall>b \<in> set cs. \<forall>k. h b = Some k \<longrightarrow> vname k \<noteq> t"
      and "\<forall>b \<in> set cs. h b \<noteq> None" for t
      using that by (induction cs) auto
    ultimately show ?thesis using True Cons.prems(4) by auto
  next
    case False
    with Cons.prems have ih: "find_child h (vname n) (remove1 a cs) = Some None"
      by (intro Cons.IH) (auto simp: unique_in_def)
    from False Cons.prems(2) have "a \<in> set cs" by simp
    then have "map_option vname (h a) \<in> (\<lambda>c. map_option vname (h c)) ` set cs" by blast
    with Cons.prems(1) have "map_option vname (h c) \<noteq> map_option vname (h a)" by (auto simp: unique_in_def)
    with Cons.prems(3,4) ih False show ?thesis by auto
  qed
qed

lemma detach_walk:
  assumes wf: "vfs_wf h root" and p: "h p = Some m" "unique_in h (children m)"
    and a: "h a = Some n" "children n = []" "vparent n = Some p"
    and at: "walk h root at = Some (Some a)"
  shows "walk (detach p m a h) root ts = (if prefix at ts then Some None else walk h root ts)"
proof -
  from wf_parent [OF wf a(1,3)] p have am: "a \<in> set (children m)" by auto
  from p a am wf_child [OF wf p(1)] have ap: "a \<noteq> p" by auto
  have at_ne: "at \<noteq> []" using at a wf_root [OF wf] by auto
  then obtain pt nm where ats: "at = pt @ [nm]" by (cases at rule: rev_cases) auto
  from walk_snocD [OF wf at [unfolded ats]] a have pt: "walk h root pt = Some (Some p)" and nm: "nm = vname n"
    by auto
  have dm: "distinct (children m)" using wf_distinct [OF wf p(1)] .
  show ?thesis
  proof (induction ts rule: rev_induct)
    case Nil
    then show ?case using at_ne by simp
  next
    case (snoc t ts)
    show ?case
    proof (cases "prefix at ts")
      case True
      with snoc show ?thesis by (simp add: walk_snoc)
    next
      case False
      with snoc have IH: "walk (detach p m a h) root ts = walk h root ts" by simp
      have pre: "prefix at (ts @ [t]) \<longleftrightarrow> ts = pt \<and> t = nm" using False ats by (auto simp: prefix_snoc)
      from walk_defined [OF wf, of ts] obtain r where r: "walk h root ts = Some r"
        "\<forall>b. r = Some b \<longrightarrow> h b \<noteq> None" by blast
      show ?thesis
      proof (cases r)
        case None
        with pt r have "ts \<noteq> pt" by auto
        with None r IH pre show ?thesis by (simp add: walk_snoc)
      next
        case (Some b)
        with r obtain k where k: "h b = Some k" by auto
        have ba: "b \<noteq> a" using walk_inj [OF wf, of ts a at] at r Some False by auto
        have b: "b = p \<longleftrightarrow> ts = pt" using walk_inj [OF wf, of ts p pt] pt r Some by auto
        have same: "find_child (detach p m a h) t cs = find_child h t cs" if "a \<notin> set cs" for cs
          using that p by (intro find_child_cong) (auto simp: detach_def)
        show ?thesis
        proof (cases "ts = pt")
          case True
          with b k p have bp: "b = p" "k = m" by auto
          have na: "a \<notin> set (remove1 a (children m))" using dm by simp
          have "find_child h t (remove1 a (children m)) = (if t = nm then Some None else find_child h t (children m))"
            using find_child_remove1 [where h = h and a = a and n = n and cs = "children m" and t = t] a(1) dm find_child_gone [OF p(2) am a(1)] wf_child [OF wf p(1)] nm
            by fastforce
          moreover have "detach p m a h p = Some (m\<lparr>children := remove1 a (children m)\<rparr>)"
            using ap by (simp add: detach_def)
          ultimately show ?thesis
            using True bp r Some IH pre same [OF na] p by (simp add: walk_snoc)
        next
          case other: False
          have "a \<notin> set (children k)" using wf_child [OF wf k, of a] a other b by auto
          moreover have "detach p m a h b = Some k" using other b ba k by (simp add: detach_def)
          ultimately show ?thesis using other k pre IH r Some same by (simp add: walk_snoc)
        qed
      qed
    qed
  qed
qed

lemma detach_view:
  assumes wf: "vfs_wf h root" and p: "h p = Some m" "unique_in h (children m)"
    and a: "h a = Some n" "children n = []" "vparent n = Some p"
    and at: "walk h root at = Some (Some a)"
  shows "fs_view (detach p m a h) root = (fs_view h root)(at := None)"
proof
  fix ts
  from wf_parent [OF wf a(1,3)] p have am: "a \<in> set (children m)" by auto
  have leaf: "walk h root ts = Some None" if pr: "prefix at ts" and ne: "ts \<noteq> at"
  proof -
    have "walk h root (at @ t # us) = Some None" for t us
      using a at
    proof (induction us rule: rev_induct)
      case Nil
      then show ?case by (simp add: walk_snoc)
    next
      case (snoc u us)
      then show ?case using walk_snoc [of h root "at @ t # us" u] by simp
    qed
    moreover from pr ne obtain z zs where "ts = at @ z # zs" by (metis append_Nil2 neq_Nil_conv prefix_def)
    ultimately show ?thesis by simp
  qed
  have "map_option entry_of (detach p m a h b) = map_option entry_of (h b)" if "b \<noteq> a" for b
    using that p by (auto simp: detach_def)
  moreover have "b \<noteq> a" if "walk h root ts = Some (Some b)" "ts \<noteq> at" for b
    using walk_inj [OF wf, of ts a at] at that by auto
  ultimately show "fs_view (detach p m a h) root ts = ((fs_view h root)(at := None)) ts"
    using detach_walk [OF assms, of ts] leaf
    by (cases "ts = at") (auto simp: fs_view_def split: option.splits)
qed

section \<open>Updating a node\<close>

definition keeps_links :: "(VNode \<Rightarrow> VNode) \<Rightarrow> bool" where
  "keeps_links f \<longleftrightarrow> (\<forall>n. vname (f n) = vname n \<and> children (f n) = children n \<and>
     vparent (f n) = vparent n \<and> is_directory (f n) = is_directory n)"

lemma update_walk:
  assumes n: "h a = Some n" and f: "keeps_links f"
  shows "walk (h(a \<mapsto> f n)) root ts = walk h root ts"
proof -
  define h' where "h' = h(a \<mapsto> f n)"
  have names: "find_child h' t cs = find_child h t cs" for t cs
    using assms by (intro find_child_cong) (auto simp: keeps_links_def h'_def)
  have ch: "h x = None \<and> h' x = None \<or> (\<exists>k k'. h x = Some k \<and> h' x = Some k' \<and> children k' = children k)" for x
    using assms by (cases "h x") (auto simp: keeps_links_def h'_def)
  have "walk h' root ts = walk h root ts"
  proof (induction ts arbitrary: root)
    case Nil
    then show ?case by simp
  next
    case (Cons t ts)
    have "do { r \<leftarrow> find_child h t cs; (case r of None \<Rightarrow> Some None | Some b \<Rightarrow> walk h' b ts) } =
        do { r \<leftarrow> find_child h t cs; (case r of None \<Rightarrow> Some None | Some b \<Rightarrow> walk h b ts) }" for cs
      by (cases "find_child h t cs") (auto simp: Cons split: option.split)
    with ch [of root] names show ?case by auto
  qed
  then show ?thesis by (simp add: h'_def)
qed

lemma update_wf:
  assumes wf: "vfs_wf h root" and a: "h a = Some n" and f: "keeps_links f"
  shows "vfs_wf (h(a \<mapsto> f n)) root"
proof -
  let ?h = "h(a \<mapsto> f n)"
  have fwd: "\<exists>k'. ?h x = Some k' \<and> children k' = children k \<and> vparent k' = vparent k \<and>
      is_directory k' = is_directory k" if "h x = Some k" for x k
    using that a f by (cases "x = a") (simp_all add: keeps_links_def)
  have bwd: "\<exists>k. h x = Some k \<and> children k' = children k \<and> vparent k' = vparent k \<and>
      is_directory k' = is_directory k" if "?h x = Some k'" for x k'
    using that a f by (cases "x = a") (auto simp: keeps_links_def)
  show ?thesis
    unfolding vfs_wf_def
  proof (intro conjI allI impI)
    from wf_root [OF wf] fwd show "\<exists>r. ?h root = Some r \<and> vparent r = None \<and> is_directory r" by metis
  next
    fix x k' assume "?h x = Some k'"
    from bwd [OF this] obtain k where k: "h x = Some k" "children k' = children k" "vparent k' = vparent k"
      "is_directory k' = is_directory k" by blast
    show "distinct (children k')" using wf_distinct [OF wf k(1)] k by simp
    show "children k' = []" if "\<not> is_directory k'" using wf_leaf [OF wf k(1)] k that by simp
    show "\<forall>c \<in> set (children k'). \<exists>m. ?h c = Some m \<and> vparent m = Some x"
      using wf_child [OF wf k(1)] fwd k by metis
    show "case vparent k' of None \<Rightarrow> x = root | Some q \<Rightarrow> \<exists>m. ?h q = Some m \<and> x \<in> set (children m)"
    proof (cases "vparent k'")
      case None
      with wf_orphan [OF wf k(1)] k show ?thesis by simp
    next
      case (Some q)
      with k have "vparent k = Some q" by simp
      from wf_parent [OF wf k(1) this] obtain m where m: "h q = Some m" "x \<in> set (children m)" by blast
      from fwd [OF m(1)] m(2) have "\<exists>m'. ?h q = Some m' \<and> x \<in> set (children m')" by metis
      with Some show ?thesis by simp
    qed
  qed
qed

lemma update_view:
  assumes wf: "vfs_wf h root" and a: "h a = Some n" and f: "keeps_links f"
    and at: "walk h root at = Some (Some a)"
  shows "fs_view (h(a \<mapsto> f n)) root = (fs_view h root)(at \<mapsto> entry_of (f n))"
proof
  fix ts
  have w: "walk (h(a \<mapsto> f n)) root ts = walk h root ts" using a f by (rule update_walk)
  show "fs_view (h(a \<mapsto> f n)) root ts = ((fs_view h root)(at \<mapsto> entry_of (f n))) ts"
  proof (cases "ts = at")
    case True
    with w at show ?thesis by (simp add: fs_view_def)
  next
    case False
    with walk_inj [OF wf, of ts a at] at have "walk h root ts \<noteq> Some (Some a)" by auto
    with w False show ?thesis by (auto simp: fs_view_def split: option.split)
  qed
qed

end
