(* ===== verification/Vfs.thy ===== *)
theory Vfs
  imports VfsTree
begin

text \<open>
  The virtual file system of \<^verbatim>\<open>src/vfs/vfs.c\<close>: its globals, path resolution, directory, file,
  symlink and permission operations, and the write-through to the host directory tree. A
  \<^verbatim>\<open>char*\<close> argument is a string or NULL. What is outside the program is in the environment
  \<open>vfs_env\<close>: \<^verbatim>\<open>malloc\<close>, the clock, the contents of host files and whether a host operation
  succeeds. The host operations requested are logged in order. Sizes are naturals: the file
  does no arithmetic on them that could wrap.
\<close>

section \<open>State\<close>

datatype host_op =
  HostEnsureDir string
| HostWriteFile string "u8 list"
| HostRemoveDir string
| HostDeleteFile string

record VirtualFS =
  vfs_root :: vptr
  current_dir :: vptr

record vfs_world =
  vnodes :: node_store
  vm_fs :: "VirtualFS option"
  current_directory :: string
  host_root_directory :: string
  vfs_current_user :: string
  vfs_current_group :: string
  vfs_is_root :: bool
  host_log :: "host_op list"

text \<open>\<open>node_raw\<close> is what a block fresh from \<^verbatim>\<open>malloc\<close> holds; \<open>host_file\<close> gives the size
  \<^verbatim>\<open>ftell\<close> reports and the bytes \<^verbatim>\<open>fread\<close> can deliver, for a file that opens.\<close>

record vfs_env =
  node_malloc :: "node_store \<Rightarrow> vptr option"
  node_raw :: VNode
  data_malloc :: "nat \<Rightarrow> bool"
  time_now :: int
  host_file :: "string \<Rightarrow> (int \<times> u8 list) option"
  host_ok :: "host_op \<Rightarrow> bool"

section \<open>Nodes\<close>

definition vfs_set_default_permissions :: "vfs_env \<Rightarrow> string option \<Rightarrow> string option \<Rightarrow> VNode \<Rightarrow> VNode" where
  "vfs_set_default_permissions e own grp n =
     n\<lparr>vowner := c_copy 50 (case own of Some s \<Rightarrow> s | None \<Rightarrow> ''guest''),
       vgroup := c_copy 50 (case grp of Some s \<Rightarrow> s | None \<Rightarrow> ''users''),
       created_time := time_now e, modified_time := time_now e\<rparr>"

definition new_node :: "vfs_env \<Rightarrow> vfs_world \<Rightarrow> string \<Rightarrow> bool \<Rightarrow> u32 \<Rightarrow> VNode" where
  "new_node e w nm dir md =
     (vfs_set_default_permissions e (Some (vfs_current_user w)) (Some (vfs_current_group w))
       ((node_raw e)\<lparr>vname := c_copy 256 nm, is_directory := dir, is_symlink := False,
          symlink_target := None, vsize := 0, vdata := None, vhost_path := None,
          vparent := None, children := []\<rparr>))\<lparr>vmode := md\<rparr>"

definition vfs_create_directory_node :: "vfs_env \<Rightarrow> string \<Rightarrow> vfs_world \<Rightarrow> vptr option \<times> vfs_world" where
  "vfs_create_directory_node e nm w =
     (case node_malloc e (vnodes w) of None \<Rightarrow> (None, w)
      | Some a \<Rightarrow> (Some a, w\<lparr>vnodes := (vnodes w)(a \<mapsto> new_node e w nm True VFS_DEFAULT_DIR_PERMS)\<rparr>))"

definition vfs_create_file_node :: "vfs_env \<Rightarrow> string \<Rightarrow> vfs_world \<Rightarrow> vptr option \<times> vfs_world" where
  "vfs_create_file_node e nm w =
     (case node_malloc e (vnodes w) of None \<Rightarrow> (None, w)
      | Some a \<Rightarrow> (Some a, w\<lparr>vnodes := (vnodes w)(a \<mapsto> new_node e w nm False VFS_DEFAULT_FILE_PERMS)\<rparr>))"

definition vfs_add_child :: "vptr option \<Rightarrow> vptr option \<Rightarrow> vfs_world \<Rightarrow> vfs_world option" where
  "vfs_add_child parent child w =
     (case (parent, child) of
        (Some p, Some c) \<Rightarrow> do {
          cn \<leftarrow> vnodes w c;
          let h1 = (vnodes w)(c \<mapsto> cn\<lparr>vparent := Some p\<rparr>);
          pn \<leftarrow> h1 p;
          Some (w\<lparr>vnodes := h1(p \<mapsto> pn\<lparr>children := c # children pn\<rparr>)\<rparr>) }
      | _ \<Rightarrow> Some w)"

definition vfs_load_file_content :: "vfs_env \<Rightarrow> vptr option \<Rightarrow> vfs_world \<Rightarrow> (int \<times> vfs_world) option" where
  "vfs_load_file_content e node w =
     (case node of None \<Rightarrow> Some (-1, w)
      | Some a \<Rightarrow> do {
          n \<leftarrow> vnodes w a;
          (case vhost_path n of None \<Rightarrow> Some (-1, w)
           | Some hp \<Rightarrow>
               if is_directory n then Some (-1, w)
               else if vdata n \<noteq> None then Some (0, w)
               else (case host_file e hp of None \<Rightarrow> Some (-1, w)
                     | Some (fsize, bytes) \<Rightarrow>
                         if fsize < 0 \<or> fsize > 16 * 1024 * 1024 then Some (-1, w)
                         else if \<not> data_malloc e (nat fsize + 1) then Some (-1, w)
                         else (let got = take (nat fsize) bytes
                               in if length got \<noteq> nat fsize then Some (-1, w)
                                  else Some (0, w\<lparr>vnodes := (vnodes w)(a \<mapsto>
                                    n\<lparr>vdata := Some got, vsize := nat fsize\<rparr>)\<rparr>)))) })"

section \<open>Host paths and write-through\<close>

text \<open>
  The walk up the tree in \<^verbatim>\<open>vfs_get_host_path\<close>. A path that fills its 1024-byte buffer
  leaves \<^verbatim>\<open>temp_path\<close> without a terminator (\<open>None\<close>); reading it then is undefined.
\<close>

definition backslash :: string where "backslash = [CHR 0x5C]"

partial_function (option) host_path_loop ::
  "node_store \<Rightarrow> vptr \<Rightarrow> string option \<Rightarrow> string \<Rightarrow> string option" where
  "host_path_loop h cur temp pb = do {
     n \<leftarrow> h cur;
     (case vparent n of None \<Rightarrow> Some pb
      | Some p \<Rightarrow> do {
          t \<leftarrow> temp;
          let pb1 = (if t \<noteq> [] then take 1023 (vname n @ backslash @ t) else take 1023 (vname n));
          host_path_loop h p (if length pb1 < 1023 then Some pb1 else None) pb1 }) }"

declare host_path_loop.simps [code]

definition vfs_get_host_path :: "vptr option \<Rightarrow> vfs_world \<Rightarrow> string option option" where
  "vfs_get_host_path node w =
     (case node of None \<Rightarrow> Some None
      | Some a \<Rightarrow>
          if host_root_directory w = [] then Some None
          else do {
            pb \<leftarrow> host_path_loop (vnodes w) a (Some []) [];
            Some (Some (if pb \<noteq> [] then take 1023 (host_root_directory w @ backslash @ pb)
                        else take 1023 (host_root_directory w))) })"

definition host_do :: "host_op \<Rightarrow> vfs_world \<Rightarrow> vfs_world" where
  "host_do x w = w\<lparr>host_log := host_log w @ [x]\<rparr>"

definition vfs_ensure_host_directory :: "vfs_env \<Rightarrow> string option \<Rightarrow> vfs_world \<Rightarrow> int \<times> vfs_world" where
  "vfs_ensure_host_directory e hp w =
     (case hp of None \<Rightarrow> (-1, w)
      | Some p \<Rightarrow> (if host_ok e (HostEnsureDir p) then 0 else -1, host_do (HostEnsureDir p) w))"

definition vfs_sync_to_host :: "vfs_env \<Rightarrow> vptr option \<Rightarrow> vfs_world \<Rightarrow> (int \<times> vfs_world) option" where
  "vfs_sync_to_host e node w =
     (case node of None \<Rightarrow> Some (-1, w)
      | Some a \<Rightarrow>
          if host_root_directory w = [] then Some (-1, w)
          else do {
            hp \<leftarrow> vfs_get_host_path node w;
            (case hp of None \<Rightarrow> Some (-1, w)
             | Some p \<Rightarrow> do {
                 n \<leftarrow> vnodes w a;
                 (if is_directory n then Some (vfs_ensure_host_directory e hp w)
                  else (let x = HostWriteFile p (case vdata n of Some d \<Rightarrow> take (vsize n) d | None \<Rightarrow> [])
                        in Some (if host_ok e x then 0 else -1, host_do x w))) }) })"

section \<open>Path resolution\<close>

definition vfs_find_node :: "vfs_world \<Rightarrow> string option \<Rightarrow> vptr option option" where
  "vfs_find_node w path =
     (case (vm_fs w, path) of
        (Some fs, Some p) \<Rightarrow>
          if p = ''/'' then Some (Some (vfs_root fs))
          else walk (vnodes w) (vfs_root fs) (path_tokens (take 255 p))
      | _ \<Rightarrow> Some None)"

definition vfs_chdir :: "string option \<Rightarrow> vfs_world \<Rightarrow> (int \<times> vfs_world) option" where
  "vfs_chdir path w =
     (case path of None \<Rightarrow> Some (-1, w)
      | Some p \<Rightarrow> do {
          let new_path = (if p \<noteq> [] \<and> hd p = CHR ''/'' then take 255 p
                          else if current_directory w = ''/'' then take 255 (''/'' @ p)
                          else take 255 (current_directory w @ ''/'' @ p));
          target \<leftarrow> vfs_find_node w (Some new_path);
          (case target of None \<Rightarrow> Some (-1, w)
           | Some a \<Rightarrow> do {
               n \<leftarrow> vnodes w a;
               (if is_directory n then Some (0, w\<lparr>current_directory := c_copy 256 new_path\<rparr>)
                else Some (-1, w)) }) })"

section \<open>Directories and files\<close>

definition vfs_mkdir :: "vfs_env \<Rightarrow> string option \<Rightarrow> vfs_world \<Rightarrow> (int \<times> vfs_world) option" where
  "vfs_mkdir e path w =
     (case (vm_fs w, path) of
        (Some fs, Some p) \<Rightarrow> do {
          (parent_path, dir_name) \<leftarrow> split_path p;
          parent \<leftarrow> vfs_find_node w (Some parent_path);
          (case parent of None \<Rightarrow> Some (-1, w)
           | Some pa \<Rightarrow> do {
               pn \<leftarrow> vnodes w pa;
               (if \<not> is_directory pn then Some (-1, w)
                else do {
                  existing \<leftarrow> find_child (vnodes w) dir_name (children pn);
                  (if existing \<noteq> None then Some (0, w)
                   else (case vfs_create_directory_node e dir_name w of
                           (None, w1) \<Rightarrow> Some (-1, w1)
                         | (Some a, w1) \<Rightarrow> do {
                             w2 \<leftarrow> vfs_add_child (Some pa) (Some a) w1;
                             w3 \<leftarrow> (if host_root_directory w2 \<noteq> [] then map_option snd (vfs_sync_to_host e (Some a) w2)
                                   else Some w2);
                             Some (0, w3) })) }) }) }
      | _ \<Rightarrow> Some (-1, w))"

definition vfs_create_file :: "vfs_env \<Rightarrow> string option \<Rightarrow> vfs_world \<Rightarrow> (int \<times> vfs_world) option" where
  "vfs_create_file e path w =
     (case (vm_fs w, path) of
        (Some fs, Some p) \<Rightarrow> do {
          (parent_path, file_name) \<leftarrow> split_path p;
          parent \<leftarrow> vfs_find_node w (Some parent_path);
          (case parent of None \<Rightarrow> Some (-1, w)
           | Some pa \<Rightarrow> do {
               pn \<leftarrow> vnodes w pa;
               (if \<not> is_directory pn then Some (-1, w)
                else (case vfs_create_file_node e file_name w of
                        (None, w1) \<Rightarrow> Some (-1, w1)
                      | (Some a, w1) \<Rightarrow> do {
                          w2 \<leftarrow> vfs_add_child (Some pa) (Some a) w1;
                          w3 \<leftarrow> (if host_root_directory w2 \<noteq> [] then map_option snd (vfs_sync_to_host e (Some a) w2)
                                else Some w2);
                          Some (0, w3) })) }) }
      | _ \<Rightarrow> Some (-1, w))"

text \<open>Taking a node out of its parent's chain: every node before it is read.\<close>

fun unlink_child :: "node_store \<Rightarrow> vptr \<Rightarrow> vptr list \<Rightarrow> vptr list option" where
  "unlink_child h node [] = Some []"
| "unlink_child h node (c # cs) =
     do { _ \<leftarrow> h c;
          (if c = node then Some cs else map_option (Cons c) (unlink_child h node cs)) }"

text \<open>The common end of \<^verbatim>\<open>vfs_rmdir\<close> and \<^verbatim>\<open>vfs_delete_file\<close>: unlink and free.\<close>

definition unlink_free :: "vptr \<Rightarrow> VNode \<Rightarrow> vfs_world \<Rightarrow> vfs_world option" where
  "unlink_free a n w = do {
     h1 \<leftarrow> (case vparent n of None \<Rightarrow> Some (vnodes w)
           | Some p \<Rightarrow> do {
               pn \<leftarrow> vnodes w p;
               cs \<leftarrow> unlink_child (vnodes w) a (children pn);
               Some ((vnodes w)(p \<mapsto> pn\<lparr>children := cs\<rparr>)) });
     Some (w\<lparr>vnodes := h1(a := None)\<rparr>) }"

definition vfs_rmdir :: "string option \<Rightarrow> vfs_world \<Rightarrow> (int \<times> vfs_world) option" where
  "vfs_rmdir path w = do {
     node \<leftarrow> vfs_find_node w path;
     (case node of None \<Rightarrow> Some (-1, w)
      | Some a \<Rightarrow> do {
          n \<leftarrow> vnodes w a;
          (if \<not> is_directory n \<or> children n \<noteq> [] then Some (-1, w)
           else do {
             w1 \<leftarrow> (if host_root_directory w \<noteq> [] then do {
                      hp \<leftarrow> vfs_get_host_path (Some a) w;
                      Some (case hp of Some p \<Rightarrow> host_do (HostRemoveDir p) w | None \<Rightarrow> w) }
                   else Some w);
             w2 \<leftarrow> unlink_free a n w1;
             Some (0, w2) }) }) }"

definition vfs_delete_file :: "string option \<Rightarrow> vfs_world \<Rightarrow> (int \<times> vfs_world) option" where
  "vfs_delete_file path w = do {
     node \<leftarrow> vfs_find_node w path;
     (case node of None \<Rightarrow> Some (-1, w)
      | Some a \<Rightarrow> do {
          n \<leftarrow> vnodes w a;
          (if is_directory n then Some (-1, w)
           else do {
             w1 \<leftarrow> (if host_root_directory w \<noteq> [] then do {
                      hp \<leftarrow> vfs_get_host_path (Some a) w;
                      Some (case hp of Some p \<Rightarrow> host_do (HostDeleteFile p) w | None \<Rightarrow> w) }
                   else Some w);
             w2 \<leftarrow> unlink_free a n w1;
             Some (0, w2) }) }) }"

section \<open>Permissions\<close>

definition vfs_chmod :: "vfs_env \<Rightarrow> string option \<Rightarrow> u32 \<Rightarrow> vfs_world \<Rightarrow> (int \<times> vfs_world) option" where
  "vfs_chmod e path md w = do {
     node \<leftarrow> vfs_find_node w path;
     (case node of None \<Rightarrow> Some (-1, w)
      | Some a \<Rightarrow> do {
          n \<leftarrow> vnodes w a;
          (if \<not> vfs_is_root w \<and> vowner n \<noteq> vfs_current_user w then Some (-1, w)
           else Some (0, w\<lparr>vnodes := (vnodes w)(a \<mapsto> n\<lparr>vmode := md, modified_time := time_now e\<rparr>)\<rparr>)) }) }"

definition vfs_chown ::
  "vfs_env \<Rightarrow> string option \<Rightarrow> string option \<Rightarrow> string option \<Rightarrow> vfs_world \<Rightarrow> (int \<times> vfs_world) option" where
  "vfs_chown e path own grp w = do {
     node \<leftarrow> vfs_find_node w path;
     (case node of None \<Rightarrow> Some (-1, w)
      | Some a \<Rightarrow>
          if \<not> vfs_is_root w then Some (-1, w)
          else do {
            n \<leftarrow> vnodes w a;
            let n1 = (case own of Some s \<Rightarrow> n\<lparr>vowner := c_copy 50 s\<rparr> | None \<Rightarrow> n);
            let n2 = (case grp of Some s \<Rightarrow> n1\<lparr>vgroup := c_copy 50 s\<rparr> | None \<Rightarrow> n1);
            Some (0, w\<lparr>vnodes := (vnodes w)(a \<mapsto> n2\<lparr>modified_time := time_now e\<rparr>)\<rparr>) }) }"

text \<open>The permission class of the caller: the bits that decide.\<close>

definition vfs_check_permission :: "vfs_world \<Rightarrow> string option \<Rightarrow> string \<Rightarrow> u32 \<Rightarrow> int option" where
  "vfs_check_permission w path user req = do {
     node \<leftarrow> vfs_find_node w path;
     (case node of None \<Rightarrow> Some 0
      | Some a \<Rightarrow>
          if vfs_is_root w then Some 1
          else do {
            n \<leftarrow> vnodes w a;
            let md = vmode n;
            Some (if vowner n = user then of_cbool (md AND push_bit 6 req \<noteq> 0)
                  else if vgroup n = vfs_current_group w then of_cbool (md AND push_bit 3 req \<noteq> 0)
                  else of_cbool (md AND req \<noteq> 0)) }) }"

section \<open>Contents\<close>

text \<open>\<open>data\<close>: the bytes passed, NULL as \<open>None\<close>, which the code treats as no bytes.\<close>

definition vfs_write_file ::
  "vfs_env \<Rightarrow> string option \<Rightarrow> u8 list option \<Rightarrow> vfs_world \<Rightarrow> (int \<times> vfs_world) option" where
  "vfs_write_file e path data w = do {
     node \<leftarrow> vfs_find_node w path;
     (case node of None \<Rightarrow> Some (-1, w)
      | Some a \<Rightarrow> do {
          n \<leftarrow> vnodes w a;
          (if is_directory n then Some (-1, w)
           else do {
             perm \<leftarrow> vfs_check_permission w path (vfs_current_user w) (drop_bit 6 VFS_S_IWUSR);
             (if perm = 0 then Some (-1, w)
              else (let bs = (case data of Some d \<Rightarrow> d | None \<Rightarrow> []) in
                 if bs \<noteq> [] \<and> \<not> data_malloc e (length bs)
                 then Some (-1, w\<lparr>vnodes := (vnodes w)(a \<mapsto> n\<lparr>vdata := None\<rparr>)\<rparr>)
                 else do {
                   let n1 = (if bs \<noteq> [] then n\<lparr>vdata := Some bs, vsize := length bs\<rparr>
                             else n\<lparr>vdata := None, vsize := 0\<rparr>);
                   let w1 = w\<lparr>vnodes := (vnodes w)(a \<mapsto> n1\<lparr>modified_time := time_now e\<rparr>)\<rparr>;
                   w2 \<leftarrow> (if host_root_directory w1 \<noteq> [] then map_option snd (vfs_sync_to_host e (Some a) w1)
                         else Some w1);
                   Some (0, w2) })) }) }) }"

definition vfs_read_file ::
  "vfs_env \<Rightarrow> string option \<Rightarrow> vfs_world \<Rightarrow> (int \<times> (u8 list option \<times> nat) option \<times> vfs_world) option" where
  "vfs_read_file e path w = do {
     node \<leftarrow> vfs_find_node w path;
     (case node of None \<Rightarrow> Some (-1, None, w)
      | Some a \<Rightarrow> do {
          n \<leftarrow> vnodes w a;
          (if is_directory n then Some (-1, None, w)
           else do {
             perm \<leftarrow> vfs_check_permission w path (vfs_current_user w) (drop_bit 6 VFS_S_IRUSR);
             (if perm = 0 then Some (-1, None, w)
              else do {
                (r, w1) \<leftarrow> (if vdata n = None then vfs_load_file_content e (Some a) w else Some (0, w));
                (if r \<noteq> 0 then Some (-1, None, w1)
                 else do { n1 \<leftarrow> vnodes w1 a; Some (0, Some (vdata n1, vsize n1), w1) }) }) }) }) }"

section \<open>Symbolic links\<close>

definition vfs_create_symlink ::
  "vfs_env \<Rightarrow> string option \<Rightarrow> string option \<Rightarrow> vfs_world \<Rightarrow> (int \<times> vfs_world) option" where
  "vfs_create_symlink e link_path target_path w =
     (case (link_path, target_path) of
        (Some lp, Some tp) \<Rightarrow> do {
          let (dir_path, link_name) =
            (if CHR ''/'' \<in> set lp then (take 511 (before_slash lp), take 255 (after_slash lp))
             else (''/'', take 255 lp));
          parent \<leftarrow> vfs_find_node w (Some dir_path);
          (case parent of None \<Rightarrow> Some (-1, w)
           | Some pa \<Rightarrow> do {
               pn \<leftarrow> vnodes w pa;
               (if \<not> is_directory pn then Some (-1, w)
                else (case node_malloc e (vnodes w) of None \<Rightarrow> Some (-1, w)
                      | Some a \<Rightarrow> do {
                          let n = (new_node e w link_name False 511)
                                    \<lparr>is_symlink := True,
                                     symlink_target := (if data_malloc e (length tp + 1) then Some tp else None),
                                     vsize := length tp\<rparr>;
                          w1 \<leftarrow> vfs_add_child (Some pa) (Some a) (w\<lparr>vnodes := (vnodes w)(a \<mapsto> n)\<rparr>);
                          Some (0, w1) })) }) }
      | _ \<Rightarrow> Some (-1, w))"

definition vfs_readlink :: "string option \<Rightarrow> nat \<Rightarrow> vfs_world \<Rightarrow> (int \<times> string option) option" where
  "vfs_readlink path buffer_size w = do {
     node \<leftarrow> vfs_find_node w path;
     (case node of None \<Rightarrow> Some (-1, None)
      | Some a \<Rightarrow> do {
          n \<leftarrow> vnodes w a;
          (case symlink_target n of
             Some t \<Rightarrow>
               if is_symlink n
               then (if buffer_size = 0 then None else Some (0, Some (take (buffer_size - 1) t)))
               else Some (-1, None)
           | None \<Rightarrow> Some (-1, None)) }) }"

text \<open>The loop of \<^verbatim>\<open>vfs_resolve_symlink\<close>; \<open>k\<close> is \<^verbatim>\<open>10 - depth\<close>.\<close>

fun resolve_loop :: "vfs_world \<Rightarrow> nat \<Rightarrow> vptr option \<Rightarrow> vptr option option" where
  "resolve_loop w k None = Some None"
| "resolve_loop w k (Some a) = do {
     n \<leftarrow> vnodes w a;
     (case k of 0 \<Rightarrow> Some (Some a)
      | Suc k' \<Rightarrow>
          if \<not> is_symlink n then Some (Some a)
          else (case symlink_target n of None \<Rightarrow> Some (Some a)
                | Some t \<Rightarrow> do { b \<leftarrow> vfs_find_node w (Some t); resolve_loop w k' b })) }"

definition vfs_resolve_symlink :: "vfs_world \<Rightarrow> vptr option \<Rightarrow> vptr option option" where
  "vfs_resolve_symlink w node = resolve_loop w 10 node"

definition vfs_set_host_root :: "string option \<Rightarrow> vfs_world \<Rightarrow> int \<times> vfs_world" where
  "vfs_set_host_root host_root w =
     (case host_root of None \<Rightarrow> (-1, w) | Some s \<Rightarrow> (0, w\<lparr>host_root_directory := c_copy 512 s\<rparr>))"

section \<open>Initialisation\<close>

definition vfs_init_dirs :: "string list" where
  "vfs_init_dirs = [''/bin'', ''/home'', ''/tmp'', ''/etc'', ''/usr'', ''/var'']"

text \<open>The results of the \<^verbatim>\<open>vfs_mkdir\<close> calls are ignored.\<close>

fun mkdir_each :: "vfs_env \<Rightarrow> string list \<Rightarrow> vfs_world \<Rightarrow> vfs_world option" where
  "mkdir_each e [] w = Some w"
| "mkdir_each e (p # ps) w = do { (r, w1) \<leftarrow> vfs_mkdir e (Some p) w; mkdir_each e ps w1 }"

definition vfs_init :: "vfs_env \<Rightarrow> vfs_world \<Rightarrow> (int \<times> vfs_world) option" where
  "vfs_init e w =
     (if vm_fs w \<noteq> None then Some (0, w)
      else if \<not> data_malloc e 16 then Some (-1, w)
      else (case node_malloc e (vnodes w) of None \<Rightarrow> Some (-1, w)
            | Some a \<Rightarrow> do {
                let root = (node_raw e)\<lparr>vname := ''/'', is_directory := True, vsize := 0, vdata := None,
                              vhost_path := None, vparent := None, children := []\<rparr>;
                let w1 = w\<lparr>vnodes := (vnodes w)(a \<mapsto> root), vm_fs := Some \<lparr>vfs_root = a, current_dir = a\<rparr>\<rparr>;
                w2 \<leftarrow> mkdir_each e vfs_init_dirs w1;
                Some (0, w2) }))"

text \<open>The path loop of \<^verbatim>\<open>vm_getcwd\<close>.\<close>

partial_function (option) getcwd_loop :: "node_store \<Rightarrow> vptr \<Rightarrow> string \<Rightarrow> string option" where
  "getcwd_loop h cur temp = do {
     n \<leftarrow> h cur;
     (case vparent n of None \<Rightarrow> Some temp
      | Some p \<Rightarrow> getcwd_loop h p (take 255 (''/'' @ vname n @ temp))) }"

declare getcwd_loop.simps [code]

definition vm_getcwd :: "vfs_world \<Rightarrow> string option" where
  "vm_getcwd w =
     (case vm_fs w of None \<Rightarrow> Some ''/''
      | Some fs \<Rightarrow> do {
          t \<leftarrow> getcwd_loop (vnodes w) (current_dir fs) [];
          Some (if t = [] then ''/'' else t) })"

end
