(* ===== verification/VfsSpec.thy ===== *)
theory VfsSpec
  imports Vfs
begin

text \<open>
  The abstract file system the operations of \<open>Vfs\<close> implement: a map from paths (token
  lists) to what they show, with the log of host operations. The lemmas state each
  operation as a function on the map, and that it keeps the tree invariant.
\<close>

section \<open>Abstraction\<close>

definition vfs_ok :: "vfs_world \<Rightarrow> bool" where
  "vfs_ok w \<longleftrightarrow> (\<exists>fs. vm_fs w = Some fs \<and> vfs_wf (vnodes w) (vfs_root fs))"

definition vfs_view :: "vfs_world \<Rightarrow> string list \<Rightarrow> VNode option" where
  "vfs_view w = (case vm_fs w of Some fs \<Rightarrow> fs_view (vnodes w) (vfs_root fs) | None \<Rightarrow> Map.empty)"

text \<open>\<^verbatim>\<open>malloc\<close> never returns a block in use.\<close>

definition env_ok :: "vfs_env \<Rightarrow> bool" where
  "env_ok e \<longleftrightarrow> (\<forall>h a. node_malloc e h = Some a \<longrightarrow> h a = None)"

text \<open>Everything but the nodes and the log is the same.\<close>

definition same_globals :: "vfs_world \<Rightarrow> vfs_world \<Rightarrow> bool" where
  "same_globals w w' \<longleftrightarrow> w' = w\<lparr>vnodes := vnodes w', host_log := host_log w'\<rparr>"

definition located :: "vfs_world \<Rightarrow> string list \<Rightarrow> vptr \<Rightarrow> VNode \<Rightarrow> bool" where
  "located w ts a n \<longleftrightarrow> (\<exists>fs. vm_fs w = Some fs \<and> walk (vnodes w) (vfs_root fs) ts = Some (Some a) \<and>
     vnodes w a = Some n)"

lemma same_globals_refl [simp]: "same_globals w w" by (simp add: same_globals_def)

lemma same_globalsI:
  "w' = w\<lparr>vnodes := h, host_log := l\<rparr> \<Longrightarrow> same_globals w w'" by (simp add: same_globals_def)

lemma located_view: "located w ts a n \<Longrightarrow> vfs_view w ts = Some (entry_of n)"
  by (auto simp: located_def vfs_view_def fs_view_def)

lemma log_indep [simp]:
  "vfs_view (w\<lparr>host_log := l\<rparr>) = vfs_view w" "vfs_ok (w\<lparr>host_log := l\<rparr>) = vfs_ok w"
  by (simp_all add: vfs_view_def vfs_ok_def cong: option.case_cong)

lemma located_ok:
  assumes "vfs_ok w" and "located w ts a n"
  obtains fs where "vm_fs w = Some fs" "vfs_wf (vnodes w) (vfs_root fs)"
    "walk (vnodes w) (vfs_root fs) ts = Some (Some a)" "vnodes w a = Some n"
  using assms unfolding vfs_ok_def located_def by (metis option.inject)

text \<open>Lookup of a path is defined and finds what the view shows; it reads 255 characters.\<close>

definition seen_tokens :: "string \<Rightarrow> string list" where
  "seen_tokens p = path_tokens (take 255 p)"

lemma seen_tokens_short [simp]: "length p \<le> 255 \<Longrightarrow> seen_tokens p = path_tokens p"
  by (simp add: seen_tokens_def)

lemma find_node_cases:
  assumes ok: "vfs_ok w"
  obtains (none) "vfs_find_node w (Some p) = Some None" "vfs_view w (seen_tokens p) = None"
  | (found) a n where "vfs_find_node w (Some p) = Some (Some a)" "located w (seen_tokens p) a n"
      "vfs_view w (seen_tokens p) = Some (entry_of n)"
proof -
  from ok obtain fs where fs: "vm_fs w = Some fs" "vfs_wf (vnodes w) (vfs_root fs)"
    by (auto simp: vfs_ok_def)
  have slash: "seen_tokens ''/'' = []" by (simp add: path_tokens_def)
  have f: "vfs_find_node w (Some p) = walk (vnodes w) (vfs_root fs) (seen_tokens p)"
    using fs slash by (auto simp: vfs_find_node_def seen_tokens_def)
  from walk_defined [OF fs(2), of "seen_tokens p"] obtain r where
    r: "walk (vnodes w) (vfs_root fs) (seen_tokens p) = Some r" "\<forall>a. r = Some a \<longrightarrow> vnodes w a \<noteq> None" by blast
  show thesis
  proof (cases r)
    case None
    with r f fs show thesis by (intro none) (simp_all add: vfs_view_def fs_view_def)
  next
    case (Some a)
    with r obtain n where "vnodes w a = Some n" by auto
    with r f fs Some have "located w (seen_tokens p) a n" by (simp add: located_def)
    with r f Some located_view show thesis by (intro found) simp_all
  qed
qed

lemma entry_of_fields [simp]:
  "is_directory (entry_of n) = is_directory n" "vname (entry_of n) = vname n" "vdata (entry_of n) = vdata n"
  "vmode (entry_of n) = vmode n" "vowner (entry_of n) = vowner n" "vgroup (entry_of n) = vgroup n"
  "vsize (entry_of n) = vsize n" "is_symlink (entry_of n) = is_symlink n"
  "symlink_target (entry_of n) = symlink_target n" "vhost_path (entry_of n) = vhost_path n"
  by (simp_all add: entry_of_def)

section \<open>Host names\<close>

fun join_names :: "string list \<Rightarrow> string" where
  "join_names [] = []"
| "join_names [t] = t"
| "join_names (t # u # us) = t @ backslash @ join_names (u # us)"

text \<open>The host path of a VFS path.\<close>

definition host_name :: "vfs_world \<Rightarrow> string list \<Rightarrow> string" where
  "host_name w ts =
     (if ts = [] then take 1023 (host_root_directory w)
      else take 1023 (host_root_directory w @ backslash @ join_names ts))"

lemma join_names_Cons: "join_names (t # ts) = (if ts = [] then t else t @ backslash @ join_names ts)"
  by (cases ts) auto

lemma join_names_not_Nil: "ts \<noteq> [] \<Longrightarrow> \<forall>t \<in> set ts. t \<noteq> [] \<Longrightarrow> join_names ts \<noteq> []"
  by (cases ts) (auto simp: join_names_Cons backslash_def)

lemma length_join_names:
  "length (join_names ts) + 1 \<le> sum_list (map (\<lambda>t. length t + 1) ts) + (if ts = [] then 1 else 0)"
proof (induction ts)
  case Nil
  then show ?case by simp
next
  case (Cons t ts)
  then show ?case by (auto simp: join_names_Cons backslash_def)
qed

lemma length_path_tokens:
  "sum_list (map (\<lambda>t. length t + 1) (path_tokens s)) \<le> length s + 1"
proof -
  have "sum_list (map (\<lambda>t. length t + 1) (split_slash s)) = length s + 1"
    by (induction s) (auto split: list.splits)
  moreover have "sum_list (map (\<lambda>t. length t + 1) (filter P xs)) \<le> sum_list (map (\<lambda>t. length t + 1) xs)"
    for P and xs :: "string list" by (induction xs) auto
  ultimately show ?thesis unfolding path_tokens_def by (metis (no_types, lifting))
qed

lemma path_tokens_not_Nil: "t \<in> set (path_tokens s) \<Longrightarrow> t \<noteq> []"
  by (simp add: path_tokens_def)

lemma host_path_loop_walk:
  assumes wf: "vfs_wf h root"
  shows "walk h root ts = Some (Some a) \<Longrightarrow> \<forall>t \<in> set (ts @ us). t \<noteq> [] \<Longrightarrow>
    sum_list (map (\<lambda>t. length t + 1) (ts @ us)) < 1023 \<Longrightarrow>
    host_path_loop h a (Some (join_names us)) (join_names us) = Some (join_names (ts @ us))"
proof (induction ts arbitrary: a us rule: rev_induct)
  case Nil
  with wf_root [OF wf] obtain n where "h a = Some n" "vparent n = None" by auto
  then show ?case by (simp add: host_path_loop.simps)
next
  case (snoc t ts)
  from walk_snocD [OF wf snoc.prems(1)] obtain p n where
    n: "walk h root ts = Some (Some p)" "h a = Some n" "vname n = t" "vparent n = Some p" by blast
  have len: "length (join_names (t # us)) < 1023"
    using length_join_names [of "t # us"] snoc.prems(3) by simp
  have ne: "join_names us \<noteq> [] \<longleftrightarrow> us \<noteq> []"
    using join_names_not_Nil [of us] snoc.prems(2) by auto
  have "host_path_loop h a (Some (join_names us)) (join_names us)
      = host_path_loop h p (Some (join_names (t # us))) (join_names (t # us))"
    using n len ne by (subst host_path_loop.simps) (auto simp: join_names_Cons Let_def)
  also have "\<dots> = Some (join_names (ts @ t # us))"
    using snoc.IH [OF n(1), of "t # us"] snoc.prems(2,3) by simp
  finally show ?case by simp
qed

lemma host_path_located:
  assumes ok: "vfs_ok w" and loc: "located w ts a n" and ne: "\<forall>t \<in> set ts. t \<noteq> []"
    and len: "sum_list (map (\<lambda>t. length t + 1) ts) < 1023"
  shows "vfs_get_host_path (Some a) w =
    Some (if host_root_directory w = [] then None else Some (host_name w ts))"
proof -
  from ok loc obtain fs :: VirtualFS where fs: "vfs_wf (vnodes w) (vfs_root fs)"
    "walk (vnodes w) (vfs_root fs) ts = Some (Some a)" by (rule located_ok)
  from host_path_loop_walk [OF fs, of "[]"] ne len
  have "host_path_loop (vnodes w) a (Some []) [] = Some (join_names ts)" by simp
  moreover have "join_names ts = [] \<longleftrightarrow> ts = []" using join_names_not_Nil [of ts] ne by auto
  ultimately show ?thesis by (simp add: vfs_get_host_path_def host_name_def)
qed

text \<open>The host operations a change of the node at \<open>ts\<close> leads to.\<close>

definition write_through :: "vfs_world \<Rightarrow> string list \<Rightarrow> (string \<Rightarrow> host_op) \<Rightarrow> host_op list" where
  "write_through w ts x = (if host_root_directory w = [] then [] else [x (host_name w ts)])"

definition sync_op :: "VNode \<Rightarrow> string \<Rightarrow> host_op" where
  "sync_op n p =
     (if is_directory n then HostEnsureDir p
      else HostWriteFile p (case vdata n of Some d \<Rightarrow> take (vsize n) d | None \<Rightarrow> []))"

lemma sync_located:
  assumes ok: "vfs_ok w" and loc: "located w ts a n" and ne: "\<forall>t \<in> set ts. t \<noteq> []"
    and len: "sum_list (map (\<lambda>t. length t + 1) ts) < 1023"
  shows "(if host_root_directory w \<noteq> [] then map_option snd (vfs_sync_to_host e (Some a) w) else Some w)
    = Some (w\<lparr>host_log := host_log w @ write_through w ts (sync_op n)\<rparr>)"
proof (cases "host_root_directory w = []")
  case True
  then show ?thesis by (simp add: write_through_def)
next
  case False
  from loc have n: "vnodes w a = Some n" by (auto simp: located_def)
  with False host_path_located [OF assms] show ?thesis
    by (simp add: vfs_sync_to_host_def vfs_ensure_host_directory_def host_do_def write_through_def sync_op_def Let_def)
qed

section \<open>Adding a node\<close>

definition fs_add :: "(string list \<Rightarrow> VNode option) \<Rightarrow> string list \<Rightarrow> VNode \<Rightarrow> string list \<Rightarrow> VNode option" where
  "fs_add V ts n us = (if us = ts then Some n else if strict_prefix ts us then None else V us)"

lemma add_child_attach:
  assumes "located w pt p m" and "vnodes w a = None"
  shows "vfs_add_child (Some p) (Some a) (w\<lparr>vnodes := (vnodes w)(a \<mapsto> n)\<rparr>)
    = Some (w\<lparr>vnodes := attach p m a n (vnodes w)\<rparr>)"
proof -
  from assms have "vnodes w p = Some m" "p \<noteq> a" by (auto simp: located_def)
  then show ?thesis by (simp add: vfs_add_child_def attach_def)
qed

lemma attach_ok:
  assumes ok: "vfs_ok w" and loc: "located w pt p m" and dir: "is_directory m"
    and a: "vnodes w a = None" and n: "children n = []" "vname n = nm"
  defines "w' \<equiv> w\<lparr>vnodes := attach p m a n (vnodes w)\<rparr>"
  shows "vfs_ok w'" and "located w' (pt @ [nm]) a (n\<lparr>vparent := Some p\<rparr>)"
    and "vfs_view w' = fs_add (vfs_view w) (pt @ [nm]) (entry_of n)"
proof -
  from ok loc obtain fs where fs: "vm_fs w = Some fs" "vfs_wf (vnodes w) (vfs_root fs)"
    "walk (vnodes w) (vfs_root fs) pt = Some (Some p)" "vnodes w p = Some m"
    by (rule located_ok)
  from fs a have "a \<noteq> p" by auto
  then have at_a: "attach p m a n (vnodes w) a = Some (n\<lparr>vparent := Some p\<rparr>)" by (simp add: attach_def)
  show "vfs_ok w'"
    using attach_wf [OF fs(2,4) dir a n(1)] fs(1) by (simp add: vfs_ok_def w'_def)
  show "located w' (pt @ [nm]) a (n\<lparr>vparent := Some p\<rparr>)"
    using attach_walk [OF fs(2,3,4) a n, of "pt @ [nm]"] fs(1) at_a by (simp add: located_def w'_def)
  show "vfs_view w' = fs_add (vfs_view w) (pt @ [nm]) (entry_of n)"
    using attach_view [OF fs(2,3,4) a n] fs(1)
    by (intro ext) (simp add: vfs_view_def w'_def fs_add_def)
qed

lemma new_node_simps [simp]:
  "children (new_node e w nm d md) = []" "vname (new_node e w nm d md) = c_copy 256 nm"
  "is_directory (new_node e w nm d md) = d" "vmode (new_node e w nm d md) = md"
  "vparent (new_node e w nm d md) = None" "vdata (new_node e w nm d md) = None"
  "vsize (new_node e w nm d md) = 0" "entry_of (new_node e w nm d md) = new_node e w nm d md"
  "vowner (new_node e w nm d md) = c_copy 50 (vfs_current_user w)"
  by (simp_all add: new_node_def vfs_set_default_permissions_def entry_of_def)

lemma child_view:
  assumes ok: "vfs_ok w" and loc: "located w pt p m"
  shows "find_child (vnodes w) nm (children m) = Some r \<Longrightarrow> r = None \<longleftrightarrow> vfs_view w (pt @ [nm]) = None"
    and "\<exists>r. find_child (vnodes w) nm (children m) = Some r"
proof -
  from ok loc obtain fs where fs: "vm_fs w = Some fs" "vfs_wf (vnodes w) (vfs_root fs)"
    "walk (vnodes w) (vfs_root fs) pt = Some (Some p)" "vnodes w p = Some m"
    by (rule located_ok)
  then have "walk (vnodes w) (vfs_root fs) (pt @ [nm]) = find_child (vnodes w) nm (children m)"
    by (simp add: walk_snoc)
  with fs fs_view_None_iff [OF fs(2), of "pt @ [nm]"] walk_defined [OF fs(2), of "pt @ [nm]"]
  show "\<exists>r. find_child (vnodes w) nm (children m) = Some r"
    and "find_child (vnodes w) nm (children m) = Some r \<Longrightarrow> r = None \<longleftrightarrow> vfs_view w (pt @ [nm]) = None"
    by (auto simp: vfs_view_def)
qed

text \<open>The bounds of the parts of a path hold for its tokens.\<close>

lemma split_path_bounds:
  assumes sp: "split_path p = Some (pp, nm)" and nm: "nm \<noteq> []"
  shows "\<forall>t \<in> set (path_tokens pp @ [nm]). t \<noteq> []"
    and "sum_list (map (\<lambda>t. length t + 1) (path_tokens pp @ [nm])) < 1023" and "length pp \<le> 255"
    and "c_copy 256 nm = nm"
  using split_path_tokens [OF sp] nm length_path_tokens [of pp] path_tokens_not_Nil [of _ pp] by auto

section \<open>Creating directories and files\<close>

definition spec_mkdir ::
  "vfs_env \<Rightarrow> vfs_world \<Rightarrow> string \<Rightarrow> string \<Rightarrow> int \<times> (string list \<Rightarrow> VNode option) \<times> host_op list" where
  "spec_mkdir e w pp nm =
     (let V = vfs_view w; ts = path_tokens pp @ [nm]; n = new_node e w nm True VFS_DEFAULT_DIR_PERMS in
      case V (path_tokens pp) of None \<Rightarrow> (-1, V, host_log w)
      | Some d \<Rightarrow>
          if \<not> is_directory d then (-1, V, host_log w)
          else if V ts \<noteq> None then (0, V, host_log w)
          else if node_malloc e (vnodes w) = None then (-1, V, host_log w)
          else (0, fs_add V ts n, host_log w @ write_through w ts HostEnsureDir))"

definition spec_create_file ::
  "vfs_env \<Rightarrow> vfs_world \<Rightarrow> string \<Rightarrow> string \<Rightarrow> int \<times> (string list \<Rightarrow> VNode option) \<times> host_op list" where
  "spec_create_file e w pp nm =
     (let V = vfs_view w; ts = path_tokens pp @ [nm]; n = new_node e w nm False VFS_DEFAULT_FILE_PERMS in
      case V (path_tokens pp) of None \<Rightarrow> (-1, V, host_log w)
      | Some d \<Rightarrow>
          if \<not> is_directory d then (-1, V, host_log w)
          else if node_malloc e (vnodes w) = None then (-1, V, host_log w)
          else (0, fs_add V ts n, host_log w @ write_through w ts (\<lambda>p. HostWriteFile p [])))"

text \<open>The shared part: attach a fresh node below a found directory and write through.\<close>

lemma add_and_sync:
  assumes ok: "vfs_ok w" and loc: "located w (path_tokens pp) p m" and dir: "is_directory m"
    and a: "vnodes w a = None" and sp: "split_path path = Some (pp, nm)" and nm: "nm \<noteq> []"
    and n: "children n = []" "vname n = nm"
  shows "\<exists>w'. do {
       w2 \<leftarrow> vfs_add_child (Some p) (Some a) (w\<lparr>vnodes := (vnodes w)(a \<mapsto> n)\<rparr>);
       w3 \<leftarrow> (if host_root_directory w2 \<noteq> [] then map_option snd (vfs_sync_to_host e (Some a) w2) else Some w2);
       Some (0, w3) } = Some (0 :: int, w') \<and> vfs_ok w' \<and> same_globals w w' \<and>
     vfs_view w' = fs_add (vfs_view w) (path_tokens pp @ [nm]) (entry_of n) \<and>
     host_log w' = host_log w @ write_through w (path_tokens pp @ [nm]) (sync_op n)"
proof -
  let ?w2 = "w\<lparr>vnodes := attach p m a n (vnodes w)\<rparr>" and ?ts = "path_tokens pp @ [nm]"
  note att = attach_ok [OF ok loc dir a n]
  note bnd = split_path_bounds [OF sp nm]
  have sync: "(if host_root_directory ?w2 \<noteq> [] then map_option snd (vfs_sync_to_host e (Some a) ?w2) else Some ?w2)
      = Some (?w2\<lparr>host_log := host_log ?w2 @ write_through ?w2 ?ts (sync_op (n\<lparr>vparent := Some p\<rparr>))\<rparr>)"
    by (rule sync_located [OF att(1,2) bnd(1,2)])
  have ops: "write_through ?w2 ?ts (sync_op (n\<lparr>vparent := Some p\<rparr>)) = write_through w ?ts (sync_op n)"
    by (simp add: write_through_def host_name_def sync_op_def split: option.split)
  let ?w3 = "?w2\<lparr>host_log := host_log w @ write_through w ?ts (sync_op n)\<rparr>"
  have "vfs_ok ?w3" "vfs_view ?w3 = vfs_view ?w2" using att(1) by (simp_all only: log_indep)
  with att(3) show ?thesis
    using sync unfolding add_child_attach [OF loc a] bind.bind_lunit ops
    by (intro exI [of _ ?w3]) (simp add: same_globals_def)
qed

lemma mkdir_refines:
  assumes ok: "vfs_ok w" and env: "env_ok e" and sp: "split_path p = Some (pp, nm)" and nm: "nm \<noteq> []"
  shows "\<exists>r w'. vfs_mkdir e (Some p) w = Some (r, w') \<and> vfs_ok w' \<and> same_globals w w' \<and>
    (r, vfs_view w', host_log w') = spec_mkdir e w pp nm"
proof -
  note bnd = split_path_bounds [OF sp nm]
  obtain fs where fs: "vm_fs w = Some fs" using ok by (auto simp: vfs_ok_def)
  show ?thesis
  proof (cases rule: find_node_cases [OF ok, of pp, unfolded seen_tokens_short [OF bnd(3)], case_names none found])
    case none
    with sp fs ok show ?thesis by (simp add: vfs_mkdir_def spec_mkdir_def)
  next
    case (found a n)
    then have n: "vnodes w a = Some n" by (auto simp: located_def)
    from child_view(2) [OF ok found(2)] obtain r where r: "find_child (vnodes w) nm (children n) = Some r" by blast
    note ex = child_view(1) [OF ok found(2) r]
    show ?thesis
    proof (cases "is_directory n \<and> r = None")
      case False
      with sp fs ok found n r ex show ?thesis
        by (cases r) (auto simp: vfs_mkdir_def spec_mkdir_def Let_def)
    next
      case True
      show ?thesis
      proof (cases "node_malloc e (vnodes w)")
        case None
        with True sp fs ok found n r ex show ?thesis
          by (simp add: vfs_mkdir_def spec_mkdir_def Let_def vfs_create_directory_node_def)
      next
        case (Some b)
        with env have b: "vnodes w b = None" by (simp add: env_ok_def)
        let ?n = "new_node e w nm True VFS_DEFAULT_DIR_PERMS"
        have "sync_op ?n = HostEnsureDir" by (intro ext) (simp add: sync_op_def)
        with add_and_sync [OF ok found(2) _ b sp nm, of ?n e] True Some sp fs found n r ex bnd(4) show ?thesis
          by (auto simp: vfs_mkdir_def spec_mkdir_def Let_def vfs_create_directory_node_def)
      qed
    qed
  qed
qed

lemma create_file_refines:
  assumes ok: "vfs_ok w" and env: "env_ok e" and sp: "split_path p = Some (pp, nm)" and nm: "nm \<noteq> []"
  shows "\<exists>r w'. vfs_create_file e (Some p) w = Some (r, w') \<and> vfs_ok w' \<and> same_globals w w' \<and>
    (r, vfs_view w', host_log w') = spec_create_file e w pp nm"
proof -
  note bnd = split_path_bounds [OF sp nm]
  obtain fs where fs: "vm_fs w = Some fs" using ok by (auto simp: vfs_ok_def)
  show ?thesis
  proof (cases rule: find_node_cases [OF ok, of pp, unfolded seen_tokens_short [OF bnd(3)], case_names none found])
    case none
    with sp fs ok show ?thesis by (simp add: vfs_create_file_def spec_create_file_def)
  next
    case (found a n)
    then have n: "vnodes w a = Some n" by (auto simp: located_def)
    show ?thesis
    proof (cases "is_directory n \<and> node_malloc e (vnodes w) \<noteq> None")
      case False
      with sp fs ok found n show ?thesis
        by (auto simp: vfs_create_file_def spec_create_file_def Let_def vfs_create_file_node_def)
    next
      case True
      then obtain b where Some: "node_malloc e (vnodes w) = Some b" by auto
      with env have b: "vnodes w b = None" by (simp add: env_ok_def)
      let ?n = "new_node e w nm False VFS_DEFAULT_FILE_PERMS"
      have "sync_op ?n = (\<lambda>p. HostWriteFile p [])" by (intro ext) (simp add: sync_op_def)
      with add_and_sync [OF ok found(2) _ b sp nm, of ?n e] True Some sp fs found n bnd(4) show ?thesis
        by (auto simp: vfs_create_file_def spec_create_file_def Let_def vfs_create_file_node_def)
    qed
  qed
qed

end
