(* ===== verification/VfsFiles.thy ===== *)
theory VfsFiles
  imports VfsSpec
begin

text \<open>
  Removal, contents, permissions and symbolic links of the virtual file system as
  operations on the map from paths to what they show (\<open>VfsSpec\<close>).
\<close>

section \<open>Removing a node\<close>

text \<open>No two entries of a directory have the same name.\<close>

definition names_unique :: "vfs_world \<Rightarrow> bool" where
  "names_unique w \<longleftrightarrow> (\<forall>a n. vnodes w a = Some n \<longrightarrow> unique_in (vnodes w) (children n))"

lemma unlink_child_remove1:
  "\<forall>c \<in> set cs. h c \<noteq> None \<Longrightarrow> unlink_child h a cs = Some (remove1 a cs)"
  by (induction cs) auto

lemma fs_view_leaf:
  assumes ok: "vfs_ok w" and loc: "located w ts a n"
  shows "children n = [] \<longleftrightarrow> (\<forall>t. vfs_view w (ts @ [t]) = None)"
proof -
  have c: "find_child (vnodes w) t (children n) = Some None \<longleftrightarrow> vfs_view w (ts @ [t]) = None" for t
    using child_view [OF ok loc, of t] by blast
  show ?thesis
  proof
    assume "\<forall>t. vfs_view w (ts @ [t]) = None"
    with c have none: "find_child (vnodes w) t (children n) = Some None" for t by simp
    show "children n = []"
    proof (rule ccontr)
      assume "children n \<noteq> []"
      then obtain x xs where x: "children n = x # xs" by (cases "children n") auto
      from ok loc obtain fs :: VirtualFS where "vfs_wf (vnodes w) (vfs_root fs)" "vnodes w a = Some n"
        by (rule located_ok)
      from wf_child [OF this, of x] x obtain m where "vnodes w x = Some m" by auto
      with none [of "vname m"] x show False by simp
    qed
  qed (use c in simp)
qed

lemma unlink_detach:
  assumes ok: "vfs_ok w" and loc: "located w ts a n" and ne: "ts \<noteq> []" and leaf: "children n = []"
  shows "\<exists>p m. vparent n = Some p \<and> vnodes w p = Some m \<and>
    unlink_free a n w = Some (w\<lparr>vnodes := detach p m a (vnodes w)\<rparr>) \<and>
    vfs_ok (w\<lparr>vnodes := detach p m a (vnodes w)\<rparr>) \<and>
    (unique_in (vnodes w) (children m) \<longrightarrow>
      vfs_view (w\<lparr>vnodes := detach p m a (vnodes w)\<rparr>) = (vfs_view w)(ts := None))"
proof -
  from ok loc obtain fs where fs: "vm_fs w = Some fs" "vfs_wf (vnodes w) (vfs_root fs)"
    "walk (vnodes w) (vfs_root fs) ts = Some (Some a)" "vnodes w a = Some n" by (rule located_ok)
  from ne obtain us t where ts: "ts = us @ [t]" by (cases ts rule: rev_cases) auto
  from walk_snocD [OF fs(2) fs(3) [unfolded ts]] fs(4) obtain p m where
    p: "vparent n = Some p" "vnodes w p = Some m" "a \<in> set (children m)" by auto
  have "\<forall>c \<in> set (children m). vnodes w c \<noteq> None" using wf_child [OF fs(2) p(2)] by fastforce
  then have ul: "unlink_free a n w = Some (w\<lparr>vnodes := detach p m a (vnodes w)\<rparr>)"
    using p by (simp add: unlink_free_def unlink_child_remove1 detach_def)
  have wf': "vfs_ok (w\<lparr>vnodes := detach p m a (vnodes w)\<rparr>)"
    using detach_wf [OF fs(2) p(2,3) fs(4) leaf] fs(1) by (simp add: vfs_ok_def)
  have "vfs_view (w\<lparr>vnodes := detach p m a (vnodes w)\<rparr>) = (vfs_view w)(ts := None)"
    if "unique_in (vnodes w) (children m)"
    using detach_view [OF fs(2) p(2) that fs(4) leaf p(1) fs(3)] fs(1) by (simp add: vfs_view_def)
  with ul wf' p show ?thesis by blast
qed

definition spec_remove ::
  "bool \<Rightarrow> vfs_world \<Rightarrow> string list \<Rightarrow> int \<times> (string list \<Rightarrow> VNode option) \<times> host_op list" where
  "spec_remove dir w ts =
     (let V = vfs_view w in
      case V ts of None \<Rightarrow> (-1, V, host_log w)
      | Some n \<Rightarrow>
          if is_directory n \<noteq> dir \<or> (\<exists>t. V (ts @ [t]) \<noteq> None) then (-1, V, host_log w)
          else (0, V(ts := None),
                host_log w @ write_through w ts (if dir then HostRemoveDir else HostDeleteFile)))"

lemma seen_tokens_bounds:
  "\<forall>t \<in> set (seen_tokens p). t \<noteq> []" "sum_list (map (\<lambda>t. length t + 1) (seen_tokens p)) < 1023"
  using path_tokens_not_Nil [of _ "take 255 p"] length_path_tokens [of "take 255 p"]
  by (auto simp: seen_tokens_def)

lemma host_do_located:
  assumes ok: "vfs_ok w" and loc: "located w (seen_tokens p) a n"
  shows "(if host_root_directory w \<noteq> [] then do {
       hp \<leftarrow> vfs_get_host_path (Some a) w;
       Some (case hp of Some q \<Rightarrow> host_do (x q) w | None \<Rightarrow> w) } else Some w)
    = Some (w\<lparr>host_log := host_log w @ write_through w (seen_tokens p) x\<rparr>)"
  using host_path_located [OF ok loc seen_tokens_bounds] by (simp add: host_do_def write_through_def)

text \<open>Logging and removing a leaf.\<close>

lemma remove_located:
  assumes ok: "vfs_ok w" and uniq: "names_unique w" and loc: "located w ts a n" and ne: "ts \<noteq> []"
    and leaf: "children n = []"
  shows "\<exists>w'. unlink_free a n (w\<lparr>host_log := l\<rparr>) = Some w' \<and> vfs_ok w' \<and> same_globals w w' \<and>
    vfs_view w' = (vfs_view w)(ts := None) \<and> host_log w' = l"
proof -
  let ?w = "w\<lparr>host_log := l\<rparr>"
  have loc': "located ?w ts a n" using loc by (simp add: located_def)
  from unlink_detach [OF _ loc' ne leaf] ok obtain p m where pm: "vparent n = Some p" "vnodes w p = Some m"
    "unlink_free a n ?w = Some (?w\<lparr>vnodes := detach p m a (vnodes w)\<rparr>)"
    "vfs_ok (?w\<lparr>vnodes := detach p m a (vnodes w)\<rparr>)"
    "unique_in (vnodes w) (children m) \<longrightarrow>
      vfs_view (?w\<lparr>vnodes := detach p m a (vnodes w)\<rparr>) = (vfs_view ?w)(ts := None)" by auto
  with uniq show ?thesis by (simp add: names_unique_def same_globals_def)
qed

lemma delete_file_refines:
  assumes ok: "vfs_ok w" and uniq: "names_unique w"
  shows "\<exists>r w'. vfs_delete_file (Some p) w = Some (r, w') \<and> vfs_ok w' \<and> same_globals w w' \<and>
    (r, vfs_view w', host_log w') = spec_remove False w (seen_tokens p)"
proof (cases rule: find_node_cases [OF ok, of p, case_names none found])
  case none
  with ok show ?thesis by (simp add: vfs_delete_file_def spec_remove_def)
next
  case (found a n)
  note leaf = fs_view_leaf [OF ok found(2)]
  from ok found(2) obtain fs where fs: "vm_fs w = Some fs" "vfs_wf (vnodes w) (vfs_root fs)"
    "walk (vnodes w) (vfs_root fs) (seen_tokens p) = Some (Some a)" "vnodes w a = Some n" by (rule located_ok)
  show ?thesis
  proof (cases "is_directory n")
    case True
    with found fs ok show ?thesis by (simp add: vfs_delete_file_def spec_remove_def)
  next
    case False
    then have ch: "children n = []" using wf_leaf [OF fs(2,4)] by simp
    have ne: "seen_tokens p \<noteq> []" using fs wf_root [OF fs(2)] False by auto
    from remove_located [OF ok uniq found(2) ne ch,
        of "host_log w @ write_through w (seen_tokens p) HostDeleteFile"] obtain w' where
      w': "unlink_free a n (w\<lparr>host_log := host_log w @ write_through w (seen_tokens p) HostDeleteFile\<rparr>) = Some w'"
      "vfs_ok w'" "same_globals w w'" "vfs_view w' = (vfs_view w)(seen_tokens p := None)"
      "host_log w' = host_log w @ write_through w (seen_tokens p) HostDeleteFile" by blast
    show ?thesis
      using found fs False ch leaf w' host_do_located [OF ok found(2), of HostDeleteFile]
      by (intro exI [of _ 0] exI [of _ w']) (simp add: vfs_delete_file_def spec_remove_def)
  qed
qed

lemma rmdir_refines:
  assumes ok: "vfs_ok w" and uniq: "names_unique w" and ne: "seen_tokens p \<noteq> []"
  shows "\<exists>r w'. vfs_rmdir (Some p) w = Some (r, w') \<and> vfs_ok w' \<and> same_globals w w' \<and>
    (r, vfs_view w', host_log w') = spec_remove True w (seen_tokens p)"
proof (cases rule: find_node_cases [OF ok, of p, case_names none found])
  case none
  with ok show ?thesis by (simp add: vfs_rmdir_def spec_remove_def)
next
  case (found a n)
  then have n: "vnodes w a = Some n" by (auto simp: located_def)
  note leaf = fs_view_leaf [OF ok found(2)]
  show ?thesis
  proof (cases "is_directory n \<and> children n = []")
    case False
    with found n ok leaf show ?thesis by (auto simp: vfs_rmdir_def spec_remove_def)
  next
    case True
    from remove_located [OF ok uniq found(2) ne, of "host_log w @ write_through w (seen_tokens p) HostRemoveDir"]
      True obtain w' where
      w': "unlink_free a n (w\<lparr>host_log := host_log w @ write_through w (seen_tokens p) HostRemoveDir\<rparr>) = Some w'"
      "vfs_ok w'" "same_globals w w'" "vfs_view w' = (vfs_view w)(seen_tokens p := None)"
      "host_log w' = host_log w @ write_through w (seen_tokens p) HostRemoveDir" by blast
    show ?thesis
      using found n True leaf w' host_do_located [OF ok found(2), of HostRemoveDir]
      by (intro exI [of _ 0] exI [of _ w']) (simp add: vfs_rmdir_def spec_remove_def)
  qed
qed

section \<open>Contents and attributes\<close>

lemma update_ok:
  assumes ok: "vfs_ok w" and loc: "located w ts a n" and f: "keeps_links f"
  defines "w' \<equiv> w\<lparr>vnodes := (vnodes w)(a \<mapsto> f n)\<rparr>"
  shows "vfs_ok w'" and "located w' ts a (f n)" and "vfs_view w' = (vfs_view w)(ts \<mapsto> entry_of (f n))"
proof -
  from ok loc obtain fs where fs: "vm_fs w = Some fs" "vfs_wf (vnodes w) (vfs_root fs)"
    "walk (vnodes w) (vfs_root fs) ts = Some (Some a)" "vnodes w a = Some n" by (rule located_ok)
  show "vfs_ok w'" using update_wf [where f = f, OF fs(2,4) f] fs(1) by (simp add: vfs_ok_def w'_def)
  show "located w' ts a (f n)"
    using update_walk [of "vnodes w" a n f, OF fs(4) f] fs by (simp add: located_def w'_def)
  show "vfs_view w' = (vfs_view w)(ts \<mapsto> entry_of (f n))"
    using update_view [where f = f, OF fs(2,4) f fs(3)] fs(1) by (simp add: vfs_view_def w'_def)
qed

text \<open>The permission test, on what a path shows.\<close>

definition may_access :: "vfs_world \<Rightarrow> VNode \<Rightarrow> string \<Rightarrow> u32 \<Rightarrow> bool" where
  "may_access w n user req \<longleftrightarrow> vfs_is_root w \<or>
     vmode n AND push_bit (if vowner n = user then 6 else if vgroup n = vfs_current_group w then 3 else 0) req \<noteq> 0"

lemma check_permission_found:
  assumes "vfs_find_node w (Some p) = Some (Some a)" and "vnodes w a = Some n"
  shows "vfs_check_permission w (Some p) user req = Some (of_cbool (may_access w n user req))"
  using assms by (simp add: vfs_check_permission_def may_access_def Let_def of_cbool_def)

lemma may_access_entry [simp]: "may_access w (entry_of n) user req = may_access w n user req"
  by (simp add: may_access_def)

definition W_OK :: u32 where "W_OK = 2"
definition R_OK :: u32 where "R_OK = 4"

lemma perm_bits: "drop_bit 6 VFS_S_IWUSR = W_OK" "drop_bit 6 VFS_S_IRUSR = R_OK"
  by (simp_all add: vfs_mode_defs W_OK_def R_OK_def)

definition set_content :: "vfs_env \<Rightarrow> u8 list \<Rightarrow> VNode \<Rightarrow> VNode" where
  "set_content e bs n =
     (if bs \<noteq> [] then n\<lparr>vdata := Some bs, vsize := length bs\<rparr> else n\<lparr>vdata := None, vsize := 0\<rparr>)
       \<lparr>modified_time := time_now e\<rparr>"

lemma set_content_simps [simp]:
  "keeps_links (set_content e bs)" "is_directory (set_content e bs n) = is_directory n"
  "vmode (set_content e bs n) = vmode n" "vowner (set_content e bs n) = vowner n"
  "vgroup (set_content e bs n) = vgroup n" "vdata (set_content e bs n) = (if bs = [] then None else Some bs)"
  "vsize (set_content e bs n) = length bs"
  "entry_of (set_content e bs n) = set_content e bs (entry_of n)"
  by (simp_all add: keeps_links_def set_content_def entry_of_def)

definition spec_write ::
  "vfs_env \<Rightarrow> vfs_world \<Rightarrow> string list \<Rightarrow> u8 list \<Rightarrow> int \<times> (string list \<Rightarrow> VNode option) \<times> host_op list" where
  "spec_write e w ts bs =
     (let V = vfs_view w in
      case V ts of None \<Rightarrow> (-1, V, host_log w)
      | Some n \<Rightarrow>
          if is_directory n \<or> \<not> may_access w n (vfs_current_user w) W_OK then (-1, V, host_log w)
          else if bs \<noteq> [] \<and> \<not> data_malloc e (length bs) then (-1, V(ts \<mapsto> n\<lparr>vdata := None\<rparr>), host_log w)
          else (0, V(ts \<mapsto> set_content e bs n),
                host_log w @ write_through w ts (\<lambda>p. HostWriteFile p bs)))"

lemma write_file_located:
  assumes ok: "vfs_ok w" and found: "vfs_find_node w (Some p) = Some (Some a)" "located w (seen_tokens p) a n"
    and nd: "\<not> is_directory n" and acc: "may_access w n (vfs_current_user w) W_OK"
    and mem: "bs = [] \<or> data_malloc e (length bs)"
  shows "\<exists>w2. vfs_write_file e (Some p) (Some bs) w = Some (0, w2) \<and> vfs_ok w2 \<and>
    located w2 (seen_tokens p) a (set_content e bs n) \<and> same_globals w w2 \<and>
    vfs_view w2 = (vfs_view w)(seen_tokens p \<mapsto> set_content e bs (entry_of n)) \<and>
    host_log w2 = host_log w @ write_through w (seen_tokens p) (\<lambda>p. HostWriteFile p bs)"
proof -
  let ?ts = "seen_tokens p" and ?w1 = "w\<lparr>vnodes := (vnodes w)(a \<mapsto> set_content e bs n)\<rparr>"
  have n: "vnodes w a = Some n" using found(2) by (auto simp: located_def)
  note perm = check_permission_found [OF found(1) n, of "vfs_current_user w" W_OK]
  note up = update_ok [where f = "set_content e bs", OF ok found(2) set_content_simps(1)]
  have ops: "write_through ?w1 ?ts (sync_op (set_content e bs n)) = write_through w ?ts (\<lambda>p. HostWriteFile p bs)"
    using nd by (simp add: write_through_def host_name_def sync_op_def)
  have sync: "(if host_root_directory ?w1 \<noteq> [] then map_option snd (vfs_sync_to_host e (Some a) ?w1) else Some ?w1)
      = Some (?w1\<lparr>host_log := host_log w @ write_through w ?ts (\<lambda>p. HostWriteFile p bs)\<rparr>)"
    using sync_located [OF up(1,2) seen_tokens_bounds] unfolding ops by simp
  let ?w2 = "?w1\<lparr>host_log := host_log w @ write_through w ?ts (\<lambda>p. HostWriteFile p bs)\<rparr>"
  have upd: "(if bs \<noteq> [] then n\<lparr>vdata := Some bs, vsize := length bs\<rparr> else n\<lparr>vdata := None, vsize := 0\<rparr>)
      \<lparr>modified_time := time_now e\<rparr> = set_content e bs n" by (simp add: set_content_def)
  have "vfs_write_file e (Some p) (Some bs) w = Some (0, ?w2)"
    using found n perm nd acc mem sync
    by (cases "host_root_directory w = []") (auto simp: vfs_write_file_def perm_bits Let_def upd)
  moreover have "vfs_ok ?w2" "vfs_view ?w2 = vfs_view ?w1" using up(1) by (simp_all only: log_indep)
  moreover have "located ?w2 ?ts a (set_content e bs n)" using up(2) by (simp add: located_def)
  ultimately show ?thesis using up(3) by (intro exI [of _ ?w2]) (simp add: same_globals_def)
qed

lemma write_file_refines:
  assumes ok: "vfs_ok w"
  shows "\<exists>r w'. vfs_write_file e (Some p) (Some bs) w = Some (r, w') \<and> vfs_ok w' \<and> same_globals w w' \<and>
    (r, vfs_view w', host_log w') = spec_write e w (seen_tokens p) bs"
proof (cases rule: find_node_cases [OF ok, of p, case_names none found])
  case none
  with ok show ?thesis by (simp add: vfs_write_file_def spec_write_def)
next
  case (found a n)
  then have n: "vnodes w a = Some n" by (auto simp: located_def)
  note perm = check_permission_found [OF found(1) n, of "vfs_current_user w" W_OK]
  show ?thesis
  proof (cases "is_directory n \<or> \<not> may_access w n (vfs_current_user w) W_OK")
    case True
    with found n perm ok show ?thesis
      by (auto simp: vfs_write_file_def spec_write_def perm_bits Let_def)
  next
    case acc: False
    show ?thesis
    proof (cases "bs \<noteq> [] \<and> \<not> data_malloc e (length bs)")
      case True
      have kl: "keeps_links (\<lambda>n. n\<lparr>vdata := None\<rparr>)" by (simp add: keeps_links_def)
      have "entry_of (n\<lparr>vdata := None\<rparr>) = (entry_of n)\<lparr>vdata := None\<rparr>" by (simp add: entry_of_def)
      with True acc found n perm update_ok [where f = "\<lambda>n. n\<lparr>vdata := None\<rparr>", OF ok found(2) kl] show ?thesis
        by (simp add: vfs_write_file_def spec_write_def perm_bits Let_def same_globals_def)
    next
      case False
      with acc have "bs = [] \<or> data_malloc e (length bs)" by blast
      from write_file_located [OF ok found(1,2) _ _ this] acc found(3) False show ?thesis
        by (auto simp: spec_write_def Let_def)
    qed
  qed
qed

text \<open>Reading what is loaded changes nothing.\<close>

lemma read_file_loaded:
  assumes ok: "vfs_ok w" and v: "vfs_view w (seen_tokens p) = Some n" "vdata n = Some d" "\<not> is_directory n"
  shows "vfs_read_file e (Some p) w =
    Some (if may_access w n (vfs_current_user w) R_OK then (0, Some (Some d, vsize n), w) else (-1, None, w))"
proof (cases rule: find_node_cases [OF ok, of p, case_names none found])
  case none
  with v show ?thesis by simp
next
  case (found a m)
  then have m: "vnodes w a = Some m" and n: "n = entry_of m" using v by (auto simp: located_def)
  from check_permission_found [OF found(1) m] found m v n show ?thesis
    by (simp add: vfs_read_file_def perm_bits)
qed

definition spec_chmod ::
  "vfs_env \<Rightarrow> vfs_world \<Rightarrow> string list \<Rightarrow> u32 \<Rightarrow> int \<times> (string list \<Rightarrow> VNode option)" where
  "spec_chmod e w ts md =
     (let V = vfs_view w in
      case V ts of None \<Rightarrow> (-1, V)
      | Some n \<Rightarrow> if \<not> vfs_is_root w \<and> vowner n \<noteq> vfs_current_user w then (-1, V)
                 else (0, V(ts \<mapsto> n\<lparr>vmode := md, modified_time := time_now e\<rparr>)))"

lemma chmod_refines:
  assumes ok: "vfs_ok w"
  shows "\<exists>r w'. vfs_chmod e (Some p) md w = Some (r, w') \<and> vfs_ok w' \<and> same_globals w w' \<and>
    (r, vfs_view w') = spec_chmod e w (seen_tokens p) md \<and> host_log w' = host_log w"
proof (cases rule: find_node_cases [OF ok, of p, case_names none found])
  case none
  with ok show ?thesis by (simp add: vfs_chmod_def spec_chmod_def)
next
  case (found a n)
  then have n: "vnodes w a = Some n" by (auto simp: located_def)
  let ?f = "\<lambda>n. n\<lparr>vmode := md, modified_time := time_now e\<rparr>"
  have kl: "keeps_links ?f" by (simp add: keeps_links_def)
  have "entry_of (?f n) = ?f (entry_of n)" by (simp add: entry_of_def)
  with found n ok update_ok [where f = ?f, OF ok found(2) kl] show ?thesis
    by (auto simp: vfs_chmod_def spec_chmod_def Let_def same_globals_def)
qed

definition set_owner :: "vfs_env \<Rightarrow> string option \<Rightarrow> string option \<Rightarrow> VNode \<Rightarrow> VNode" where
  "set_owner e own grp n =
     (let n1 = (case own of Some s \<Rightarrow> n\<lparr>vowner := c_copy 50 s\<rparr> | None \<Rightarrow> n);
          n2 = (case grp of Some s \<Rightarrow> n1\<lparr>vgroup := c_copy 50 s\<rparr> | None \<Rightarrow> n1)
      in n2\<lparr>modified_time := time_now e\<rparr>)"

lemma set_owner_simps [simp]:
  "keeps_links (set_owner e own grp)" "entry_of (set_owner e own grp n) = set_owner e own grp (entry_of n)"
  by (auto simp: keeps_links_def set_owner_def entry_of_def Let_def split: option.splits)

lemma chown_refines:
  assumes ok: "vfs_ok w"
  shows "\<exists>r w'. vfs_chown e (Some p) own grp w = Some (r, w') \<and> vfs_ok w' \<and> same_globals w w' \<and>
    host_log w' = host_log w \<and>
    (r, vfs_view w') =
      (case vfs_view w (seen_tokens p) of
         Some n \<Rightarrow> if vfs_is_root w then (0, (vfs_view w)(seen_tokens p \<mapsto> set_owner e own grp n))
                  else (-1, vfs_view w)
       | None \<Rightarrow> (-1, vfs_view w))"
proof (cases rule: find_node_cases [OF ok, of p, case_names none found])
  case none
  with ok show ?thesis by (simp add: vfs_chown_def)
next
  case (found a n)
  then have n: "vnodes w a = Some n" by (auto simp: located_def)
  have "vfs_chown e (Some p) own grp w =
      (if vfs_is_root w then Some (0, w\<lparr>vnodes := (vnodes w)(a \<mapsto> set_owner e own grp n)\<rparr>) else Some (-1, w))"
    using found n by (simp add: vfs_chown_def set_owner_def Let_def)
  with found ok update_ok [where f = "set_owner e own grp", OF ok found(2) set_owner_simps(1)] show ?thesis
    by (simp add: same_globals_def)
qed

end
