(* ===== verification/MerlLine.thy ===== *)
theory MerlLine
  imports CLib VfsFiles
begin

text \<open>
  The text level of the interactive shell, \<^verbatim>\<open>MERL/shell.c\<close>: paths, environment variables and
  their expansion, the history, and the operators of a command line (\<^verbatim>\<open>;\<close>, \<^verbatim>\<open>&&\<close>, \<^verbatim>\<open>||\<close>, \<^verbatim>\<open>&\<close>, \<^verbatim>\<open>|\<close>,
  \<^verbatim>\<open>>\<close>, \<^verbatim>\<open>>>\<close>, \<^verbatim>\<open><\<close>). Nothing here runs a command.
\<close>

section \<open>Paths\<close>

text \<open>The copying loop of \<^verbatim>\<open>normalize_path\<close>; the flag is \<^verbatim>\<open>last_was_slash\<close>.\<close>

fun squeeze :: "bool \<Rightarrow> string \<Rightarrow> string" where
  "squeeze l [] = []"
| "squeeze l (c # s) =
     (if c = CHR ''/'' then (if l then squeeze True s else c # squeeze True s) else c # squeeze False s)"

definition normalize_path :: "string \<Rightarrow> string" where
  "normalize_path path = (let p = squeeze False path in if p = [] then ''/'' else p)"

definition build_full_path :: "nat \<Rightarrow> string \<Rightarrow> string \<Rightarrow> string" where
  "build_full_path sz cwd relative_path =
     normalize_path
       (if relative_path \<noteq> [] \<and> hd relative_path = CHR ''/'' then take (sz - 1) relative_path
        else if cwd = ''/'' then take (sz - 1) (''/'' @ relative_path)
        else take (sz - 1) (cwd @ ''/'' @ relative_path))"

text \<open>The directory above \<open>cwd\<close>, cut at the last slash; \<open>None\<close> when that is the root.\<close>

definition parent_dir :: "string \<Rightarrow> string option" where
  "parent_dir cwd =
     (let up = rev (tl (dropWhile (\<lambda>c. c \<noteq> CHR ''/'') (rev cwd)))
      in if cwd = ''/'' \<or> up = [] then None else Some up)"

text \<open>\<^verbatim>\<open>expand_path\<close>: the first argument and the second result are its static \<^verbatim>\<open>recursion_depth\<close>.\<close>

definition expand_path :: "nat \<Rightarrow> string \<Rightarrow> nat \<Rightarrow> string \<Rightarrow> string \<times> nat" where
  "expand_path depth cwd sz input =
     (if depth > 10 then (take (sz - 1) input, depth)
      else if input = ''~'' then (take (sz - 1) ''/home'', depth)
      else if input = ''..'' then
        (case parent_dir cwd of
           Some up \<Rightarrow> if length up < sz then up else ''/''
         | None \<Rightarrow> ''/'', depth)
      else if input = ''.'' then (take (sz - 1) cwd, depth)
      else if starts_with ''../'' input then
        (case parent_dir cwd of
           Some up \<Rightarrow> if length up < 256 then take (sz - 1) (up @ ''/'' @ drop 3 input)
                      else take (sz - 1) (''/'' @ drop 3 input)
         | None \<Rightarrow> take (sz - 1) (''/'' @ drop 3 input), depth)
      else if starts_with ''~/'' input then (take (sz - 1) (''/home/'' @ drop 2 input), depth)
      else (take (sz - 1) input, depth))"

section \<open>Environment variables\<close>

definition MAX_ENV_VARS :: nat where "MAX_ENV_VARS = 100"
definition ENV_NAME_SIZE :: nat where "ENV_NAME_SIZE = 64"
definition ENV_VALUE_SIZE :: nat where "ENV_VALUE_SIZE = 256"

lemmas env_sizes = MAX_ENV_VARS_def ENV_NAME_SIZE_def ENV_VALUE_SIZE_def

type_synonym env_table = "(string \<times> string) list"

definition set_env_var :: "string \<Rightarrow> string \<Rightarrow> env_table \<Rightarrow> env_table" where
  "set_env_var name v env =
     (case first_index (\<lambda>e. fst e = name) env of
        Some i \<Rightarrow> env[i := (fst (env ! i), c_copy ENV_VALUE_SIZE v)]
      | None \<Rightarrow>
          if length env < MAX_ENV_VARS then env @ [(c_copy ENV_NAME_SIZE name, c_copy ENV_VALUE_SIZE v)]
          else env)"

definition get_env_var :: "string \<Rightarrow> env_table \<Rightarrow> string option" where
  "get_env_var name env = map_option snd (find (\<lambda>e. fst e = name) env)"

text \<open>The name after a dollar, braced or plain, and what follows it.\<close>

definition scan_env_name :: "string \<Rightarrow> string \<times> string" where
  "scan_env_name s =
     (if s \<noteq> [] \<and> hd s = CHR 0x7B
      then (let name = take (ENV_NAME_SIZE - 1) (takeWhile (\<lambda>c. c \<noteq> CHR 0x7D) (tl s));
                r = drop (length name) (tl s)
            in (name, if r \<noteq> [] \<and> hd r = CHR 0x7D then tl r else r))
      else (let name = take (ENV_NAME_SIZE - 1) (takeWhile (\<lambda>c. is_alnum c \<or> c = CHR ''_'') s)
            in (name, drop (length name) s)))"

lemma scan_env_name_shorter: "length (snd (scan_env_name s)) \<le> length s"
  by (cases s) (auto simp: scan_env_name_def Let_def)

text \<open>The loop of \<^verbatim>\<open>expand_variables\<close>; \<open>rem\<close> is \<^verbatim>\<open>remaining\<close>.\<close>

function expand_env :: "env_table \<Rightarrow> nat \<Rightarrow> string \<Rightarrow> string" where
  "expand_env env rem [] = []"
| "expand_env env rem (c # s) =
     (if rem = 0 then []
      else if c = CHR ''$'' then
        (case get_env_var (fst (scan_env_name s)) env of
           Some v \<Rightarrow>
             if length v \<le> rem then v @ expand_env env (rem - length v) (snd (scan_env_name s))
             else expand_env env rem (snd (scan_env_name s))
         | None \<Rightarrow> expand_env env rem (snd (scan_env_name s)))
      else c # expand_env env (rem - 1) s)"
  by pat_completeness auto
termination expand_env
  by (relation "measure (\<lambda>(env, rem, s). length s)") (auto simp: le_imp_less_Suc scan_env_name_shorter)

definition expand_env_variables :: "env_table \<Rightarrow> nat \<Rightarrow> string \<Rightarrow> string" where
  "expand_env_variables env output_size input = expand_env env (output_size - 1) input"

definition init_default_env_vars :: "env_table \<Rightarrow> env_table" where
  "init_default_env_vars =
     set_env_var ''HOSTNAME'' ''zora-vm'' \<circ> set_env_var ''PWD'' ''/'' \<circ> set_env_var ''SHELL'' ''/bin/merl'' \<circ>
     set_env_var ''PATH'' ''/bin:/usr/bin:/scripts'' \<circ> set_env_var ''USER'' ''guest'' \<circ> set_env_var ''HOME'' ''/home''"

section \<open>History\<close>

text \<open>\<^verbatim>\<open>command_history\<close> with \<^verbatim>\<open>history_count\<close> entries, the oldest first.\<close>

definition add_to_history :: "string \<Rightarrow> string list \<Rightarrow> string list" where
  "add_to_history command h = (if length h < 100 then h @ [command] else tl h @ [command])"

section \<open>Operators of a command line\<close>

definition blank_char :: "char \<Rightarrow> bool" where
  "blank_char c \<longleftrightarrow> c = CHR '' '' \<or> c = CHR 0x09"

definition trim_left :: "string \<Rightarrow> string" where
  "trim_left = dropWhile blank_char"

text \<open>\<^verbatim>\<open>while (end > s && blank(*end)) end--\<close>: the first character stays.\<close>

definition trim_right :: "string \<Rightarrow> string" where
  "trim_right s = (case s of [] \<Rightarrow> [] | c # cs \<Rightarrow> c # rev (dropWhile blank_char (rev cs)))"

text \<open>An ampersand that is not the first of two cuts the rest of the part away.\<close>

definition split_background :: "string \<Rightarrow> string \<times> bool" where
  "split_background part =
     (case strchr part CHR ''&'' of
        None \<Rightarrow> (part, False)
      | Some i \<Rightarrow> if i + 1 < length part \<and> part ! (i + 1) = CHR ''&'' then (part, False)
                 else (trim_right (take i part), True))"

text \<open>The first of \<^verbatim>\<open>&&\<close> (flag true) and \<^verbatim>\<open>||\<close>, with the text behind it.\<close>

definition split_conditional :: "string \<Rightarrow> string \<times> (bool \<times> string) option" where
  "split_conditional part =
     (case (strstr part ''&&'', strstr part ''||'') of
        (None, None) \<Rightarrow> (part, None)
      | (Some a, None) \<Rightarrow> (take a part, Some (True, drop (a + 2) part))
      | (None, Some b) \<Rightarrow> (take b part, Some (False, drop (b + 2) part))
      | (Some a, Some b) \<Rightarrow>
          if a < b then (take a part, Some (True, drop (a + 2) part))
          else (take b part, Some (False, drop (b + 2) part)))"

record redirections =
  work_copy :: string
  input_file :: "string option"
  output_file :: "string option"
  append_mode :: bool

definition parse_redirections :: "string \<Rightarrow> redirections" where
  "parse_redirections cmd_str =
     (let (work, out, app) =
        (case strstr cmd_str ''>>'' of
           Some i \<Rightarrow> (take i cmd_str, Some (trim_right (trim_left (drop (i + 2) cmd_str))), True)
         | None \<Rightarrow>
             (case strchr cmd_str CHR ''>'' of
                Some i \<Rightarrow> (take i cmd_str, Some (trim_right (trim_left (drop (i + 1) cmd_str))), False)
              | None \<Rightarrow> (cmd_str, None, False)))
      in case strchr work CHR ''<'' of
           Some i \<Rightarrow> \<lparr>work_copy = take i work, input_file = Some (trim_right (trim_left (drop (i + 1) work))),
                       output_file = out, append_mode = app\<rparr>
         | None \<Rightarrow> \<lparr>work_copy = work, input_file = None, output_file = out, append_mode = app\<rparr>)"

text \<open>The argument vector has room for 255 words and the terminating null.\<close>

definition MAX_ARGS :: nat where "MAX_ARGS = 255"

definition words_of :: "string \<Rightarrow> string list" where
  "words_of s = strtok_all {CHR '' '', CHR 0x09} s"

definition parse_args :: "string \<Rightarrow> string list" where
  "parse_args s = take MAX_ARGS (words_of s)"

section \<open>Flags\<close>

record parsed_command =
  pc_args :: "string list"
  pc_flags :: "string list"
  pc_input :: "string option"
  pc_output :: "string option"
  pc_append :: bool
  pc_background :: bool

definition empty_command :: parsed_command where
  "empty_command = \<lparr>pc_args = [], pc_flags = [], pc_input = None, pc_output = None, pc_append = False,
     pc_background = False\<rparr>"

definition add_word :: "string \<Rightarrow> parsed_command \<Rightarrow> parsed_command" where
  "add_word t cmd =
     (if hd t = CHR ''-'' \<and> length t > 1 \<and> length (pc_flags cmd) < 63
      then cmd\<lparr>pc_flags := pc_flags cmd @ [t]\<rparr> else cmd\<lparr>pc_args := pc_args cmd @ [t]\<rparr>)"

text \<open>\<^verbatim>\<open>parse_command_advanced\<close> on the tokens of its argument. After an operator the loop goes
  on with the token behind it, which is thus read once more; a lone ampersand is read for ever.\<close>

partial_function (option) parse_tokens :: "string list \<Rightarrow> parsed_command \<Rightarrow> parsed_command option" where
  "parse_tokens ts cmd =
     (case ts of [] \<Rightarrow> Some cmd
      | t # us \<Rightarrow>
          if length (pc_args cmd) \<ge> 255 then Some cmd
          else if t = ''>'' then
            parse_tokens us (case us of [] \<Rightarrow> cmd | f # _ \<Rightarrow> cmd\<lparr>pc_output := Some f\<rparr>)
          else if t = ''>>'' then
            parse_tokens us (case us of [] \<Rightarrow> cmd | f # _ \<Rightarrow> cmd\<lparr>pc_output := Some f, pc_append := True\<rparr>)
          else if t = ''<'' then
            parse_tokens us (case us of [] \<Rightarrow> cmd | f # _ \<Rightarrow> cmd\<lparr>pc_input := Some f\<rparr>)
          else if t = ''&'' then parse_tokens ts (cmd\<lparr>pc_background := True\<rparr>)
          else parse_tokens us (add_word t cmd))"

declare parse_tokens.simps [code]

definition parse_command_advanced :: "string \<Rightarrow> parsed_command option" where
  "parse_command_advanced command_str = parse_tokens (words_of command_str) empty_command"

fun parse_argv :: "string list \<Rightarrow> parsed_command \<Rightarrow> parsed_command" where
  "parse_argv [] cmd = cmd"
| "parse_argv (t # ts) cmd =
     (if length (pc_args cmd) < 255
      then parse_argv ts
        (if t \<noteq> [] \<and> hd t = CHR ''-'' \<and> length t > 1 \<and> length (pc_flags cmd) < 63
         then cmd\<lparr>pc_flags := pc_flags cmd @ [t]\<rparr> else cmd\<lparr>pc_args := pc_args cmd @ [t]\<rparr>)
      else cmd)"

definition parse_command_advanced_from_args :: "string list \<Rightarrow> parsed_command" where
  "parse_command_advanced_from_args argv = parse_argv argv empty_command"

definition has_flag :: "parsed_command \<Rightarrow> string \<Rightarrow> bool" where
  "has_flag cmd flag \<longleftrightarrow>
     (\<exists>f \<in> set (pc_flags cmd). f = flag \<or>
        length f > 2 \<and> hd f = CHR ''-'' \<and> length flag = 2 \<and> hd flag = CHR ''-'' \<and> flag ! 1 \<in> set (tl f))"

fun flag_value :: "string list \<Rightarrow> string \<Rightarrow> string option" where
  "flag_value [] flag = None"
| "flag_value (f # fs) flag =
     (if starts_with flag f \<and> length f > length flag \<and> f ! length flag = CHR ''=''
      then Some (drop (length flag + 1) f) else flag_value fs flag)"

definition get_flag_value :: "parsed_command \<Rightarrow> string \<Rightarrow> string option" where
  "get_flag_value cmd flag = flag_value (pc_flags cmd) flag"

end
