(* ===== verification/MerlExec.thy ===== *)
theory MerlExec
  imports MerlLine
begin

text \<open>
  How the interactive shell, \<^verbatim>\<open>MERL/shell.c\<close>, runs a command line: the command table, the
  dispatch of a command, redirection of its output into the virtual file system, pipelines,
  conditional and sequential execution, and one turn of the input loop. The handlers in
  the command table are called through function pointers; they are the field \<open>handler\<close> of the
  environment, a function on the shell's state. The host's temporary file, the
  Lua machine and the file system's environment are fields of it as well. \<^verbatim>\<open>strdup\<close> is taken to succeed.
\<close>

section \<open>The command table\<close>

text \<open>The names with the C functions behind them, in the order of the table, in four parts.\<close>

definition base_commands :: "(string \<times> string) list" where
  "base_commands =
    [(''man'', ''man_command''), (''help'', ''help_command''), (''language'', ''language_command''),
     (''lang'', ''language_command''), (''theme'', ''theme_command''),
     (''sysinfo'', ''sysinfo_command''), (''pwd'', ''pwd_command''), (''ls'', ''ls_command''),
     (''cd'', ''cd_command''), (''mkdir'', ''mkdir_command''), (''rmdir'', ''rmdir_command''),
     (''touch'', ''touch_command''), (''nano'', ''nano_command''), (''rm'', ''rm_command''),
     (''cp'', ''cp_command''), (''mv'', ''mv_command''), (''rename'', ''rename_command''),
     (''search'', ''search_command''), (''edit'', ''edit_command''), (''run'', ''run_command''),
     (''clear'', ''clear_command''), (''echo'', ''echo_command''), (''cat'', ''cat_command''),
     (''tetra'', ''tetra_command''), (''flipper'', ''flipper_command''),
     (''pull'', ''pull_command''), (''whoami'', ''whoami_command''),
     (''useradd'', ''useradd_command''), (''login'', ''login_command''),
     (''logout'', ''logout_command''), (''passwd'', ''passwd_command''), (''su'', ''su_command''),
     (''users'', ''users_command''), (''setup-root'', ''setup_root_command''),
     (''chmod'', ''chmod_command''), (''chown'', ''chown_command''), (''stat'', ''stat_command''),
     (''route'', ''route_wrapper''), (''fork'', ''fork_wrapper''), (''kill'', ''kill_wrapper''),
     (''ps'', ''ps_wrapper''), (''read'', ''read_wrapper''), (''write'', ''write_wrapper''),
     (''neofetch'', ''color_and_test_command''), (''vmstat'', ''vm_status_command''),
     (''reboot'', ''vm_reboot_command''), (''shutdown'', ''vm_shutdown_command''),
     (''save'', ''save_command''), (''load'', ''load_command''), (''mount'', ''mount_command''),
     (''sync'', ''sync_command''), (''livesync'', ''livesync_command''),
     (''pls'', ''persistent_ls_command''), (''ifconfig'', ''ifconfig_command''),
     (''ping'', ''ping_command''), (''netstat'', ''netstat_command''),
     (''nslookup'', ''nslookup_command''), (''telnet'', ''telnet_command''),
     (''wget'', ''wget_command''), (''curl'', ''curl_command''), (''ssh'', ''ssh_command''),
     (''iptables'', ''iptables_command''), (''netstack'', ''netstack_command''),
     (''netroute'', ''netroute_command''), (''socktest'', ''socktest_command''),
     (''testvfs'', ''test_vfs_command''), (''debugvfs'', ''debug_vfs_command''),
     (''lua'', ''lua_command''), (''luacode'', ''luacode_command''), (''exec'', ''exec_command''),
     (''run-windows'', ''run_windows_command''), (''list-binaries'', ''list_binaries_command''),
     (''sandbox-status'', ''sandbox_status_command''), (''theme'', ''theme_command''),
     (''themes'', ''themes_command''), (''find'', ''find_command''), (''tree'', ''tree_command''),
     (''less'', ''less_command''), (''head'', ''head_command''), (''tail'', ''tail_command''),
     (''grep'', ''grep_command''), (''htop'', ''htop_command''), (''jobs'', ''jobs_command''),
     (''bg'', ''bg_command''), (''fg'', ''fg_command''), (''date'', ''date_command''),
     (''df'', ''df_command''), (''du'', ''du_command''), (''uname'', ''uname_command''),
     (''systeminfo'', ''systeminfo_command''), (''scripts'', ''scripts_command''),
     (''history'', ''history_command''), (''scp'', ''scp_command''), (''tar'', ''tar_command''),
     (''gzip'', ''gzip_command''), (''gunzip'', ''gunzip_command''), (''zip'', ''zip_command''),
     (''unzip'', ''unzip_command''), (''hostname'', ''hostname_command'')]"

definition system_commands :: "(string \<times> string) list" where
  "system_commands =
    [(''ps'', ''ps_command''), (''kill'', ''kill_command''), (''jobs'', ''jobs_command''),
     (''fg'', ''fg_command''), (''bg'', ''bg_command''), (''top'', ''top_command''),
     (''osinfo'', ''osinfo_command''), (''mounts'', ''mounts_command''),
     (''netinfo'', ''netinfo_command''), (''proc'', ''proc_command''),
     (''dmesg'', ''dmesg_command''), (''services'', ''services_command''),
     (''terminal-test'', ''terminal_test_command''), (''launch-wt'', ''launch_wt_command''),
     (''style'', ''style_command''), (''font'', ''font_command''), (''cursor'', ''cursor_command''),
     (''colors'', ''colors_command''), (''retro'', ''retro_command''),
     (''syntax'', ''syntax_command''), (''terminal-demo'', ''terminal_demo_command''),
     (''test-sandbox'', ''test_sandbox_command''), (''sort'', ''sort_command''),
     (''uniq'', ''uniq_command''), (''wc'', ''wc_command''), (''awk'', ''awk_command''),
     (''which'', ''which_command''), (''ln'', ''ln_command''), (''diff'', ''diff_command''),
     (''exit'', ''exit_command''), (''version'', ''version_command''), (''set'', ''set_command''),
     (''unset'', ''unset_command''), (''export'', ''export_command''), (''env'', ''env_command''),
     (''font-debug'', ''font_debug_command''), (''console-refresh'', ''console_refresh_command''),
     (''console-test'', ''console_test_command''), (''clear-buffer'', ''clear_buffer_command''),
     (''utf8-detailed'', ''utf8_detailed_test_command''),
     (''utf8-monitor'', ''utf8_monitor_command''), (''utf8-fix'', ''utf8_fix_command''),
     (''utf8-test'', ''utf8_test_command'')]"

definition unix_commands :: "(string \<times> string) list" where
  "unix_commands =
    [(''cc'', ''cc_command''), (''f77'', ''f77_command''), (''as'', ''as_command''),
     (''ld'', ''ld_command''), (''yacc'', ''yacc_command''), (''lex'', ''lex_command''),
     (''sed'', ''sed_command''), (''nroff'', ''nroff_command''), (''ipcs'', ''ipcs_command''),
     (''msgctl'', ''msgctl_command''), (''fortune'', ''fortune_command''),
     (''games'', ''games_command''), (''banner'', ''banner_command''),
     (''factor'', ''factor_command''), (''primes'', ''primes_command''),
     (''uname'', ''uname_command''), (''pstree'', ''pstree_command''), (''nice'', ''nice_command''),
     (''nohup'', ''nohup_command''), (''cut'', ''cut_command''), (''paste'', ''paste_command''),
     (''tr'', ''tr_command''), (''expand'', ''expand_command''), (''fold'', ''fold_command''),
     (''watch'', ''watch_command''), (''timeout'', ''timeout_command''),
     (''xargs'', ''xargs_command''), (''tee'', ''tee_command''),
     (''readlink'', ''readlink_command''), (''file'', ''file_command''),
     (''trap'', ''trap_command''), (''for'', ''for_command''), (''while'', ''while_command''),
     (''if'', ''if_command''), (''test'', ''test_command''), (''['', ''test_command''),
     (''function'', ''function_command''), (''source'', ''source_command''),
     (''.'', ''source_command''), (''alias'', ''alias_command'')]"

definition service_commands :: "(string \<times> string) list" where
  "service_commands =
    [(''compile-c'', ''compile_c_command''), (''compile-asm'', ''compile_asm_command''),
     (''compile-fortran'', ''compile_fortran_command''),
     (''set-output-dir'', ''set_output_dir_command''),
     (''create-sample'', ''create_sample_command''),
     (''set-output-dir'', ''set_output_dir_command''), (''java-scan'', ''java_scan_command''),
     (''java-quarantine'', ''java_quarantine_command''), (''java-status'', ''java_status_command''),
     (''zpm'', ''zpm_command''), (''pkg-install'', ''pkg_install_command''),
     (''repo-add'', ''repo_add_command''), (''ifconfig'', ''ifconfig_command''),
     (''netstat'', ''netstat_command''), (''vpn'', ''vpn_command''),
     (''traceroute'', ''traceroute_command''), (''portscan'', ''portscan_command''),
     (''netns'', ''netns_command''), (''firewall'', ''firewall_command''),
     (''systemctl'', ''systemctl_command''), (''service'', ''service_command''),
     (''crontab'', ''crontab_command''), (''journalctl'', ''journalctl_command''),
     (''nano'', ''nano_command''), (''editor'', ''editor_command''),
     (''diskinfo'', ''diskinfo_command''), (''quota'', ''quota_command''),
     (''ps-new'', ''ps_enhanced_command''), (''kill-new'', ''kill_enhanced_command''),
     (''pkill'', ''pkill_command''), (''pgrep'', ''pgrep_command'')]"

definition command_table :: "(string \<times> string) list" where
  "command_table = base_commands @ system_commands @ unix_commands @ service_commands"

section \<open>State\<close>

text \<open>
  Where the static pointer of \<^verbatim>\<open>strtok\<close> is: it has none yet, at a text that is still there, at a
  buffer that has been freed with tokens left in it, or at the end of its text, where further
  searches return null.
\<close>

datatype tok_state = Tok_none | Tok_at string | Tok_freed | Tok_end

text \<open>\<open>shell_rest\<close> is everything else the handlers change. \<open>stdout_bytes\<close> is what has been
  written to the standard output, whatever it is attached to.\<close>

record 'r merl =
  env_vars :: env_table
  command_history :: "string list"
  shell_vfs :: vfs_world
  script_execution_depth :: nat
  strtok_state :: tok_state
  syntax_highlight :: bool
  stdout_bytes :: "u8 list"
  redirect_active :: bool
  redirect_buffer :: "u8 list"
  shell_rest :: 'r

text \<open>\<open>temp_file\<close>: \<^verbatim>\<open>freopen\<close> of the temporary file succeeds; \<open>temp_read\<close>: it can be opened again.
  \<open>lua_script\<close> runs a script with its arguments and returns the result of the machine.\<close>

record 'r merl_env =
  handler :: "string \<Rightarrow> string list \<Rightarrow> 'r merl \<Rightarrow> 'r merl option"
  vfs_environment :: vfs_env
  temp_file :: bool
  temp_read :: bool
  lua_script :: "string \<Rightarrow> string \<Rightarrow> 'r merl \<Rightarrow> (int \<times> 'r merl) option"

definition bytes_of :: "string \<Rightarrow> u8 list" where
  "bytes_of t = map of_char t"

definition say :: "string \<Rightarrow> 'r merl \<Rightarrow> 'r merl" where
  "say t s = s\<lparr>stdout_bytes := stdout_bytes s @ bytes_of t\<rparr>"

section \<open>Terminal styling\<close>

definition ansi :: "string \<Rightarrow> string" where
  "ansi code = CHR 0x1B # CHR 0x5B # code @ ''m''"

definition styled :: "string list \<Rightarrow> string \<Rightarrow> string" where
  "styled codes t = concat (map ansi codes) @ t @ ansi ''0''"

definition terminal_print_command :: "string \<Rightarrow> 'r merl \<Rightarrow> 'r merl" where
  "terminal_print_command command s =
     say (if syntax_highlight s then styled [''1'', ''96''] command else command) s"

definition terminal_print_path :: "string \<Rightarrow> 'r merl \<Rightarrow> 'r merl" where
  "terminal_print_path path s = say (if syntax_highlight s then styled [''4'', ''94''] path else path) s"

definition terminal_print_operator :: "string \<Rightarrow> 'r merl \<Rightarrow> 'r merl" where
  "terminal_print_operator op s = say (if syntax_highlight s then styled [''93''] op else op) s"

definition terminal_print_string :: "string \<Rightarrow> 'r merl \<Rightarrow> 'r merl" where
  "terminal_print_string str s = say (if syntax_highlight s then styled [''92''] str else str) s"

definition terminal_print_error :: "string \<Rightarrow> 'r merl \<Rightarrow> 'r merl" where
  "terminal_print_error err = say (styled [''91''] err)"

definition quoted_word :: "string \<Rightarrow> bool" where
  "quoted_word t \<longleftrightarrow> t \<noteq> [] \<and> (hd t = CHR 0x22 \<and> last t = CHR 0x22 \<or> hd t = CHR 0x27 \<and> last t = CHR 0x27)"

definition terminal_print_argument :: "string \<Rightarrow> 'r merl \<Rightarrow> 'r merl" where
  "terminal_print_argument arg s =
     (if \<not> syntax_highlight s then say arg s
      else if CHR ''/'' \<in> set arg \<or> CHR 0x5C \<in> set arg then terminal_print_path arg s
      else if quoted_word arg then terminal_print_string arg s
      else say (styled [''97''] arg) s)"

definition highlight_word :: "string \<Rightarrow> 'r merl \<Rightarrow> 'r merl" where
  "highlight_word t s =
     (if hd t = CHR ''-'' then say (styled [''95''] t) s
      else if CHR ''/'' \<in> set t \<or> CHR 0x5C \<in> set t \<or> CHR ''.'' \<in> set t then terminal_print_path t s
      else if quoted_word t then terminal_print_string t s
      else if t \<in> {''>'', ''>>'', ''<'', ''|'', ''&&'', ''||'', ''&''} then terminal_print_operator t s
      else terminal_print_argument t s)"

definition highlight_command_parts :: "string \<Rightarrow> 'r merl \<Rightarrow> 'r merl" where
  "highlight_command_parts line s =
     (if \<not> syntax_highlight s then say line s
      else (case words_of line of [] \<Rightarrow> s\<lparr>strtok_state := Tok_end\<rparr>
            | w # ws \<Rightarrow> foldl (\<lambda>s t. highlight_word t (say '' '' s))
                          (terminal_print_command w (s\<lparr>strtok_state := Tok_end\<rparr>)) ws))"

section \<open>Running one command\<close>

text \<open>\<^verbatim>\<open>args_str\<close>: arguments 1 to 9, each with a blank before it from the second on, left out
  when the buffer of 1024 bytes would come within 10 bytes of its end.\<close>

definition add_script_arg :: "string \<Rightarrow> nat \<Rightarrow> string \<Rightarrow> string" where
  "add_script_arg buf i arg =
     (let b = (if i > 1 then buf @ '' '' else buf) in if length b + length arg < 1014 then b @ arg else b)"

definition lua_args_string :: "string list \<Rightarrow> string" where
  "lua_args_string argv = foldl (\<lambda>b (i, a). add_script_arg b i a) []
     (enumerate 1 (take 9 (tl argv)))"

definition script_path :: "string \<Rightarrow> string \<Rightarrow> string" where
  "script_path command ext = take 511 (''/bin/'' @ command @ ext)"

definition try_execute_script_command ::
  "'r merl_env \<Rightarrow> string \<Rightarrow> string list \<Rightarrow> 'r merl \<Rightarrow> (int \<times> 'r merl) option" where
  "try_execute_script_command e command argv s =
     (if script_execution_depth s > 5
      then Some (0, say (''Error: Script execution depth limit reached (possible infinite recursion)'' @ nl) s)
      else do {
        let s1 = s\<lparr>script_execution_depth := script_execution_depth s + 1\<rparr>;
        let leave = (\<lambda>t. t\<lparr>script_execution_depth := script_execution_depth t - 1\<rparr>);
        lua \<leftarrow> vfs_find_node (shell_vfs s1) (Some (script_path command ''.lua''));
        (if lua \<noteq> None then do {
           (r, s2) \<leftarrow> lua_script e (script_path command ''.lua'') (lua_args_string argv)
             (say (''Executing Lua script: '' @ script_path command ''.lua'' @ nl) s1);
           Some (of_cbool (r = 0), leave s2) }
         else do {
           py \<leftarrow> vfs_find_node (shell_vfs s1) (Some (script_path command ''.py''));
           (if py \<noteq> None then
              Some (1, leave (say (''Python scripting not enabled in this build'' @ nl)
                (say (''Executing Python script: '' @ script_path command ''.py'' @ nl) s1)))
            else do {
              pl \<leftarrow> vfs_find_node (shell_vfs s1) (Some (script_path command ''.pl''));
              (if pl \<noteq> None then
                 Some (1, leave (say (''Perl scripting not enabled in this build'' @ nl)
                   (say (''Executing Perl script: '' @ script_path command ''.pl'' @ nl) s1)))
               else Some (0, leave s1)) }) }) })"

definition unknown_command :: "string \<Rightarrow> 'r merl \<Rightarrow> 'r merl" where
  "unknown_command name s =
     say ('' to see available commands.'' @ nl) (terminal_print_command ''help'' (say ''Type ''
       (terminal_print_error (CHR 0x27 # nl) (say name
         (terminal_print_error (''Unknown command: '' @ [CHR 0x27]) s)))))"

text \<open>The search of the table, then of the scripts, with the exit code; \<^verbatim>\<open>args[0]\<close> must be there.\<close>

definition dispatch_command :: "'r merl_env \<Rightarrow> string list \<Rightarrow> 'r merl \<Rightarrow> (int \<times> 'r merl) option" where
  "dispatch_command e args s =
     (case args of [] \<Rightarrow> None
      | name # _ \<Rightarrow>
          (case map_of command_table name of
             Some h \<Rightarrow> do { s1 \<leftarrow> handler e h args s; Some (0, s1) }
           | None \<Rightarrow> do {
               (r, s1) \<leftarrow> try_execute_script_command e name args s;
               Some (if r \<noteq> 0 then (0, s1) else (1, unknown_command name s1)) }))"

definition execute_simple_command_with_exit_code ::
  "'r merl_env \<Rightarrow> string list \<Rightarrow> 'r merl \<Rightarrow> (int \<times> 'r merl) option" where
  "execute_simple_command_with_exit_code e args s = (if args = [] then Some (0, s) else dispatch_command e args s)"

definition execute_simple_command :: "'r merl_env \<Rightarrow> string list \<Rightarrow> 'r merl \<Rightarrow> 'r merl option" where
  "execute_simple_command e args s =
     (if args = [] then Some s else map_option snd (dispatch_command e args s))"

section \<open>Redirected output\<close>

definition REDIRECT_SIZE :: nat where "REDIRECT_SIZE = 65536"

definition redirect_printf :: "string \<Rightarrow> 'r merl \<Rightarrow> 'r merl" where
  "redirect_printf t s =
     (if \<not> redirect_active s then say t s
      else if length (redirect_buffer s) + length t < REDIRECT_SIZE
      then s\<lparr>redirect_buffer := redirect_buffer s @ bytes_of t\<rparr> else s)"

definition is_print :: "char \<Rightarrow> bool" where
  "is_print c \<longleftrightarrow> 32 \<le> (of_char c :: nat) \<and> (of_char c :: nat) \<le> 126"

definition execute_simple_command_with_redirect ::
  "'r merl_env \<Rightarrow> string list \<Rightarrow> 'r merl \<Rightarrow> 'r merl option" where
  "execute_simple_command_with_redirect e args s =
     (case args of [] \<Rightarrow> Some s
      | name # _ \<Rightarrow>
          (case map_of command_table name of
             Some h \<Rightarrow> handler e h args s
           | None \<Rightarrow>
               Some (redirect_printf (''Type 'help' to see available commands.'' @ nl)
                 (redirect_printf
                   (if name \<noteq> [] \<and> length name < 256
                    then (if list_all is_print name
                          then ''Unknown command: '' @ CHR 0x27 # name @ CHR 0x27 # nl
                          else (''Unknown command: [invalid characters]'' @ nl))
                    else (''Unknown command: [empty or invalid]'' @ nl)) s))))"

text \<open>A text file of the host: each newline takes two bytes, and reading stops at a control-Z.\<close>

definition text_file_size :: "u8 list \<Rightarrow> nat" where
  "text_file_size out = length out + count_list out 0x0A"

definition text_file_data :: "u8 list \<Rightarrow> u8 list" where
  "text_file_data out = takeWhile (\<lambda>b. b \<noteq> 0x1A) out"

definition captured :: "'r merl_env \<Rightarrow> u8 list \<Rightarrow> u8 list option" where
  "captured e out =
     (if temp_read e \<and> 0 < text_file_size out \<and> text_file_size out < REDIRECT_SIZE
      then Some (text_file_data out) else None)"

text \<open>The existing contents are read for \<^verbatim>\<open>>>\<close>.\<close>

definition load_existing :: "'r merl_env \<Rightarrow> string \<Rightarrow> 'r merl \<Rightarrow> 'r merl option" where
  "load_existing e full_path s = do {
     (r, d, w) \<leftarrow> vfs_read_file (vfs_environment e) (Some full_path) (shell_vfs s);
     (case d of
        Some (Some bs, n) \<Rightarrow>
          if r = 0 \<and> n < REDIRECT_SIZE
          then (if n \<le> length bs then Some (s\<lparr>shell_vfs := w, redirect_buffer := take n bs\<rparr>) else None)
          else Some (s\<lparr>shell_vfs := w\<rparr>)
      | _ \<Rightarrow> Some (s\<lparr>shell_vfs := w\<rparr>)) }"

text \<open>The command runs with the standard output in the temporary file, or, if that cannot be
  opened, on the console.\<close>

definition run_captured :: "'r merl_env \<Rightarrow> string list \<Rightarrow> 'r merl \<Rightarrow> (int \<times> 'r merl) option" where
  "run_captured e args s =
     (if temp_file e then do {
        (code, t) \<leftarrow> dispatch_command e args (s\<lparr>stdout_bytes := []\<rparr>);
        let t1 = t\<lparr>stdout_bytes := stdout_bytes s\<rparr>;
        Some (code, (case captured e (stdout_bytes t) of
                       Some d \<Rightarrow> t1\<lparr>redirect_buffer := d\<rparr> | None \<Rightarrow> t1)) }
      else do { t \<leftarrow> execute_simple_command_with_redirect e args s; Some (0, t) })"

text \<open>The buffer goes into the file, which is created if it is not there.\<close>

definition store_output :: "'r merl_env \<Rightarrow> string \<Rightarrow> int \<Rightarrow> 'r merl \<Rightarrow> (int \<times> 'r merl) option" where
  "store_output e full_path code s = do {
     node \<leftarrow> vfs_find_node (shell_vfs s) (Some full_path);
     w1 \<leftarrow> (if node = None then map_option snd (vfs_create_file (vfs_environment e) (Some full_path) (shell_vfs s))
           else Some (shell_vfs s));
     (if redirect_buffer s \<noteq> [] then do {
        (r, w2) \<leftarrow> vfs_write_file (vfs_environment e) (Some full_path) (Some (redirect_buffer s)) w1;
        Some (if r = 0
              then (code, say (''Output redirection completed to: '' @ full_path @ '' ('' @
                      dec (length (redirect_buffer s)) @ ('' bytes)'' @ nl)) (s\<lparr>shell_vfs := w2\<rparr>))
              else (1, say (''Error: Failed to write to VFS file '' @ CHR 0x27 # full_path @ CHR 0x27 # nl)
                      (s\<lparr>shell_vfs := w2\<rparr>))) }
      else Some (code, say (''Output redirection completed to: '' @ full_path @ ('' (empty)'' @ nl))
                         (s\<lparr>shell_vfs := w1\<rparr>))) }"

text \<open>The buffer is emptied, the capture begins, and for \<^verbatim>\<open>>>\<close> the contents are loaded.\<close>

definition redirect_start :: "'r merl_env \<Rightarrow> string \<Rightarrow> bool \<Rightarrow> 'r merl \<Rightarrow> 'r merl option" where
  "redirect_start e full_path app s =
     (let s1 = (say (''Redirecting output to: '' @ full_path @
              (if app then ('' (append)'' @ nl) else ('' (overwrite)'' @ nl))) s)
            \<lparr>redirect_buffer := [], redirect_active := True\<rparr>
      in if app then load_existing e full_path s1 else Some s1)"

definition execute_command_with_redirection ::
  "'r merl_env \<Rightarrow> string list \<Rightarrow> string option \<Rightarrow> string option \<Rightarrow> bool \<Rightarrow> 'r merl \<Rightarrow> (int \<times> 'r merl) option" where
  "execute_command_with_redirection e args inp out app s =
     (if out \<noteq> None \<and> out \<noteq> Some [] then do {
        let full_path = build_full_path 512 (current_directory (shell_vfs s)) (the out);
        s2 \<leftarrow> redirect_start e full_path app s;
        (code, s3) \<leftarrow> run_captured e args s2;
        (code', s4) \<leftarrow> store_output e full_path code (s3\<lparr>redirect_active := False\<rparr>);
        Some (code', if inp \<noteq> None \<and> inp \<noteq> Some []
              then say (''Note: Input redirection from '' @ CHR 0x27 # the inp @ CHR 0x27 #
                     ('' not yet fully implemented'' @ nl)) s4 else s4) }
      else execute_simple_command_with_exit_code e args s)"

section \<open>Pipelines\<close>

text \<open>The pointer of \<^verbatim>\<open>strtok\<close> after a buffer has been split and freed: the 256th word is fetched
  and dropped, later ones stay behind.\<close>

definition tok_after :: "string \<Rightarrow> tok_state" where
  "tok_after buf = (if length (words_of buf) \<le> MAX_ARGS + 1 then Tok_end else Tok_freed)"

definition execute_command_with_parsing :: "'r merl_env \<Rightarrow> string \<Rightarrow> 'r merl \<Rightarrow> (int \<times> 'r merl) option" where
  "execute_command_with_parsing e cmd_str s =
     (let r = parse_redirections cmd_str; args = parse_args (work_copy r);
          s1 = s\<lparr>strtok_state := tok_after (work_copy r)\<rparr>
      in if args = [] then Some (1, s1)
         else execute_command_with_redirection e args (input_file r) (output_file r) (append_mode r) s1)"

definition temp_pipe_file :: string where "temp_pipe_file = ''/tmp/pipe_data''"

text \<open>The second command of a pipe: \<^verbatim>\<open>grep\<close> and the commands that show a file get the temporary file
  as last argument, for which the vector must have room.\<close>

definition run_second :: "'r merl_env \<Rightarrow> string list \<Rightarrow> 'r merl \<Rightarrow> 'r merl option" where
  "run_second e args s =
     (case args of [] \<Rightarrow> Some s
      | name # _ \<Rightarrow>
          if name = ''grep'' then
            (if length args \<ge> 2 then
               (if length args < MAX_ARGS then execute_simple_command e (args @ [temp_pipe_file]) s else None)
             else Some (say (''Error: grep requires a pattern argument'' @ nl) s))
          else if name \<in> {''head'', ''tail'', ''cat'', ''less''} then
            (if length args < MAX_ARGS then execute_simple_command e (args @ [temp_pipe_file]) s else None)
          else map_option snd (execute_command_with_redirection e args (Some temp_pipe_file) None False s))"

definition execute_pipeline :: "'r merl_env \<Rightarrow> string \<Rightarrow> 'r merl \<Rightarrow> (int \<times> 'r merl) option" where
  "execute_pipeline e pipeline_str s =
     (case strchr pipeline_str CHR ''|'' of
        Some i \<Rightarrow> do {
          let first_cmd = trim_left (take i pipeline_str);
          let second_cmd = trim_left (drop (i + 1) pipeline_str);
          let s1 = say (''Executing pipeline: '' @ first_cmd @ '' | '' @ second_cmd @ nl) s;
          let s2 = s1\<lparr>strtok_state := tok_after first_cmd\<rparr>;
          s3 \<leftarrow> (if parse_args first_cmd \<noteq> []
                then map_option snd
                  (execute_command_with_redirection e (parse_args first_cmd) None (Some temp_pipe_file) False s2)
                else Some s2);
          s4 \<leftarrow> run_second e (parse_args second_cmd) (s3\<lparr>strtok_state := tok_after second_cmd\<rparr>);
          (_, w) \<leftarrow> vfs_delete_file (Some temp_pipe_file) (shell_vfs s4);
          Some (0, s4\<lparr>shell_vfs := w\<rparr>) }
      | None \<Rightarrow> execute_command_with_parsing e pipeline_str s)"

section \<open>Command lines\<close>

definition say_background :: "bool \<Rightarrow> string \<Rightarrow> 'r merl \<Rightarrow> 'r merl" where
  "say_background background cmd s =
     (if background then say ('': '' @ cmd @ nl) (terminal_print_operator ''Executing'' (say ''[Background] '' s))
      else s)"

text \<open>One part of a line between semicolons.\<close>

definition execute_part :: "'r merl_env \<Rightarrow> string \<Rightarrow> 'r merl \<Rightarrow> 'r merl option" where
  "execute_part e part s =
     (let (cmd, background) = split_background part in
      (case split_conditional cmd of
         (first, Some (is_and, second)) \<Rightarrow> do {
           (r, s1) \<leftarrow> execute_pipeline e first (say_background background first s);
           (if is_and \<and> r = 0 \<or> \<not> is_and \<and> r \<noteq> 0
            then map_option snd (execute_pipeline e (trim_left second)
                   (say_background background (trim_left second) s1))
            else Some s1) }
       | (_, None) \<Rightarrow> map_option snd (execute_pipeline e cmd (say_background background cmd s))))"

text \<open>\<^verbatim>\<open>strtok(NULL, ";")\<close> on a text that is still there: a part and the rest.\<close>

definition next_part :: "string \<Rightarrow> (string \<times> string) option" where
  "next_part rest =
     (let r = dropWhile (\<lambda>c. c = CHR '';'') rest; p = takeWhile (\<lambda>c. c \<noteq> CHR '';'') r
      in if r = [] then None else Some (p, drop (length p + 1) r))"

text \<open>The loop over the parts: each turn asks \<^verbatim>\<open>strtok\<close> for the next part, wherever its static
  pointer is by then.\<close>

partial_function (option) line_loop :: "'r merl_env \<Rightarrow> 'r merl \<Rightarrow> 'r merl option" where
  "line_loop e s =
     (case strtok_state s of
        Tok_at rest \<Rightarrow>
          (case next_part rest of
             None \<Rightarrow> Some (s\<lparr>strtok_state := Tok_end\<rparr>)
           | Some (part, r) \<Rightarrow> do {
               let cmd = trim_right (trim_left part);
               let s1 = s\<lparr>strtok_state := Tok_at r\<rparr>;
               s2 \<leftarrow> (if cmd \<noteq> [] then execute_part e cmd s1 else Some s1);
               line_loop e s2 })
      | Tok_end \<Rightarrow> Some s
      | Tok_freed \<Rightarrow> None
      | Tok_none \<Rightarrow> None)"

declare line_loop.simps [code]

text \<open>The line is shown first, if it is to be highlighted.\<close>

definition show_line :: "string \<Rightarrow> 'r merl \<Rightarrow> 'r merl" where
  "show_line line s =
     (if syntax_highlight s then say nl (highlight_command_parts line (say ''$ '' s)) else s)"

definition parse_and_execute_command_line :: "'r merl_env \<Rightarrow> string \<Rightarrow> 'r merl \<Rightarrow> 'r merl option" where
  "parse_and_execute_command_line e line s =
     line_loop e ((show_line line s)\<lparr>strtok_state := Tok_at line\<rparr>)"

definition EXPANDED_COMMAND :: nat where "EXPANDED_COMMAND = 1024"

definition handle_command :: "'r merl_env \<Rightarrow> string option \<Rightarrow> 'r merl \<Rightarrow> 'r merl option" where
  "handle_command e command s =
     (case command of None \<Rightarrow> Some s
      | Some c \<Rightarrow>
          (let trimmed = trim_left c in
           if trimmed = [] then Some s
           else (let s1 = s\<lparr>command_history := add_to_history trimmed (command_history s)\<rparr>
                 in parse_and_execute_command_line e
                      (expand_env_variables (env_vars s1) EXPANDED_COMMAND trimmed) s1)))"

section \<open>The input loop\<close>

text \<open>The test of an input line for corruption, byte by byte. The prompt and the messages of the
  loop are left out.\<close>

definition code_at :: "string \<Rightarrow> nat \<Rightarrow> nat" where
  "code_at inp i = of_char (inp ! i)"

definition corrupt_byte :: "string \<Rightarrow> nat \<Rightarrow> bool" where
  "corrupt_byte inp i \<longleftrightarrow>
     (let c = code_at inp i in
        c = 0x1B \<or>
        (i + 2 < length inp \<and> c = 0xEF \<and> code_at inp (i + 1) = 0xBF \<and> code_at inp (i + 2) = 0xBD) \<or>
        (c < 32 \<and> c \<noteq> 9) \<or> c = 0xFF \<or> c = 0xFE \<or>
        (inp ! i \<in> {CHR ''A'', CHR ''B'', CHR ''C'', CHR ''D''} \<and> length inp = 1) \<or>
        (c \<ge> 0x80 \<and> (i + 1 = length inp \<or> c \<le> 0xBF \<or> c \<ge> 0xF8)))"

definition input_corrupted :: "string \<Rightarrow> bool" where
  "input_corrupted inp \<longleftrightarrow>
     (inp \<noteq> [] \<and> (code_at inp 0 \<ge> 0x80 \<or> code_at inp 0 < 32 \<and> code_at inp 0 \<noteq> 9)) \<or>
     (\<exists>i \<in> set [0..<length inp]. corrupt_byte inp i)"

text \<open>\<^verbatim>\<open>fgets\<close> into 256 bytes, without the newline.\<close>

definition input_line :: "string \<Rightarrow> string" where
  "input_line raw = takeWhile (\<lambda>c. c \<noteq> CHR 0x0A) (fgets 256 raw)"

definition trim_spaces :: "string \<Rightarrow> string" where
  "trim_spaces s =
     (case dropWhile (\<lambda>c. c = CHR '' '') s of [] \<Rightarrow> []
      | c # cs \<Rightarrow> c # rev (dropWhile (\<lambda>c. c = CHR '' '') (rev cs)))"

fun handle_each :: "'r merl_env \<Rightarrow> string list \<Rightarrow> 'r merl \<Rightarrow> 'r merl option" where
  "handle_each e [] s = Some s"
| "handle_each e (c # cs) s = do {
     s1 \<leftarrow> (if trim_spaces c \<noteq> [] then handle_command e (Some (trim_spaces c)) s else Some s);
     handle_each e cs s1 }"

definition MAX_SEMICOLON_COMMANDS :: nat where "MAX_SEMICOLON_COMMANDS = 10"

text \<open>One turn with an input line: whether the shell ends, and the state.\<close>

definition shell_turn :: "'r merl_env \<Rightarrow> string \<Rightarrow> 'r merl \<Rightarrow> (bool \<times> 'r merl) option" where
  "shell_turn e raw s =
     (let input = input_line raw in
      if input_corrupted input \<or> input = [] then Some (False, s)
      else if input = ''exit'' then Some (True, s)
      else map_option (Pair False)
        (handle_each e (take MAX_SEMICOLON_COMMANDS (strtok_all {CHR '';''} (take 511 input))) s))"

text \<open>The loop over the lines the console delivers, until the end of the input, \<^verbatim>\<open>exit\<close> or a reboot.\<close>

fun shell_loop :: "'r merl_env \<Rightarrow> ('r merl \<Rightarrow> bool) \<Rightarrow> string list \<Rightarrow> 'r merl \<Rightarrow> 'r merl option" where
  "shell_loop e rebooting [] s = Some s"
| "shell_loop e rebooting (l # ls) s =
     (if rebooting s then Some s
      else do { (stop, s1) \<leftarrow> shell_turn e l s; if stop then Some s1 else shell_loop e rebooting ls s1 })"

end
