(* ===== verification/MerlFiles.thy ===== *)
theory MerlFiles
  imports MerlExec
begin

text \<open>
  Handlers of the command table of \<^verbatim>\<open>MERL/shell.c\<close> that work on files: \<^verbatim>\<open>cd\<close>, \<^verbatim>\<open>mkdir\<close>, \<^verbatim>\<open>rmdir\<close>,
  \<^verbatim>\<open>touch\<close>, \<^verbatim>\<open>rm\<close>, \<^verbatim>\<open>cp\<close>, \<^verbatim>\<open>mv\<close>, \<^verbatim>\<open>ln\<close>, \<^verbatim>\<open>which\<close>, \<^verbatim>\<open>echo\<close>, \<^verbatim>\<open>cat\<close>, \<^verbatim>\<open>head\<close>, \<^verbatim>\<open>tail\<close>, \<^verbatim>\<open>grep\<close>, \<^verbatim>\<open>sort\<close>, \<^verbatim>\<open>uniq\<close>, \<^verbatim>\<open>wc\<close>,
  \<^verbatim>\<open>diff\<close>. \<open>e\<close> is the file system's environment; \<open>u\<close> gives the usage text a command prints. File
  sizes are naturals; the casts of them to \<^verbatim>\<open>int\<close> keep the value below 2 GB.
\<close>

section \<open>Paths and file contents\<close>

definition cwd_of :: "'r merl \<Rightarrow> string" where
  "cwd_of s = current_directory (shell_vfs s)"

text \<open>Expansion, then the working directory before a relative path.\<close>

definition command_path :: "string \<Rightarrow> string \<Rightarrow> string" where
  "command_path cwd arg =
     (let p = fst (expand_path 0 cwd 512 arg)
      in if p = [] \<or> hd p \<noteq> CHR ''/'' then take 511 (cwd @ ''/'' @ p) else p)"

definition on_vfs :: "(vfs_world \<Rightarrow> (int \<times> vfs_world) option) \<Rightarrow> 'r merl \<Rightarrow> (int \<times> 'r merl) option" where
  "on_vfs f s = map_option (\<lambda>(r, w). (r, s\<lparr>shell_vfs := w\<rparr>)) (f (shell_vfs s))"

definition quote :: "string \<Rightarrow> string" where
  "quote t = CHR 0x27 # t @ [CHR 0x27]"

text \<open>An operation on one path that reports success or failure.\<close>

definition path_command ::
  "(vfs_world \<Rightarrow> (int \<times> vfs_world) option) \<Rightarrow> string \<Rightarrow> string \<Rightarrow> 'r merl \<Rightarrow> 'r merl option" where
  "path_command f good bad s = do { (r, s1) \<leftarrow> on_vfs f s; Some (say (if r = 0 then good else bad) s1) }"

definition text_of :: "u8 list \<Rightarrow> string" where
  "text_of bs = map (\<lambda>b. char_of (unat b)) bs"

text \<open>\<^verbatim>\<open>vfs_read_file\<close> as the commands use it: the contents, if it succeeds and there are any.\<close>

definition read_text :: "vfs_env \<Rightarrow> string \<Rightarrow> 'r merl \<Rightarrow> (string option \<times> 'r merl) option" where
  "read_text e path s = do {
     (r, d, w) \<leftarrow> vfs_read_file e (Some path) (shell_vfs s);
     (case d of
        Some (Some bs, n) \<Rightarrow>
          if r \<noteq> 0 then Some (None, s\<lparr>shell_vfs := w\<rparr>)
          else if n \<le> length bs then Some (Some (text_of (take n bs)), s\<lparr>shell_vfs := w\<rparr>) else None
      | _ \<Rightarrow> Some (None, s\<lparr>shell_vfs := w\<rparr>)) }"

section \<open>Directories and files\<close>

definition cd_command :: "string list \<Rightarrow> 'r merl \<Rightarrow> 'r merl option" where
  "cd_command argv s =
     (if length argv < 2
      then path_command (vfs_chdir (Some ''/home'')) (''Changed directory to: /home'' @ nl)
             (''cd: Cannot access home directory'' @ nl) s
      else do {
        let p = fst (expand_path 0 (cwd_of s) 512 (argv ! 1));
        (r, s1) \<leftarrow> on_vfs (vfs_chdir (Some p)) s;
        Some (if r = 0 then say (''Changed directory to: '' @ cwd_of s1 @ nl) s1
              else say (''cd: '' @ p @ '': No such directory'' @ nl) s1) })"

definition mkdir_command :: "(string \<Rightarrow> string) \<Rightarrow> vfs_env \<Rightarrow> string list \<Rightarrow> 'r merl \<Rightarrow> 'r merl option" where
  "mkdir_command u e argv s =
     (if length argv < 2 then Some (say (u ''mkdir'') s)
      else (let p = command_path (cwd_of s) (argv ! 1)
            in path_command (vfs_mkdir e (Some p)) (''Directory created: '' @ p @ nl)
                 (''mkdir: Failed to create directory '' @ quote p @ nl) s))"

definition rmdir_command :: "(string \<Rightarrow> string) \<Rightarrow> string list \<Rightarrow> 'r merl \<Rightarrow> 'r merl option" where
  "rmdir_command u argv s =
     (if length argv < 2 then Some (say (u ''rmdir'') s)
      else (let p = command_path (cwd_of s) (argv ! 1)
            in path_command (vfs_rmdir (Some p)) (''Directory removed: '' @ p @ nl)
                 (''rmdir: Failed to remove directory '' @ quote p @ nl) s))"

definition touch_command :: "(string \<Rightarrow> string) \<Rightarrow> vfs_env \<Rightarrow> string list \<Rightarrow> 'r merl \<Rightarrow> 'r merl option" where
  "touch_command u e argv s =
     (if length argv < 2 then Some (say (u ''touch'') s)
      else (let p = command_path (cwd_of s) (argv ! 1)
            in path_command (vfs_create_file e (Some p)) (''File created: '' @ p @ nl)
                 (''touch: Failed to create file '' @ quote p @ nl) s))"

definition rm_command :: "(string \<Rightarrow> string) \<Rightarrow> string list \<Rightarrow> 'r merl \<Rightarrow> 'r merl option" where
  "rm_command u argv s =
     (if length argv < 2 then Some (say (u ''rm'') s)
      else (let p = command_path (cwd_of s) (argv ! 1)
            in path_command (vfs_delete_file (Some p)) (''File removed: '' @ p @ nl)
                 (''rm: Failed to remove file '' @ quote p @ nl) s))"

text \<open>The nodes' data are copied directly, into a block of the source's size.\<close>

definition copy_node_data :: "vfs_env \<Rightarrow> vptr \<Rightarrow> vptr option \<Rightarrow> vfs_world \<Rightarrow> vfs_world option" where
  "copy_node_data e src dest w =
     (case dest of None \<Rightarrow> Some w
      | Some d \<Rightarrow> do {
          n \<leftarrow> vnodes w src;
          (case vdata n of None \<Rightarrow> Some w
           | Some bs \<Rightarrow> do {
               m \<leftarrow> vnodes w d;
               (if \<not> data_malloc e (vsize n) then Some (w\<lparr>vnodes := (vnodes w)(d \<mapsto> m\<lparr>vdata := None\<rparr>)\<rparr>)
                else if vsize n \<le> length bs
                then Some (w\<lparr>vnodes := (vnodes w)(d \<mapsto> m\<lparr>vdata := Some (take (vsize n) bs), vsize := vsize n\<rparr>)\<rparr>)
                else None) }) })"

text \<open>The part \<^verbatim>\<open>cp\<close> and \<^verbatim>\<open>mv\<close> share: 1 when the source is missing, 2 when it is a directory, 3 when
  the destination cannot be created, 0 after the copy.\<close>

definition copy_file :: "vfs_env \<Rightarrow> string \<Rightarrow> string \<Rightarrow> vfs_world \<Rightarrow> (int \<times> vfs_world) option" where
  "copy_file e src dest w = do {
     src_node \<leftarrow> vfs_find_node w (Some src);
     (case src_node of None \<Rightarrow> Some (1, w)
      | Some a \<Rightarrow> do {
          n \<leftarrow> vnodes w a;
          (if is_directory n then Some (2, w)
           else do {
             (r, w1) \<leftarrow> vfs_create_file e (Some dest) w;
             (if r \<noteq> 0 then Some (3, w1)
              else do {
                dest_node \<leftarrow> vfs_find_node w1 (Some dest);
                w2 \<leftarrow> copy_node_data e a dest_node w1;
                Some (0, w2) }) }) }) }"

definition cp_command :: "(string \<Rightarrow> string) \<Rightarrow> vfs_env \<Rightarrow> string list \<Rightarrow> 'r merl \<Rightarrow> 'r merl option" where
  "cp_command u e argv s =
     (if length argv < 3 then Some (say (u ''cp'') s)
      else do {
        let src = command_path (cwd_of s) (argv ! 1);
        let dest = command_path (cwd_of s) (argv ! 2);
        (r, s1) \<leftarrow> on_vfs (copy_file e src dest) s;
        Some (say (if r = 1 then ''cp: '' @ src @ '': No such file or directory'' @ nl
                   else if r = 2 then ''cp: '' @ src @ '': Is a directory (use -r for recursive copy)'' @ nl
                   else if r = 3 then ''cp: Failed to create destination file '' @ dest @ nl
                   else ''File copied from '' @ src @ '' to '' @ dest @ nl) s1) })"

definition mv_command :: "(string \<Rightarrow> string) \<Rightarrow> vfs_env \<Rightarrow> string list \<Rightarrow> 'r merl \<Rightarrow> 'r merl option" where
  "mv_command u e argv s =
     (if length argv < 3 then Some (say (u ''mv'') s)
      else do {
        let src = command_path (cwd_of s) (argv ! 1);
        let dest = command_path (cwd_of s) (argv ! 2);
        (r, s1) \<leftarrow> on_vfs (copy_file e src dest) s;
        (if r = 1 then Some (say (''mv: '' @ src @ '': No such file or directory'' @ nl) s1)
         else if r = 2 then Some (say (''mv: '' @ src @ '': Is a directory (directory moves not yet implemented)'' @ nl) s1)
         else if r = 3 then Some (say (''mv: Failed to create destination file '' @ dest @ nl) s1)
         else path_command (vfs_delete_file (Some src)) (''File moved from '' @ src @ '' to '' @ dest @ nl)
                (''mv: Warning - copied but failed to remove source file'' @ nl) s1) })"

fun ln_arguments :: "string list \<Rightarrow> bool \<Rightarrow> string list \<Rightarrow> bool \<times> string list" where
  "ln_arguments [] symbolic names = (symbolic, names)"
| "ln_arguments (a # as) symbolic names =
     (if a = ''-s'' then ln_arguments as True names
      else if length names < 2 then ln_arguments as symbolic (names @ [a])
      else ln_arguments as symbolic names)"

definition ln_command :: "(string \<Rightarrow> string) \<Rightarrow> vfs_env \<Rightarrow> string list \<Rightarrow> 'r merl \<Rightarrow> 'r merl option" where
  "ln_command u e argv s =
     (if length argv < 3 then Some (say (u ''ln'') s)
      else (case ln_arguments (tl argv) False [] of
              (symbolic, [target, link]) \<Rightarrow>
                if symbolic
                then path_command
                       (vfs_create_symlink e (Some (build_full_path 512 (cwd_of s) link))
                          (Some (build_full_path 512 (cwd_of s) target)))
                       (''Created symbolic link '' @ quote link @ '' -> '' @ quote target @ nl)
                       (''ln: failed to create symbolic link'' @ nl) s
                else Some (say (''ln: hard links not supported, use -s for symbolic links'' @ nl) s)
            | _ \<Rightarrow> Some (say (''ln: missing target or link name'' @ nl) s)))"

fun first_existing :: "vfs_world \<Rightarrow> string list \<Rightarrow> string option option" where
  "first_existing w [] = Some None"
| "first_existing w (p # ps) = do {
     n \<leftarrow> vfs_find_node w (Some p);
     if n \<noteq> None then Some (Some p) else first_existing w ps }"

definition which_command :: "(string \<Rightarrow> string) \<Rightarrow> string list \<Rightarrow> 'r merl \<Rightarrow> 'r merl option" where
  "which_command u argv s =
     (if length argv < 2 then Some (say (u ''which'') s)
      else if argv ! 1 = ''--help'' \<or> argv ! 1 = ''-h'' then Some (say (u ''which --help'') s)
      else if map_of command_table (argv ! 1) \<noteq> None then Some (say (''/bin/'' @ argv ! 1 @ nl) s)
      else do {
        r \<leftarrow> first_existing (shell_vfs s)
               (map (\<lambda>d. take 511 (d @ ''/'' @ argv ! 1)) [''/bin'', ''/usr/bin'', ''/scripts'']);
        Some (say (case r of Some p \<Rightarrow> p @ nl | None \<Rightarrow> ''which: '' @ argv ! 1 @ '': command not found'' @ nl) s) })"

text \<open>\<^verbatim>\<open>echo\<close> writes through \<^verbatim>\<open>redirect_printf\<close>.\<close>

definition echo_command :: "string list \<Rightarrow> 'r merl \<Rightarrow> 'r merl option" where
  "echo_command argv s = Some (redirect_printf nl (foldl (\<lambda>s a. redirect_printf (a @ '' '') s) s (tl argv)))"

section \<open>Showing files\<close>

text \<open>The common beginning of \<^verbatim>\<open>head\<close>, \<^verbatim>\<open>tail\<close>, \<^verbatim>\<open>grep\<close> and \<^verbatim>\<open>cat\<close>: a missing node (1), a directory (2),
  nothing to read (3), or the contents (0).\<close>

definition open_shown :: "vfs_env \<Rightarrow> string \<Rightarrow> 'r merl \<Rightarrow> (int \<times> string \<times> 'r merl) option" where
  "open_shown e path s = do {
     node \<leftarrow> vfs_find_node (shell_vfs s) (Some path);
     (case node of None \<Rightarrow> Some (1, [], s)
      | Some a \<Rightarrow> do {
          n \<leftarrow> vnodes (shell_vfs s) a;
          (if is_directory n then Some (2, [], s)
           else do {
             (t, s1) \<leftarrow> read_text e path s;
             Some (case t of Some (c # cs) \<Rightarrow> (0, c # cs, s1) | _ \<Rightarrow> (3, [], s1)) }) }) }"

definition show_file ::
  "vfs_env \<Rightarrow> string \<Rightarrow> string \<Rightarrow> string \<Rightarrow> (string \<Rightarrow> string) \<Rightarrow> 'r merl \<Rightarrow> 'r merl option" where
  "show_file e cmd path none f s = do {
     (r, t, s1) \<leftarrow> open_shown e path s;
     Some (say (if r = 1 then cmd @ '': '' @ path @ '': No such file or directory'' @ nl
                else if r = 2 then cmd @ '': '' @ path @ '': Is a directory'' @ nl
                else if r = 3 then none else f t) s1) }"

abbreviation newline_char :: char where "newline_char \<equiv> CHR 0x0A"

text \<open>Characters until \<open>n\<close> newlines have been put out.\<close>

fun head_loop :: "int \<Rightarrow> string \<Rightarrow> string" where
  "head_loop n [] = []"
| "head_loop n (c # cs) =
     (if n \<le> 0 then [] else c # head_loop (if c = newline_char then n - 1 else n) cs)"

definition end_line :: "string \<Rightarrow> string" where
  "end_line t = (if last t \<noteq> newline_char then nl else [])"

definition head_text :: "int \<Rightarrow> string \<Rightarrow> string" where
  "head_text n t = head_loop n t @ end_line t"

text \<open>The position where the target line begins; 0 if it is not reached.\<close>

fun tail_start :: "int \<Rightarrow> nat \<Rightarrow> string \<Rightarrow> nat" where
  "tail_start k i [] = 0"
| "tail_start k i (c # cs) =
     (if k \<le> 0 then i else tail_start (if c = newline_char then k - 1 else k) (Suc i) cs)"

definition tail_text :: "int \<Rightarrow> string \<Rightarrow> string" where
  "tail_text n t =
     (let total = int (count_list t newline_char); target = (if total > n then total - n else 0)
      in drop (tail_start target 0 t) t @ end_line t)"

text \<open>The lines \<^verbatim>\<open>grep\<close> puts out; the last character ends a line without being looked at.\<close>

fun grep_lines :: "string \<Rightarrow> string \<Rightarrow> string \<Rightarrow> string" where
  "grep_lines pat buf [] = []"
| "grep_lines pat buf (c # cs) =
     (if c = newline_char \<or> cs = []
      then (let l = takeWhile (\<lambda>c. c \<noteq> CHR 0x00) buf
            in (if strstr l pat \<noteq> None then l @ nl else []) @ grep_lines pat [] cs)
      else grep_lines pat (if length buf < 1023 then buf @ [c] else buf) cs)"

text \<open>The line count and the file of \<^verbatim>\<open>head\<close> and \<^verbatim>\<open>tail\<close>.\<close>

definition count_and_file :: "string list \<Rightarrow> (int \<times> string) option option" where
  "count_and_file argv =
     (if length argv = 2 then Some (Some (10, argv ! 1))
      else if length argv = 4 \<and> argv ! 1 = ''-n'' then map_option (\<lambda>n. Some (n, argv ! 3)) (atoi (argv ! 2))
      else Some None)"

definition head_command :: "(string \<Rightarrow> string) \<Rightarrow> vfs_env \<Rightarrow> string list \<Rightarrow> 'r merl \<Rightarrow> 'r merl option" where
  "head_command u e argv s = do {
     a \<leftarrow> count_and_file argv;
     (case a of None \<Rightarrow> Some (say (u ''head'') s)
      | Some (n, f) \<Rightarrow>
          show_file e ''head'' (command_path (cwd_of s) f) (''(empty file)'' @ nl) (head_text n) s) }"

definition tail_command :: "(string \<Rightarrow> string) \<Rightarrow> vfs_env \<Rightarrow> string list \<Rightarrow> 'r merl \<Rightarrow> 'r merl option" where
  "tail_command u e argv s = do {
     a \<leftarrow> count_and_file argv;
     (case a of None \<Rightarrow> Some (say (u ''tail'') s)
      | Some (n, f) \<Rightarrow>
          show_file e ''tail'' (command_path (cwd_of s) f) (''(empty file)'' @ nl) (tail_text n) s) }"

definition grep_command :: "(string \<Rightarrow> string) \<Rightarrow> vfs_env \<Rightarrow> string list \<Rightarrow> 'r merl \<Rightarrow> 'r merl option" where
  "grep_command u e argv s =
     (if length argv < 2 then Some (say (u ''grep'') s)
      else if length argv < 3 then Some (say (''grep: no input source specified'' @ nl) s)
      else show_file e ''grep'' (command_path (cwd_of s) (argv ! 2)) [] (grep_lines (argv ! 1) []) s)"

text \<open>\<^verbatim>\<open>%6d\<close> and \<^verbatim>\<open>%8d\<close>\<close>

definition pad_dec :: "nat \<Rightarrow> nat \<Rightarrow> string" where
  "pad_dec w n = replicate (w - length (dec n)) CHR '' '' @ dec n"

text \<open>\<^verbatim>\<open>cat\<close> with flags, over the lines; the last one has no newline of its own.\<close>

fun cat_lines :: "parsed_command \<Rightarrow> nat \<Rightarrow> bool \<Rightarrow> string list \<Rightarrow> string" where
  "cat_lines cmd k prev_blank [] = []"
| "cat_lines cmd k prev_blank (l # ls) =
     (if has_flag cmd ''-s'' \<and> l = [] \<and> prev_blank then cat_lines cmd k prev_blank ls
      else (if has_flag cmd ''-n'' \<or> has_flag cmd ''-b'' \<and> l \<noteq> [] then pad_dec 6 k @ [CHR 0x09] else []) @
           l @ (if has_flag cmd ''-E'' \<and> ls \<noteq> [] then ''$'' else []) @ (if ls \<noteq> [] then nl else []) @
           cat_lines cmd (Suc k) (l = []) ls)"

definition cat_text :: "parsed_command \<Rightarrow> string \<Rightarrow> string" where
  "cat_text cmd t =
     (if has_flag cmd ''-n'' \<or> has_flag cmd ''-b'' \<or> has_flag cmd ''-s'' \<or> has_flag cmd ''-E''
      then cat_lines cmd 1 False (split_at {newline_char} t)
      else t @ end_line t)"

fun cat_files :: "vfs_env \<Rightarrow> parsed_command \<Rightarrow> string list \<Rightarrow> 'r merl \<Rightarrow> 'r merl option" where
  "cat_files e cmd [] s = Some s"
| "cat_files e cmd (f # fs) s = do {
     let p = command_path (cwd_of s) f;
     (r, t, s1) \<leftarrow> open_shown e p s;
     cat_files e cmd fs
       (if r = 1 then terminal_print_error ('': No such file or directory'' @ nl)
                        (terminal_print_path p (terminal_print_error ''cat: '' s1))
        else if r = 2 then terminal_print_error ('': Is a directory'' @ nl)
                        (terminal_print_path p (terminal_print_error ''cat: '' s1))
        else if r = 3 then say (''(empty file)'' @ nl) s1 else say (cat_text cmd t) s1) }"

definition cat_command :: "(string \<Rightarrow> string) \<Rightarrow> vfs_env \<Rightarrow> string list \<Rightarrow> 'r merl \<Rightarrow> 'r merl option" where
  "cat_command u e argv s =
     (let cmd = parse_command_advanced_from_args argv in
      if has_flag cmd ''-h'' \<or> has_flag cmd ''--help'' then Some (say (u ''cat --help'') s)
      else if length (pc_args cmd) < 2
      then Some (say ('' [OPTIONS] FILE...'' @ nl) (terminal_print_command ''cat'' (terminal_print_error ''Usage: '' s)))
      else cat_files e cmd (tl (pc_args cmd)) s)"

section \<open>Text commands\<close>

text \<open>\<^verbatim>\<open>strcmp\<close>, as the sign of the difference.\<close>

fun strcmp :: "string \<Rightarrow> string \<Rightarrow> int" where
  "strcmp [] [] = 0"
| "strcmp [] (d # ds) = -1"
| "strcmp (c # cs) [] = 1"
| "strcmp (c # cs) (d # ds) =
     (if c = d then strcmp cs ds else if (of_char c :: nat) < of_char d then -1 else 1)"

definition c_str :: "string \<Rightarrow> string" where
  "c_str t = takeWhile (\<lambda>c. c \<noteq> CHR 0x00) t"

text \<open>A file as at most 1000 C strings.\<close>

definition file_lines :: "string \<Rightarrow> string list" where
  "file_lines t = map c_str (take 1000 (split_at {newline_char} t))"

record sort_options =
  so_reverse :: bool
  so_numeric :: bool
  so_unique :: bool
  so_file :: "string option"

fun sort_arguments :: "string list \<Rightarrow> sort_options \<Rightarrow> sort_options" where
  "sort_arguments [] x = x"
| "sort_arguments (a # as) x = sort_arguments as
     (if a = ''-r'' \<or> a = ''--reverse'' then x\<lparr>so_reverse := True\<rparr>
      else if a = ''-n'' \<or> a = ''--numeric'' then x\<lparr>so_numeric := True\<rparr>
      else if a = ''-u'' \<or> a = ''--unique'' then x\<lparr>so_unique := True\<rparr>
      else x\<lparr>so_file := Some a\<rparr>)"

text \<open>The comparison; a difference of numbers that is no \<^verbatim>\<open>int\<close> is undefined.\<close>

definition sort_compare :: "bool \<Rightarrow> string \<Rightarrow> string \<Rightarrow> int option" where
  "sort_compare numeric a b =
     (if numeric then do { x \<leftarrow> atoi a; y \<leftarrow> atoi b; if fits_int (x - y) then Some (x - y) else None }
      else Some (strcmp a b))"

definition must_swap :: "sort_options \<Rightarrow> string \<Rightarrow> string \<Rightarrow> bool option" where
  "must_swap x a b = map_option (\<lambda>c. so_reverse x \<and> c < 0 \<or> \<not> so_reverse x \<and> c > 0) (sort_compare (so_numeric x) a b)"

text \<open>The inner loop: \<open>k\<close> comparisons of neighbours, and the outer loop over the passes.\<close>

fun bubble_pass :: "('a \<Rightarrow> 'a \<Rightarrow> bool option) \<Rightarrow> nat \<Rightarrow> 'a list \<Rightarrow> 'a list option" where
  "bubble_pass sw (Suc k) (a # b # ls) = do {
     t \<leftarrow> sw a b;
     if t then map_option (Cons b) (bubble_pass sw k (a # ls)) else map_option (Cons a) (bubble_pass sw k (b # ls)) }"
| "bubble_pass sw k ls = Some ls"

fun bubble_passes :: "('a \<Rightarrow> 'a \<Rightarrow> bool option) \<Rightarrow> nat \<Rightarrow> 'a list \<Rightarrow> 'a list option" where
  "bubble_passes sw 0 ls = Some ls"
| "bubble_passes sw (Suc k) ls = do { ls' \<leftarrow> bubble_pass sw (Suc k) ls; bubble_passes sw k ls' }"

definition bubble_sort :: "('a \<Rightarrow> 'a \<Rightarrow> bool option) \<Rightarrow> 'a list \<Rightarrow> 'a list option" where
  "bubble_sort sw ls = bubble_passes sw (length ls - 1) ls"

text \<open>The printing loop frees each line it prints, so that with \<^verbatim>\<open>-u\<close> the second line is compared with
  a freed one.\<close>

fun print_sorted :: "bool \<Rightarrow> bool \<Rightarrow> string list \<Rightarrow> string option" where
  "print_sorted unique first [] = Some []"
| "print_sorted unique first (l # ls) =
     (if unique \<and> \<not> first then None else map_option (\<lambda>t. l @ nl @ t) (print_sorted unique False ls))"

definition sort_text :: "sort_options \<Rightarrow> string \<Rightarrow> string option" where
  "sort_text x t = do { ls \<leftarrow> bubble_sort (must_swap x) (file_lines t); print_sorted (so_unique x) True ls }"

definition sort_command :: "(string \<Rightarrow> string) \<Rightarrow> vfs_env \<Rightarrow> string list \<Rightarrow> 'r merl \<Rightarrow> 'r merl option" where
  "sort_command u e argv s =
     (if length argv < 2 then Some (say (u ''sort'') s)
      else if list_ex (\<lambda>a. a = ''--help'' \<or> a = ''-h'') (tl argv) then Some (say (u ''sort --help'') s)
      else (let x = sort_arguments (tl argv) \<lparr>so_reverse = False, so_numeric = False, so_unique = False, so_file = None\<rparr> in
        case so_file x of None \<Rightarrow> Some (say (''sort: no input file specified'' @ nl) s)
        | Some f \<Rightarrow> do {
            let p = build_full_path 512 (cwd_of s) f;
            (t, s1) \<leftarrow> read_text e p s;
            (case t of None \<Rightarrow> Some (say (''sort: '' @ p @ '': No such file or directory'' @ nl) s1)
             | Some txt \<Rightarrow> do { out \<leftarrow> sort_text x txt; Some (say out s1) }) }))"

record uniq_options =
  uo_count :: bool
  uo_duplicates :: bool
  uo_unique :: bool
  uo_file :: "string option"

fun uniq_arguments :: "string list \<Rightarrow> uniq_options \<Rightarrow> uniq_options" where
  "uniq_arguments [] x = x"
| "uniq_arguments (a # as) x = uniq_arguments as
     (if a = ''-c'' then x\<lparr>uo_count := True\<rparr> else if a = ''-d'' then x\<lparr>uo_duplicates := True\<rparr>
      else if a = ''-u'' then x\<lparr>uo_unique := True\<rparr> else x\<lparr>uo_file := Some a\<rparr>)"

definition uniq_print :: "uniq_options \<Rightarrow> string \<Rightarrow> nat \<Rightarrow> string" where
  "uniq_print x l n =
     (if l = [] \<or> uo_duplicates x \<and> n = 1 \<or> uo_unique x \<and> n > 1 then []
      else if uo_count x then pad_dec 6 n @ '' '' @ l @ nl else l @ nl)"

fun uniq_loop :: "uniq_options \<Rightarrow> string \<Rightarrow> nat \<Rightarrow> string list \<Rightarrow> string" where
  "uniq_loop x prev n [] = uniq_print x prev n"
| "uniq_loop x prev n (l # ls) =
     (if l = prev then uniq_loop x prev (n + 1) ls else uniq_print x prev n @ uniq_loop x l 1 ls)"

definition uniq_text :: "uniq_options \<Rightarrow> string \<Rightarrow> string" where
  "uniq_text x t = uniq_loop x [] 1 (map (\<lambda>l. c_str (take 1023 l)) (split_at {newline_char} t))"

definition uniq_command :: "(string \<Rightarrow> string) \<Rightarrow> vfs_env \<Rightarrow> string list \<Rightarrow> 'r merl \<Rightarrow> 'r merl option" where
  "uniq_command u e argv s =
     (if length argv < 2 then Some (say (u ''uniq'') s)
      else (let x = uniq_arguments (tl argv) \<lparr>uo_count = False, uo_duplicates = False, uo_unique = False, uo_file = None\<rparr> in
        case uo_file x of None \<Rightarrow> Some (say (''uniq: no input file specified'' @ nl) s)
        | Some f \<Rightarrow> do {
            let p = build_full_path 512 (cwd_of s) f;
            (t, s1) \<leftarrow> read_text e p s;
            Some (say (case t of None \<Rightarrow> ''uniq: '' @ p @ '': No such file or directory'' @ nl
                       | Some txt \<Rightarrow> uniq_text x txt) s1) }))"

fun count_words :: "bool \<Rightarrow> string \<Rightarrow> nat" where
  "count_words in_word [] = 0"
| "count_words in_word (c # cs) =
     (if is_space c then count_words False cs else (if in_word then 0 else 1) + count_words True cs)"

fun wc_arguments :: "string list \<Rightarrow> bool \<times> bool \<times> bool \<times> string option \<Rightarrow> bool \<times> bool \<times> bool \<times> string option" where
  "wc_arguments [] x = x"
| "wc_arguments (a # as) (l, w, c, f) = wc_arguments as
     (if a = ''-l'' then (True, w, c, f) else if a = ''-w'' then (l, True, c, f)
      else if a = ''-c'' then (l, w, True, f) else (l, w, c, Some a))"

definition wc_command :: "(string \<Rightarrow> string) \<Rightarrow> vfs_env \<Rightarrow> string list \<Rightarrow> 'r merl \<Rightarrow> 'r merl option" where
  "wc_command u e argv s =
     (if length argv < 2 then Some (say (u ''wc'') s)
      else (case wc_arguments (tl argv) (False, False, False, None) of
          (_, _, _, None) \<Rightarrow> Some (say (''wc: no input file specified'' @ nl) s)
        | (l, w, c, Some f) \<Rightarrow> do {
            let p = build_full_path 512 (cwd_of s) f;
            (t, s1) \<leftarrow> read_text e p s;
            Some (say (case t of None \<Rightarrow> ''wc: '' @ p @ '': No such file or directory'' @ nl
               | Some txt \<Rightarrow>
                   (let lines = count_list txt newline_char; words = count_words False txt; chars = length txt in
                    if l then dec lines @ nl else if w then dec words @ nl else if c then dec chars @ nl
                    else pad_dec 8 lines @ '' '' @ pad_dec 8 words @ '' '' @ pad_dec 8 chars @ '' '' @ f @ nl)) s1) }))"

fun diff_lines :: "string list \<Rightarrow> string list \<Rightarrow> string" where
  "diff_lines [] [] = []"
| "diff_lines [] (b # bs) = ''+'' @ b @ nl @ diff_lines [] bs"
| "diff_lines (a # as) [] = ''-'' @ a @ nl @ diff_lines as []"
| "diff_lines (a # as) (b # bs) =
     (if a = b then [] else ''-'' @ a @ nl @ ''+'' @ b @ nl) @ diff_lines as bs"

definition diff_command :: "(string \<Rightarrow> string) \<Rightarrow> vfs_env \<Rightarrow> string list \<Rightarrow> 'r merl \<Rightarrow> 'r merl option" where
  "diff_command u e argv s =
     (if length argv < 3 then Some (say (u ''diff'') s)
      else do {
        let p1 = build_full_path 512 (cwd_of s) (argv ! 1);
        let p2 = build_full_path 512 (cwd_of s) (argv ! 2);
        (t1, s1) \<leftarrow> read_text e p1 s;
        (case t1 of None \<Rightarrow> Some (say (''diff: '' @ p1 @ '': No such file or directory'' @ nl) s1)
         | Some a \<Rightarrow> do {
             (t2, s2) \<leftarrow> read_text e p2 s1;
             Some (case t2 of None \<Rightarrow> say (''diff: '' @ p2 @ '': No such file or directory'' @ nl) s2
                   | Some b \<Rightarrow>
                       if a = b then s2
                       else say (''--- '' @ argv ! 1 @ nl @ ''+++ '' @ argv ! 2 @ nl @
                                 diff_lines (file_lines a) (file_lines b)) s2) }) })"

end
