(* ===== verification/VfsProps.thy ===== *)
theory VfsProps
  imports VfsFiles
begin

text \<open>
  Properties of the virtual file system: refinement of the abstract map of paths, memory
  safety of every run of operations, access control, round trips and symbolic links.
\<close>

section \<open>Every operation is defined and keeps the tree\<close>

lemma host_path_loop_defined:
  assumes wf: "vfs_wf h root"
  shows "walk h root ts = Some (Some a) \<Longrightarrow> length s + sum_list (map (\<lambda>t. length t + 1) ts) < 1023 \<Longrightarrow>
    \<exists>x. host_path_loop h a (Some s) s = Some x"
proof (induction ts arbitrary: a s rule: rev_induct)
  case Nil
  with wf_root [OF wf] obtain n where "h a = Some n" "vparent n = None" by auto
  then show ?case by (simp add: host_path_loop.simps)
next
  case (snoc t ts)
  from walk_snocD [OF wf snoc.prems(1)] obtain p n where
    n: "walk h root ts = Some (Some p)" "h a = Some n" "vname n = t" "vparent n = Some p" by blast
  let ?s = "if s \<noteq> [] then t @ backslash @ s else t"
  have "length ?s + sum_list (map (\<lambda>t. length t + 1) ts) < 1023"
    using snoc.prems(2) by (auto simp: backslash_def)
  from snoc.IH [OF n(1) this] this show ?case
    using n by (subst host_path_loop.simps) (auto simp: Let_def)
qed

lemma host_path_safe:
  assumes ok: "vfs_ok w" and loc: "located w ts a n" and len: "sum_list (map (\<lambda>t. length t + 1) ts) < 1023"
  shows "\<exists>x. vfs_get_host_path (Some a) w = Some x"
proof -
  from ok loc obtain fs :: VirtualFS where fs: "vfs_wf (vnodes w) (vfs_root fs)"
    "walk (vnodes w) (vfs_root fs) ts = Some (Some a)" by (rule located_ok)
  from host_path_loop_defined [OF fs, of "[]"] len show ?thesis by (auto simp: vfs_get_host_path_def)
qed

lemma sync_safe:
  assumes ok: "vfs_ok w" and loc: "located w ts a n" and len: "sum_list (map (\<lambda>t. length t + 1) ts) < 1023"
  shows "\<exists>l. (if host_root_directory w \<noteq> [] then map_option snd (vfs_sync_to_host e (Some a) w) else Some w)
    = Some (w\<lparr>host_log := l\<rparr>)"
proof (cases "host_root_directory w = []")
  case True
  then show ?thesis by (intro exI [of _ "host_log w"]) simp
next
  case False
  from host_path_safe [OF assms] obtain x where x: "vfs_get_host_path (Some a) w = Some x" by blast
  from loc have "vnodes w a = Some n" by (auto simp: located_def)
  moreover have "x \<noteq> None" using x False by (auto simp: vfs_get_host_path_def split: bind_splits)
  ultimately show ?thesis using False x
    by (auto simp: vfs_sync_to_host_def vfs_ensure_host_directory_def host_do_def Let_def)
qed

lemma add_safe:
  assumes ok: "vfs_ok w" and loc: "located w (path_tokens pp) p m" and dir: "is_directory m"
    and a: "vnodes w a = None" and sp: "split_path path = Some (pp, nm)"
    and n: "children n = []" "vname n = nm"
  shows "\<exists>w'. do {
       w2 \<leftarrow> vfs_add_child (Some p) (Some a) (w\<lparr>vnodes := (vnodes w)(a \<mapsto> n)\<rparr>);
       w3 \<leftarrow> (if host_root_directory w2 \<noteq> [] then map_option snd (vfs_sync_to_host e (Some a) w2) else Some w2);
       Some (0, w3) } = Some (0 :: int, w') \<and> vfs_ok w'"
proof -
  note att = attach_ok [OF ok loc dir a n]
  have "sum_list (map (\<lambda>t. length t + 1) (path_tokens pp @ [nm])) < 1023"
    using split_path_tokens [OF sp] length_path_tokens [of pp] by simp
  from sync_safe [OF att(1,2) this] obtain l where
    l: "(if host_root_directory (w\<lparr>vnodes := attach p m a n (vnodes w)\<rparr>) \<noteq> []
      then map_option snd (vfs_sync_to_host e (Some a) (w\<lparr>vnodes := attach p m a n (vnodes w)\<rparr>))
      else Some (w\<lparr>vnodes := attach p m a n (vnodes w)\<rparr>))
      = Some (w\<lparr>vnodes := attach p m a n (vnodes w), host_log := l\<rparr>)" by blast
  show ?thesis
    using l att(1) unfolding add_child_attach [OF loc a] bind.bind_lunit
    by (intro exI [of _ "w\<lparr>vnodes := attach p m a n (vnodes w), host_log := l\<rparr>"]) (simp only: log_indep bind.bind_lunit simp_thms)
qed

lemma mkdir_safe:
  assumes ok: "vfs_ok w" and env: "env_ok e" and sp: "split_path p = Some (pp, nm)"
  shows "\<exists>r w'. vfs_mkdir e (Some p) w = Some (r, w') \<and> vfs_ok w'"
proof -
  have len: "length pp \<le> 255" "c_copy 256 nm = nm" using split_path_tokens [OF sp] by simp_all
  obtain fs where fs: "vm_fs w = Some fs" using ok by (auto simp: vfs_ok_def)
  show ?thesis
  proof (cases rule: find_node_cases [OF ok, of pp, unfolded seen_tokens_short [OF len(1)], case_names none found])
    case none
    with sp fs ok show ?thesis by (simp add: vfs_mkdir_def)
  next
    case (found a n)
    then have n: "vnodes w a = Some n" by (auto simp: located_def)
    from child_view(2) [OF ok found(2)] obtain r where r: "find_child (vnodes w) nm (children n) = Some r" by blast
    show ?thesis
    proof (cases "is_directory n \<and> r = None \<and> node_malloc e (vnodes w) \<noteq> None")
      case False
      with sp fs ok found n r show ?thesis
        by (cases r) (auto simp: vfs_mkdir_def vfs_create_directory_node_def)
    next
      case True
      then obtain b where b: "node_malloc e (vnodes w) = Some b" "vnodes w b = None"
        using env by (auto simp: env_ok_def)
      with add_safe [OF ok found(2) _ b(2) sp, of "new_node e w nm True VFS_DEFAULT_DIR_PERMS" e]
        True sp fs found n r len(2) show ?thesis
        by (auto simp: vfs_mkdir_def vfs_create_directory_node_def)
    qed
  qed
qed

lemma create_file_safe:
  assumes ok: "vfs_ok w" and env: "env_ok e" and sp: "split_path p = Some (pp, nm)"
  shows "\<exists>r w'. vfs_create_file e (Some p) w = Some (r, w') \<and> vfs_ok w'"
proof -
  have len: "length pp \<le> 255" "c_copy 256 nm = nm" using split_path_tokens [OF sp] by simp_all
  obtain fs where fs: "vm_fs w = Some fs" using ok by (auto simp: vfs_ok_def)
  show ?thesis
  proof (cases rule: find_node_cases [OF ok, of pp, unfolded seen_tokens_short [OF len(1)], case_names none found])
    case none
    with sp fs ok show ?thesis by (simp add: vfs_create_file_def)
  next
    case (found a n)
    then have n: "vnodes w a = Some n" by (auto simp: located_def)
    show ?thesis
    proof (cases "is_directory n \<and> node_malloc e (vnodes w) \<noteq> None")
      case False
      with sp fs ok found n show ?thesis by (auto simp: vfs_create_file_def vfs_create_file_node_def)
    next
      case True
      then obtain b where b: "node_malloc e (vnodes w) = Some b" "vnodes w b = None"
        using env by (auto simp: env_ok_def)
      with add_safe [OF ok found(2) _ b(2) sp, of "new_node e w nm False VFS_DEFAULT_FILE_PERMS" e]
        True sp fs found n len(2) show ?thesis
        by (auto simp: vfs_create_file_def vfs_create_file_node_def)
    qed
  qed
qed

lemma unlink_safe:
  assumes ok: "vfs_ok w" and loc: "located w (seen_tokens p) a n" and ne: "seen_tokens p \<noteq> []"
    and leaf: "children n = []"
  shows "\<exists>w'. do {
      w1 \<leftarrow> (if host_root_directory w \<noteq> [] then do {
               hp \<leftarrow> vfs_get_host_path (Some a) w;
               Some (case hp of Some q \<Rightarrow> host_do (x q) w | None \<Rightarrow> w) } else Some w);
      w2 \<leftarrow> unlink_free a n w1; Some (0, w2) } = Some (0 :: int, w') \<and> vfs_ok w'"
proof -
  let ?w1 = "w\<lparr>host_log := host_log w @ write_through w (seen_tokens p) x\<rparr>"
  have "located ?w1 (seen_tokens p) a n" "vfs_ok ?w1" using ok loc by (simp_all add: located_def)
  from unlink_detach [OF this(2,1) ne leaf] show ?thesis
    using host_do_located [OF ok loc, of x] by auto
qed

lemma delete_file_safe:
  assumes ok: "vfs_ok w"
  shows "\<exists>r w'. vfs_delete_file (Some p) w = Some (r, w') \<and> vfs_ok w'"
proof (cases rule: find_node_cases [OF ok, of p, case_names none found])
  case none
  with ok show ?thesis by (simp add: vfs_delete_file_def)
next
  case (found a n)
  from ok found(2) obtain fs where fs: "vm_fs w = Some fs" "vfs_wf (vnodes w) (vfs_root fs)"
    "walk (vnodes w) (vfs_root fs) (seen_tokens p) = Some (Some a)" "vnodes w a = Some n" by (rule located_ok)
  show ?thesis
  proof (cases "is_directory n")
    case True
    with found fs ok show ?thesis by (simp add: vfs_delete_file_def)
  next
    case False
    have "children n = []" "seen_tokens p \<noteq> []"
      using wf_leaf [OF fs(2,4) False] fs wf_root [OF fs(2)] False by auto
    from unlink_safe [OF ok found(2) this(2,1), of HostDeleteFile] False found fs show ?thesis
      by (auto simp: vfs_delete_file_def)
  qed
qed

lemma rmdir_safe:
  assumes ok: "vfs_ok w" and ne: "seen_tokens p \<noteq> []"
  shows "\<exists>r w'. vfs_rmdir (Some p) w = Some (r, w') \<and> vfs_ok w'"
proof (cases rule: find_node_cases [OF ok, of p, case_names none found])
  case none
  with ok show ?thesis by (simp add: vfs_rmdir_def)
next
  case (found a n)
  then have n: "vnodes w a = Some n" by (auto simp: located_def)
  show ?thesis
  proof (cases "is_directory n \<and> children n = []")
    case False
    with found n ok show ?thesis by (auto simp: vfs_rmdir_def)
  next
    case True
    with unlink_safe [OF ok found(2) ne, of HostRemoveDir] found n show ?thesis by (auto simp: vfs_rmdir_def)
  qed
qed

lemma write_null: "vfs_write_file e p None w = vfs_write_file e p (Some []) w"
  by (simp only: vfs_write_file_def option.case)

lemma load_safe:
  assumes ok: "vfs_ok w" and loc: "located w ts a n"
  shows "\<exists>r w'. vfs_load_file_content e (Some a) w = Some (r, w') \<and> vfs_ok w' \<and> vnodes w' a \<noteq> None"
proof -
  from loc have n: "vnodes w a = Some n" by (auto simp: located_def)
  have "keeps_links (\<lambda>n. n\<lparr>vdata := Some d, vsize := k\<rparr>)" for d k by (simp add: keeps_links_def)
  from update_ok(1) [OF ok loc this] n ok show ?thesis
    by (auto simp: vfs_load_file_content_def Let_def split: option.split)
qed

lemma read_file_safe:
  assumes ok: "vfs_ok w"
  shows "\<exists>r d w'. vfs_read_file e (Some p) w = Some (r, d, w') \<and> vfs_ok w'"
proof (cases rule: find_node_cases [OF ok, of p, case_names none found])
  case none
  with ok show ?thesis by (simp add: vfs_read_file_def)
next
  case (found a n)
  then have n: "vnodes w a = Some n" by (auto simp: located_def)
  note perm = check_permission_found [OF found(1) n]
  from load_safe [OF ok found(2), of e] obtain r w' where
    "vfs_load_file_content e (Some a) w = Some (r, w')" "vfs_ok w'" "vnodes w' a \<noteq> None" by blast
  with found n perm ok show ?thesis by (auto simp: vfs_read_file_def)
qed

lemma create_symlink_safe:
  assumes ok: "vfs_ok w" and env: "env_ok e"
  shows "\<exists>r w'. vfs_create_symlink e (Some lp) (Some tp) w = Some (r, w') \<and> vfs_ok w'"
proof -
  define dp where "dp = (if CHR ''/'' \<in> set lp then take 511 (before_slash lp) else ''/'')"
  define ln where "ln = (if CHR ''/'' \<in> set lp then take 255 (after_slash lp) else take 255 lp)"
  have pair: "(if CHR ''/'' \<in> set lp then (take 511 (before_slash lp), take 255 (after_slash lp))
      else (''/'', take 255 lp)) = (dp, ln)" by (simp add: dp_def ln_def)
  have cc: "c_copy 256 ln = ln" by (simp add: c_copy_def ln_def)
  show ?thesis
  proof (cases rule: find_node_cases [OF ok, of dp, case_names none found])
    case none
    with ok show ?thesis by (simp add: vfs_create_symlink_def pair)
  next
    case (found a n)
    then have n: "vnodes w a = Some n" by (auto simp: located_def)
    show ?thesis
    proof (cases "is_directory n \<and> node_malloc e (vnodes w) \<noteq> None")
      case False
      with found n ok show ?thesis by (auto simp: vfs_create_symlink_def pair)
    next
      case True
      then obtain b where b: "node_malloc e (vnodes w) = Some b" "vnodes w b = None"
        using env by (auto simp: env_ok_def)
      let ?n = "(new_node e w ln False 511)\<lparr>is_symlink := True,
        symlink_target := (if data_malloc e (length tp + 1) then Some tp else None), vsize := length tp\<rparr>"
      have "children ?n = []" "vname ?n = ln" using cc by simp_all
      from attach_ok(1) [OF ok found(2) _ b(2) this] add_child_attach [OF found(2) b(2), of ?n] True found n b
      show ?thesis by (auto simp: vfs_create_symlink_def pair Let_def)
    qed
  qed
qed

lemma chdir_safe:
  assumes ok: "vfs_ok w"
  shows "\<exists>r w'. vfs_chdir (Some p) w = Some (r, w') \<and> vfs_ok w'"
proof -
  define q where "q = (if p \<noteq> [] \<and> hd p = CHR ''/'' then take 255 p
    else if current_directory w = ''/'' then take 255 (''/'' @ p)
    else take 255 (current_directory w @ ''/'' @ p))"
  have ok': "vfs_ok (w\<lparr>current_directory := c\<rparr>)" for c using ok by (simp add: vfs_ok_def)
  show ?thesis
  proof (cases rule: find_node_cases [OF ok, of q, case_names none found])
    case none
    with ok show ?thesis unfolding vfs_chdir_def option.case Let_def q_def [symmetric] by simp
  next
    case (found a n)
    then have "vnodes w a = Some n" by (auto simp: located_def)
    with found ok ok' show ?thesis unfolding vfs_chdir_def option.case Let_def q_def [symmetric] by simp
  qed
qed

datatype vfs_call =
  Mkdir string | CreateFile string | DeleteFile string | Rmdir string
| WriteFile string "u8 list option" | ReadFile string | Chmod string u32
| Chown string "string option" "string option" | Symlink string string | Chdir string

fun vfs_exec :: "vfs_env \<Rightarrow> vfs_call \<Rightarrow> vfs_world \<Rightarrow> vfs_world option" where
  "vfs_exec e (Mkdir p) w = map_option snd (vfs_mkdir e (Some p) w)"
| "vfs_exec e (CreateFile p) w = map_option snd (vfs_create_file e (Some p) w)"
| "vfs_exec e (DeleteFile p) w = map_option snd (vfs_delete_file (Some p) w)"
| "vfs_exec e (Rmdir p) w = map_option snd (vfs_rmdir (Some p) w)"
| "vfs_exec e (WriteFile p d) w = map_option snd (vfs_write_file e (Some p) d w)"
| "vfs_exec e (ReadFile p) w = map_option (\<lambda>(r, d, w'). w') (vfs_read_file e (Some p) w)"
| "vfs_exec e (Chmod p m) w = map_option snd (vfs_chmod e (Some p) m w)"
| "vfs_exec e (Chown p u g) w = map_option snd (vfs_chown e (Some p) u g w)"
| "vfs_exec e (Symlink l t) w = map_option snd (vfs_create_symlink e (Some l) (Some t) w)"
| "vfs_exec e (Chdir p) w = map_option snd (vfs_chdir (Some p) w)"

fun vfs_run :: "vfs_env \<Rightarrow> vfs_call list \<Rightarrow> vfs_world \<Rightarrow> vfs_world option" where
  "vfs_run e [] w = Some w"
| "vfs_run e (c # cs) w = do { w1 \<leftarrow> vfs_exec e c w; vfs_run e cs w1 }"

text \<open>The calls whose path fits the buffers, and which do not remove the root.\<close>

fun call_fits :: "vfs_call \<Rightarrow> bool" where
  "call_fits (Mkdir p) \<longleftrightarrow> split_path p \<noteq> None"
| "call_fits (CreateFile p) \<longleftrightarrow> split_path p \<noteq> None"
| "call_fits (Rmdir p) \<longleftrightarrow> seen_tokens p \<noteq> []"
| "call_fits _ \<longleftrightarrow> True"

lemma exec_safe:
  assumes ok: "vfs_ok w" and env: "env_ok e" and fits: "call_fits c"
  shows "\<exists>w'. vfs_exec e c w = Some w' \<and> vfs_ok w'"
proof (cases c)
  case (Mkdir p)
  with fits obtain pp nm where "split_path p = Some (pp, nm)" by auto
  from mkdir_safe [OF ok env this] Mkdir show ?thesis by auto
next
  case (CreateFile p)
  with fits obtain pp nm where "split_path p = Some (pp, nm)" by auto
  from create_file_safe [OF ok env this] CreateFile show ?thesis by auto
next
  case (DeleteFile p)
  with delete_file_safe [OF ok, of p] show ?thesis by auto
next
  case (Rmdir p)
  with rmdir_safe [OF ok, of p] fits show ?thesis by auto
next
  case (WriteFile p d)
  have "vfs_write_file e (Some p) d w = vfs_write_file e (Some p) (Some (case d of Some b \<Rightarrow> b | None \<Rightarrow> [])) w"
    using write_null by (cases d) auto
  with WriteFile write_file_refines [OF ok, of e p "case d of Some b \<Rightarrow> b | None \<Rightarrow> []"] show ?thesis by auto
next
  case (ReadFile p)
  with read_file_safe [OF ok, of e p] show ?thesis by auto
next
  case (Chmod p m)
  with chmod_refines [OF ok, of e p m] show ?thesis by auto
next
  case (Chown p u g)
  with chown_refines [OF ok, of e p u g] show ?thesis by auto
next
  case (Symlink l t)
  with create_symlink_safe [OF ok env, of l t] show ?thesis by auto
next
  case (Chdir p)
  with chdir_safe [OF ok, of p] show ?thesis by auto
qed



section \<open>Refinement of the map of paths\<close>

text \<open>
  C12: \<open>vfs_mkdir\<close> and \<open>vfs_create_file\<close> implement the abstract operations on the map of
  paths: on success exactly one path is added, with the caller as owner and the default
  mode, and exactly that path is written through to the host. A missing or non-directory
  parent or exhausted memory gives -1 and changes nothing. An existing name makes
  \<open>vfs_mkdir\<close> return 0 without change, while \<open>vfs_create_file\<close> adds a second entry that
  hides the first and all below it.
\<close>

theorem vfs_create_refines:
  assumes "vfs_ok w" and "env_ok e" and "split_path p = Some (pp, nm)" and "nm \<noteq> []"
  shows "(\<exists>r w'. vfs_mkdir e (Some p) w = Some (r, w') \<and> vfs_ok w' \<and> same_globals w w' \<and>
      (r, vfs_view w', host_log w') = spec_mkdir e w pp nm) \<and>
    (\<exists>r w'. vfs_create_file e (Some p) w = Some (r, w') \<and> vfs_ok w' \<and> same_globals w w' \<and>
      (r, vfs_view w', host_log w') = spec_create_file e w pp nm)"
  using mkdir_refines [OF assms] create_file_refines [OF assms] by blast


section \<open>Contents and access\<close>

text \<open>
  C14: Bytes written to a file are read back: if the caller may write and read the file and
  memory suffices, \<open>vfs_write_file\<close> succeeds, a following \<open>vfs_read_file\<close> returns exactly
  these bytes and their number, the host file is written with them, and no other path
  changes.
\<close>

theorem vfs_write_read:
  assumes ok: "vfs_ok w" and v: "vfs_view w (seen_tokens p) = Some n" "\<not> is_directory n"
    and acc: "may_access w n (vfs_current_user w) W_OK" "may_access w n (vfs_current_user w) R_OK"
    and bs: "bs \<noteq> []" "data_malloc e (length bs)"
  shows "\<exists>w'. vfs_write_file e (Some p) (Some bs) w = Some (0, w') \<and>
    vfs_read_file e' (Some p) w' = Some (0, Some (Some bs, length bs), w') \<and>
    (\<forall>ts. ts \<noteq> seen_tokens p \<longrightarrow> vfs_view w' ts = vfs_view w ts) \<and>
    host_log w' = host_log w @ write_through w (seen_tokens p) (\<lambda>q. HostWriteFile q bs)"
proof -
  from write_file_refines [OF ok, of e p bs] obtain r w' where w':
    "vfs_write_file e (Some p) (Some bs) w = Some (r, w')" "vfs_ok w'" "same_globals w w'"
    "(r, vfs_view w', host_log w') = spec_write e w (seen_tokens p) bs" by blast
  from w'(4) v acc bs have res: "r = 0" "vfs_view w' = (vfs_view w)(seen_tokens p \<mapsto> set_content e bs n)"
    "host_log w' = host_log w @ write_through w (seen_tokens p) (\<lambda>q. HostWriteFile q bs)"
    by (simp_all add: spec_write_def Let_def)
  from w'(3) have g: "vfs_is_root w' = vfs_is_root w" "vfs_current_user w' = vfs_current_user w"
    "vfs_current_group w' = vfs_current_group w"
    unfolding same_globals_def by (metis (no_types) vfs_world.select_convs vfs_world.surjective vfs_world.update_convs)+
  have "may_access w' (set_content e bs n) (vfs_current_user w') R_OK"
    using acc(2) g by (auto simp: may_access_def split: if_splits)
  with read_file_loaded [OF w'(2), of p "set_content e bs n" bs e'] res v bs
  have "vfs_read_file e' (Some p) w' = Some (0, Some (Some bs, length bs), w')" by simp
  with w'(1) res show ?thesis by auto
qed

text \<open>
  C15: Access control: for a caller who is not root, a file whose permission bits for the
  caller's class (owner, else group, else others) do not allow it is neither written nor
  read, only the owner changes a mode and nobody changes an owner; each refused call
  returns -1 and changes nothing.
\<close>

theorem vfs_access_control:
  assumes ok: "vfs_ok w" and v: "vfs_view w (seen_tokens p) = Some n" and user: "\<not> vfs_is_root w"
  defines "cls \<equiv> (if vowner n = vfs_current_user w then 6 else if vgroup n = vfs_current_group w then 3 else 0)"
  shows "(vmode n AND push_bit cls W_OK = 0 \<longrightarrow> vfs_write_file e (Some p) d w = Some (-1, w)) \<and>
    (vmode n AND push_bit cls R_OK = 0 \<longrightarrow> vfs_read_file e (Some p) w = Some (-1, None, w)) \<and>
    (vowner n \<noteq> vfs_current_user w \<longrightarrow> vfs_chmod e (Some p) m w = Some (-1, w)) \<and>
    vfs_chown e (Some p) u g w = Some (-1, w)"
proof (cases rule: find_node_cases [OF ok, of p, case_names none found])
  case none
  with v show ?thesis by simp
next
  case (found a k)
  then have k: "vnodes w a = Some k" and n: "n = entry_of k" using v by (auto simp: located_def)
  have cls: "cls = (if vowner k = vfs_current_user w then 6 else if vgroup k = vfs_current_group w then 3 else 0)"
    by (simp add: cls_def n)
  have acc: "may_access w k (vfs_current_user w) req \<longleftrightarrow> vmode n AND push_bit cls req \<noteq> 0" for req
    using user by (simp add: may_access_def n cls)
  note perm = check_permission_found [OF found(1) k, of "vfs_current_user w", unfolded acc]
  have "vfs_write_file e (Some p) d w = Some (-1, w)" if "vmode n AND push_bit cls W_OK = 0"
    using perm [of W_OK] that found k by (simp add: vfs_write_file_def perm_bits)
  moreover have "vfs_read_file e (Some p) w = Some (-1, None, w)" if "vmode n AND push_bit cls R_OK = 0"
    using perm [of R_OK] that found k by (simp add: vfs_read_file_def perm_bits)
  moreover have "vfs_chmod e (Some p) m w = Some (-1, w)" if "vowner n \<noteq> vfs_current_user w"
    using that user found k n by (simp add: vfs_chmod_def)
  moreover have "vfs_chown e (Some p) u g w = Some (-1, w)" using user found by (simp add: vfs_chown_def)
  ultimately show ?thesis by blast
qed

section \<open>Symbolic links\<close>

text \<open>\<open>link_chain w k a b\<close>: following \<open>k\<close> links from node \<open>a\<close> leads to node \<open>b\<close>.\<close>

definition link_step :: "vfs_world \<Rightarrow> vptr \<Rightarrow> vptr option \<Rightarrow> bool" where
  "link_step w a b \<longleftrightarrow> (\<exists>n t. vnodes w a = Some n \<and> is_symlink n \<and> symlink_target n = Some t \<and>
     vfs_find_node w (Some t) = Some b)"

primrec link_chain :: "vfs_world \<Rightarrow> nat \<Rightarrow> vptr \<Rightarrow> vptr \<Rightarrow> bool" where
  "link_chain w 0 a b \<longleftrightarrow> a = b"
| "link_chain w (Suc k) a b \<longleftrightarrow> (\<exists>c. link_step w a (Some c) \<and> link_chain w k c b)"

lemma resolve_chain:
  "link_chain w k a b \<Longrightarrow> k \<le> j \<Longrightarrow> resolve_loop w j (Some a) = resolve_loop w (j - k) (Some b)"
proof (induction k arbitrary: a j)
  case 0
  then show ?case by simp
next
  case (Suc k)
  then obtain c where c: "link_step w a (Some c)" "link_chain w k c b" by auto
  from Suc.prems obtain i where j: "j = Suc i" by (cases j) auto
  have "resolve_loop w j (Some a) = resolve_loop w i (Some c)"
    using c(1) j by (auto simp: link_step_def)
  with Suc.IH [OF c(2), of i] Suc.prems j show ?case by simp
qed

text \<open>
  C16: Resolving a symbolic link follows it to the end of its chain: at most 10 links from
  \<open>a\<close> to a node that is no link give that node, and a link to a missing path gives NULL. A
  chain of 10 or more links, a cycle among them, ends at the node after the tenth step,
  which may still be a link.
\<close>

theorem vfs_resolve_symlink_correct:
  assumes chain: "link_chain w k a b" and k: "k \<le> 10" and b: "vnodes w b = Some n"
  shows "(\<not> is_symlink n \<or> k = 10 \<longrightarrow> vfs_resolve_symlink w (Some a) = Some (Some b)) \<and>
    (k < 10 \<and> link_step w b None \<longrightarrow> vfs_resolve_symlink w (Some a) = Some None)"
proof -
  have r: "vfs_resolve_symlink w (Some a) = resolve_loop w (10 - k) (Some b)"
    using resolve_chain [OF chain k] by (simp add: vfs_resolve_symlink_def)
  have e: "resolve_loop w j (Some b) = Some (Some b)" if "\<not> is_symlink n \<or> j = 0" for j
    using that b by (cases j) auto
  have d: "resolve_loop w j (Some b) = Some None" if "link_step w b None" "0 < j" for j
    using that by (cases j) (auto simp: link_step_def)
  show ?thesis unfolding r using e [of "10 - k"] d [of "10 - k"] by auto
qed

end
