(* ===== verification/VfsDemo.thy ===== *)
theory VfsDemo
  imports VfsProps
begin

text \<open>
  A small file system the properties of \<open>VfsProps\<close> are applied to, what \<open>vfs_init\<close>
  establishes, when names stay distinct, and where the code departs from what it means.
\<close>

section \<open>Initialisation\<close>

lemma mkdir_each_safe:
  "vfs_ok w \<Longrightarrow> env_ok e \<Longrightarrow> \<forall>p \<in> set ps. split_path p \<noteq> None \<Longrightarrow>
     \<exists>w'. mkdir_each e ps w = Some w' \<and> vfs_ok w'"
proof (induction ps arbitrary: w)
  case Nil
  then show ?case by simp
next
  case (Cons p ps)
  then obtain pp nm where "split_path p = Some (pp, nm)" by auto
  from mkdir_safe [OF Cons.prems(1,2) this] obtain r w1 where "vfs_mkdir e (Some p) w = Some (r, w1)" "vfs_ok w1"
    by blast
  with Cons show ?case by auto
qed

lemma split_path_init: "\<forall>p \<in> set vfs_init_dirs. split_path p \<noteq> None"
  by (simp add: vfs_init_dirs_def split_path_def before_slash_def after_slash_def)

lemma vfs_init_ok:
  assumes fresh: "vm_fs w = None" "vnodes w = Map.empty" and env: "env_ok e"
    and mem: "data_malloc e 16" "node_malloc e (vnodes w) = Some a"
  shows "\<exists>w'. vfs_init e w = Some (0, w') \<and> vfs_ok w'"
proof -
  let ?root = "(node_raw e)\<lparr>vname := ''/'', is_directory := True, vsize := 0, vdata := None,
    vhost_path := None, vparent := None, children := []\<rparr>"
  let ?w1 = "w\<lparr>vnodes := [a \<mapsto> ?root], vm_fs := Some \<lparr>vfs_root = a, current_dir = a\<rparr>\<rparr>"
  have "vfs_ok ?w1" by (auto simp: vfs_ok_def vfs_wf_def)
  from mkdir_each_safe [OF this env split_path_init] fresh mem show ?thesis
    by (auto simp: vfs_init_def)
qed

section \<open>A concrete world\<close>

definition demo_node :: "string \<Rightarrow> bool \<Rightarrow> VNode" where
  "demo_node nm dir =
     \<lparr>vname = nm, is_directory = dir, is_symlink = False, symlink_target = None, vsize = 0, vdata = None,
      vhost_path = None, vparent = Some 1, children = [],
      vmode = (if dir then VFS_DEFAULT_DIR_PERMS else VFS_DEFAULT_FILE_PERMS),
      vowner = ''guest'', vgroup = ''users'', created_time = 0, modified_time = 0\<rparr>"

text \<open>A root with a file, a directory and a link to itself.\<close>

definition demo_fs :: node_store where
  "demo_fs =
     [1 \<mapsto> (demo_node ''/'' True)\<lparr>vparent := None, children := [4, 3, 2]\<rparr>,
      2 \<mapsto> demo_node ''f'' False,
      3 \<mapsto> demo_node ''d'' True,
      4 \<mapsto> (demo_node ''l'' False)\<lparr>is_symlink := True, symlink_target := Some ''/l''\<rparr>]"

definition demo_vfs :: vfs_world where
  "demo_vfs =
     \<lparr>vnodes = demo_fs, vm_fs = Some \<lparr>vfs_root = 1, current_dir = 1\<rparr>, current_directory = ''/'',
      host_root_directory = ''H'', vfs_current_user = ''guest'', vfs_current_group = ''users'',
      vfs_is_root = False, host_log = []\<rparr>"

definition demo_env :: vfs_env where
  "demo_env =
     \<lparr>node_malloc = (\<lambda>h. find (\<lambda>a. h a = None) [5, 6, 7, 8]), node_raw = demo_node [] False,
      data_malloc = (\<lambda>_. True), time_now = 7, host_file = (\<lambda>_. None), host_ok = (\<lambda>_. True)\<rparr>"

lemma demo_env_ok: "env_ok demo_env"
  by (auto simp: env_ok_def demo_env_def find_Some_iff)

lemma demo_fs_cases:
  "demo_fs a = Some n \<longleftrightarrow>
     a = 1 \<and> n = (demo_node ''/'' True)\<lparr>vparent := None, children := [4, 3, 2]\<rparr> \<or>
     a = 2 \<and> n = demo_node ''f'' False \<or> a = 3 \<and> n = demo_node ''d'' True \<or>
     a = 4 \<and> n = (demo_node ''l'' False)\<lparr>is_symlink := True, symlink_target := Some ''/l''\<rparr>"
  by (auto simp: demo_fs_def)

lemma demo_vfs_ok: "vfs_ok demo_vfs"
  unfolding vfs_ok_def demo_vfs_def vfs_wf_def
  by (simp add: demo_fs_cases demo_node_def cong: conj_cong)

lemma demo_names: "names_unique demo_vfs"
  by (auto simp: names_unique_def unique_in_def demo_vfs_def demo_fs_cases) (simp_all add: demo_fs_def demo_node_def)

lemma demo_tokens: "seen_tokens ''/f'' = [''f'']" "path_tokens ''/d'' = [''d'']" "path_tokens ''/'' = []"
  "seen_tokens ''/d'' = [''d'']"
  by (simp_all add: seen_tokens_def path_tokens_def)

lemma demo_view:
  "vfs_view demo_vfs [''f''] = Some ((demo_node ''f'' False)\<lparr>vparent := None\<rparr>)"
  "vfs_view demo_vfs [''d''] = Some ((demo_node ''d'' True)\<lparr>vparent := None\<rparr>)"
  "vfs_view demo_vfs [''d'', ''x''] = None"
  by (simp_all add: vfs_view_def fs_view_def demo_vfs_def demo_fs_def demo_node_def entry_of_def)

lemma demo_split: "split_path ''/d/x'' = Some (''/d'', ''x'')" "split_path ''/a'' = Some (''/'', ''a'')"
  "split_path ''/a/b'' = Some (''/a'', ''b'')"
  by (simp_all add: split_path_def before_slash_def after_slash_def)

section \<open>Witnesses\<close>


lemma vfs_create_refines_witness:
  "\<exists>w1 w2. vfs_mkdir demo_env (Some ''/d/x'') demo_vfs = Some (0, w1) \<and>
     host_log w1 = [HostEnsureDir (''H'' @ backslash @ ''d'' @ backslash @ ''x'')] \<and>
     vfs_create_file demo_env (Some ''/d/x'') demo_vfs = Some (0, w2) \<and> vfs_view w2 [''d'', ''x''] \<noteq> None"
proof -
  have m: "node_malloc demo_env (vnodes demo_vfs) = Some 5"
    by (simp add: demo_env_def demo_vfs_def demo_fs_def)
  have d: "is_directory ((demo_node ''d'' True)\<lparr>vparent := None\<rparr>)" by (simp add: demo_node_def)
  have h: "host_root_directory demo_vfs = ''H''" "host_log demo_vfs = []" by (simp_all add: demo_vfs_def)
  from vfs_create_refines [OF demo_vfs_ok demo_env_ok demo_split(1)] obtain r1 w1 r2 w2 where
    "vfs_mkdir demo_env (Some ''/d/x'') demo_vfs = Some (r1, w1)"
    "(r1, vfs_view w1, host_log w1) = spec_mkdir demo_env demo_vfs ''/d'' ''x''"
    "vfs_create_file demo_env (Some ''/d/x'') demo_vfs = Some (r2, w2)"
    "(r2, vfs_view w2, host_log w2) = spec_create_file demo_env demo_vfs ''/d'' ''x''" by auto
  then show ?thesis
    by (simp add: spec_mkdir_def spec_create_file_def Let_def demo_tokens demo_view m d h write_through_def
        host_name_def fs_add_def backslash_def)
qed


lemma demo_access: "may_access demo_vfs ((demo_node ''f'' False)\<lparr>vparent := None\<rparr>) (vfs_current_user demo_vfs) W_OK"
  "may_access demo_vfs ((demo_node ''f'' False)\<lparr>vparent := None\<rparr>) (vfs_current_user demo_vfs) R_OK"
  by (simp_all add: may_access_def demo_vfs_def demo_node_def W_OK_def R_OK_def VFS_DEFAULT_FILE_PERMS_def)

lemma vfs_write_read_witness:
  "\<exists>w'. vfs_write_file demo_env (Some ''/f'') (Some [104, 105]) demo_vfs = Some (0, w') \<and>
    vfs_read_file demo_env (Some ''/f'') w' = Some (0, Some (Some [104, 105], 2), w')"
  using vfs_write_read [OF demo_vfs_ok, of "''/f''" _ "[104, 105]" demo_env demo_env, unfolded demo_tokens, OF demo_view(1) _ demo_access]
  by (force simp: demo_node_def demo_env_def)

lemma vfs_access_control_witness:
  "vfs_write_file demo_env (Some ''/f'') (Some [1]) (demo_vfs\<lparr>vfs_current_user := ''eve''\<rparr>)
     = Some (-1, demo_vfs\<lparr>vfs_current_user := ''eve''\<rparr>) \<and>
   vfs_chmod demo_env (Some ''/f'') 511 (demo_vfs\<lparr>vfs_current_user := ''eve''\<rparr>)
     = Some (-1, demo_vfs\<lparr>vfs_current_user := ''eve''\<rparr>)"
proof -
  let ?w = "demo_vfs\<lparr>vfs_current_user := ''eve''\<rparr>"
  have ok: "vfs_ok ?w" using demo_vfs_ok by (simp add: vfs_ok_def)
  have v: "vfs_view ?w (seen_tokens ''/f'') = Some ((demo_node ''f'' False)\<lparr>vparent := None\<rparr>)"
    by (simp add: demo_tokens vfs_view_def fs_view_def demo_vfs_def demo_fs_def demo_node_def entry_of_def)
  have "\<not> vfs_is_root ?w" by (simp add: demo_vfs_def)
  from vfs_access_control [OF ok v this, of demo_env "Some [1]" 511] show ?thesis
    by (simp add: demo_vfs_def demo_node_def W_OK_def VFS_DEFAULT_FILE_PERMS_def)
qed

text \<open>The link to itself is still a link after ten steps.\<close>

lemma vfs_resolve_symlink_witness:
  "vfs_resolve_symlink demo_vfs (Some 4) = Some (Some 4) \<and>
   (\<exists>n. vnodes demo_vfs 4 = Some n \<and> is_symlink n)"
proof -
  have n: "vnodes demo_vfs 4 = Some ((demo_node ''l'' False)\<lparr>is_symlink := True, symlink_target := Some ''/l''\<rparr>)"
    by (simp add: demo_vfs_def demo_fs_def)
  have "link_step demo_vfs 4 (Some 4)"
    unfolding link_step_def n
    by (simp add: vfs_find_node_def demo_vfs_def path_tokens_def demo_fs_def demo_node_def)
  then have "link_chain demo_vfs k 4 4" for k by (induction k) auto
  from vfs_resolve_symlink_correct [OF this, of 10, OF _ n] n show ?thesis by simp
qed

section \<open>Distinct names\<close>

text \<open>A new name keeps the names of a directory distinct; \<open>vfs_mkdir\<close> adds no other.\<close>

lemma unique_in_cong:
  "(\<And>c. c \<in> set cs \<Longrightarrow> map_option vname (h' c) = map_option vname (h c)) \<Longrightarrow> unique_in h' cs = unique_in h cs"
  unfolding unique_in_def by (metis (no_types, lifting) map_eq_conv)

lemma attach_unique:
  assumes ok: "vfs_ok w" and uniq: "names_unique w" and loc: "located w pt p m" and a: "vnodes w a = None"
    and n: "children n = []" "vname n = nm" and new: "vfs_view w (pt @ [nm]) = None"
  shows "names_unique (w\<lparr>vnodes := attach p m a n (vnodes w)\<rparr>)"
proof -
  let ?h = "attach p m a n (vnodes w)"
  from ok loc obtain fs where fs: "vm_fs w = Some fs" "vfs_wf (vnodes w) (vfs_root fs)"
    "walk (vnodes w) (vfs_root fs) pt = Some (Some p)" "vnodes w p = Some m" by (rule located_ok)
  have ap: "a \<noteq> p" using fs a by auto
  have names: "map_option vname (?h c) = map_option vname (vnodes w c)" if "c \<noteq> a" for c
    using fs that by (auto simp: attach_def)
  have nch: "a \<notin> set (children k)" if "vnodes w x = Some k" for x k
    using wf_child [OF fs(2) that, of a] a by auto
  have old: "unique_in ?h (children k)" if "vnodes w x = Some k" for x k
    using unique_in_cong [of "children k" ?h "vnodes w"] names nch [OF that] uniq that
    by (metis names_unique_def)
  have none: "find_child (vnodes w) nm (children m) = Some None"
    using child_view [OF ok loc, of nm] new by blast
  have other: "map_option vname (?h c) \<noteq> Some nm" if "c \<in> set (children m)" for c
  proof -
    have "c \<noteq> a" using nch [OF fs(4)] that by auto
    then have "map_option vname (?h c) = map_option vname (vnodes w c)" by (rule names)
    with find_child_NoneD [OF none that] show ?thesis by (cases "vnodes w c") auto
  qed
  have self: "map_option vname (?h a) = Some nm" using n ap by (simp add: attach_def)
  have "map_option vname (?h a) \<notin> set (map (\<lambda>c. map_option vname (?h c)) (children m))"
    unfolding self set_map image_iff using other by metis
  with old [OF fs(4)] have "unique_in ?h (a # children m)" by (simp only: unique_in_def list.map distinct.simps simp_thms)
  with old n ap show ?thesis
    by (auto simp: names_unique_def attach_def unique_in_def [of _ "[]"])
qed

section \<open>Divergences\<close>

text \<open>An empty file cannot be read back: no data counts as not loaded, and a file the VM
  wrote itself has no host path to load from.\<close>

lemma empty_file_unreadable:
  assumes "vfs_find_node w (Some p) = Some (Some a)" and "vnodes w a = Some n"
    and "vdata n = None" "vhost_path n = None" "\<not> is_directory n"
  shows "vfs_read_file e (Some p) w = Some (-1, None, w)"
  using assms check_permission_found [OF assms(1,2)]
  by (simp add: vfs_read_file_def vfs_load_file_content_def)

text \<open>Changing the directory does not move \<open>vm_fs->current_dir\<close>, so \<open>vm_getcwd\<close> keeps answering
  with the root.\<close>

lemma getcwd_stays_root:
  assumes "vfs_ok w" and "vm_fs w = Some fs" and "current_dir fs = vfs_root fs"
    and "vfs_chdir p w = Some (r, w')"
  shows "vm_getcwd w' = Some ''/''"
proof -
  from assms(1,2) obtain n where "vnodes w (vfs_root fs) = Some n" "vparent n = None"
    using wf_root by (auto simp: vfs_ok_def)
  moreover have "vnodes w' = vnodes w" "vm_fs w' = vm_fs w"
    using assms(4) by (auto simp: vfs_chdir_def Let_def split: option.splits bind_splits if_splits)
  ultimately show ?thesis using assms(2,3) by (simp add: vm_getcwd_def getcwd_loop.simps)
qed

text \<open>Removing the root of an empty file system frees it but keeps the pointer to it.\<close>

lemma rmdir_root_dangles:
  assumes "vm_fs w = Some fs" and "vnodes w (vfs_root fs) = Some n" and "vparent n = None"
    and "is_directory n" "children n = []" and "host_root_directory w = []"
  shows "\<exists>w'. vfs_rmdir (Some ''/'') w = Some (0, w') \<and> vm_fs w' = Some fs \<and>
    vnodes w' (vfs_root fs) = None \<and> vfs_find_node w' (Some ''/x'') = None"
  using assms by (simp add: vfs_rmdir_def vfs_find_node_def unlink_free_def path_tokens_def)

end
