(* ===== verification/MerlProps.thy ===== *)
theory MerlProps
  imports MerlExec VfsDemo
begin

text \<open>
  Properties of the interactive shell: normalised paths name the same node, the expansion of
  variables against a reference, the history as the last hundred commands, which part of a line
  runs, and what a redirection leaves in the file system.
\<close>

section \<open>Paths\<close>

lemma squeeze_split:
  "hd (split_slash (squeeze False s)) = hd (split_slash s) \<and>
   filter (\<lambda>t. t \<noteq> []) (tl (split_slash (squeeze False s))) = filter (\<lambda>t. t \<noteq> []) (tl (split_slash s)) \<and>
   path_tokens (squeeze True s) = path_tokens s"
proof (induction s)
  case Nil
  then show ?case by simp
next
  case (Cons c s)
  have c: "hd (split_slash (d # t)) = d # hd (split_slash t) \<and> tl (split_slash (d # t)) = tl (split_slash t)"
    if "d \<noteq> CHR ''/''" for d t
    using that by (cases "split_slash t") simp_all
  show ?case
  proof (cases "c = CHR ''/''")
    case True
    with Cons.IH show ?thesis by (simp add: path_tokens_def)
  next
    case False
    have ht: "filter (\<lambda>t. t \<noteq> []) xs = (if hd xs = [] then [] else [hd xs]) @ filter (\<lambda>t. t \<noteq> []) (tl xs)"
      if "xs \<noteq> []" for xs :: "string list" using that by (cases xs) simp_all
    show ?thesis
      unfolding path_tokens_def ht [OF split_slash_not_Nil]
      using c [OF False] Cons.IH False by simp
  qed
qed

text \<open>The normalised path leads to the same node.\<close>

lemma normalize_path_tokens: "path_tokens (normalize_path p) = path_tokens p"
proof -
  have ht: "path_tokens s = (if hd (split_slash s) = [] then [] else [hd (split_slash s)]) @
      filter (\<lambda>t. t \<noteq> []) (tl (split_slash s))" for s
    unfolding path_tokens_def by (cases "split_slash s") simp_all
  have "path_tokens (squeeze False p) = path_tokens p" using squeeze_split [of p] by (simp add: ht)
  then show ?thesis by (auto simp: normalize_path_def Let_def path_tokens_def)
qed

text \<open>No two slashes are adjacent.\<close>

lemma squeeze_single:
  "successively (\<lambda>a b. \<not> (a = CHR ''/'' \<and> b = CHR ''/'')) (squeeze l s) \<and>
   (l \<longrightarrow> squeeze l s = [] \<or> hd (squeeze l s) \<noteq> CHR ''/'')"
  by (induction l s rule: squeeze.induct) (auto simp: successively_Cons)

lemma squeeze_id:
  "successively (\<lambda>a b. \<not> (a = CHR ''/'' \<and> b = CHR ''/'')) s \<Longrightarrow> (l \<longrightarrow> s = [] \<or> hd s \<noteq> CHR ''/'') \<Longrightarrow>
   squeeze l s = s"
  by (induction l s rule: squeeze.induct) (auto simp: successively_Cons)

lemma normalize_path_idem: "normalize_path (normalize_path p) = normalize_path p"
proof -
  have "squeeze False (squeeze False p) = squeeze False p"
    using squeeze_single [of False p] by (intro squeeze_id) auto
  then show ?thesis by (simp add: normalize_path_def Let_def)
qed

lemma length_squeeze: "length (squeeze l s) \<le> length s"
  by (induction l s rule: squeeze.induct) auto

text \<open>A path that fits names the node its parts lead to, from the root or from the directory.\<close>

lemma build_full_path_tokens:
  assumes "length cwd + 1 + length rel < sz"
  shows "path_tokens (build_full_path sz cwd rel) =
    (if rel \<noteq> [] \<and> hd rel = CHR ''/'' then path_tokens rel else path_tokens cwd @ path_tokens rel)"
proof -
  have "path_tokens (cwd @ ''/'' @ rel) = path_tokens cwd @ path_tokens rel"
    using split_slash_append [of cwd rel] by (simp add: path_tokens_def)
  moreover have "path_tokens (''/'' @ rel) = path_tokens rel" by (simp add: path_tokens_def)
  moreover have "path_tokens ''/'' = []" by (simp add: path_tokens_def)
  ultimately show ?thesis using assms
    by (auto simp: build_full_path_def normalize_path_tokens)
qed

text \<open>Only the first step up is taken: a further \<^verbatim>\<open>..\<close> stays in the path as a name.\<close>

lemma expand_path_one_level:
  assumes "parent_dir cwd = Some up" and "length cwd \<le> 255" and "length up \<le> length cwd"
    and "length rest < 200" and "d \<le> 10"
  shows "expand_path d cwd 512 (''../../'' @ rest) = (up @ ''/../'' @ rest, d)"
proof -
  have "starts_with ''../'' (''../../'' @ rest)" "drop 3 (''../../'' @ rest) = ''../'' @ rest"
    by (simp_all add: starts_with_def)
  with assms show ?thesis by (simp add: expand_path_def)
qed

section \<open>Environment variables\<close>

definition env_table_ok :: "env_table \<Rightarrow> bool" where
  "env_table_ok env \<longleftrightarrow> length env \<le> MAX_ENV_VARS \<and> distinct (map fst env) \<and>
     (\<forall>(n, v) \<in> set env. length n < ENV_NAME_SIZE \<and> length v < ENV_VALUE_SIZE)"

lemma get_env_map: "get_env_var name env = map_of env name"
  by (induction env) (auto simp: get_env_var_def)

text \<open>Setting a variable is a map update, as long as its name fits and there is room.\<close>

lemma set_env_correct:
  assumes ok: "env_table_ok env" and nm: "length name < ENV_NAME_SIZE"
    and room: "length env < MAX_ENV_VARS \<or> name \<in> fst ` set env"
  shows "env_table_ok (set_env_var name v env)"
    and "map_of (set_env_var name v env) = (map_of env)(name \<mapsto> c_copy ENV_VALUE_SIZE v)"
proof -
  have "env_table_ok (set_env_var name v env) \<and>
    map_of (set_env_var name v env) = (map_of env)(name \<mapsto> c_copy ENV_VALUE_SIZE v)"
  proof (cases "first_index (\<lambda>e. fst e = name) env")
    case None
    then have new: "name \<notin> fst ` set env" by (auto simp: first_index_None_iff)
    then have none: "map_of env name = None" by (simp add: map_of_eq_None_iff)
    have s: "set_env_var name v env = env @ [(name, c_copy ENV_VALUE_SIZE v)]" if "length env < MAX_ENV_VARS"
      using None that nm by (simp add: set_env_var_def)
    have m: "[name \<mapsto> x] ++ map_of env = (map_of env)(name \<mapsto> x)" for x
      using none by (auto simp: map_add_def fun_eq_iff split: option.splits)
    show ?thesis using ok room new nm by (auto simp: s m env_table_ok_def c_copy_def env_sizes)
  next
    case (Some i)
    from first_index_SomeD [OF Some] have i: "i < length env" "fst (env ! i) = name" by auto
    let ?e = "env[i := (name, c_copy ENV_VALUE_SIZE v)]"
    have s: "set_env_var name v env = ?e" using Some i by (simp add: set_env_var_def)
    have f: "map fst ?e = map fst env" using i by (metis fst_conv list_update_id map_update nth_map)
    have "map_of ?e k = ((map_of env)(name \<mapsto> c_copy ENV_VALUE_SIZE v)) k" for k
    proof -
      have d: "distinct (map fst ?e)" "distinct (map fst env)" using ok f by (simp_all add: env_table_ok_def)
      have "(k, x) \<in> set ?e \<longleftrightarrow> (if k = name then x = c_copy ENV_VALUE_SIZE v else (k, x) \<in> set env)" for x
      proof -
        have "(name, x) \<in> set ?e \<Longrightarrow> x = c_copy ENV_VALUE_SIZE v"
          using d(1) i by (metis (no_types) eq_key_imp_eq_value length_list_update nth_list_update_eq nth_mem)
        moreover have "(name, c_copy ENV_VALUE_SIZE v) \<in> set ?e" using i by (simp add: set_update_memI)
        moreover have "(k, x) \<in> set ?e \<longleftrightarrow> (k, x) \<in> set env" if "k \<noteq> name"
          using that i by (auto simp: in_set_conv_nth nth_list_update) (metis fst_conv)
        ultimately show ?thesis by auto
      qed
      then have "map_of ?e k = Some x \<longleftrightarrow> ((map_of env)(name \<mapsto> c_copy ENV_VALUE_SIZE v)) k = Some x" for x
        using d by (auto simp: map_of_eq_Some_iff)
      then show ?thesis by (metis option.exhaust)
    qed
    then have "map_of ?e = (map_of env)(name \<mapsto> c_copy ENV_VALUE_SIZE v)" by blast
    moreover have "env_table_ok ?e"
    proof -
      have "p = (name, c_copy ENV_VALUE_SIZE v) \<or> p \<in> set env" if "p \<in> set ?e" for p
        using that set_update_subset_insert by fastforce
      then have "length (fst p) < ENV_NAME_SIZE \<and> length (snd p) < ENV_VALUE_SIZE" if "p \<in> set ?e" for p
        using that ok nm by (fastforce simp: env_table_ok_def c_copy_def env_sizes)
      with ok f show ?thesis by (auto simp: env_table_ok_def simp del: set_update_subsetI)
    qed
    ultimately show ?thesis using s by simp
  qed
  then show "env_table_ok (set_env_var name v env)"
    and "map_of (set_env_var name v env) = (map_of env)(name \<mapsto> c_copy ENV_VALUE_SIZE v)" by auto
qed

text \<open>A name of 64 characters or more is stored cut and is not found under the name it was set by.\<close>

lemma set_env_long_name:
  assumes "ENV_NAME_SIZE \<le> length name" and "env_table_ok env"
  shows "get_env_var name (set_env_var name v env) = None"
proof -
  have n: "name \<notin> fst ` set env" using assms by (auto simp: env_table_ok_def)
  then have "first_index (\<lambda>e. fst e = name) env = None" by (auto simp: first_index_None_iff)
  moreover have "length (c_copy ENV_NAME_SIZE name) < length name"
    using assms(1) by (simp add: c_copy_def env_sizes)
  then have "c_copy ENV_NAME_SIZE name \<noteq> name" by (metis less_irrefl)
  ultimately show ?thesis using n by (auto simp: get_env_map set_env_var_def map_of_eq_None_iff)
qed

section \<open>Expansion\<close>

text \<open>The reference: the text read into pieces once, then each reference replaced.\<close>

datatype env_piece = Plain char | EnvRef string

function env_pieces :: "string \<Rightarrow> env_piece list" where
  "env_pieces [] = []"
| "env_pieces (c # s) =
     (if c = CHR ''$'' then EnvRef (fst (scan_env_name s)) # env_pieces (snd (scan_env_name s))
      else Plain c # env_pieces s)"
  by pat_completeness auto
termination env_pieces
  by (relation "measure length") (auto simp: le_imp_less_Suc scan_env_name_shorter)

fun env_piece_text :: "(string \<Rightarrow> string option) \<Rightarrow> env_piece \<Rightarrow> string" where
  "env_piece_text V (Plain c) = [c]"
| "env_piece_text V (EnvRef n) = (case V n of None \<Rightarrow> [] | Some t \<Rightarrow> t)"

definition env_expansion :: "(string \<Rightarrow> string option) \<Rightarrow> string \<Rightarrow> string" where
  "env_expansion V s = concat (map (env_piece_text V) (env_pieces s))"

lemma expand_env_fits: "length (expand_env env rem s) \<le> rem"
  by (induction env rem s rule: expand_env.induct) (auto split: option.splits)

lemma expand_env_exact:
  "length (env_expansion (map_of env) s) \<le> rem \<Longrightarrow> expand_env env rem s = env_expansion (map_of env) s"
proof (induction env rem s rule: expand_env.induct)
  case (1 env rem)
  then show ?case by (simp add: env_expansion_def)
next
  case (2 env rem c s)
  show ?case
  proof (cases "rem = 0")
    case True
    with "2.prems" show ?thesis by simp
  next
    case False
    show ?thesis
    proof (cases "c = CHR ''$''")
      case True
      let ?n = "fst (scan_env_name s)" and ?r = "snd (scan_env_name s)"
      have e: "env_expansion (map_of env) (c # s) =
          (case map_of env ?n of None \<Rightarrow> [] | Some t \<Rightarrow> t) @ env_expansion (map_of env) ?r"
        using True by (simp add: env_expansion_def)
      show ?thesis
      proof (cases "map_of env ?n")
        case None
        then have g: "get_env_var ?n env = None" by (simp add: get_env_map)
        from None e "2.prems" have "expand_env env rem ?r = env_expansion (map_of env) ?r"
          by (intro "2.IH"(1)) (simp_all add: True False g)
        with g None True False e show ?thesis by simp
      next
        case (Some t)
        with "2.prems" e have "length t \<le> rem" "length (env_expansion (map_of env) ?r) \<le> rem - length t" by simp_all
        with "2.IH"(2) [of t] Some True False e show ?thesis by (simp add: get_env_map)
      qed
    next
      case c: False
      then have "env_expansion (map_of env) (c # s) = c # env_expansion (map_of env) s"
        by (simp add: env_expansion_def)
      with "2.IH"(4) c False "2.prems" show ?thesis by simp
    qed
  qed
qed

section \<open>History\<close>

lemma history_last_hundred:
  "foldl (\<lambda>h c. add_to_history c h) [] cs = drop (length cs - 100) cs"
proof (induction cs rule: rev_induct)
  case Nil
  then show ?case by simp
next
  case (snoc c cs)
  show ?case
  proof (cases "length cs < 100")
    case True
    with snoc show ?thesis by (simp add: add_to_history_def)
  next
    case False
    then have "Suc (length cs - 100) = length cs - 99" by arith
    with False snoc show ?thesis by (simp add: add_to_history_def tl_drop drop_Suc [symmetric])
  qed
qed

section \<open>Which part of a line runs\<close>

text \<open>The pointer of \<^verbatim>\<open>strtok\<close> is at the end of a text or in a freed one.\<close>

definition settled :: "'r merl \<Rightarrow> bool" where
  "settled s \<longleftrightarrow> strtok_state s = Tok_end \<or> strtok_state s = Tok_freed"

text \<open>Commands leave it so: what they split they split to the end.\<close>

definition handlers_settle :: "'r merl_env \<Rightarrow> bool" where
  "handlers_settle e \<longleftrightarrow>
     (\<forall>h args s s'. settled s \<longrightarrow> handler e h args s = Some s' \<longrightarrow> settled s') \<and>
     (\<forall>p a s r s'. settled s \<longrightarrow> lua_script e p a s = Some (r, s') \<longrightarrow> settled s')"

lemma handler_settles: "handlers_settle e \<Longrightarrow> settled s \<Longrightarrow> pred_option settled (handler e h args s)"
  unfolding handlers_settle_def by (rule pred_optionI) blast

lemma lua_settles:
  "handlers_settle e \<Longrightarrow> settled s \<Longrightarrow> pred_option (\<lambda>(r, t). settled t) (lua_script e p a s)"
  unfolding handlers_settle_def by (rule pred_optionI) blast

lemma say_simps [simp]:
  "settled (say t s) = settled s" "strtok_state (say t s) = strtok_state s"
  "say t (s\<lparr>strtok_state := x\<rparr>) = (say t s)\<lparr>strtok_state := x\<rparr>"
  "shell_vfs (say t s) = shell_vfs s" "syntax_highlight (say t s) = syntax_highlight s"
  "redirect_buffer (say t s) = redirect_buffer s" "redirect_active (say t s) = redirect_active s"
  by (simp_all add: say_def settled_def)

lemma settled_simps [simp]:
  "settled (s\<lparr>stdout_bytes := b\<rparr>) = settled s" "settled (s\<lparr>shell_vfs := w\<rparr>) = settled s"
  "settled (s\<lparr>redirect_buffer := b\<rparr>) = settled s" "settled (s\<lparr>redirect_active := f\<rparr>) = settled s"
  "settled (s\<lparr>script_execution_depth := d\<rparr>) = settled s" "settled (s\<lparr>strtok_state := tok_after t\<rparr>)"
  by (simp_all add: settled_def tok_after_def)

lemma unknown_settled [simp]: "settled (unknown_command n s) = settled s"
  by (simp add: unknown_command_def terminal_print_command_def terminal_print_error_def)

lemma redirect_printf_settled [simp]: "settled (redirect_printf t s) = settled s"
  by (simp add: redirect_printf_def)

lemma script_settles:
  assumes e: "handlers_settle e" and s: "settled s"
  shows "pred_option (\<lambda>(r, s'). settled s') (try_execute_script_command e n args s)"
  unfolding try_execute_script_command_def Let_def
  apply (cases "script_execution_depth s > 5")
   apply (simp add: s)
  apply (simp only: if_False pred_option_bind)
  apply (rule pred_optionI)
  apply (split if_split, intro conjI impI)
   apply (simp add: pred_option_bind)
   apply (rule pred_option_weaken [OF lua_settles [OF e]])
    apply (simp add: s)
   apply clarsimp
  apply (simp only: pred_option_bind)
  apply (rule pred_optionI)
  apply (split if_split, intro conjI impI)
   apply (simp add: s)
  apply (simp only: pred_option_bind)
  apply (rule pred_optionI)
  apply (simp add: s)
  done

lemma dispatch_settles:
  assumes e: "handlers_settle e" and s: "settled s"
  shows "pred_option (\<lambda>(r, s'). settled s') (dispatch_command e args s)"
proof (cases args)
  case Nil
  then show ?thesis by (simp add: dispatch_command_def)
next
  case (Cons n as)
  show ?thesis
  proof (cases "map_of command_table n")
    case None
    then show ?thesis
      using script_settles [OF e s, of n args] Cons
      by (auto simp: dispatch_command_def pred_option_bind elim!: pred_option_weaken)
  next
    case (Some f)
    then show ?thesis using handler_settles [OF e s, of f args] Cons
      by (simp add: dispatch_command_def pred_option_bind)
  qed
qed

lemma exit_code_settles:
  "handlers_settle e \<Longrightarrow> settled s \<Longrightarrow>
   pred_option (\<lambda>(r, s'). settled s') (execute_simple_command_with_exit_code e args s)"
  using dispatch_settles [of e s args] by (simp add: execute_simple_command_with_exit_code_def)

lemma simple_settles:
  assumes "handlers_settle e" and "settled s"
  shows "pred_option settled (execute_simple_command e args s)"
  using dispatch_settles [OF assms, of args] assms(2)
  by (auto simp: execute_simple_command_def option.pred_map elim!: pred_option_weaken)

lemma load_settles: "settled s \<Longrightarrow> pred_option settled (load_existing e p s)"
  by (auto simp: load_existing_def pred_option_bind intro!: pred_optionI split: if_splits option.splits)

lemma start_settles: "settled s \<Longrightarrow> pred_option settled (redirect_start e p app s)"
  by (cases app) (simp_all add: redirect_start_def load_settles)

lemma captured_settles:
  assumes e: "handlers_settle e" and s: "settled s"
  shows "pred_option (\<lambda>(r, s'). settled s') (run_captured e args s)"
proof (cases "temp_file e")
  case True
  have "pred_option (\<lambda>(r, t). settled t) (dispatch_command e args (s\<lparr>stdout_bytes := []\<rparr>))"
    using dispatch_settles [OF e] s by simp
  with True show ?thesis
    by (auto simp: run_captured_def pred_option_bind Let_def elim!: pred_option_weaken split: option.split)
next
  case False
  have "pred_option settled (execute_simple_command_with_redirect e args s)"
    using handler_settles [OF e s] s
    by (cases args) (simp_all add: execute_simple_command_with_redirect_def split: option.split)
  with False show ?thesis by (simp add: run_captured_def pred_option_bind)
qed

lemma store_settles: "settled s \<Longrightarrow> pred_option (\<lambda>(r, s'). settled s') (store_output e p c s)"
  unfolding store_output_def pred_option_bind
  by (rule pred_optionI, rule pred_optionI, simp add: pred_option_bind, intro impI pred_optionI) (auto split: if_splits)

lemma redirection_settles:
  assumes e: "handlers_settle e" and s: "settled s"
  shows "pred_option (\<lambda>(r, s'). settled s') (execute_command_with_redirection e args inp out app s)"
proof (cases "out \<noteq> None \<and> out \<noteq> Some []")
  case False
  then have "execute_command_with_redirection e args inp out app s = execute_simple_command_with_exit_code e args s"
    unfolding execute_command_with_redirection_def by (simp only: if_False)
  with exit_code_settles [OF e s] show ?thesis by simp
next
  case True
  show ?thesis
    unfolding execute_command_with_redirection_def Let_def if_P [OF True] pred_option_bind
    apply (rule pred_option_weaken [OF start_settles [OF s]])
    apply (rule pred_option_weaken [OF captured_settles [OF e]], assumption)
    apply (clarsimp simp: pred_option_bind simp del: option.pred_inject)
    apply (rule pred_option_weaken [OF store_settles])
     apply simp
    apply clarsimp
    done
qed

text \<open>What a pipeline does depends on the line only, not on where the pointer was.\<close>

lemma parsing_settles:
  assumes "handlers_settle e"
  shows "pred_option (\<lambda>(r, s'). settled s') (execute_command_with_parsing e p s)"
  using redirection_settles [OF assms] by (simp add: execute_command_with_parsing_def Let_def)

lemma run_second_settles:
  assumes e: "handlers_settle e" and s: "settled s"
  shows "pred_option settled (run_second e args s)"
proof -
  have "pred_option settled (map_option snd (execute_command_with_redirection e as i out app s))" for as i out app
    using redirection_settles [OF e s, of as i out app]
    by (auto simp: option.pred_map elim!: pred_option_weaken)
  with simple_settles [OF e s] s show ?thesis by (simp add: run_second_def split: list.split)
qed

lemma pipeline_settles:
  assumes e: "handlers_settle e"
  shows "pred_option (\<lambda>(r, s'). settled s') (execute_pipeline e p s)"
proof (cases "strchr p CHR ''|''")
  case None
  then show ?thesis using parsing_settles [OF e] by (simp add: execute_pipeline_def)
next
  case (Some i)
  show ?thesis
    unfolding execute_pipeline_def Some option.case Let_def pred_option_bind
    apply (rule pred_optionI)
    apply (rule pred_option_weaken [OF run_second_settles [OF e]])
     apply simp
    apply (rule pred_optionI)
    apply clarsimp
    done
qed

lemma pipeline_tok: "execute_pipeline e p (s\<lparr>strtok_state := x\<rparr>) = execute_pipeline e p s"
  by (cases "strchr p CHR ''|''")
    (simp_all add: execute_pipeline_def execute_command_with_parsing_def Let_def)

lemma background_tok: "say_background b c (s\<lparr>strtok_state := x\<rparr>) = (say_background b c s)\<lparr>strtok_state := x\<rparr>"
  by (simp add: say_background_def terminal_print_operator_def)

lemma part_tok: "execute_part e p (s\<lparr>strtok_state := x\<rparr>) = execute_part e p s"
  unfolding execute_part_def background_tok pipeline_tok by (rule refl)

lemma part_settles:
  assumes e: "handlers_settle e"
  shows "pred_option settled (execute_part e p s)"
proof -
  have m: "pred_option settled (map_option snd (execute_pipeline e q t))" for q t
    using pipeline_settles [OF e, of q t] by (auto simp: option.pred_map elim!: pred_option_weaken)
  obtain cmd b where c: "split_background p = (cmd, b)" by fastforce
  obtain f o2 where o: "split_conditional cmd = (f, o2)" by fastforce
  show ?thesis
  proof (cases o2)
    case None
    then show ?thesis using m by (simp add: execute_part_def c o)
  next
    case (Some x)
    obtain is_and second where x: "x = (is_and, second)" by fastforce
    show ?thesis
      unfolding execute_part_def c o Some x prod.case option.case Let_def pred_option_bind
      by (rule pred_option_weaken [OF pipeline_settles [OF e]]) (auto simp: m)
  qed
qed

lemma next_part_strtok:
  "strtok_all {CHR '';''} s = (case next_part s of None \<Rightarrow> [] | Some (p, r) \<Rightarrow> p # strtok_all {CHR '';''} r)"
proof -
  let ?S = "{CHR '';''}"
  define t where "t = dropWhile (\<lambda>c. c = CHR '';'') s"
  define p where "p = takeWhile (\<lambda>c. c \<noteq> CHR '';'') t"
  have s: "strtok_all ?S s = strtok_all ?S t" using strtok_all_skip [of ?S s] by (simp add: t_def)
  have n: "next_part s = (if t = [] then None else Some (p, drop (length p + 1) t))"
    by (simp add: next_part_def t_def p_def Let_def)
  show ?thesis
  proof (cases t)
    case Nil
    have "strtok_all ?S [] = []" by (simp add: strtok_all_def)
    with Nil show ?thesis unfolding s n by simp
  next
    case (Cons c cs)
    have c: "c \<noteq> CHR '';''" using Cons hd_dropWhile [of "\<lambda>c. c = CHR '';''" s] t_def by auto
    then have p: "p \<noteq> []" "\<forall>c \<in> set p. c \<notin> ?S"
      unfolding p_def using Cons by (auto dest: set_takeWhileD)
    have t: "t = p @ dropWhile (\<lambda>c. c \<noteq> CHR '';'') t" by (simp add: p_def)
    show ?thesis
    proof (cases "dropWhile (\<lambda>c. c \<noteq> CHR '';'') t")
      case Nil
      with t have "t = p" by simp
      with p Cons show ?thesis
        unfolding s n by (simp add: strtok_all_def split_at_plain)
    next
      case d: (Cons d u)
      have "d = CHR '';''" using hd_dropWhile [of "\<lambda>c. c \<noteq> CHR '';''" t] d by simp
      with t d have eq: "t = p @ CHR '';'' # u" by simp
      have "strtok_all ?S t = p # strtok_all ?S u"
        unfolding eq strtok_all_def using p by (simp add: split_at_delim)
      moreover have "drop (length p + 1) t = u" unfolding eq by simp
      ultimately show ?thesis using Cons unfolding s n by simp
    qed
  qed
qed

lemma next_part_shorter: "next_part s = Some (p, r) \<Longrightarrow> length r < length s"
proof -
  assume a: "next_part s = Some (p, r)"
  define t where "t = dropWhile (\<lambda>c. c = CHR '';'') s"
  have "length t \<le> length s" by (simp add: t_def length_dropWhile_le)
  moreover have "t \<noteq> []" "r = drop (length p + 1) t"
    using a by (auto simp: next_part_def t_def [symmetric] Let_def split: if_splits)
  ultimately show ?thesis by (cases t) auto
qed

definition trimmed_parts :: "string \<Rightarrow> string list" where
  "trimmed_parts line = filter (\<lambda>p. p \<noteq> []) (map (\<lambda>p. trim_right (trim_left p)) (strtok_all {CHR '';''} line))"

lemma line_loop_first:
  assumes e: "handlers_settle e"
  shows "strtok_state s = Tok_at rest \<Longrightarrow> line_loop e s =
    (case trimmed_parts rest of
       [] \<Rightarrow> Some (s\<lparr>strtok_state := Tok_end\<rparr>)
     | p # _ \<Rightarrow> (case execute_part e p s of None \<Rightarrow> None
                | Some s' \<Rightarrow> if strtok_state s' = Tok_freed then None else Some s'))"
proof (induction "length rest" arbitrary: rest s rule: less_induct)
  case less
  note l = line_loop.simps [of e s, unfolded less.prems tok_state.case]
  show ?case
  proof (cases "next_part rest")
    case None
    then show ?thesis by (simp add: l trimmed_parts_def next_part_strtok [of rest])
  next
    case (Some x)
    then obtain p r where x: "next_part rest = Some (p, r)" by (cases x) auto
    let ?c = "trim_right (trim_left p)" and ?s = "s\<lparr>strtok_state := Tok_at r\<rparr>"
    show ?thesis
    proof (cases "?c = []")
      case True
      with x have t: "trimmed_parts rest = trimmed_parts r" by (simp add: trimmed_parts_def next_part_strtok [of rest])
      have "line_loop e ?s = (case trimmed_parts r of
           [] \<Rightarrow> Some (?s\<lparr>strtok_state := Tok_end\<rparr>)
         | p # _ \<Rightarrow> (case execute_part e p ?s of None \<Rightarrow> None
                    | Some s' \<Rightarrow> if strtok_state s' = Tok_freed then None else Some s'))"
        by (rule less.hyps [OF next_part_shorter [OF x]]) simp
      with True x t show ?thesis by (simp add: l part_tok split: list.split)
    next
      case False
      with x have t: "trimmed_parts rest = ?c # trimmed_parts r" by (simp add: trimmed_parts_def next_part_strtok [of rest])
      have ll: "line_loop e s' = (if strtok_state s' = Tok_freed then None else Some s')" if "settled s'" for s'
        using that by (subst line_loop.simps) (auto simp: settled_def)
      show ?thesis
        using part_settles [OF e, of ?c s] False x
        by (cases "execute_part e ?c s") (simp_all add: l t part_tok ll)
    qed
  qed
qed


section \<open>Exit codes and shadowed commands\<close>

text \<open>A command of the table counts as successful whatever it did, so that what follows \<^verbatim>\<open>&&\<close> runs
  and what follows \<^verbatim>\<open>||\<close> does not.\<close>

lemma table_command_succeeds:
  "map_of command_table n = Some f \<Longrightarrow>
   dispatch_command e (n # args) s = map_option (Pair 0) (handler e f (n # args) s)"
  by (cases "handler e f (n # args) s") (simp_all add: dispatch_command_def)

text \<open>A pipe reports success.\<close>

lemma pipe_succeeds:
  "CHR ''|'' \<in> set p \<Longrightarrow> pred_option (\<lambda>(r, s'). r = 0) (execute_pipeline e p s)"
proof -
  assume "CHR ''|'' \<in> set p"
  then obtain i where "strchr p CHR ''|'' = Some i"
    using first_index_exists [of "CHR ''|''" p "\<lambda>x. x = CHR ''|''"] by (auto simp: strchr_def)
  then show ?thesis
    by (auto simp: execute_pipeline_def pred_option_bind Let_def intro!: pred_optionI)
qed

text \<open>The table names \<^verbatim>\<open>ps\<close> and \<^verbatim>\<open>kill\<close> twice: the handlers of the later entries are never called.\<close>

lemma shadowed_commands:
  "(''ps'', ''ps_command'') \<in> set command_table \<and> (''kill'', ''kill_command'') \<in> set command_table \<and>
   map_of command_table n \<noteq> Some ''ps_command'' \<and> map_of command_table n \<noteq> Some ''kill_command''"
proof -
  have t: "list_ex (\<lambda>x. x = (''ps'', ''ps_command'')) command_table"
    "list_ex (\<lambda>x. x = (''kill'', ''kill_command'')) command_table"
    "map_of command_table ''ps'' = Some ''ps_wrapper''" "map_of command_table ''kill'' = Some ''kill_wrapper''"
    by code_simp+
  have "list_all (\<lambda>(a, b). (b = ''ps_command'' \<longrightarrow> a = ''ps'') \<and> (b = ''kill_command'' \<longrightarrow> a = ''kill'')) command_table"
    by code_simp
  then have only: "(b = ''ps_command'' \<longrightarrow> n = ''ps'') \<and> (b = ''kill_command'' \<longrightarrow> n = ''kill'')"
    if "map_of command_table n = Some b" for b
    using map_of_SomeD [OF that] unfolding list_all_iff by blast
  have "map_of command_table n \<noteq> Some ''ps_command''"
  proof
    assume a: "map_of command_table n = Some ''ps_command''"
    with only [OF a] t(3) show False by simp
  qed
  moreover have "map_of command_table n \<noteq> Some ''kill_command''"
  proof
    assume a: "map_of command_table n = Some ''kill_command''"
    with only [OF a] t(4) show False by simp
  qed
  ultimately show ?thesis using t(1,2) unfolding list_ex_iff by blast
qed

section \<open>Redirection\<close>

text \<open>The buffer goes into a file that is there and may be written.\<close>

lemma store_output_writes:
  assumes ok: "vfs_ok (shell_vfs s)" and v: "vfs_view (shell_vfs s) (seen_tokens p) = Some n" "\<not> is_directory n"
    and acc: "may_access (shell_vfs s) n (vfs_current_user (shell_vfs s)) W_OK"
    and d: "redirect_buffer s \<noteq> []" "data_malloc (vfs_environment e) (length (redirect_buffer s))"
  shows "\<exists>s'. store_output e p code s = Some (code, s') \<and> vfs_ok (shell_vfs s') \<and>
    vfs_view (shell_vfs s') =
      (vfs_view (shell_vfs s))(seen_tokens p \<mapsto> set_content (vfs_environment e) (redirect_buffer s) n) \<and>
    redirect_active s' = redirect_active s"
proof -
  from write_file_refines [OF ok, of "vfs_environment e" p "redirect_buffer s"] obtain r w where
    w: "vfs_write_file (vfs_environment e) (Some p) (Some (redirect_buffer s)) (shell_vfs s) = Some (r, w)" "vfs_ok w"
      "(r, vfs_view w, host_log w) = spec_write (vfs_environment e) (shell_vfs s) (seen_tokens p) (redirect_buffer s)"
    by blast
  from w(3) v acc d have res: "r = 0"
    "vfs_view w = (vfs_view (shell_vfs s))(seen_tokens p \<mapsto> set_content (vfs_environment e) (redirect_buffer s) n)"
    by (simp_all add: spec_write_def Let_def)
  obtain a where f: "vfs_find_node (shell_vfs s) (Some p) = Some (Some a)"
    using v by (cases rule: find_node_cases [OF ok, of p]) auto
  let ?s' = "say (''Output redirection completed to: '' @ p @ '' ('' @ dec (length (redirect_buffer s)) @ ('' bytes)'' @ nl))
    (s\<lparr>shell_vfs := w\<rparr>)"
  have "store_output e p code s = Some (code, ?s')"
    using w(1) res(1) f d(1) by (simp add: store_output_def)
  moreover have "shell_vfs ?s' = w" "redirect_active ?s' = redirect_active s" by simp_all
  ultimately show ?thesis using w(2) res(2) by (intro exI [of _ ?s']) simp
qed


section \<open>The input loop\<close>

text \<open>A line with a byte from 128 to 191 is rejected, and with it every line with a character
  of UTF-8 outside ASCII.\<close>

lemma utf8_rejected:
  assumes "i < length inp" and "0x80 \<le> code_at inp i" and "code_at inp i \<le> 0xBF"
    and that: "length inp < 255" "CHR 0x0A \<notin> set inp"
  shows "shell_turn e (inp @ [CHR 0x0A]) s = Some (False, s)"
proof -
  have "corrupt_byte inp i" using assms by (simp add: corrupt_byte_def Let_def)
  then have "input_corrupted inp" using assms(1) by (auto simp: input_corrupted_def)
  moreover have "takeWhile (\<lambda>c. c \<noteq> CHR 0x0A) (inp @ [CHR 0x0A]) = inp"
    using that(2) by (subst takeWhile_append2) auto
  then have "input_line (inp @ [CHR 0x0A]) = inp"
    using that by (simp add: input_line_def fgets_def Let_def)
  ultimately show ?thesis by (simp add: shell_turn_def)
qed

section \<open>Witnesses\<close>

text \<open>A shell whose commands record their arguments and write the second one.\<close>

definition recording_env :: "string list list merl_env" where
  "recording_env =
     \<lparr>handler = (\<lambda>h args s. Some (say (if length args > 1 then args ! 1 @ nl else [])
                  (s\<lparr>shell_rest := shell_rest s @ [args]\<rparr>))),
      vfs_environment = demo_env, temp_file = True, temp_read = True, lua_script = (\<lambda>p a s. Some (0, s))\<rparr>"

definition demo_filled :: vfs_world where
  "demo_filled =
     demo_vfs\<lparr>vnodes := (vnodes demo_vfs)(2 \<mapsto> (demo_node ''f'' False)\<lparr>vdata := Some [1], vsize := 1\<rparr>)\<rparr>"

definition recording_shell :: "string list list merl" where
  "recording_shell =
     \<lparr>env_vars = init_default_env_vars [], command_history = [], shell_vfs = demo_filled,
      script_execution_depth = 0, strtok_state = Tok_none, syntax_highlight = False, stdout_bytes = [],
      redirect_active = False, redirect_buffer = [], shell_rest = []\<rparr>"

lemma recording_settles: "handlers_settle recording_env"
  by (auto simp: handlers_settle_def recording_env_def settled_def say_def)


lemma demo_filled_facts:
  "vfs_ok demo_filled" "vfs_view demo_filled [''f''] = Some ((demo_node ''f'' False)\<lparr>vparent := None, vdata := Some [1], vsize := 1\<rparr>)"
proof -
  let ?f = "\<lambda>n. n\<lparr>vdata := Some [1], vsize := 1\<rparr> :: VNode"
  have k: "keeps_links ?f" by (simp add: keeps_links_def)
  have l: "located demo_vfs [''f''] 2 (demo_node ''f'' False)"
    by (simp add: located_def demo_vfs_def demo_fs_def demo_node_def)
  have "entry_of (?f (demo_node ''f'' False)) = (demo_node ''f'' False)\<lparr>vparent := None, vdata := Some [1], vsize := 1\<rparr>"
    by (simp add: entry_of_def demo_node_def)
  with update_ok [where f = ?f, OF demo_vfs_ok l k]
  show "vfs_ok demo_filled" "vfs_view demo_filled [''f''] = Some ((demo_node ''f'' False)\<lparr>vparent := None, vdata := Some [1], vsize := 1\<rparr>)"
    by (simp_all add: demo_filled_def)
qed


end
