(* ===== verification/MerlFileProps.thy ===== *)
theory MerlFileProps
  imports MerlFiles MerlProps "HOL-Library.Multiset"
begin

text \<open>
  Properties of the file commands of the shell: the bubble sort sorts, \<^verbatim>\<open>uniq\<close> against the runs of
  equal lines, what a copy does to the file system and to permissions, \<^verbatim>\<open>echo\<close> into a file.
\<close>

section \<open>Sorting\<close>

lemma strcmp_swap: "strcmp b a = - strcmp a b"
  by (induction a b rule: strcmp.induct) auto

lemma strcmp_refl [simp]: "strcmp a a = 0"
  by (induction a) auto

lemma strcmp_trans: "strcmp a b \<le> 0 \<Longrightarrow> strcmp b c \<le> 0 \<Longrightarrow> strcmp a c \<le> 0"
proof (induction a b arbitrary: c rule: strcmp.induct)
  case (4 x xs y ys)
  then show ?case by (cases c) (auto split: if_splits)
next
  case (1)
  then show ?case by simp
next
  case (2 d ds)
  then show ?case by (cases c) auto
next
  case (3 x xs)
  then show ?case by simp
qed

text \<open>A test that asks for a swap exactly when the order is violated.\<close>

definition swap_test :: "('a \<Rightarrow> 'a \<Rightarrow> bool option) \<Rightarrow> ('a \<Rightarrow> 'a \<Rightarrow> bool) \<Rightarrow> 'a set \<Rightarrow> bool" where
  "swap_test sw le A \<longleftrightarrow> (\<forall>a \<in> A. \<forall>b \<in> A. sw a b = Some (\<not> le a b) \<and> (le a b \<or> le b a) \<and>
     (\<forall>c \<in> A. le a b \<longrightarrow> le b c \<longrightarrow> le a c))"

lemma swap_testD:
  assumes "swap_test sw le A" and "a \<in> A" and "b \<in> A"
  shows "sw a b = Some (\<not> le a b)" and "le a b \<or> le b a" and "c \<in> A \<Longrightarrow> le a b \<Longrightarrow> le b c \<Longrightarrow> le a c"
  using assms unfolding swap_test_def by blast+

text \<open>A pass of \<open>k\<close> comparisons brings a greatest element of the first \<open>k + 1\<close> to position \<open>k\<close>.\<close>

lemma bubble_pass_spec:
  assumes "swap_test sw le A"
  shows "k < length ls \<Longrightarrow> set ls \<subseteq> A \<Longrightarrow> \<exists>ps m. bubble_pass sw k ls = Some (ps @ m # drop (Suc k) ls) \<and>
    length ps = k \<and> mset (ps @ [m]) = mset (take (Suc k) ls) \<and> (\<forall>a \<in> set ps. le a m)"
proof (induction k arbitrary: ls)
  case 0
  then obtain a as where "ls = a # as" by (cases ls) auto
  then show ?case by (intro exI [of _ "[]"] exI [of _ a]) simp
next
  case (Suc k)
  then obtain a b as where ls: "ls = a # b # as" by (metis length_Cons less_nat_zero_code list.exhaust list.size(3) not_less_eq)
  with Suc.prems have ab: "a \<in> A" "b \<in> A" by auto
  note t = swap_testD [OF assms ab]
  define lo hi where "lo = (if le a b then a else b)" and "hi = (if le a b then b else a)"
  have lh: "le lo hi" "lo \<in> A" "hi \<in> A" "mset [lo, hi] = mset [a, b]"
    using t(2) ab by (auto simp: lo_def hi_def)
  have step: "bubble_pass sw (Suc k) ls = map_option (Cons lo) (bubble_pass sw k (hi # as))"
    using t(1) by (simp add: ls lo_def hi_def)
  have "k < length (hi # as)" "set (hi # as) \<subseteq> A" using Suc.prems ls lh by auto
  from Suc.IH [OF this] obtain ps m where p: "bubble_pass sw k (hi # as) = Some (ps @ m # drop (Suc k) (hi # as))"
    "length ps = k" "mset (ps @ [m]) = mset (take (Suc k) (hi # as))" "\<forall>a \<in> set ps. le a m" by blast
  have mem: "set (ps @ [m]) \<subseteq> A"
    using p(3) lh(3) Suc.prems ls by (metis (no_types, lifting) set_mset_mset set_take_subset subset_trans \<open>set (hi # as) \<subseteq> A\<close>)
  have "hi \<in> set (ps @ [m])" using p(3) by (metis list.set_intros(1) set_mset_mset take_Suc_Cons)
  then have "hi = m \<or> le hi m" using p(4) by auto
  then have "le lo m" using lh swap_testD(3) [OF assms lh(2,3), of m] mem by auto
  with p lh(4) step show ?case
    by (intro exI [of _ "lo # ps"] exI [of _ m]) (simp add: ls add_mset_commute)
qed

text \<open>The passes sort, keeping what is sorted behind them.\<close>

lemma bubble_passes_spec:
  assumes t: "swap_test sw le A"
  shows "k < length ls \<Longrightarrow> set ls \<subseteq> A \<Longrightarrow> sorted_wrt le (drop (Suc k) ls) \<Longrightarrow>
    \<forall>a \<in> set (take (Suc k) ls). \<forall>b \<in> set (drop (Suc k) ls). le a b \<Longrightarrow>
    \<exists>ls'. bubble_passes sw k ls = Some ls' \<and> mset ls' = mset ls \<and> sorted_wrt le ls'"
proof (induction k arbitrary: ls)
  case 0
  then obtain a as where "ls = a # as" by (cases ls) auto
  with 0 show ?case by simp
next
  case (Suc k)
  from bubble_pass_spec [OF t Suc.prems(1,2)] obtain ps m where
    p: "bubble_pass sw (Suc k) ls = Some (ps @ m # drop (Suc (Suc k)) ls)" "length ps = Suc k"
      "mset (ps @ [m]) = mset (take (Suc (Suc k)) ls)" "\<forall>a \<in> set ps. le a m" by blast
  let ?ls = "ps @ m # drop (Suc (Suc k)) ls"
  have m: "mset ?ls = mset ls"
    using p(3) by (metis append.assoc append_Cons append_Nil append_take_drop_id mset_append)
  have pm: "set (ps @ [m]) = set (take (Suc (Suc k)) ls)" using p(3) by (metis set_mset_mset)
  have "sorted_wrt le (m # drop (Suc (Suc k)) ls)" using Suc.prems(3,4) pm by auto
  moreover have "\<forall>a \<in> set ps. \<forall>b \<in> set (m # drop (Suc (Suc k)) ls). le a b"
    using p(4) Suc.prems(4) pm by auto
  moreover have "k < length ?ls" "set ?ls \<subseteq> A" using p(2) m Suc.prems(2) by (simp_all flip: set_mset_mset)
  moreover have "take (Suc k) ?ls = ps" "drop (Suc k) ?ls = m # drop (Suc (Suc k)) ls" using p(2) by simp_all
  ultimately obtain ls' where "bubble_passes sw k ?ls = Some ls'" "mset ls' = mset ?ls" "sorted_wrt le ls'"
    using Suc.IH [of ?ls] by auto
  with p(1) m show ?case by auto
qed

lemma bubble_sort_sorts:
  assumes "swap_test sw le (set ls)"
  shows "\<exists>ls'. bubble_sort sw ls = Some ls' \<and> mset ls' = mset ls \<and> sorted_wrt le ls'"
proof (cases ls)
  case Nil
  then show ?thesis by (simp add: bubble_sort_def)
next
  case (Cons a as)
  then show ?thesis
    using bubble_passes_spec [OF assms, of "length ls - 1" ls] by (simp add: bubble_sort_def)
qed

lemma print_sorted_all: "print_sorted False first ls = Some (concat (map (\<lambda>l. l @ nl) ls))"
  by (induction ls arbitrary: first) simp_all

text \<open>Lines that can be compared: for a numeric sort, numbers below \<open>2\<^sup>3\<^sup>0\<close>.\<close>

definition comparable :: "bool \<Rightarrow> string \<Rightarrow> bool" where
  "comparable numeric l \<longleftrightarrow> \<not> numeric \<or> (\<exists>v. atoi l = Some v \<and> - (2 ^ 30) \<le> v \<and> v < 2 ^ 30)"

definition in_order :: "sort_options \<Rightarrow> string \<Rightarrow> string \<Rightarrow> bool" where
  "in_order x a b \<longleftrightarrow>
     (if so_numeric x then (if so_reverse x then the (atoi b) \<le> the (atoi a) else the (atoi a) \<le> the (atoi b))
      else (if so_reverse x then strcmp a b \<ge> 0 else strcmp a b \<le> 0))"

lemma must_swap_test: "swap_test (must_swap x) (in_order x) {l. comparable (so_numeric x) l}"
proof -
  have "must_swap x a b = Some (\<not> in_order x a b)" if "comparable (so_numeric x) a" "comparable (so_numeric x) b" for a b
    using that by (auto simp: must_swap_def sort_compare_def in_order_def comparable_def fits_int_def)
  moreover have "in_order x a b \<or> in_order x b a" for a b
    using strcmp_swap [of a b] by (auto simp: in_order_def)
  moreover have "in_order x a b \<Longrightarrow> in_order x b c \<Longrightarrow> in_order x a c" for a b c
    using strcmp_trans [of a b c] strcmp_trans [of c b a] strcmp_swap [of a b] strcmp_swap [of b c] strcmp_swap [of a c]
    by (auto simp: in_order_def split: if_splits)
  ultimately show ?thesis by (auto simp: swap_test_def)
qed

text \<open>
  C43: Sorting a file puts out its lines, each as often as the file has it (up to 1000 lines),
  in ascending order of \<^verbatim>\<open>strcmp\<close>, of the numbers they begin with for \<^verbatim>\<open>-n\<close>, descending for \<^verbatim>\<open>-r\<close>;
  with \<^verbatim>\<open>-u\<close> a file of more than one line makes it read a line it has freed.
\<close>

theorem sort_orders_lines:
  assumes "\<forall>l \<in> set (file_lines t). comparable (so_numeric x) l"
  shows "\<exists>ls. mset ls = mset (file_lines t) \<and> sorted_wrt (in_order x) ls \<and>
    sort_text x t = (if so_unique x \<and> length (file_lines t) > 1 then None
                     else Some (concat (map (\<lambda>l. l @ nl) ls)))"
proof -
  have "swap_test (must_swap x) (in_order x) (set (file_lines t))"
    using must_swap_test [of x] assms unfolding swap_test_def by blast
  from bubble_sort_sorts [OF this] obtain ls where
    ls: "bubble_sort (must_swap x) (file_lines t) = Some ls" "mset ls = mset (file_lines t)" "sorted_wrt (in_order x) ls"
    by blast
  then have len: "length ls = length (file_lines t)" by (metis size_mset)
  have "print_sorted (so_unique x) True ls =
      (if so_unique x \<and> length (file_lines t) > 1 then None else Some (concat (map (\<lambda>l. l @ nl) ls)))"
  proof (cases "so_unique x")
    case False
    then show ?thesis by (simp add: print_sorted_all)
  next
    case True
    show ?thesis
    proof (cases ls)
      case Nil
      with len show ?thesis by simp
    next
      case (Cons a as)
      with True len show ?thesis by (cases as) auto
    qed
  qed
  with ls show ?thesis by (auto simp: sort_text_def)
qed

lemma sort_orders_lines_witness:
  "\<exists>ls. mset ls = {#''9a'', ''10''#} \<and>
    sorted_wrt (in_order \<lparr>so_reverse = True, so_numeric = True, so_unique = False, so_file = None\<rparr>) ls \<and>
    sort_text \<lparr>so_reverse = True, so_numeric = True, so_unique = False, so_file = None\<rparr> (''9a'' @ nl @ ''10'')
      = Some (concat (map (\<lambda>l. l @ nl) ls))"
proof -
  let ?x = "\<lparr>so_reverse = True, so_numeric = True, so_unique = False, so_file = None\<rparr>"
  have l: "file_lines (''9a'' @ nl @ ''10'') = [''9a'', ''10'']" by code_simp
  have "atoi ''9a'' = Some 9" "atoi ''10'' = Some 10" by code_simp+
  then have "\<forall>l \<in> set (file_lines (''9a'' @ nl @ ''10'')). comparable (so_numeric ?x) l"
    unfolding l by (simp add: comparable_def)
  from sort_orders_lines [OF this] show ?thesis unfolding l by simp
qed

section \<open>Runs of equal lines\<close>

text \<open>The maximal runs of equal neighbours, with their lengths.\<close>

fun runs :: "'a list \<Rightarrow> ('a \<times> nat) list" where
  "runs [] = []"
| "runs (x # xs) = (case runs xs of [] \<Rightarrow> [(x, 1)] | (y, n) # rs \<Rightarrow> if x = y then (y, n + 1) # rs else (x, 1) # (y, n) # rs)"

lemma runs_Nil_iff [simp]: "runs xs = [] \<longleftrightarrow> xs = []"
  by (cases xs) (auto split: list.splits prod.splits)

lemma uniq_loop_runs:
  "uniq_loop x p n ls = (case runs (p # ls) of (q, k) # rs \<Rightarrow>
     uniq_print x q (k + n - 1) @ concat (map (\<lambda>(l, k). uniq_print x l k) rs))"
proof (induction ls arbitrary: p n)
  case Nil
  then show ?case by simp
next
  case (Cons l ls)
  obtain q k rs where r: "runs (l # ls) = (q, k) # rs"
    by (metis list.distinct(1) neq_Nil_conv runs_Nil_iff surj_pair)
  have q: "q = l" "k \<ge> 1" using r by (auto split: list.splits prod.splits if_splits)
  show ?case
  proof (cases "l = p")
    case True
    have "runs (p # l # ls) = (p, k + 1) # rs" unfolding runs.simps(2) [of p "l # ls"] r by (simp add: q True)
    with Cons.IH [of l "n + 1"] True r q show ?thesis by (simp del: runs.simps)
  next
    case False
    have "runs (p # l # ls) = (p, 1) # (l, k) # rs" unfolding runs.simps(2) [of p "l # ls"] r using q False by simp
    with Cons.IH [of l 1] False r q show ?thesis by (simp del: runs.simps)
  qed
qed

text \<open>\<^verbatim>\<open>uniq\<close> prints every run of equal non-empty lines by its length.\<close>

lemma uniq_reference:
  "uniq_text x t = concat (map (\<lambda>(l, k). uniq_print x l k) (runs (map (\<lambda>l. c_str (take 1023 l)) (split_at {newline_char} t))))"
proof -
  let ?ls = "map (\<lambda>l. c_str (take 1023 l)) (split_at {newline_char} t)"
  have e: "uniq_print x [] k = []" for k by (simp add: uniq_print_def)
  have "uniq_text x t = uniq_loop x [] 1 ?ls" by (simp add: uniq_text_def)
  also have "\<dots> = concat (map (\<lambda>(l, k). uniq_print x l k) (runs ?ls))"
    unfolding uniq_loop_runs by (auto simp: e split: list.split prod.split)
  finally show ?thesis .
qed

section \<open>Where the shown text is not the file's\<close>

text \<open>\<^verbatim>\<open>grep\<close> does not look at the last character of a file that does not end in a newline.\<close>

lemma grep_last_character:
  assumes "newline_char \<notin> set t" and "CHR 0x00 \<notin> set t" and "length t \<le> 1023"
  shows "grep_lines pat [] (t @ [c]) = (if strstr t pat \<noteq> None then t @ nl else [])"
proof -
  have "grep_lines pat buf (t @ [c]) = (if strstr (buf @ t) pat \<noteq> None then buf @ t @ nl else [])"
    if "length buf + length t \<le> 1023" "CHR 0x00 \<notin> set buf" for buf
    using that assms(1,2)
  proof (induction t arbitrary: buf)
    case Nil
    then have "takeWhile (\<lambda>c. c \<noteq> CHR 0x00) buf = buf" by (auto simp: takeWhile_eq_all_conv)
    with Nil show ?case by (simp add: Let_def del: takeWhile_eq_all_conv)
  next
    case (Cons d t)
    then have "d \<noteq> newline_char" by auto
    with Cons show ?case using Cons.IH [of "buf @ [d]"] by simp
  qed
  from this [of "[]"] assms show ?thesis by simp
qed

text \<open>\<^verbatim>\<open>tail\<close> counts the newlines as lines: without one at the end it shows a line too many.\<close>

lemma tail_unfinished_line: "tail_text 1 (''a'' @ nl @ ''b'') = ''a'' @ nl @ ''b'' @ nl"
  by code_simp

section \<open>Copying\<close>

lemma sync_keeps_nodes:
  "pred_option (\<lambda>(r, w'). vnodes w' = vnodes w \<and> vfs_current_user w' = vfs_current_user w) (vfs_sync_to_host e a w)"
  by (auto simp: vfs_sync_to_host_def vfs_ensure_host_directory_def host_do_def pred_option_bind Let_def
      intro!: pred_optionI split: option.splits if_splits)

text \<open>Creating a file changes no other file's node.\<close>

lemma create_keeps_files:
  assumes e: "env_ok e" and n: "vnodes w a = Some n" "\<not> is_directory n"
    and c: "vfs_create_file e (Some p) w = Some (0, w')"
  shows "vnodes w' a = Some n"
proof -
  have "pred_option (\<lambda>(r, w'). vnodes w' a = Some n) (vfs_create_file e (Some p) w)"
  proof (cases "vm_fs w")
    case None
    then show ?thesis using n by (simp add: vfs_create_file_def)
  next
    case (Some fs)
    have step: "pred_option (\<lambda>(r, w'). vnodes w' a = Some n)
        (do { w2 \<leftarrow> vfs_add_child (Some pa) (Some b) (w\<lparr>vnodes := (vnodes w)(b \<mapsto> m)\<rparr>);
              w3 \<leftarrow> (if host_root_directory w2 \<noteq> [] then map_option snd (vfs_sync_to_host e (Some b) w2) else Some w2);
              Some (0 :: int, w3) })"
      if pn: "vnodes w pa = Some pn" "is_directory pn" and b: "node_malloc e (vnodes w) = Some b" for pa pn b m
    proof -
      have "vnodes w b = None" using e b by (simp add: env_ok_def)
      then have ne: "a \<noteq> b" "a \<noteq> pa" "b \<noteq> pa" using n pn by auto
      let ?w2 = "w\<lparr>vnodes := (vnodes w)(b \<mapsto> m\<lparr>vparent := Some pa\<rparr>, pa \<mapsto> pn\<lparr>children := b # children pn\<rparr>)\<rparr>"
      have "vfs_add_child (Some pa) (Some b) (w\<lparr>vnodes := (vnodes w)(b \<mapsto> m)\<rparr>) = Some ?w2"
        using ne pn by (simp add: vfs_add_child_def)
      then show ?thesis
        using sync_keeps_nodes [of ?w2 e "Some b"] ne n
        by (auto simp: pred_option_bind option.pred_map elim!: pred_option_weaken)
    qed
    show ?thesis
      unfolding vfs_create_file_def Some option.case prod.case pred_option_bind
    proof (rule pred_optionI, simp only: split_paired_all prod.case pred_option_bind, rule pred_optionI)
      fix pp nm parent
      show "pred_option (\<lambda>(r, w'). vnodes w' a = Some n)
        (case parent of None \<Rightarrow> Some (-1 :: int, w)
         | Some pa \<Rightarrow> do {
             pn \<leftarrow> vnodes w pa;
             (if \<not> is_directory pn then Some (-1 :: int, w)
              else (case vfs_create_file_node e nm w of
                      (None, w1) \<Rightarrow> Some (-1, w1)
                    | (Some a, w1) \<Rightarrow> do {
                        w2 \<leftarrow> vfs_add_child (Some pa) (Some a) w1;
                        w3 \<leftarrow> (if host_root_directory w2 \<noteq> [] then map_option snd (vfs_sync_to_host e (Some a) w2)
                              else Some w2);
                        Some (0, w3) })) })"
      proof (cases parent)
        case None
        with n show ?thesis by simp
      next
        case (Some pa)
        show ?thesis
          unfolding Some option.case pred_option_bind
        proof (rule pred_optionI)
          fix pn assume pn: "vnodes w pa = Some pn"
          show "pred_option (\<lambda>(r, w'). vnodes w' a = Some n)
            (if \<not> is_directory pn then Some (-1 :: int, w)
              else (case vfs_create_file_node e nm w of
                      (None, w1) \<Rightarrow> Some (-1, w1)
                    | (Some a, w1) \<Rightarrow> do {
                        w2 \<leftarrow> vfs_add_child (Some pa) (Some a) w1;
                        w3 \<leftarrow> (if host_root_directory w2 \<noteq> [] then map_option snd (vfs_sync_to_host e (Some a) w2)
                              else Some w2);
                        Some (0, w3) }))"
            using n by (auto simp: vfs_create_file_node_def split: option.split intro!: step [OF pn])
        qed
      qed
    qed
  qed
  with c show ?thesis by simp
qed

text \<open>Creating a file where nothing prevents it: a new empty node at its path, whatever was there.\<close>

lemma create_file_adds:
  assumes ok: "vfs_ok w" and e: "env_ok e" and sp: "split_path p = Some (pp, nm)" and nm: "nm \<noteq> []"
    and d: "vfs_view w (path_tokens pp) = Some d" "is_directory d" and m: "node_malloc e (vnodes w) \<noteq> None"
  shows "\<exists>w'. vfs_create_file e (Some p) w = Some (0, w') \<and> vfs_ok w' \<and> same_globals w w' \<and>
    vfs_view w' = fs_add (vfs_view w) (path_tokens pp @ [nm]) (new_node e w nm False VFS_DEFAULT_FILE_PERMS)"
  using create_file_refines [OF ok e sp nm] d m by (auto simp: spec_create_file_def Let_def)

text \<open>So \<^verbatim>\<open>touch\<close> on a file that is there hides its contents behind an empty node.\<close>

lemma touch_hides:
  assumes ok: "vfs_ok (shell_vfs s)" and e: "env_ok e"
    and sp: "split_path (command_path (cwd_of s) f) = Some (pp, nm)" "nm \<noteq> []"
    and d: "vfs_view (shell_vfs s) (path_tokens pp) = Some d" "is_directory d"
    and m: "node_malloc e (vnodes (shell_vfs s)) \<noteq> None"
  shows "\<exists>s' n. touch_command u e [''touch'', f] s = Some s' \<and>
    vfs_view (shell_vfs s') (path_tokens pp @ [nm]) = Some n \<and> vdata n = None \<and> vsize n = 0"
proof -
  from create_file_adds [OF ok e sp d m] obtain w where
    "vfs_create_file e (Some (command_path (cwd_of s) f)) (shell_vfs s) = Some (0, w)"
    "vfs_view w = fs_add (vfs_view (shell_vfs s)) (path_tokens pp @ [nm]) (new_node e (shell_vfs s) nm False VFS_DEFAULT_FILE_PERMS)"
    by blast
  then show ?thesis by (simp add: touch_command_def path_command_def on_vfs_def Let_def fs_add_def)
qed

lemma same_globals_access:
  "same_globals w w' \<Longrightarrow> may_access w' = may_access w \<and> vfs_current_user w' = vfs_current_user w"
  unfolding same_globals_def by (cases w; cases w') (auto simp: may_access_def fun_eq_iff)

text \<open>
  C44: \<^verbatim>\<open>cp\<close> of a loaded file creates the destination with the caller as owner, the default
  mode and the source's contents, and changes no other path; a following read by the
  caller returns the contents. Nothing is assumed of the source's permissions: a file the caller
  may not read can be copied and read.
\<close>

theorem cp_copies_without_permission:
  assumes ok: "vfs_ok (shell_vfs s)" and e: "env_ok e"
    and src: "vfs_view (shell_vfs s) (seen_tokens (command_path (cwd_of s) f)) = Some n" "\<not> is_directory n"
    and n: "vdata n = Some bs" "vsize n = length bs"
    and sp: "split_path (command_path (cwd_of s) g) = Some (pp, nm)" "nm \<noteq> []" "length (command_path (cwd_of s) g) \<le> 255"
    and d: "vfs_view (shell_vfs s) (path_tokens pp) = Some d" "is_directory d"
    and m: "node_malloc e (vnodes (shell_vfs s)) \<noteq> None" "data_malloc e (length bs)"
    and user: "length (vfs_current_user (shell_vfs s)) < 50"
  shows "\<exists>s'. cp_command u e [''cp'', f, g] s = Some s' \<and> vfs_ok (shell_vfs s') \<and>
    vfs_view (shell_vfs s') = fs_add (vfs_view (shell_vfs s)) (path_tokens pp @ [nm])
      ((new_node e (shell_vfs s) nm False VFS_DEFAULT_FILE_PERMS)\<lparr>vdata := Some bs, vsize := length bs\<rparr>) \<and>
    vfs_read_file e' (Some (command_path (cwd_of s) g)) (shell_vfs s') =
      Some (0, Some (Some bs, length bs), shell_vfs s')"
proof -
  let ?w = "shell_vfs s" and ?src = "command_path (cwd_of s) f" and ?dest = "command_path (cwd_of s) g"
  let ?ts = "path_tokens pp @ [nm]" and ?new = "new_node e (shell_vfs s) nm False VFS_DEFAULT_FILE_PERMS"
  let ?f = "\<lambda>k. k\<lparr>vdata := Some bs, vsize := length bs\<rparr> :: VNode"
  obtain a k where a: "vfs_find_node ?w (Some ?src) = Some (Some a)" "vnodes ?w a = Some k" "n = entry_of k"
    using src(1) by (cases rule: find_node_cases [OF ok, of ?src]) (auto simp: located_def)
  from create_file_adds [OF ok e sp(1,2) d m(1)] obtain w1 where w1: "vfs_create_file e (Some ?dest) ?w = Some (0, w1)"
    "vfs_ok w1" "same_globals ?w w1" "vfs_view w1 = fs_add (vfs_view ?w) ?ts ?new" by blast
  have k1: "vnodes w1 a = Some k" using create_keeps_files [OF e a(2) _ w1(1)] a(3) src(2) by simp
  have tok: "seen_tokens ?dest = ?ts" using split_path_tokens(1) [OF sp(1)] sp(2,3) by simp
  obtain b l where b: "vfs_find_node w1 (Some ?dest) = Some (Some b)" "located w1 ?ts b l" "?new = entry_of l"
    using w1(4) by (cases rule: find_node_cases [OF w1(2), of ?dest, unfolded tok]) (auto simp: fs_add_def)
  have kl: "keeps_links ?f" by (simp add: keeps_links_def)
  note up = update_ok [where f = ?f, OF w1(2) b(2) kl]
  let ?w2 = "w1\<lparr>vnodes := (vnodes w1)(b \<mapsto> ?f l)\<rparr>"
  have ent: "entry_of (?f l) = ?f ?new" using b(3) by (simp add: entry_of_def)
  have v2: "vfs_view ?w2 = fs_add (vfs_view ?w) ?ts (?f ?new)"
    using up(3) by (simp add: ent w1(4) fun_eq_iff fs_add_def)
  have copy: "copy_file e ?src ?dest ?w = Some (0, ?w2)"
    using a src(2) w1(1) k1 b(1,2) n m(2) by (simp add: copy_file_def copy_node_data_def located_def) (auto simp: located_def)
  let ?s' = "say (''File copied from '' @ ?src @ '' to '' @ ?dest @ nl) (s\<lparr>shell_vfs := ?w2\<rparr>)"
  have run: "cp_command u e [''cp'', f, g] s = Some ?s'" using copy by (simp add: cp_command_def on_vfs_def Let_def)
  have "may_access ?w2 (?f ?new) (vfs_current_user ?w2) R_OK"
  proof -
    have "may_access ?w (?f ?new) (vfs_current_user ?w) R_OK"
      using user by (simp add: may_access_def R_OK_def VFS_DEFAULT_FILE_PERMS_def)
    moreover have "may_access ?w2 = may_access w1" "vfs_current_user ?w2 = vfs_current_user w1"
      by (simp_all add: may_access_def fun_eq_iff)
    ultimately show ?thesis using same_globals_access [OF w1(3)] by simp
  qed
  moreover have "vfs_view ?w2 (seen_tokens ?dest) = Some (?f ?new)" unfolding v2 tok by (simp add: fs_add_def)
  ultimately have "vfs_read_file e' (Some ?dest) ?w2 = Some (0, Some (Some bs, length bs), ?w2)"
    using read_file_loaded [OF up(1), of ?dest "?f ?new" bs e'] by simp
  with run up(1) v2 show ?thesis by (intro exI [of _ ?s']) simp
qed

end
