(* ===== verification/Handles.thy ===== *)
theory Handles
  imports Prelude
begin

text \<open>
  The contract shared by the kernel tables that give out integer handles (process ids,
  socket descriptors): an operation that creates an entry returns a handle that was not in
  use and leaves every other handle alone, and an operation that destroys an entry ends
  exactly that handle. \<open>alive s k\<close> is what a lookup of handle \<open>k\<close> finds in state \<open>s\<close>.
  The tables interpret this locale on their own operations.
\<close>

locale handle_table =
  fixes inv :: "'s \<Rightarrow> bool"
    and alive :: "'s \<Rightarrow> int \<Rightarrow> 'v option"
    and create :: "'a \<Rightarrow> 's \<Rightarrow> (int \<times> 's) option"
    and destroy :: "int \<Rightarrow> 's \<Rightarrow> 's"
  assumes create_inv: "inv s \<Longrightarrow> create a s = Some (k, s') \<Longrightarrow> inv s'"
    and create_fresh: "inv s \<Longrightarrow> create a s = Some (k, s') \<Longrightarrow> alive s k = None"
    and create_alive: "inv s \<Longrightarrow> create a s = Some (k, s') \<Longrightarrow> alive s' k \<noteq> None"
    and create_other: "inv s \<Longrightarrow> create a s = Some (k, s') \<Longrightarrow> k' \<noteq> k \<Longrightarrow> alive s' k' = alive s k'"
    and destroy_inv: "inv s \<Longrightarrow> inv (destroy k s)"
    and destroy_other: "inv s \<Longrightarrow> k' \<noteq> k \<Longrightarrow> alive (destroy k s) k' = alive s k'"
begin

text \<open>Two handles given out one after the other differ.\<close>

lemma create_twice_distinct:
  assumes "inv s" and "create a s = Some (k, s1)" and "create b s1 = Some (k', s2)"
  shows "k \<noteq> k'"
proof
  assume "k = k'"
  have "alive s1 k' = None"
    using create_fresh [OF create_inv [OF assms(1,2)] assms(3)] .
  with create_alive [OF assms(1,2)] \<open>k = k'\<close> show False by simp
qed

text \<open>A handle stays alive over the creation of others.\<close>

lemma create_keeps_alive:
  assumes "inv s" and "create a s = Some (k, s')" and "alive s k' \<noteq> None"
  shows "alive s' k' = alive s k'"
proof -
  have "k' \<noteq> k" using create_fresh [OF assms(1,2)] assms(3) by auto
  with assms show ?thesis by (intro create_other)
qed

text \<open>Creating an entry and destroying another leaves the new handle alive.\<close>

lemma destroy_keeps_created:
  assumes "inv s" and "create a s = Some (k, s')" and "k' \<noteq> k"
  shows "alive (destroy k' s') k \<noteq> None"
  using assms destroy_other [OF create_inv [OF assms(1,2)], of k k'] create_alive [OF assms(1,2)]
  by simp

end

text \<open>
  The handles a run of creations gives out. \<open>create_all\<close> stops at the first creation that
  fails.
\<close>

fun create_all :: "('a \<Rightarrow> 's \<Rightarrow> (int \<times> 's) option) \<Rightarrow> 'a list \<Rightarrow> 's \<Rightarrow> int list \<times> 's" where
  "create_all cr [] s = ([], s)"
| "create_all cr (a # as) s =
     (case cr a s of None \<Rightarrow> ([], s)
      | Some (k, s') \<Rightarrow> (let (ks, s'') = create_all cr as s' in (k # ks, s'')))"

context handle_table
begin

lemma create_all_alive:
  "inv s \<Longrightarrow> create_all create as s = (ks, s') \<Longrightarrow>
     inv s' \<and> (\<forall>k. alive s k \<noteq> None \<longrightarrow> alive s' k = alive s k) \<and>
     (\<forall>k \<in> set ks. alive s k = None \<and> alive s' k \<noteq> None)"
proof (induction as arbitrary: s ks s')
  case Nil
  then show ?case by simp
next
  case (Cons a as)
  show ?case
  proof (cases "create a s")
    case None
    with Cons.prems show ?thesis by simp
  next
    case (Some r)
    obtain k s1 where r: "r = (k, s1)" by (cases r)
    note cr = Some [unfolded r]
    obtain ks' s2 where rec: "create_all create as s1 = (ks', s2)" by fastforce
    have eqs: "ks = k # ks'" "s' = s2" using Cons.prems(2) cr rec by auto
    note inv1 = create_inv [OF Cons.prems(1) cr]
    note IH = Cons.IH [OF inv1 rec]
    have keep: "\<And>k0. alive s k0 \<noteq> None \<Longrightarrow> alive s1 k0 = alive s k0"
      using create_keeps_alive [OF Cons.prems(1) cr] .
    have k_ok: "alive s k = None" "alive s1 k \<noteq> None"
      using create_fresh [OF Cons.prems(1) cr] create_alive [OF Cons.prems(1) cr] by simp_all
    show ?thesis
    proof (intro conjI ballI allI impI)
      show "inv s'" using IH eqs by simp
    next
      fix k0 assume "alive s k0 \<noteq> None"
      then show "alive s' k0 = alive s k0" using IH keep [of k0] eqs by auto
    next
      fix k0 assume "k0 \<in> set ks"
      then consider "k0 = k" | "k0 \<in> set ks'" using eqs by auto
      then show "alive s k0 = None"
      proof cases
        case 1
        then show ?thesis using k_ok by simp
      next
        case 2
        then have "alive s1 k0 = None" using IH by blast
        with keep [of k0] show ?thesis by (cases "alive s k0") auto
      qed
    next
      fix k0 assume "k0 \<in> set ks"
      then consider "k0 = k" | "k0 \<in> set ks'" using eqs by auto
      then show "alive s' k0 \<noteq> None"
      proof cases
        case 1
        then show ?thesis using IH k_ok eqs by auto
      next
        case 2
        then show ?thesis using IH eqs by auto
      qed
    qed
  qed
qed

text \<open>No handle is given out twice in a run of creations.\<close>

lemma create_all_distinct: "inv s \<Longrightarrow> distinct (fst (create_all create as s))"
proof (induction as arbitrary: s)
  case Nil
  then show ?case by simp
next
  case (Cons a as)
  show ?case
  proof (cases "create a s")
    case None
    then show ?thesis by simp
  next
    case (Some r)
    obtain k s1 where r: "r = (k, s1)" by (cases r)
    note cr = Some [unfolded r]
    obtain ks s2 where rec: "create_all create as s1 = (ks, s2)" by fastforce
    note inv1 = create_inv [OF Cons.prems cr]
    have "k \<notin> set ks"
      using create_all_alive [OF inv1 rec] create_alive [OF Cons.prems cr] by auto
    with Cons.IH [OF inv1] rec cr show ?thesis by simp
  qed
qed

end

end
