(* ===== verification/ProcessTable.thy ===== *)
theory ProcessTable
  imports Handles
begin

text \<open>
  The process table of \<^verbatim>\<open>src/system/process.c\<close>: 256 slots, each NULL or owning one
  process, the next process id and the number of processes. A \<^verbatim>\<open>Process*\<close> the
  code returns is modelled by the slot it points into. \<^verbatim>\<open>calloc\<close>/\<^verbatim>\<open>malloc\<close> success
  (\<open>mem\<close>) and \<^verbatim>\<open>time(NULL)\<close> (\<open>now\<close>) are arguments.
\<close>

section \<open>Data\<close>

datatype ProcessState =
  PROC_STATE_RUNNING | PROC_STATE_SLEEPING | PROC_STATE_STOPPED | PROC_STATE_ZOMBIE | PROC_STATE_DEAD

datatype ProcessPriority =
  PROC_PRIORITY_REALTIME | PROC_PRIORITY_HIGH | PROC_PRIORITY_NORMAL | PROC_PRIORITY_LOW
| PROC_PRIORITY_IDLE

text \<open>The numbers the C enumeration gives the priorities.\<close>

fun priority_code :: "ProcessPriority \<Rightarrow> int" where
  "priority_code PROC_PRIORITY_REALTIME = 0"
| "priority_code PROC_PRIORITY_HIGH = 1"
| "priority_code PROC_PRIORITY_NORMAL = 2"
| "priority_code PROC_PRIORITY_LOW = 3"
| "priority_code PROC_PRIORITY_IDLE = 4"

text \<open>The float \<^verbatim>\<open>cpu_percent\<close> is only ever assigned 0; it is kept as an integer.\<close>

record Process =
  pid :: int
  ppid :: int
  pname :: string
  pargs :: string
  pstate :: ProcessState
  priority :: ProcessPriority
  memory_used :: u64
  cpu_percent :: int
  start_time :: int
  cpu_time :: int
  exit_code :: int

record ProcessTable =
  processes :: "Process option list"
  next_pid :: int
  pt_count :: int

definition MAX_PROCESSES :: nat where "MAX_PROCESSES = 256"
definition MAX_PROCESS_NAME :: nat where "MAX_PROCESS_NAME = 128"
definition MAX_PROCESS_ARGS :: nat where "MAX_PROCESS_ARGS = 1024"

definition PROC_SIG_TERM :: int where "PROC_SIG_TERM = 15"
definition PROC_SIG_KILL :: int where "PROC_SIG_KILL = 9"
definition PROC_SIG_STOP :: int where "PROC_SIG_STOP = 19"
definition PROC_SIG_CONT :: int where "PROC_SIG_CONT = 18"

lemmas sig_defs = PROC_SIG_TERM_def PROC_SIG_KILL_def PROC_SIG_STOP_def PROC_SIG_CONT_def

definition INT_MAX :: int where "INT_MAX = 2147483647"

section \<open>Initialisation\<close>

definition empty_table :: ProcessTable where
  "empty_table = \<lparr>processes = replicate MAX_PROCESSES None, next_pid = 1, pt_count = 0\<rparr>"

definition init_process :: "int \<Rightarrow> Process" where
  "init_process now =
     \<lparr>pid = 1, ppid = 0, pname = ''init'', pargs = ''init'', pstate = PROC_STATE_RUNNING,
      priority = PROC_PRIORITY_HIGH, memory_used = 0, cpu_percent = 0, start_time = now,
      cpu_time = 0, exit_code = 0\<rparr>"

definition process_init :: "bool \<Rightarrow> int \<Rightarrow> int \<times> ProcessTable" where
  "process_init mem now =
     (if \<not> mem then (-1, empty_table)
      else (0, empty_table\<lparr>processes := (processes empty_table)[0 := Some (init_process now)],
                           pt_count := 1, next_pid := 2\<rparr>))"

definition process_cleanup :: "ProcessTable \<Rightarrow> ProcessTable" where
  "process_cleanup t =
     t\<lparr>processes := replicate (length (processes t)) None, pt_count := 0, next_pid := 1\<rparr>"

section \<open>Lookup\<close>

definition has_pid :: "int \<Rightarrow> Process option \<Rightarrow> bool" where
  "has_pid p e = (case e of None \<Rightarrow> False | Some q \<Rightarrow> pid q = p)"

lemma has_pid_simps [simp]: "\<not> has_pid p None" "has_pid p (Some q) \<longleftrightarrow> pid q = p"
  by (simp_all add: has_pid_def)

definition process_slot :: "ProcessTable \<Rightarrow> int \<Rightarrow> nat option" where
  "process_slot t p = first_index (has_pid p) (processes t)"

definition process_get :: "ProcessTable \<Rightarrow> int \<Rightarrow> Process option" where
  "process_get t p =
     (case process_slot t p of None \<Rightarrow> None | Some i \<Rightarrow> processes t ! i)"

definition process_get_by_name :: "ProcessTable \<Rightarrow> string option \<Rightarrow> Process option" where
  "process_get_by_name t nm =
     (case nm of None \<Rightarrow> None
      | Some n \<Rightarrow>
         (case first_index (\<lambda>e. case e of None \<Rightarrow> False | Some q \<Rightarrow> pname q = n) (processes t) of
            None \<Rightarrow> None | Some i \<Rightarrow> processes t ! i))"

section \<open>Creation and termination\<close>

definition new_process :: "int \<Rightarrow> int \<Rightarrow> string \<Rightarrow> string option \<Rightarrow> ProcessPriority \<Rightarrow> Process" where
  "new_process now p nm args prio =
     \<lparr>pid = p, ppid = 1, pname = c_copy MAX_PROCESS_NAME nm,
      pargs = (case args of None \<Rightarrow> [] | Some a \<Rightarrow> c_copy MAX_PROCESS_ARGS a),
      pstate = PROC_STATE_RUNNING, priority = prio, memory_used = 1024 * 1024,
      cpu_percent = 0, start_time = now, cpu_time = 0, exit_code = 0\<rparr>"

text \<open>\<open>None\<close> is the overflow of the signed counter \<^verbatim>\<open>next_pid++\<close>.\<close>

definition process_create ::
  "bool \<Rightarrow> int \<Rightarrow> string option \<Rightarrow> string option \<Rightarrow> ProcessPriority \<Rightarrow> ProcessTable
     \<Rightarrow> (int \<times> ProcessTable) option" where
  "process_create mem now nm args prio t =
     (case nm of None \<Rightarrow> Some (-1, t)
      | Some n \<Rightarrow>
        (if int MAX_PROCESSES \<le> pt_count t then Some (-1, t)
         else case first_index (\<lambda>e. e = None) (processes t) of
           None \<Rightarrow> Some (-1, t)
         | Some slot \<Rightarrow>
             if \<not> mem then Some (-1, t)
             else if next_pid t = INT_MAX then None
             else Some (next_pid t,
                    t\<lparr>next_pid := next_pid t + 1,
                      processes := (processes t)[slot := Some (new_process now (next_pid t) n args prio)],
                      pt_count := pt_count t + 1\<rparr>)))"

definition update_process :: "nat \<Rightarrow> (Process \<Rightarrow> Process) \<Rightarrow> ProcessTable \<Rightarrow> ProcessTable" where
  "update_process i f t = t\<lparr>processes := (processes t)[i := map_option f (processes t ! i)]\<rparr>"

definition process_kill :: "int \<Rightarrow> int \<Rightarrow> ProcessTable \<Rightarrow> int \<times> ProcessTable" where
  "process_kill p signal t =
     (case process_slot t p of None \<Rightarrow> (-1, t)
      | Some i \<Rightarrow>
        if p = 1 then (-1, t)
        else if signal = PROC_SIG_KILL \<or> signal = PROC_SIG_TERM then
          (let t1 = update_process i (\<lambda>q. q\<lparr>pstate := PROC_STATE_ZOMBIE, exit_code := signal\<rparr>) t in
           case process_slot t1 p of
             None \<Rightarrow> (0, t1)
           | Some j \<Rightarrow> (0, t1\<lparr>processes := (processes t1)[j := None], pt_count := pt_count t1 - 1\<rparr>))
        else if signal = PROC_SIG_STOP then
          (0, update_process i (\<lambda>q. q\<lparr>pstate := PROC_STATE_STOPPED\<rparr>) t)
        else if signal = PROC_SIG_CONT then
          (0, update_process i (\<lambda>q. q\<lparr>pstate := PROC_STATE_RUNNING\<rparr>) t)
        else (0, t))"

definition process_send_signal :: "int \<Rightarrow> int \<Rightarrow> ProcessTable \<Rightarrow> int \<times> ProcessTable" where
  "process_send_signal p signal t = process_kill p signal t"

section \<open>State, priority, statistics\<close>

definition process_set_state :: "int \<Rightarrow> ProcessState \<Rightarrow> ProcessTable \<Rightarrow> int \<times> ProcessTable" where
  "process_set_state p st t =
     (case process_slot t p of None \<Rightarrow> (-1, t)
      | Some i \<Rightarrow> (0, update_process i (\<lambda>q. q\<lparr>pstate := st\<rparr>) t))"

definition process_get_state :: "ProcessTable \<Rightarrow> int \<Rightarrow> ProcessState" where
  "process_get_state t p =
     (case process_get t p of None \<Rightarrow> PROC_STATE_DEAD | Some q \<Rightarrow> pstate q)"

definition process_set_priority :: "int \<Rightarrow> ProcessPriority \<Rightarrow> ProcessTable \<Rightarrow> int \<times> ProcessTable" where
  "process_set_priority p prio t =
     (case process_slot t p of None \<Rightarrow> (-1, t)
      | Some i \<Rightarrow> (0, update_process i (\<lambda>q. q\<lparr>priority := prio\<rparr>) t))"

text \<open>The 64-bit usage is returned as a C \<^verbatim>\<open>int\<close>.\<close>

definition process_get_memory_usage :: "ProcessTable \<Rightarrow> int \<Rightarrow> int" where
  "process_get_memory_usage t p =
     (case process_get t p of None \<Rightarrow> 0 | Some q \<Rightarrow> sint (ucast (memory_used q) :: u32))"

definition process_get_cpu_usage :: "ProcessTable \<Rightarrow> int \<Rightarrow> int" where
  "process_get_cpu_usage t p = (case process_get t p of None \<Rightarrow> 0 | Some q \<Rightarrow> cpu_percent q)"

definition process_get_runtime :: "int \<Rightarrow> ProcessTable \<Rightarrow> int \<Rightarrow> int" where
  "process_get_runtime now t p = (case process_get t p of None \<Rightarrow> 0 | Some q \<Rightarrow> now - start_time q)"

definition process_get_parent :: "ProcessTable \<Rightarrow> int \<Rightarrow> int" where
  "process_get_parent t p = (case process_get t p of None \<Rightarrow> -1 | Some q \<Rightarrow> ppid q)"

section \<open>Enumeration\<close>

definition occupied :: "ProcessTable \<Rightarrow> Process list" where
  "occupied t = map the (filter (\<lambda>e. e \<noteq> None) (processes t))"

text \<open>The array the code fills stops at \<^verbatim>\<open>process_count\<close> entries.\<close>

definition process_list :: "bool \<Rightarrow> ProcessTable \<Rightarrow> int \<times> Process list" where
  "process_list mem t =
     (if \<not> mem then (-1, [])
      else (let ps = take (nat (pt_count t)) (occupied t) in (int (length ps), ps)))"

definition process_count :: "ProcessTable \<Rightarrow> int" where
  "process_count t = pt_count t"

text \<open>The two passes shared by the search functions: count the matches, then collect them.\<close>

definition collect_pids :: "bool \<Rightarrow> (Process \<Rightarrow> bool) \<Rightarrow> ProcessTable \<Rightarrow> int \<times> int list" where
  "collect_pids mem P t =
     (let n = count_if (\<lambda>e. case e of None \<Rightarrow> False | Some q \<Rightarrow> P q) (processes t) in
      if n = 0 then (0, [])
      else if \<not> mem then (-1, [])
      else (int n, take n (map pid (filter P (occupied t)))))"

definition process_get_children :: "bool \<Rightarrow> int \<Rightarrow> ProcessTable \<Rightarrow> int \<times> int list" where
  "process_get_children mem parent t = collect_pids mem (\<lambda>q. ppid q = parent) t"

definition process_find_by_state :: "bool \<Rightarrow> ProcessState \<Rightarrow> ProcessTable \<Rightarrow> int \<times> int list" where
  "process_find_by_state mem st t = collect_pids mem (\<lambda>q. pstate q = st) t"

text \<open>\<^verbatim>\<open>strstr\<close>.\<close>

fun c_strstr :: "string \<Rightarrow> string \<Rightarrow> bool" where
  "c_strstr [] pat = (pat = [])"
| "c_strstr (c # cs) pat = (take (length pat) (c # cs) = pat \<or> c_strstr cs pat)"

definition process_find_by_name_pattern ::
  "bool \<Rightarrow> string option \<Rightarrow> ProcessTable \<Rightarrow> int \<times> int list" where
  "process_find_by_name_pattern mem pat t =
     (case pat of None \<Rightarrow> (-1, [])
      | Some s \<Rightarrow> collect_pids mem (\<lambda>q. c_strstr (pname q) s) t)"

definition process_get_total_memory :: "ProcessTable \<Rightarrow> u64" where
  "process_get_total_memory t = foldl (\<lambda>total q. total + memory_used q) 0 (occupied t)"

definition process_get_running_count :: "ProcessTable \<Rightarrow> int" where
  "process_get_running_count t =
     int (count_if (\<lambda>e. case e of None \<Rightarrow> False | Some q \<Rightarrow> pstate q = PROC_STATE_RUNNING)
            (processes t))"


section \<open>Invariant\<close>

text \<open>The content of slot \<open>i\<close>, nothing beyond the table.\<close>

definition slot_at :: "ProcessTable \<Rightarrow> nat \<Rightarrow> Process option" where
  "slot_at t i = (if i < length (processes t) then processes t ! i else None)"

text \<open>
  The table has its 256 slots, \<open>pt_count\<close> counts the occupied ones, process ids are unique,
  at least 1 and below the next id to give out, and process 1 (init) is there.
\<close>

definition pt_inv :: "ProcessTable \<Rightarrow> bool" where
  "pt_inv t \<longleftrightarrow>
     length (processes t) = MAX_PROCESSES \<and>
     pt_count t = int (count_if (\<lambda>e. e \<noteq> None) (processes t)) \<and>
     (\<forall>i j p q. slot_at t i = Some p \<longrightarrow> slot_at t j = Some q \<longrightarrow> pid p = pid q \<longrightarrow> i = j) \<and>
     (\<forall>i q. slot_at t i = Some q \<longrightarrow> 1 \<le> pid q \<and> pid q < next_pid t) \<and>
     2 \<le> next_pid t \<and>
     (\<exists>i q. slot_at t i = Some q \<and> pid q = 1)"

lemma pt_inv_len: "pt_inv t \<Longrightarrow> length (processes t) = MAX_PROCESSES"
  by (simp add: pt_inv_def)

lemma pt_inv_count: "pt_inv t \<Longrightarrow> pt_count t = int (count_if (\<lambda>e. e \<noteq> None) (processes t))"
  by (simp add: pt_inv_def)

lemma pt_inv_unique:
  "pt_inv t \<Longrightarrow> slot_at t i = Some p \<Longrightarrow> slot_at t j = Some q \<Longrightarrow> pid p = pid q \<Longrightarrow> i = j"
  unfolding pt_inv_def by blast

lemma pt_inv_pid: "pt_inv t \<Longrightarrow> slot_at t i = Some q \<Longrightarrow> 1 \<le> pid q \<and> pid q < next_pid t"
  unfolding pt_inv_def by blast

lemma pt_inv_next: "pt_inv t \<Longrightarrow> 2 \<le> next_pid t"
  unfolding pt_inv_def by blast

lemma pt_inv_has_init: "pt_inv t \<Longrightarrow> \<exists>i q. slot_at t i = Some q \<and> pid q = 1"
  unfolding pt_inv_def by blast

lemma slot_at_update [simp]:
  "slot_at (t\<lparr>processes := (processes t)[k := v]\<rparr>) i
     = (if i = k \<and> k < length (processes t) then v else slot_at t i)"
  by (auto simp: slot_at_def nth_list_update)

lemma slot_at_counters [simp]:
  "slot_at (t\<lparr>next_pid := n\<rparr>) i = slot_at t i" "slot_at (t\<lparr>pt_count := c\<rparr>) i = slot_at t i"
  by (simp_all add: slot_at_def)

lemma slot_at_lt: "slot_at t i = Some q \<Longrightarrow> i < length (processes t) \<and> processes t ! i = Some q"
  by (simp add: slot_at_def split: if_splits)

lemma process_slot_SomeD:
  "process_slot t p = Some i \<Longrightarrow> \<exists>q. slot_at t i = Some q \<and> pid q = p"
  using first_index_SomeD [of "has_pid p" "processes t" i]
  by (cases "processes t ! i") (auto simp: process_slot_def slot_at_def)

lemma process_slot_eq:
  assumes "pt_inv t" and "slot_at t i = Some q"
  shows "process_slot t (pid q) = Some i"
  unfolding process_slot_def
proof (rule first_index_unique)
  show "i < length (processes t)" and "has_pid (pid q) (processes t ! i)"
    using slot_at_lt [OF assms(2)] by simp_all
  fix j assume "j < length (processes t)" and "has_pid (pid q) (processes t ! j)"
  then obtain p where "slot_at t j = Some p" "pid p = pid q"
    by (cases "processes t ! j") (auto simp: slot_at_def)
  with pt_inv_unique [OF assms(1) this(1) assms(2)] show "j = i" by simp
qed

lemma process_get_iff:
  assumes "pt_inv t"
  shows "process_get t p = Some q \<longleftrightarrow> (\<exists>i. slot_at t i = Some q \<and> pid q = p)"
proof
  assume "process_get t p = Some q"
  then obtain i where i: "process_slot t p = Some i" "processes t ! i = Some q"
    by (auto simp: process_get_def split: option.splits)
  with process_slot_SomeD [OF i(1)] slot_at_lt [of t i]
  show "\<exists>i. slot_at t i = Some q \<and> pid q = p" by fastforce
next
  assume "\<exists>i. slot_at t i = Some q \<and> pid q = p"
  then obtain i where i: "slot_at t i = Some q" "pid q = p" by blast
  with process_slot_eq [OF assms i(1)] slot_at_lt [OF i(1)] show "process_get t p = Some q"
    by (auto simp: process_get_def)
qed

lemma process_get_None_iff:
  assumes "pt_inv t"
  shows "process_get t p = None \<longleftrightarrow> (\<forall>i q. slot_at t i = Some q \<longrightarrow> pid q \<noteq> p)"
proof
  assume none: "process_get t p = None"
  show "\<forall>i q. slot_at t i = Some q \<longrightarrow> pid q \<noteq> p"
  proof (intro allI impI notI)
    fix i q assume "slot_at t i = Some q" and "pid q = p"
    then have "process_get t p = Some q" using process_get_iff [OF assms] by blast
    with none show False by simp
  qed
next
  assume "\<forall>i q. slot_at t i = Some q \<longrightarrow> pid q \<noteq> p"
  then show "process_get t p = None"
    using process_get_iff [OF assms, of p] by (metis option.exhaust)
qed

text \<open>A change that leaves every slot with the ids in question as it was keeps the lookup.\<close>

lemma process_get_cong:
  assumes "pt_inv t" and "pt_inv t'"
    and "\<And>i q. pid q = p \<Longrightarrow> slot_at t i = Some q \<longleftrightarrow> slot_at t' i = Some q"
  shows "process_get t' p = process_get t p"
proof (cases "process_get t p")
  case None
  then have "process_get t' p = None"
    using assms process_get_None_iff [OF assms(1)] process_get_None_iff [OF assms(2)] by blast
  with None show ?thesis by simp
next
  case (Some q)
  then have "process_get t' p = Some q"
    using assms process_get_iff [OF assms(1)] process_get_iff [OF assms(2)] by blast
  with Some show ?thesis by simp
qed

section \<open>Every operation keeps the invariant\<close>

lemma pt_inv_init: "process_init True now = (r, t) \<Longrightarrow> pt_inv t"
proof -
  assume "process_init True now = (r, t)"
  then have t: "t = \<lparr>processes = (replicate MAX_PROCESSES None)[0 := Some (init_process now)],
      next_pid = 2, pt_count = 1\<rparr>"
    by (simp add: process_init_def empty_table_def)
  have cnt: "count_if (\<lambda>e. e \<noteq> None) ((replicate MAX_PROCESSES None)[0 := Some (init_process now)]) = 1"
    using count_if_update [of 0 "replicate MAX_PROCESSES None" "\<lambda>e. e \<noteq> None" "Some (init_process now)"]
    by (simp add: MAX_PROCESSES_def)
  have slot: "\<And>i. slot_at t i = (if i = 0 then Some (init_process now) else None)"
    by (auto simp: t slot_at_def MAX_PROCESSES_def nth_list_update)
  show ?thesis
    unfolding pt_inv_def slot using cnt by (simp add: t init_process_def)
qed

lemma process_create_cases:
  assumes "process_create mem now nm args prio t = Some (r, t')"
  obtains "r = -1" "t' = t"
  | slot n where "nm = Some n" "first_index (\<lambda>e. e = None) (processes t) = Some slot"
      "next_pid t \<noteq> INT_MAX" "r = next_pid t"
      "t' = t\<lparr>next_pid := next_pid t + 1,
              processes := (processes t)[slot := Some (new_process now (next_pid t) n args prio)],
              pt_count := pt_count t + 1\<rparr>"
proof (cases nm)
  case None
  with assms that(1) show thesis by (simp add: process_create_def)
next
  case (Some n)
  show thesis
  proof (cases "int MAX_PROCESSES \<le> pt_count t")
    case True
    with assms Some that(1) show thesis by (simp add: process_create_def)
  next
    case room: False
    show thesis
    proof (cases "first_index (\<lambda>e. e = None) (processes t)")
      case None
      with assms Some room that(1) show thesis by (simp add: process_create_def)
    next
      case slot: (Some slot)
      show thesis
      proof (cases mem)
        case False
        with assms Some room slot that(1) show thesis by (simp add: process_create_def)
      next
        case True
        with assms Some room slot show thesis
          by (intro that(2) [OF Some slot]) (auto simp: process_create_def split: if_splits)
      qed
    qed
  qed
qed

lemma pid_new_process [simp]: "pid (new_process now p n args prio) = p"
  by (simp add: new_process_def)

text \<open>What a successful creation does to the slots.\<close>

lemma process_create_slots:
  assumes "process_create mem now nm args prio t = Some (r, t')" and "r \<noteq> -1"
  obtains slot n where "nm = Some n" "slot < length (processes t)" "processes t ! slot = None"
      "r = next_pid t" "next_pid t' = next_pid t + 1" "pt_count t' = pt_count t + 1"
      "processes t' = (processes t)[slot := Some (new_process now (next_pid t) n args prio)]"
      "\<And>i. slot_at t' i = (if i = slot then Some (new_process now (next_pid t) n args prio)
                            else slot_at t i)"
  using assms(1)
proof (cases rule: process_create_cases)
  case 1
  with assms show ?thesis by simp
next
  case (2 slot n)
  note d = first_index_SomeD [OF 2(2)]
  then have "\<And>i. slot_at t' i = (if i = slot then Some (new_process now (next_pid t) n args prio)
                            else slot_at t i)"
    using 2(5) by (auto simp: slot_at_def nth_list_update)
  with 2 d that [of n slot] show ?thesis by simp
qed

lemma pt_inv_create [vm_inv]:
  assumes inv: "pt_inv t" and cr: "process_create mem now nm args prio t = Some (r, t')"
  shows "pt_inv t'"
proof (cases "r = -1")
  case True
  with cr inv pt_inv_next [OF inv] show ?thesis by (cases rule: process_create_cases) auto
next
  case False
  obtain slot n where s: "slot < length (processes t)" "processes t ! slot = None"
      "next_pid t' = next_pid t + 1" "pt_count t' = pt_count t + 1"
      "processes t' = (processes t)[slot := Some (new_process now (next_pid t) n args prio)]"
      and at: "\<And>i. slot_at t' i = (if i = slot then Some (new_process now (next_pid t) n args prio)
                            else slot_at t i)"
    using process_create_slots [OF cr False] by metis
  have none: "slot_at t slot = None" using s by (simp add: slot_at_def)
  have cnt: "count_if (\<lambda>e. e \<noteq> None) (processes t') = Suc (count_if (\<lambda>e. e \<noteq> None) (processes t))"
    using count_if_update [of slot "processes t" "\<lambda>e. e \<noteq> None"
        "Some (new_process now (next_pid t) n args prio)"] s by simp
  have bnd: "\<And>i q. slot_at t i = Some q \<Longrightarrow> pid q < next_pid t"
    using pt_inv_pid [OF inv] by blast
  have uniq: "\<forall>i j p q. slot_at t' i = Some p \<longrightarrow> slot_at t' j = Some q \<longrightarrow> pid p = pid q \<longrightarrow> i = j"
  proof (intro allI impI)
    fix i j p q
    assume a: "slot_at t' i = Some p" "slot_at t' j = Some q" "pid p = pid q"
    show "i = j"
    proof (cases "i = slot"; cases "j = slot")
      assume "i \<noteq> slot" "j \<noteq> slot"
      with a at show "i = j" using pt_inv_unique [OF inv, of i p j q] by simp
    qed (use a at bnd [of i p] bnd [of j q] in auto)
  qed
  have rng: "\<forall>i q. slot_at t' i = Some q \<longrightarrow> 1 \<le> pid q \<and> pid q < next_pid t'"
  proof (intro allI impI)
    fix i q assume "slot_at t' i = Some q"
    with at [of i] pt_inv_pid [OF inv, of i q] pt_inv_next [OF inv] s(3)
    show "1 \<le> pid q \<and> pid q < next_pid t'" by (auto split: if_splits)
  qed
  have "\<exists>i q. slot_at t' i = Some q \<and> pid q = 1"
    using pt_inv_has_init [OF inv] at none by (metis option.distinct(1))
  then show ?thesis
    unfolding pt_inv_def using uniq rng cnt s pt_inv_count [OF inv] pt_inv_len [OF inv] pt_inv_next [OF inv]
    by simp
qed

text \<open>Updating a process without changing its id.\<close>

lemma slot_at_update_process:
  "slot_at (update_process i f t) j = (if j = i then map_option f (slot_at t j) else slot_at t j)"
  by (auto simp: update_process_def slot_at_def nth_list_update)

lemma pt_inv_update [vm_inv]:
  assumes inv: "pt_inv t" and f: "\<And>q. pid (f q) = pid q"
  shows "pt_inv (update_process i f t)"
proof -
  have old: "\<And>j q. slot_at (update_process i f t) j = Some q \<Longrightarrow>
      \<exists>q0. slot_at t j = Some q0 \<and> pid q0 = pid q"
    using f by (auto simp: slot_at_update_process split: if_splits)
  have new: "\<And>j q. slot_at t j = Some q \<Longrightarrow>
      \<exists>q1. slot_at (update_process i f t) j = Some q1 \<and> pid q1 = pid q"
    using f by (auto simp: slot_at_update_process)
  have cnt: "count_if (\<lambda>e. e \<noteq> None) (processes (update_process i f t))
      = count_if (\<lambda>e. e \<noteq> None) (processes t)"
    using count_if_update [of i "processes t" "\<lambda>e. e \<noteq> None" "map_option f (processes t ! i)"]
    by (cases "i < length (processes t)") (auto simp: update_process_def list_update_beyond split: if_splits)
  have oth: "length (processes (update_process i f t)) = length (processes t)"
      "next_pid (update_process i f t) = next_pid t" "pt_count (update_process i f t) = pt_count t"
    by (simp_all add: update_process_def)
  have "\<forall>a b p q. slot_at (update_process i f t) a = Some p \<longrightarrow>
      slot_at (update_process i f t) b = Some q \<longrightarrow> pid p = pid q \<longrightarrow> a = b"
    using old pt_inv_unique [OF inv] by metis
  moreover have "\<forall>j q. slot_at (update_process i f t) j = Some q \<longrightarrow> 1 \<le> pid q \<and> pid q < next_pid t"
    using old pt_inv_pid [OF inv] by metis
  moreover have "\<exists>j q. slot_at (update_process i f t) j = Some q \<and> pid q = 1"
    using new pt_inv_has_init [OF inv] by metis
  ultimately show ?thesis
    unfolding pt_inv_def using cnt oth pt_inv_count [OF inv] pt_inv_len [OF inv] pt_inv_next [OF inv]
    by simp
qed


lemma process_get_update:
  assumes inv: "pt_inv t" and f: "\<And>q. pid (f q) = pid q" and i: "process_slot t p = Some i"
  shows "process_get (update_process i f t) k
           = (if k = p then map_option f (process_get t k) else process_get t k)"
proof (cases "k = p")
  case True
  obtain q where q: "slot_at t i = Some q" "pid q = p" using process_slot_SomeD [OF i] by blast
  have "process_get t p = Some q" using q process_get_iff [OF inv] by blast
  moreover have "process_get (update_process i f t) p = Some (f q)"
    using q process_get_iff [OF pt_inv_update [OF inv f]] slot_at_update_process [of i f t i] f
    by (metis option.simps(9))
  ultimately show ?thesis using True by simp
next
  case False
  obtain q where q: "slot_at t i = Some q" "pid q = p" using process_slot_SomeD [OF i] by blast
  have "process_get (update_process i f t) k = process_get t k"
    using q False f
    by (intro process_get_cong [OF inv pt_inv_update [OF inv f]]) (auto simp: slot_at_update_process)
  with False show ?thesis by simp
qed

text \<open>Freeing the slot of a process other than init.\<close>

definition free_slot :: "nat \<Rightarrow> ProcessTable \<Rightarrow> ProcessTable" where
  "free_slot j t = t\<lparr>processes := (processes t)[j := None], pt_count := pt_count t - 1\<rparr>"

lemma slot_at_free_slot: "slot_at (free_slot j t) i = (if i = j then None else slot_at t i)"
  by (auto simp: free_slot_def slot_at_def nth_list_update)

lemma pt_inv_free_slot:
  assumes inv: "pt_inv t" and j: "slot_at t j = Some q" and q: "pid q \<noteq> 1"
  shows "pt_inv (free_slot j t)"
proof -
  have cnt: "Suc (count_if (\<lambda>e. e \<noteq> None) (processes (free_slot j t)))
      = count_if (\<lambda>e. e \<noteq> None) (processes t)"
    using count_if_update [of j "processes t" "\<lambda>e. e \<noteq> None" None] slot_at_lt [OF j]
    by (simp add: free_slot_def)
  have oth: "length (processes (free_slot j t)) = length (processes t)"
      "next_pid (free_slot j t) = next_pid t" "pt_count (free_slot j t) = pt_count t - 1"
    by (simp_all add: free_slot_def)
  have "\<forall>a b p q. slot_at (free_slot j t) a = Some p \<longrightarrow> slot_at (free_slot j t) b = Some q \<longrightarrow>
      pid p = pid q \<longrightarrow> a = b"
    using pt_inv_unique [OF inv] by (metis slot_at_free_slot option.distinct(1))
  moreover have "\<forall>i q. slot_at (free_slot j t) i = Some q \<longrightarrow> 1 \<le> pid q \<and> pid q < next_pid t"
    using pt_inv_pid [OF inv] by (metis slot_at_free_slot option.distinct(1))
  moreover have "\<exists>i q. slot_at (free_slot j t) i = Some q \<and> pid q = 1"
    using pt_inv_has_init [OF inv] j q by (metis slot_at_free_slot option.inject)
  ultimately show ?thesis
    unfolding pt_inv_def using cnt oth pt_inv_count [OF inv] pt_inv_len [OF inv] pt_inv_next [OF inv]
    by simp
qed

text \<open>The four outcomes of a signal.\<close>

lemma process_kill_cases:
  assumes inv: "pt_inv t"
  obtains (refused) "process_kill p signal t = (-1, t)" "process_slot t p = None \<or> p = 1"
  | (removed) i where "process_slot t p = Some i" "p \<noteq> 1"
      "signal = PROC_SIG_KILL \<or> signal = PROC_SIG_TERM"
      "process_kill p signal t = (0, free_slot i
         (update_process i (\<lambda>q. q\<lparr>pstate := PROC_STATE_ZOMBIE, exit_code := signal\<rparr>) t))"
  | (changed) i f where "process_slot t p = Some i" "p \<noteq> 1" "\<And>q. pid (f q) = pid q"
      "signal = PROC_SIG_STOP \<or> signal = PROC_SIG_CONT"
      "process_kill p signal t = (0, update_process i f t)"
  | (ignored) "process_kill p signal t = (0, t)" "p \<noteq> 1" "process_slot t p \<noteq> None"
      "signal \<notin> {PROC_SIG_KILL, PROC_SIG_TERM, PROC_SIG_STOP, PROC_SIG_CONT}"
proof (cases "process_slot t p")
  case None
  then show thesis by (intro refused) (simp_all add: process_kill_def)
next
  case (Some i)
  obtain q where q: "slot_at t i = Some q" "pid q = p" using process_slot_SomeD [OF Some] by blast
  let ?z = "\<lambda>q. q\<lparr>pstate := PROC_STATE_ZOMBIE, exit_code := signal\<rparr>"
  have "process_slot (update_process i ?z t) (pid (?z q)) = Some i"
    by (rule process_slot_eq [OF pt_inv_update [OF inv]]) (simp_all add: slot_at_update_process q)
  then have again: "process_slot (update_process i ?z t) p = Some i" using q by simp
  show thesis
  proof (cases "p = 1")
    case True
    with Some show thesis by (intro refused) (simp_all add: process_kill_def)
  next
    case p: False
    consider "signal = PROC_SIG_KILL \<or> signal = PROC_SIG_TERM" | "signal = PROC_SIG_STOP"
      | "signal = PROC_SIG_CONT"
      | "signal \<notin> {PROC_SIG_KILL, PROC_SIG_TERM, PROC_SIG_STOP, PROC_SIG_CONT}" by blast
    then show thesis
    proof cases
      case 1
      with Some p again show thesis
        by (intro removed [of i]) (auto simp: process_kill_def Let_def free_slot_def)
    next
      case 2
      with Some p show thesis
        by (intro changed [of i "\<lambda>q. q\<lparr>pstate := PROC_STATE_STOPPED\<rparr>"])
          (auto simp: process_kill_def sig_defs)
    next
      case 3
      with Some p show thesis
        by (intro changed [of i "\<lambda>q. q\<lparr>pstate := PROC_STATE_RUNNING\<rparr>"])
          (auto simp: process_kill_def sig_defs)
    next
      case 4
      with Some p show thesis by (intro ignored) (auto simp: process_kill_def)
    qed
  qed
qed

lemma pt_inv_kill [vm_inv]:
  assumes inv: "pt_inv t"
  shows "pt_inv (snd (process_kill p signal t))"
  using inv
proof (cases rule: process_kill_cases [where p = p and signal = signal])
  case (removed i)
  obtain q where q: "slot_at t i = Some q" "pid q = p"
    using process_slot_SomeD [OF removed(1)] by blast
  let ?z = "\<lambda>q. q\<lparr>pstate := PROC_STATE_ZOMBIE, exit_code := signal\<rparr>"
  have "pt_inv (free_slot i (update_process i ?z t))"
    using q removed(2)
    by (intro pt_inv_free_slot [where q = "?z q"] pt_inv_update inv) (simp_all add: slot_at_update_process)
  with removed show ?thesis by simp
next
  case (changed i f)
  with inv show ?thesis by (simp add: pt_inv_update)
qed (use inv in simp_all)

text \<open>Every other process is found as before; the killed one is not found any more.\<close>

lemma process_get_kill_other:
  assumes inv: "pt_inv t" and k: "k \<noteq> p"
  shows "process_get (snd (process_kill p signal t)) k = process_get t k"
  using inv
proof (cases rule: process_kill_cases [where p = p and signal = signal])
  case (removed i)
  let ?z = "\<lambda>q. q\<lparr>pstate := PROC_STATE_ZOMBIE, exit_code := signal\<rparr>"
  obtain q where q: "slot_at t i = Some q" "pid q = p"
    using process_slot_SomeD [OF removed(1)] by blast
  have inv': "pt_inv (free_slot i (update_process i ?z t))"
    using pt_inv_kill [OF inv, of p signal] removed by simp
  have "process_get (free_slot i (update_process i ?z t)) k = process_get t k"
    using q k by (intro process_get_cong [OF inv inv'])
      (auto simp: slot_at_free_slot slot_at_update_process)
  with removed show ?thesis by simp
next
  case (changed i f)
  with process_get_update [OF inv changed(3) changed(1)] k show ?thesis by simp
qed simp_all

lemma process_get_killed:
  assumes inv: "pt_inv t" and p: "p \<noteq> 1" and sig: "signal = PROC_SIG_KILL \<or> signal = PROC_SIG_TERM"
  shows "process_get (snd (process_kill p signal t)) p = None"
  using inv
proof (cases rule: process_kill_cases [where p = p and signal = signal])
  case refused
  with p show ?thesis by (simp add: process_get_def)
next
  case (removed i)
  let ?z = "\<lambda>q. q\<lparr>pstate := PROC_STATE_ZOMBIE, exit_code := signal\<rparr>"
  have inv': "pt_inv (free_slot i (update_process i ?z t))"
    using pt_inv_kill [OF inv, of p signal] removed by simp
  obtain q where q: "slot_at t i = Some q" "pid q = p"
    using process_slot_SomeD [OF removed(1)] by blast
  have "\<forall>j q'. slot_at (free_slot i (update_process i ?z t)) j = Some q' \<longrightarrow> pid q' \<noteq> p"
    using pt_inv_unique [OF inv q(1)] q(2)
    by (auto simp: slot_at_free_slot slot_at_update_process split: if_splits)
  with process_get_None_iff [OF inv'] removed show ?thesis by simp
qed (use sig in \<open>auto simp: sig_defs\<close>)

lemma process_get_create:
  assumes inv: "pt_inv t" and cr: "process_create mem now nm args prio t = Some (r, t')" and r: "r \<noteq> -1"
  shows "process_get t' k = (if k = r then Some (new_process now r (the nm) args prio) else process_get t k)"
proof -
  obtain slot n where s: "nm = Some n" "slot < length (processes t)" "processes t ! slot = None"
      "r = next_pid t"
      and at: "\<And>i. slot_at t' i = (if i = slot then Some (new_process now (next_pid t) n args prio)
                            else slot_at t i)"
    using process_create_slots [OF cr r] by metis
  note inv' = pt_inv_create [OF inv cr]
  show ?thesis
  proof (cases "k = r")
    case True
    then have "process_get t' k = Some (new_process now r n args prio)"
      using at [of slot] s(4) process_get_iff [OF inv'] by auto
    with True s show ?thesis by simp
  next
    case False
    have "process_get t' k = process_get t k"
      using False s at by (intro process_get_cong [OF inv inv']) (auto simp: slot_at_def)
    with False show ?thesis by simp
  qed
qed

section \<open>The table hands out fresh handles\<close>

text \<open>A creation that succeeds, as the handle contract sees it.\<close>

definition spawn ::
  "bool \<times> int \<times> string option \<times> string option \<times> ProcessPriority \<Rightarrow> ProcessTable
     \<Rightarrow> (int \<times> ProcessTable) option" where
  "spawn a t = (case a of (mem, now, nm, args, prio) \<Rightarrow>
     (case process_create mem now nm args prio t of
        None \<Rightarrow> None | Some (r, t') \<Rightarrow> if r = -1 then None else Some (r, t')))"

lemma spawn_SomeD:
  "spawn a t = Some (k, t') \<Longrightarrow>
     \<exists>mem now nm args prio. process_create mem now nm args prio t = Some (k, t') \<and> k \<noteq> -1"
  by (cases a) (fastforce simp: spawn_def split: option.splits if_splits)

lemma spawn_fresh: "pt_inv t \<Longrightarrow> spawn a t = Some (k, t') \<Longrightarrow> process_get t k = None"
proof -
  assume inv: "pt_inv t" and "spawn a t = Some (k, t')"
  then obtain mem now nm args prio
    where "process_create mem now nm args prio t = Some (k, t')" "k \<noteq> -1"
    using spawn_SomeD by blast
  then have "k = next_pid t" by (elim process_create_slots)
  then show "process_get t k = None"
    using process_get_None_iff [OF inv] pt_inv_pid [OF inv] by fastforce
qed

interpretation ptab: handle_table pt_inv process_get spawn
    "\<lambda>p t. snd (process_kill p PROC_SIG_KILL t)"
proof unfold_locales
  show "pt_inv t'" if "pt_inv t" "spawn a t = Some (k, t')" for t a k t'
    using that spawn_SomeD pt_inv_create by blast
  show "process_get t k = None" if "pt_inv t" "spawn a t = Some (k, t')" for t a k t'
    using that by (rule spawn_fresh)
  show "process_get t' k \<noteq> None" if inv: "pt_inv t" and sp: "spawn a t = Some (k, t')" for t a k t'
  proof -
    from spawn_SomeD [OF sp] obtain mem now nm args prio
      where "process_create mem now nm args prio t = Some (k, t')" "k \<noteq> -1" by blast
    from process_get_create [OF inv this, of k] show ?thesis by simp
  qed
  show "process_get t' k' = process_get t k'"
    if inv: "pt_inv t" and sp: "spawn a t = Some (k, t')" and ne: "k' \<noteq> k" for t a k t' k'
  proof -
    from spawn_SomeD [OF sp] obtain mem now nm args prio
      where "process_create mem now nm args prio t = Some (k, t')" "k \<noteq> -1" by blast
    from process_get_create [OF inv this, of k'] ne show ?thesis by simp
  qed
  show "pt_inv (snd (process_kill k PROC_SIG_KILL t))" if "pt_inv t" for t k
    using that by (rule pt_inv_kill)
  show "process_get (snd (process_kill k PROC_SIG_KILL t)) k' = process_get t k'"
    if "pt_inv t" "k' \<noteq> k" for t k k'
    using that by (rule process_get_kill_other)
qed

section \<open>Runs of the table\<close>

text \<open>
  The calls that change the table, and a run of them that collects the process ids the
  creations give out. \<open>None\<close> is the overflow of the pid counter.
\<close>

datatype pt_op =
  OpCreate bool int "string option" "string option" ProcessPriority
| OpKill int int
| OpSetState int ProcessState
| OpSetPriority int ProcessPriority

fun pt_call :: "pt_op \<Rightarrow> ProcessTable \<Rightarrow> (int list \<times> ProcessTable) option" where
  "pt_call (OpCreate mem now nm args prio) t =
     (case process_create mem now nm args prio t of
        None \<Rightarrow> None | Some (r, t') \<Rightarrow> Some (if r = -1 then [] else [r], t'))"
| "pt_call (OpKill p signal) t = Some ([], snd (process_send_signal p signal t))"
| "pt_call (OpSetState p st) t = Some ([], snd (process_set_state p st t))"
| "pt_call (OpSetPriority p prio) t = Some ([], snd (process_set_priority p prio t))"

fun pt_exec :: "pt_op list \<Rightarrow> ProcessTable \<Rightarrow> (int list \<times> ProcessTable) option" where
  "pt_exec [] t = Some ([], t)"
| "pt_exec (c # cs) t =
     do { (ps, t1) \<leftarrow> pt_call c t; (qs, t2) \<leftarrow> pt_exec cs t1; Some (ps @ qs, t2) }"

lemma pt_inv_set_state [vm_inv]: "pt_inv t \<Longrightarrow> pt_inv (snd (process_set_state p st t))"
  by (simp add: process_set_state_def pt_inv_update split: option.splits)

lemma pt_inv_set_priority [vm_inv]: "pt_inv t \<Longrightarrow> pt_inv (snd (process_set_priority p prio t))"
  by (simp add: process_set_priority_def pt_inv_update split: option.splits)

lemma next_pid_update [simp]: "next_pid (update_process i f t) = next_pid t"
  by (simp add: update_process_def)

lemma next_pid_kill: "next_pid (snd (process_kill p signal t)) = next_pid t"
  by (simp add: process_kill_def Let_def split: option.splits)

text \<open>One call keeps the invariant and gives out only the next process id, if any.\<close>

lemma pt_call_step:
  assumes inv: "pt_inv t" and c: "pt_call c t = Some (ps, t')"
  shows "pt_inv t' \<and> (ps = [] \<and> next_pid t' = next_pid t
            \<or> ps = [next_pid t] \<and> next_pid t' = next_pid t + 1)"
proof (cases c)
  case (OpCreate mem now nm args prio)
  with c obtain r where cr: "process_create mem now nm args prio t = Some (r, t')"
      and ps: "ps = (if r = -1 then [] else [r])"
    by (auto split: option.splits)
  have "pt_inv t'" by (rule pt_inv_create [OF inv cr])
  moreover have "r = -1 \<and> t' = t \<or> r \<noteq> -1 \<and> r = next_pid t \<and> next_pid t' = next_pid t + 1"
    using cr pt_inv_next [OF inv]
    by (auto simp: process_create_def split: option.splits if_splits)
  ultimately show ?thesis using ps by auto
next
  case (OpKill p signal)
  with c inv show ?thesis by (auto simp: process_send_signal_def pt_inv_kill next_pid_kill)
next
  case (OpSetState p st)
  with c inv show ?thesis
    by (auto simp: pt_inv_set_state) (auto simp: process_set_state_def split: option.splits)
next
  case (OpSetPriority p prio)
  with c inv show ?thesis
    by (auto simp: pt_inv_set_priority) (auto simp: process_set_priority_def split: option.splits)
qed

lemma pt_exec_run:
  "pt_inv t \<Longrightarrow> pt_exec cs t = Some (ps, t') \<Longrightarrow>
     pt_inv t' \<and> sorted_wrt (<) ps \<and> (\<forall>p \<in> set ps. next_pid t \<le> p \<and> p < next_pid t') \<and>
     next_pid t' = next_pid t + int (length ps)"
proof (induction cs arbitrary: t ps)
  case Nil
  then show ?case by simp
next
  case (Cons c cs)
  from Cons.prems(2) obtain p1 t1 qs
    where c: "pt_call c t = Some (p1, t1)" and cs: "pt_exec cs t1 = Some (qs, t')"
      and ps: "ps = p1 @ qs"
    by (auto split: bind_splits)
  note step = pt_call_step [OF Cons.prems(1) c]
  note IH = Cons.IH [OF conjunct1 [OF step] cs]
  from step show ?case
  proof (elim conjE disjE)
    assume "p1 = []" and "next_pid t1 = next_pid t"
    with IH ps show ?thesis by auto
  next
    assume "p1 = [next_pid t]" and "next_pid t1 = next_pid t + 1"
    with IH ps show ?thesis by fastforce
  qed
qed

lemma process_get_init_alive: "pt_inv t \<Longrightarrow> process_get t 1 \<noteq> None"
  using pt_inv_has_init process_get_None_iff by blast

lemma pt_inv_boot: "pt_inv (snd (process_init True now))"
  using pt_inv_init [of now] by (metis prod.collapse)

section \<open>Searching\<close>

lemma in_occupied_iff: "q \<in> set (occupied t) \<longleftrightarrow> (\<exists>i. slot_at t i = Some q)"
proof -
  have "q \<in> set (occupied t) \<longleftrightarrow> Some q \<in> set (processes t)"
    by (force simp: occupied_def)
  also have "\<dots> \<longleftrightarrow> (\<exists>i. slot_at t i = Some q)"
    by (auto simp: in_set_conv_nth slot_at_def)
  finally show ?thesis .
qed

lemma count_if_map_the:
  "count_if (\<lambda>e. case e of None \<Rightarrow> False | Some q \<Rightarrow> P q) xs
     = length (filter P (map the (filter (\<lambda>e. e \<noteq> None) xs)))"
  by (induction xs) (auto split: option.splits)

lemma collect_pids_eq:
  "collect_pids True P t = (int (length (filter P (occupied t))), map pid (filter P (occupied t)))"
proof -
  have "count_if (\<lambda>e. case e of None \<Rightarrow> False | Some q \<Rightarrow> P q) (processes t)
      = length (filter P (occupied t))"
    unfolding occupied_def by (rule count_if_map_the)
  then show ?thesis by (simp add: collect_pids_def Let_def)
qed

lemma distinct_pids_gen:
  "(\<And>i j p q. i < length xs \<Longrightarrow> j < length xs \<Longrightarrow> xs ! i = Some p \<Longrightarrow> xs ! j = Some q \<Longrightarrow>
      pid p = pid q \<Longrightarrow> i = j) \<Longrightarrow>
   distinct (map pid (filter P (map the (filter (\<lambda>e. e \<noteq> None) xs))))"
proof (induction xs)
  case Nil
  then show ?case by simp
next
  case (Cons x xs)
  have IH: "distinct (map pid (filter P (map the (filter (\<lambda>e. e \<noteq> None) xs))))"
  proof (rule Cons.IH)
    fix i j p q
    assume "i < length xs" "j < length xs" "xs ! i = Some p" "xs ! j = Some q" "pid p = pid q"
    with Cons.prems [of "Suc i" "Suc j" p q] show "i = j" by simp
  qed
  show ?case
  proof (cases x)
    case None
    with IH show ?thesis by simp
  next
    case (Some p)
    have "pid q \<noteq> pid p" if "Some q \<in> set xs" for q
    proof
      assume eq: "pid q = pid p"
      from that obtain j where "j < length xs" "xs ! j = Some q" by (auto simp: in_set_conv_nth)
      with Cons.prems [of 0 "Suc j" p q] Some eq show False by simp
    qed
    with IH Some show ?thesis by fastforce
  qed
qed

lemma distinct_pids: "pt_inv t \<Longrightarrow> distinct (map pid (filter P (occupied t)))"
  unfolding occupied_def
proof (rule distinct_pids_gen)
  fix i j p q
  assume "pt_inv t" and "i < length (processes t)" and "j < length (processes t)"
    and "processes t ! i = Some p" and "processes t ! j = Some q" and "pid p = pid q"
  then show "i = j" using pt_inv_unique [of t i p j q] by (simp add: slot_at_def)
qed

text \<open>The search functions return each matching process once, and count what they return.\<close>

lemma collect_pids_correct:
  assumes inv: "pt_inv t" and r: "collect_pids True P t = (n, ps)"
  shows "n = int (length ps)" and "distinct ps"
    and "p \<in> set ps \<longleftrightarrow> (\<exists>q. process_get t p = Some q \<and> P q)"
proof -
  have ps: "ps = map pid (filter P (occupied t))" and n: "n = int (length (filter P (occupied t)))"
    using r collect_pids_eq [of P t] by simp_all
  show "n = int (length ps)" using ps n by simp
  show "distinct ps" using ps distinct_pids [OF inv] by simp
  show "p \<in> set ps \<longleftrightarrow> (\<exists>q. process_get t p = Some q \<and> P q)"
    using process_get_iff [OF inv, of p] in_occupied_iff [of _ t] unfolding ps by fastforce
qed

section \<open>Properties\<close>

text \<open>
  C1: Whatever sequence of creations, signals, state and priority changes runs after
  \<^verbatim>\<open>process_init\<close>, the table invariant holds, the process ids given out are
  strictly increasing (so no id is reused, not even after its process was killed), all
  of them are above 1, and process 1 (init) is still alive.
\<close>

theorem process_ids_never_reused:
  assumes "pt_exec cs (snd (process_init True now)) = Some (ps, t)"
  shows "pt_inv t \<and> sorted_wrt (<) ps \<and> (\<forall>p \<in> set ps. 1 < p) \<and> process_get t 1 \<noteq> None"
proof -
  note run = pt_exec_run [OF pt_inv_boot assms]
  have "2 \<le> next_pid (snd (process_init True now))" by (rule pt_inv_next [OF pt_inv_boot])
  with run process_get_init_alive show ?thesis by fastforce
qed

definition demo_run :: "pt_op list" where
  "demo_run = [OpCreate True 0 (Some ''sh'') None PROC_PRIORITY_NORMAL, OpKill 2 9, OpKill 1 9,
     OpCreate True 5 (Some ''ls'') (Some ''-l'') PROC_PRIORITY_LOW]"

lemma process_ids_never_reused_witness:
  "\<exists>t. pt_exec demo_run (snd (process_init True 0)) = Some ([2, 3], t) \<and> process_get t 1 \<noteq> None"
proof -
  have "map_option fst (pt_exec demo_run (snd (process_init True 0))) = Some [2, 3]"
    by code_simp
  then obtain t where t: "pt_exec demo_run (snd (process_init True 0)) = Some ([2, 3], t)"
    by auto
  with process_ids_never_reused [OF t] show ?thesis by blast
qed

text \<open>
  \<^verbatim>\<open>process_kill\<close> with SIGKILL or SIGTERM succeeds exactly on a live process
  other than init; then that process is gone, every other process is untouched and the
  count drops by one; otherwise it returns -1 and changes nothing.
\<close>

theorem process_kill_terminates:
  assumes inv: "pt_inv t" and sig: "signal = PROC_SIG_KILL \<or> signal = PROC_SIG_TERM"
  shows "if p \<noteq> 1 \<and> process_get t p \<noteq> None
         then \<exists>t'. process_kill p signal t = (0, t') \<and>
                (\<forall>k. process_get t' k = (if k = p then None else process_get t k)) \<and>
                process_count t' = process_count t - 1
         else process_kill p signal t = (-1, t)"
  using inv
proof (cases rule: process_kill_cases [where p = p and signal = signal])
  case refused
  then show ?thesis by (auto simp: process_get_def)
next
  case (removed i)
  have alive: "process_get t p \<noteq> None"
    using process_slot_SomeD [OF removed(1)] process_get_iff [OF inv] by blast
  let ?t' = "snd (process_kill p signal t)"
  have "\<forall>k. process_get ?t' k = (if k = p then None else process_get t k)"
    using process_get_kill_other [OF inv] process_get_killed [OF inv removed(2) sig] by simp
  moreover have "process_count ?t' = process_count t - 1"
    using removed(4) by (simp add: process_count_def free_slot_def update_process_def)
  ultimately show ?thesis using alive removed by auto
qed (use sig in \<open>auto simp: sig_defs\<close>)

definition demo_table :: ProcessTable where
  "demo_table = snd (the (process_create True 0 (Some ''sh'') None PROC_PRIORITY_NORMAL
     (snd (process_init True 0))))"

lemma demo_table_ok:
  "process_create True 0 (Some ''sh'') None PROC_PRIORITY_NORMAL (snd (process_init True 0))
     = Some (2, demo_table)"
proof -
  have "map_option fst (process_create True 0 (Some ''sh'') None PROC_PRIORITY_NORMAL
      (snd (process_init True 0))) = Some 2" by code_simp
  then show ?thesis unfolding demo_table_def by auto
qed

lemma demo_table_inv: "pt_inv demo_table"
  by (rule pt_inv_create [OF pt_inv_boot demo_table_ok])

lemma demo_table_get: "process_get demo_table 2 = Some (new_process 0 2 ''sh'' None PROC_PRIORITY_NORMAL)"
  using process_get_create [OF pt_inv_boot demo_table_ok, of 2] by simp

lemma process_kill_terminates_witness:
  "fst (process_kill 2 PROC_SIG_TERM demo_table) = 0
     \<and> process_get (snd (process_kill 2 PROC_SIG_TERM demo_table)) 2 = None"
  using process_kill_terminates [OF demo_table_inv, of PROC_SIG_TERM 2] demo_table_get by auto

text \<open>
  A batch of creations gives out pairwise distinct process ids, none of which denoted a
  process before, and all of them denote live processes when the batch ends; processes that
  were alive are still the same.
\<close>

theorem process_create_batch:
  assumes inv: "pt_inv t"
  shows "case create_all spawn as t of (ps, t') \<Rightarrow>
     distinct ps \<and> pt_inv t' \<and>
     (\<forall>p \<in> set ps. process_get t p = None \<and> process_get t' p \<noteq> None) \<and>
     (\<forall>p. process_get t p \<noteq> None \<longrightarrow> process_get t' p = process_get t p)"
proof -
  obtain ps t' where r: "create_all spawn as t = (ps, t')" by fastforce
  with ptab.create_all_distinct [OF inv, of as] ptab.create_all_alive [OF inv r]
  show ?thesis by auto
qed

lemma process_create_batch_witness:
  "fst (create_all spawn (replicate 3 (True, 0, Some ''p'', None, PROC_PRIORITY_IDLE)) demo_table)
     = [3, 4, 5] \<and> distinct [3, 4, 5 :: int]"
proof -
  let ?as = "replicate 3 (True, 0, Some ''p'', None, PROC_PRIORITY_IDLE)"
  have "fst (create_all spawn ?as demo_table) = [3, 4, 5]" unfolding demo_table_def by code_simp
  moreover have "distinct (fst (create_all spawn ?as demo_table))"
    using process_create_batch [OF demo_table_inv, of ?as] by (auto split: prod.splits)
  ultimately show ?thesis by simp
qed

text \<open>
  \<^verbatim>\<open>process_find_by_state\<close> returns the ids of exactly the live processes in that
  state, each once, and its return value is their number.
\<close>

theorem process_find_by_state_exact:
  assumes inv: "pt_inv t" and r: "process_find_by_state True st t = (n, ps)"
  shows "n = int (length ps) \<and> distinct ps \<and>
    (\<forall>p. p \<in> set ps \<longleftrightarrow> process_get t p \<noteq> None \<and> process_get_state t p = st)"
proof -
  note c = collect_pids_correct [OF inv r [unfolded process_find_by_state_def]]
  have "p \<in> set ps \<longleftrightarrow> process_get t p \<noteq> None \<and> process_get_state t p = st" for p
    using c(3) [of p] by (auto simp: process_get_state_def)
  with c show ?thesis by blast
qed

lemma process_find_by_state_exact_witness:
  "process_find_by_state True PROC_STATE_RUNNING demo_table = (2, [1, 2]) \<and> distinct [1, 2 :: int]"
proof -
  have r: "process_find_by_state True PROC_STATE_RUNNING demo_table = (2, [1, 2])"
    unfolding demo_table_def by code_simp
  with process_find_by_state_exact [OF demo_table_inv r] show ?thesis by blast
qed

end
