(* ===== verification/Fifo.thy ===== *)
theory Fifo
  imports Prelude
begin

text \<open>
  The contract of the first-in first-out buffers of the kernel (the scheduler's process
  queues, the keyboard ring buffer): a state that represents a list, an insertion at the end,
  an extraction at the front. \<open>room m s\<close> says that the resource \<open>m\<close> handed to an insertion (a
  fresh node, nothing) is enough in state \<open>s\<close>. Operations are partial: \<open>None\<close> is undefined
  behaviour, which the contract rules out.
\<close>

locale fifo =
  fixes rep :: "'s \<Rightarrow> 'p list \<Rightarrow> bool"
    and room :: "'m \<Rightarrow> 's \<Rightarrow> bool"
    and enq :: "'m \<Rightarrow> 'p \<Rightarrow> 's \<Rightarrow> 's option"
    and deq :: "'s \<Rightarrow> ('p option \<times> 's) option"
  assumes enq_rep: "rep s ps \<Longrightarrow> room m s \<Longrightarrow> \<exists>s'. enq m p s = Some s' \<and> rep s' (ps @ [p])"
    and deq_empty: "rep s [] \<Longrightarrow> deq s = Some (None, s)"
    and deq_rep: "rep s (p # ps) \<Longrightarrow> \<exists>s'. deq s = Some (Some p, s') \<and> rep s' ps"
begin

text \<open>Taking the front process and putting it back at the end rotates the queue.\<close>

lemma rotate_rep:
  assumes "rep s (p # ps)" and "\<And>s. rep s ps \<Longrightarrow> room m s"
  shows "\<exists>s1 s2. deq s = Some (Some p, s1) \<and> enq m p s1 = Some s2 \<and> rep s2 (rotate1 (p # ps))"
  using deq_rep [OF assms(1)] enq_rep assms(2) by fastforce

end

text \<open>Emptying a queue, at most \<open>n\<close> processes, and filling one.\<close>

fun drain :: "('s \<Rightarrow> ('p option \<times> 's) option) \<Rightarrow> nat \<Rightarrow> 's \<Rightarrow> ('p list \<times> 's) option" where
  "drain dq 0 s = Some ([], s)"
| "drain dq (Suc n) s = do {
     (r, s1) \<leftarrow> dq s;
     (case r of None \<Rightarrow> Some ([], s1)
      | Some p \<Rightarrow> do { (ps, s2) \<leftarrow> drain dq n s1; Some (p # ps, s2) }) }"

fun fill :: "('m \<Rightarrow> 'p \<Rightarrow> 's \<Rightarrow> 's option) \<Rightarrow> ('s \<Rightarrow> 'm) \<Rightarrow> 'p list \<Rightarrow> 's \<Rightarrow> 's option" where
  "fill en al [] s = Some s"
| "fill en al (p # ps) s = do { s1 \<leftarrow> en (al s) p s; fill en al ps s1 }"

context fifo
begin

lemma drain_rep:
  "rep s ps \<Longrightarrow> length ps \<le> n \<Longrightarrow> \<exists>s'. drain deq n s = Some (ps, s') \<and> rep s' []"
proof (induction n arbitrary: s ps)
  case 0
  then show ?case by simp
next
  case (Suc n)
  show ?case
  proof (cases ps)
    case Nil
    with Suc.prems deq_empty [of s] show ?thesis by simp
  next
    case (Cons p qs)
    with deq_rep [of s p qs] Suc.prems obtain s1 where "deq s = Some (Some p, s1)" "rep s1 qs" by auto
    with Suc.IH [of s1 qs] Suc.prems Cons show ?thesis by auto
  qed
qed

lemma fill_rep:
  "rep s qs \<Longrightarrow> (\<And>s qs. rep s qs \<Longrightarrow> room (al s) s) \<Longrightarrow> \<exists>s'. fill enq al ps s = Some s' \<and> rep s' (qs @ ps)"
proof (induction ps arbitrary: s qs)
  case Nil
  then show ?case by simp
next
  case (Cons p ps)
  from enq_rep [OF Cons.prems(1) Cons.prems(2) [OF Cons.prems(1)]] obtain s1
    where s1: "enq (al s) p s = Some s1" "rep s1 (qs @ [p])" by blast
  from Cons.IH [OF s1(2) Cons.prems(2)] s1 show ?case by auto
qed

lemma fill_drain:
  assumes "rep s []" and "\<And>s qs. rep s qs \<Longrightarrow> room (al s) s"
  shows "\<exists>s1 s2. fill enq al ps s = Some s1 \<and> drain deq (length ps) s1 = Some (ps, s2) \<and> rep s2 []"
  using fill_rep [OF assms, where ps = ps] drain_rep by fastforce

end

end
