(* ===== verification/ProcQueue.thy ===== *)
theory ProcQueue
  imports Fifo
begin

text \<open>
  The doubly linked process queues of \<^verbatim>\<open>src/kernel/scheduler.c\<close>: nodes allocated with
  \<^verbatim>\<open>malloc\<close>, linked both ways, with head and tail pointers and a count. Pointers are
  addresses in an explicit heap of nodes (NULL is \<open>None\<close>), so that aliasing, dangling links
  and use after free are visible: an operation that dereferences an address the heap does
  not hold is undefined behaviour (\<open>None\<close>). A \<^verbatim>\<open>Process*\<close> is an address the queue
  never dereferences. The result of \<^verbatim>\<open>malloc\<close> is an argument. The \<open>int\<close> count is not
  bounded here: it would overflow only with 2^31 nodes allocated.
\<close>

section \<open>Nodes and queues\<close>

type_synonym addr = nat

record ProcessQueueNode =
  node_process :: addr
  node_next :: "addr option"
  node_prev :: "addr option"

type_synonym node_heap = "addr \<Rightarrow> ProcessQueueNode option"

record ProcessQueue =
  queue_head :: "addr option"
  queue_tail :: "addr option"
  queue_count :: int

text \<open>\<^verbatim>\<open>a->next = v\<close> and \<^verbatim>\<open>a->prev = v\<close>.\<close>

definition set_next :: "addr \<Rightarrow> addr option \<Rightarrow> node_heap \<Rightarrow> node_heap option" where
  "set_next a v h = do { n \<leftarrow> h a; Some (h(a \<mapsto> n\<lparr>node_next := v\<rparr>)) }"

definition set_prev :: "addr \<Rightarrow> addr option \<Rightarrow> node_heap \<Rightarrow> node_heap option" where
  "set_prev a v h = do { n \<leftarrow> h a; Some (h(a \<mapsto> n\<lparr>node_prev := v\<rparr>)) }"

definition alloc_queue_node :: "addr option \<Rightarrow> addr \<Rightarrow> node_heap \<Rightarrow> addr option \<times> node_heap" where
  "alloc_queue_node mres p h =
     (case mres of None \<Rightarrow> (None, h)
      | Some a \<Rightarrow> (Some a, h(a \<mapsto> \<lparr>node_process = p, node_next = None, node_prev = None\<rparr>)))"

definition free_queue_node :: "addr \<Rightarrow> node_heap \<Rightarrow> node_heap" where
  "free_queue_node a h = h(a := None)"

definition queue_init :: ProcessQueue where
  "queue_init = \<lparr>queue_head = None, queue_tail = None, queue_count = 0\<rparr>"

section \<open>Operations\<close>

definition queue_enqueue ::
  "addr option \<Rightarrow> addr \<Rightarrow> ProcessQueue \<times> node_heap \<Rightarrow> (ProcessQueue \<times> node_heap) option" where
  "queue_enqueue mres p qh = (case qh of (q, h) \<Rightarrow>
     (case alloc_queue_node mres p h of
        (None, h1) \<Rightarrow> Some (q, h1)
      | (Some node, h1) \<Rightarrow>
         (case queue_tail q of
            Some t \<Rightarrow> do {
              h2 \<leftarrow> set_next t (Some node) h1;
              h3 \<leftarrow> set_prev node (Some t) h2;
              Some (q\<lparr>queue_tail := Some node, queue_count := queue_count q + 1\<rparr>, h3) }
          | None \<Rightarrow>
              Some (q\<lparr>queue_head := Some node, queue_tail := Some node,
                      queue_count := queue_count q + 1\<rparr>, h1))))"

definition queue_dequeue ::
  "ProcessQueue \<times> node_heap \<Rightarrow> (addr option \<times> ProcessQueue \<times> node_heap) option" where
  "queue_dequeue qh = (case qh of (q, h) \<Rightarrow>
     (case queue_head q of
        None \<Rightarrow> Some (None, q, h)
      | Some node \<Rightarrow> do {
          n \<leftarrow> h node;
          (case node_next n of
             Some b \<Rightarrow> do {
               h1 \<leftarrow> set_prev b None h;
               Some (Some (node_process n),
                     q\<lparr>queue_head := Some b, queue_count := queue_count q - 1\<rparr>,
                     free_queue_node node h1) }
           | None \<Rightarrow>
               Some (Some (node_process n),
                     q\<lparr>queue_head := None, queue_tail := None, queue_count := queue_count q - 1\<rparr>,
                     free_queue_node node h)) }))"

text \<open>The unlinking of a node in \<^verbatim>\<open>queue_remove\<close>.\<close>

definition queue_unlink ::
  "addr \<Rightarrow> ProcessQueueNode \<Rightarrow> ProcessQueue \<times> node_heap \<Rightarrow> (ProcessQueue \<times> node_heap) option" where
  "queue_unlink node n qh = (case qh of (q, h) \<Rightarrow> do {
     (q1, h1) \<leftarrow> (case node_prev n of
        Some a \<Rightarrow> do { h' \<leftarrow> set_next a (node_next n) h; Some (q, h') }
      | None \<Rightarrow> Some (q\<lparr>queue_head := node_next n\<rparr>, h));
     n1 \<leftarrow> h1 node;
     (q2, h2) \<leftarrow> (case node_next n1 of
        Some b \<Rightarrow> do { h' \<leftarrow> set_prev b (node_prev n1) h1; Some (q1, h') }
      | None \<Rightarrow> Some (q1\<lparr>queue_tail := node_prev n1\<rparr>, h1));
     Some (q2\<lparr>queue_count := queue_count q2 - 1\<rparr>, free_queue_node node h2) })"

text \<open>The loop of \<^verbatim>\<open>queue_remove\<close>, from the node reached; it ends at NULL or at a match.\<close>

partial_function (option) queue_remove_from ::
  "addr option \<Rightarrow> addr \<Rightarrow> ProcessQueue \<times> node_heap \<Rightarrow> (ProcessQueue \<times> node_heap) option" where
  "queue_remove_from node p qh =
     (case node of
        None \<Rightarrow> Some qh
      | Some a \<Rightarrow> do {
          n \<leftarrow> snd qh a;
          (if node_process n = p then queue_unlink a n qh
           else queue_remove_from (node_next n) p qh) })"

declare queue_remove_from.simps [code]

definition queue_remove ::
  "addr \<Rightarrow> ProcessQueue \<times> node_heap \<Rightarrow> (ProcessQueue \<times> node_heap) option" where
  "queue_remove p qh = queue_remove_from (queue_head (fst qh)) p qh"

section \<open>Representation\<close>

text \<open>
  \<open>dlseg h pv ns nx\<close>: the nodes \<open>ns\<close> (address and process of each) are linked in this order
  in the heap, the first node's \<^verbatim>\<open>prev\<close> being \<open>pv\<close> and the last node's \<^verbatim>\<open>next\<close>
  being \<open>nx\<close>.
\<close>

type_synonym qnodes = "(addr \<times> addr) list"

definition first_of :: "qnodes \<Rightarrow> addr option \<Rightarrow> addr option" where
  "first_of ns nx = (case ns of [] \<Rightarrow> nx | n # _ \<Rightarrow> Some (fst n))"

definition last_of :: "qnodes \<Rightarrow> addr option \<Rightarrow> addr option" where
  "last_of ns pv = (if ns = [] then pv else Some (fst (last ns)))"

fun dlseg :: "node_heap \<Rightarrow> addr option \<Rightarrow> qnodes \<Rightarrow> addr option \<Rightarrow> bool" where
  "dlseg h pv [] nx = True"
| "dlseg h pv (n # ns) nx =
     (h (fst n) = Some \<lparr>node_process = snd n, node_next = first_of ns nx, node_prev = pv\<rparr>
      \<and> dlseg h (Some (fst n)) ns nx)"

definition queue_rep :: "node_heap \<Rightarrow> ProcessQueue \<Rightarrow> qnodes \<Rightarrow> bool" where
  "queue_rep h q ns \<longleftrightarrow>
     dlseg h None ns None \<and> distinct (map fst ns) \<and>
     queue_head q = first_of ns None \<and> queue_tail q = last_of ns None \<and>
     queue_count q = int (length ns)"

definition node_addrs :: "qnodes \<Rightarrow> addr set" where
  "node_addrs ns = fst ` set ns"

text \<open>The first node holding \<open>p\<close> removed.\<close>

fun remove_node :: "addr \<Rightarrow> qnodes \<Rightarrow> qnodes" where
  "remove_node p [] = []"
| "remove_node p (n # ns) = (if snd n = p then ns else n # remove_node p ns)"

lemma first_of_simps [simp]: "first_of [] nx = nx" "first_of (n # ns) nx = Some (fst n)"
  by (simp_all add: first_of_def)

lemma last_of_simps [simp]:
  "last_of [] pv = pv" "last_of (ns @ [n]) pv = Some (fst n)"
  "last_of (n # ns) pv = last_of ns (Some (fst n))"
  by (auto simp: last_of_def)

lemma first_of_append [simp]: "first_of (xs @ ys) nx = first_of xs (first_of ys nx)"
  by (cases xs) simp_all

lemma last_of_append [simp]: "last_of (xs @ ys) pv = last_of ys (last_of xs pv)"
  by (auto simp: last_of_def)

lemma node_addrs_simps [simp]:
  "node_addrs [] = {}" "node_addrs (n # ns) = insert (fst n) (node_addrs ns)"
  "node_addrs (xs @ ys) = node_addrs xs \<union> node_addrs ys"
  by (auto simp: node_addrs_def)

lemma distinct_fst_iff: "distinct (map fst (n # ns)) \<longleftrightarrow> fst n \<notin> node_addrs ns \<and> distinct (map fst ns)"
  by (auto simp: node_addrs_def)

lemma dlseg_append [simp]:
  "dlseg h pv (xs @ ys) nx \<longleftrightarrow> dlseg h pv xs (first_of ys nx) \<and> dlseg h (last_of xs pv) ys nx"
  by (induction xs arbitrary: pv) auto

lemma dlseg_cong:
  "(\<And>a. a \<in> node_addrs ns \<Longrightarrow> h a = h' a) \<Longrightarrow> dlseg h pv ns nx \<longleftrightarrow> dlseg h' pv ns nx"
  by (induction ns arbitrary: pv) auto

lemma dlseg_dom: "dlseg h pv ns nx \<Longrightarrow> node_addrs ns \<subseteq> dom h"
  by (induction ns arbitrary: pv) auto

lemma dlseg_upd [simp]: "a \<notin> node_addrs ns \<Longrightarrow> dlseg (h(a := v)) pv ns nx = dlseg h pv ns nx"
  by (rule dlseg_cong) auto

text \<open>Changing the outer links of a segment.\<close>

lemma dlseg_set_prev:
  "dlseg h pv (n # ns) nx \<Longrightarrow> fst n \<notin> node_addrs ns \<Longrightarrow>
     \<exists>h'. set_prev (fst n) v h = Some h' \<and> dlseg h' v (n # ns) nx \<and> (\<forall>b. b \<noteq> fst n \<longrightarrow> h' b = h b)"
  by (auto simp: set_prev_def)

lemma dlseg_set_next:
  assumes "dlseg h pv (ns @ [n]) nx" and "fst n \<notin> node_addrs ns"
  shows "\<exists>h'. set_next (fst n) v h = Some h' \<and> dlseg h' pv (ns @ [n]) v \<and> (\<forall>b. b \<noteq> fst n \<longrightarrow> h' b = h b)"
  using assms by (auto simp: set_next_def)

section \<open>The operations on a represented queue\<close>

lemma last_of_cases:
  obtains (empty) "ns = []" "last_of ns None = None"
  | (snoc) xs n where "ns = xs @ [n]" "last_of ns None = Some (fst n)"
  by (cases ns rule: rev_cases) auto

lemma queue_rep_dom: "queue_rep h q ns \<Longrightarrow> node_addrs ns \<subseteq> dom h"
  by (auto simp: queue_rep_def dest: dlseg_dom)

lemma queue_rep_init [vm_inv]: "queue_rep h queue_init []"
  by (simp add: queue_rep_def queue_init_def)

lemma queue_rep_cong:
  "(\<And>a. a \<in> node_addrs ns \<Longrightarrow> h a = h' a) \<Longrightarrow> queue_rep h q ns \<longleftrightarrow> queue_rep h' q ns"
  unfolding queue_rep_def using dlseg_cong by blast

lemma queue_rep_head_None: "queue_rep h q ns \<Longrightarrow> queue_head q = None \<longleftrightarrow> ns = []"
  by (cases ns) (auto simp: queue_rep_def)

text \<open>A failed allocation leaves queue and heap as they were: the process is not queued.\<close>

lemma queue_enqueue_no_memory: "queue_enqueue None p (q, h) = Some (q, h)"
  by (simp add: queue_enqueue_def alloc_queue_node_def)

lemma queue_enqueue_rep:
  assumes rep: "queue_rep h q ns" and fresh: "h a = None"
  shows "\<exists>q' h'. queue_enqueue (Some a) p (q, h) = Some (q', h') \<and> queue_rep h' q' (ns @ [(a, p)]) \<and>
           dom h' = insert a (dom h) \<and> (\<forall>b. b \<notin> insert a (node_addrs ns) \<longrightarrow> h' b = h b)"
proof (cases rule: last_of_cases [of ns])
  case empty
  with rep show ?thesis
    by (auto simp: queue_rep_def queue_enqueue_def alloc_queue_node_def)
next
  case (snoc xs n)
  let ?h1 = "h(a \<mapsto> \<lparr>node_process = p, node_next = None, node_prev = None\<rparr>)"
  have a: "a \<notin> node_addrs ns" using fresh queue_rep_dom [OF rep] by auto
  have seg: "dlseg ?h1 None (xs @ [n]) None" and n: "fst n \<notin> node_addrs xs"
    using rep snoc a by (auto simp: queue_rep_def node_addrs_def)
  obtain h2 where h2: "set_next (fst n) (Some a) ?h1 = Some h2" "dlseg h2 None (xs @ [n]) (Some a)"
      "\<forall>b. b \<noteq> fst n \<longrightarrow> h2 b = ?h1 b"
    using dlseg_set_next [OF seg n] by blast
  have na: "fst n \<noteq> a" using a snoc by auto
  let ?h3 = "h2(a \<mapsto> \<lparr>node_process = p, node_next = None, node_prev = Some (fst n)\<rparr>)"
  have h3: "set_prev a (Some (fst n)) h2 = Some ?h3" using h2(3) na by (auto simp: set_prev_def)
  have d2: "dom h2 = dom ?h1" using h2(1) by (auto simp: set_next_def split: bind_splits if_splits)
  have "queue_enqueue (Some a) p (q, h)
      = Some (q\<lparr>queue_tail := Some a, queue_count := queue_count q + 1\<rparr>, ?h3)"
    using rep snoc h2(1) h3 by (simp add: queue_enqueue_def alloc_queue_node_def queue_rep_def)
  moreover have "queue_rep ?h3 (q\<lparr>queue_tail := Some a, queue_count := queue_count q + 1\<rparr>) (ns @ [(a, p)])"
    using rep snoc h2(2) a by (auto simp: queue_rep_def node_addrs_def)
  moreover have "\<forall>b. b \<notin> insert a (node_addrs ns) \<longrightarrow> ?h3 b = h b" using h2(3) snoc by auto
  moreover have "dom ?h3 = insert a (dom h)" using d2 by auto
  ultimately show ?thesis by blast
qed

lemma queue_dequeue_empty: "queue_rep h q [] \<Longrightarrow> queue_dequeue (q, h) = Some (None, q, h)"
  by (simp add: queue_rep_def queue_dequeue_def)

lemma queue_dequeue_rep:
  assumes rep: "queue_rep h q ((a, p) # ns)"
  shows "\<exists>q' h'. queue_dequeue (q, h) = Some (Some p, q', h') \<and> queue_rep h' q' ns \<and>
           dom h' = dom h - {a} \<and> (\<forall>b. b \<notin> insert a (node_addrs ns) \<longrightarrow> h' b = h b)"
proof (cases ns)
  case Nil
  with rep show ?thesis by (auto simp: queue_rep_def queue_dequeue_def free_queue_node_def)
next
  case (Cons n ms)
  have seg: "dlseg h (Some a) (n # ms) None" and n: "fst n \<notin> node_addrs ms" and an: "a \<notin> node_addrs ns"
    using rep Cons by (auto simp: queue_rep_def node_addrs_def)
  obtain h1 where h1: "set_prev (fst n) None h = Some h1" "dlseg h1 None (n # ms) None"
      "\<forall>b. b \<noteq> fst n \<longrightarrow> h1 b = h b"
    using dlseg_set_prev [OF seg n] by blast
  have d1: "dom h1 = dom h" using h1(1) by (auto simp: set_prev_def split: bind_splits if_splits)
  let ?q = "q\<lparr>queue_head := Some (fst n), queue_count := queue_count q - 1\<rparr>"
  have "queue_dequeue (q, h) = Some (Some p, ?q, h1(a := None))"
    using rep Cons h1(1) by (simp add: queue_rep_def queue_dequeue_def free_queue_node_def)
  moreover have "queue_rep (h1(a := None)) ?q ns"
    using rep Cons h1(2) an by (auto simp: queue_rep_def)
  moreover have "dom (h1(a := None)) = dom h - {a}" using d1 by auto
  moreover have "\<forall>b. b \<notin> insert a (node_addrs ns) \<longrightarrow> (h1(a := None)) b = h b"
    using h1(3) Cons by auto
  ultimately show ?thesis by blast
qed

text \<open>Unlinking a node in the middle of a queue.\<close>

lemma queue_unlink_rep:
  assumes rep: "queue_rep h q (xs @ (a, p) # ys)"
  shows "\<exists>n q' h'. h a = Some n \<and> node_process n = p \<and> node_next n = first_of ys None \<and>
           queue_unlink a n (q, h) = Some (q', h') \<and> queue_rep h' q' (xs @ ys) \<and>
           dom h' = dom h - {a} \<and> (\<forall>b. b \<notin> node_addrs (xs @ (a, p) # ys) \<longrightarrow> h' b = h b)"
proof -
  let ?n = "\<lparr>node_process = p, node_next = first_of ys None, node_prev = last_of xs None\<rparr>"
  have n: "h a = Some ?n" and sx: "dlseg h None xs (Some a)" and sy: "dlseg h (Some a) ys None"
    and dist: "a \<notin> node_addrs xs" "a \<notin> node_addrs ys" "node_addrs xs \<inter> node_addrs ys = {}"
      "distinct (map fst xs)" "distinct (map fst ys)"
    using rep by (auto simp: queue_rep_def node_addrs_def)
  have q: "queue_head q = first_of xs (Some a)" "queue_tail q = last_of ys (Some a)"
      "queue_count q = int (length (xs @ ys)) + 1"
    using rep by (auto simp: queue_rep_def last_of_append)
  \<comment> \<open>first link: the predecessor's next, or the head\<close>
  obtain q1 h1 where s1: "(case last_of xs None of
          Some a' \<Rightarrow> do { h' \<leftarrow> set_next a' (first_of ys None) h; Some (q, h') }
        | None \<Rightarrow> Some (q\<lparr>queue_head := first_of ys None\<rparr>, h)) = Some (q1, h1)"
      and r1: "dlseg h1 None xs (first_of ys None)" "queue_head q1 = first_of (xs @ ys) None"
        "queue_tail q1 = queue_tail q" "queue_count q1 = queue_count q" "dom h1 = dom h"
        "\<forall>b. b \<notin> node_addrs xs \<longrightarrow> h1 b = h b"
  proof (cases rule: last_of_cases [of xs])
    case empty
    with that [of "q\<lparr>queue_head := first_of ys None\<rparr>" h] show ?thesis by simp
  next
    case (snoc zs m)
    have "fst m \<notin> node_addrs zs" using dist(4) snoc by (auto simp: node_addrs_def)
    from dlseg_set_next [OF sx [unfolded snoc(1)] this, of "first_of ys None"]
    obtain h' where h': "set_next (fst m) (first_of ys None) h = Some h'"
        "dlseg h' None xs (first_of ys None)" "\<forall>b. b \<noteq> fst m \<longrightarrow> h' b = h b"
      using snoc(1) by blast
    have "dom h' = dom h" using h'(1) by (auto simp: set_next_def split: bind_splits if_splits)
    with h' snoc q that [of q h'] show ?thesis by (cases zs) auto
  qed
  have n1: "h1 a = Some ?n" using r1(6) dist(1) n by auto
  have sy1: "dlseg h1 (Some a) ys None"
  proof -
    have "dlseg h (Some a) ys None \<longleftrightarrow> dlseg h1 (Some a) ys None"
      using r1(6) dist(3) by (intro dlseg_cong) auto
    with sy show ?thesis by simp
  qed
  \<comment> \<open>second link: the successor's prev, or the tail\<close>
  obtain q2 h2 where s2: "(case first_of ys None of
          Some b \<Rightarrow> do { h' \<leftarrow> set_prev b (last_of xs None) h1; Some (q1, h') }
        | None \<Rightarrow> Some (q1\<lparr>queue_tail := last_of xs None\<rparr>, h1)) = Some (q2, h2)"
      and r2: "dlseg h2 (last_of xs None) ys None" "queue_head q2 = queue_head q1"
        "queue_tail q2 = last_of (xs @ ys) None" "queue_count q2 = queue_count q1" "dom h2 = dom h1"
        "\<forall>b. b \<notin> node_addrs ys \<longrightarrow> h2 b = h1 b"
  proof (cases ys)
    case Nil
    with that [of "q1\<lparr>queue_tail := last_of xs None\<rparr>" h1] show ?thesis by simp
  next
    case (Cons m zs)
    have "fst m \<notin> node_addrs zs" using dist(5) Cons by (auto simp: node_addrs_def)
    from dlseg_set_prev [OF sy1 [unfolded Cons] this, of "last_of xs None"]
    obtain h' where h': "set_prev (fst m) (last_of xs None) h1 = Some h'"
        "dlseg h' (last_of xs None) ys None" "\<forall>b. b \<noteq> fst m \<longrightarrow> h' b = h1 b"
      using Cons by blast
    have "dom h' = dom h1" using h'(1) by (auto simp: set_prev_def split: bind_splits if_splits)
    with h' Cons q r1(3) that [of q1 h'] show ?thesis by (auto simp: last_of_append)
  qed
  let ?q = "q2\<lparr>queue_count := queue_count q2 - 1\<rparr>" and ?h = "h2(a := None)"
  have "queue_unlink a ?n (q, h) = Some (?q, ?h)"
    unfolding queue_unlink_def using s1 n1 s2
    by (simp add: free_queue_node_def cong del: option.case_cong_weak)
  moreover have "queue_rep ?h ?q (xs @ ys)"
  proof -
    have "dlseg h2 None xs (first_of ys None) \<longleftrightarrow> dlseg h1 None xs (first_of ys None)"
      using r2(6) dist(3) by (intro dlseg_cong) auto
    then show ?thesis using r1 r2 dist q by (auto simp: queue_rep_def node_addrs_def)
  qed
  moreover have "dom ?h = dom h - {a}" using r1(5) r2(5) by auto
  moreover have "\<forall>b. b \<notin> node_addrs (xs @ (a, p) # ys) \<longrightarrow> ?h b = h b" using r1(6) r2(6) by auto
  ultimately show ?thesis using n by force
qed

text \<open>The removal loop stops at the first node holding the process, or at the end.\<close>

lemma queue_remove_from_rep:
  "queue_rep h q (xs @ ys) \<Longrightarrow>
     \<exists>q' h'. queue_remove_from (first_of ys None) p (q, h) = Some (q', h') \<and>
       queue_rep h' q' (xs @ remove_node p ys) \<and>
       dom h' = dom h - (node_addrs ys - node_addrs (remove_node p ys)) \<and>
       (\<forall>b. b \<notin> node_addrs (xs @ ys) \<longrightarrow> h' b = h b)"
proof (induction ys arbitrary: xs)
  case Nil
  then show ?case by (simp add: queue_remove_from.simps [of None])
next
  case (Cons m ys)
  obtain a r where m: "m = (a, r)" by (cases m)
  have na: "a \<notin> node_addrs ys" using Cons.prems m by (auto simp: queue_rep_def node_addrs_def)
  from queue_unlink_rep [OF Cons.prems [unfolded m]]
  obtain n q' h' where n: "h a = Some n" "node_process n = r" "node_next n = first_of ys None"
    and u: "queue_unlink a n (q, h) = Some (q', h')" "queue_rep h' q' (xs @ ys)"
      "dom h' = dom h - {a}" "\<forall>b. b \<notin> node_addrs (xs @ (a, r) # ys) \<longrightarrow> h' b = h b"
    by blast
  note step = queue_remove_from.simps [of "Some a" p "(q, h)"]
  show ?case
  proof (cases "r = p")
    case True
    have "dom h' = dom h - (node_addrs (m # ys) - node_addrs (remove_node p (m # ys)))"
      using True m na u(3) by auto
    with True step n u m show ?thesis by simp
  next
    case False
    have "queue_rep h q ((xs @ [m]) @ ys)" using Cons.prems by simp
    from Cons.IH [OF this] False step n m na show ?thesis by auto
  qed
qed

lemma queue_remove_rep:
  assumes "queue_rep h q ns"
  shows "\<exists>q' h'. queue_remove p (q, h) = Some (q', h') \<and> queue_rep h' q' (remove_node p ns) \<and>
    dom h' = dom h - (node_addrs ns - node_addrs (remove_node p ns)) \<and>
    (\<forall>b. b \<notin> node_addrs ns \<longrightarrow> h' b = h b)"
  using queue_remove_from_rep [of h q "[]" ns p] assms
  by (simp add: queue_remove_def queue_rep_def)

lemma remove_node_procs [simp]: "map snd (remove_node p ns) = remove1 p (map snd ns)"
  by (induction ns) auto

lemma remove_node_addrs: "node_addrs (remove_node p ns) \<subseteq> node_addrs ns"
  by (induction ns) auto

section \<open>The queue contract\<close>

text \<open>
  What the scheduler relies on beyond first-in first-out: a process can be taken out from
  the middle of the queue.
\<close>

locale fifo_queue = fifo +
  fixes rem :: "'b \<Rightarrow> 'a \<Rightarrow> 'a option"
  assumes rem_rep: "rep s ps \<Longrightarrow> \<exists>s'. rem p s = Some s' \<and> rep s' (remove1 p ps)"

text \<open>The linked queue provides the contract: its memory is a fresh node.\<close>

definition queue_holds :: "ProcessQueue \<times> node_heap \<Rightarrow> addr list \<Rightarrow> bool" where
  "queue_holds qh ps \<longleftrightarrow>
     finite (dom (snd qh)) \<and> (\<exists>ns. queue_rep (snd qh) (fst qh) ns \<and> map snd ns = ps)"

definition fresh_node :: "addr option \<Rightarrow> ProcessQueue \<times> node_heap \<Rightarrow> bool" where
  "fresh_node m qh \<longleftrightarrow> (\<exists>a. m = Some a \<and> snd qh a = None)"

lemma queue_holdsI: "queue_rep h q ns \<Longrightarrow> finite (dom h) \<Longrightarrow> ps = map snd ns \<Longrightarrow> queue_holds (q, h) ps"
  by (auto simp: queue_holds_def)

lemma queue_holdsE:
  assumes "queue_holds s ps"
  obtains q h ns where "s = (q, h)" "queue_rep h q ns" "ps = map snd ns" "finite (dom h)"
  using assms by (cases s) (auto simp: queue_holds_def)

interpretation pqueue: fifo_queue queue_holds fresh_node queue_enqueue queue_dequeue queue_remove
proof unfold_locales
  show "\<exists>s'. queue_enqueue m p s = Some s' \<and> queue_holds s' (ps @ [p])"
    if holds: "queue_holds s ps" and room: "fresh_node m s" for s ps m p
  proof -
    from holds obtain q h ns where s: "s = (q, h)" "queue_rep h q ns" "ps = map snd ns" "finite (dom h)"
      by (rule queue_holdsE)
    from room s obtain a where a: "m = Some a" "h a = None" by (auto simp: fresh_node_def)
    from queue_enqueue_rep [OF s(2) a(2), of p] obtain q' h'
      where r: "queue_enqueue (Some a) p (q, h) = Some (q', h')" "queue_rep h' q' (ns @ [(a, p)])"
        "dom h' = insert a (dom h)"
      by blast
    have "queue_holds (q', h') (ps @ [p])" by (rule queue_holdsI [OF r(2)]) (simp_all add: r(3) s)
    with r(1) s a(1) show ?thesis by simp
  qed
  show "queue_dequeue s = Some (None, s)" if "queue_holds s []" for s
    using that queue_dequeue_empty by (elim queue_holdsE) simp
  show "\<exists>s'. queue_dequeue s = Some (Some p, s') \<and> queue_holds s' ps"
    if holds: "queue_holds s (p # ps)" for s p ps
  proof -
    from holds obtain q h ns where s: "s = (q, h)" "queue_rep h q ns" "p # ps = map snd ns" "finite (dom h)"
      by (rule queue_holdsE)
    then obtain a ms where ns: "ns = (a, p) # ms" "ps = map snd ms" by (auto simp: Cons_eq_map_conv)
    from queue_dequeue_rep [OF s(2) [unfolded ns(1)]] obtain q' h'
      where r: "queue_dequeue (q, h) = Some (Some p, q', h')" "queue_rep h' q' ms" "dom h' = dom h - {a}"
      by blast
    have "queue_holds (q', h') ps" by (rule queue_holdsI [OF r(2)]) (simp_all add: r(3) s(4) ns(2))
    with r(1) s(1) show ?thesis by simp
  qed
  show "\<exists>s'. queue_remove p s = Some s' \<and> queue_holds s' (remove1 p ps)"
    if holds: "queue_holds s ps" for s ps p
  proof -
    from holds obtain q h ns where s: "s = (q, h)" "queue_rep h q ns" "ps = map snd ns" "finite (dom h)"
      by (rule queue_holdsE)
    from queue_remove_rep [OF s(2), of p] obtain q' h'
      where r: "queue_remove p (q, h) = Some (q', h')" "queue_rep h' q' (remove_node p ns)"
        "dom h' = dom h - (node_addrs ns - node_addrs (remove_node p ns))"
      by blast
    have "queue_holds (q', h') (remove1 p ps)"
      by (rule queue_holdsI [OF r(2)]) (simp_all add: r(3) s(3,4))
    with r(1) s(1) show ?thesis by simp
  qed
qed

section \<open>Properties\<close>


text \<open>
  \<^verbatim>\<open>queue_remove\<close> always terminates on a well-formed queue without undefined
  behaviour, unlinks exactly the first node holding the process (nothing when there is
  none), frees that node only and leaves all memory outside the queue as it was.
\<close>

theorem queue_remove_correct:
  assumes rep: "queue_rep h q ns"
  shows "\<exists>q' h' ns'. queue_remove p (q, h) = Some (q', h') \<and> queue_rep h' q' ns' \<and>
    map snd ns' = remove1 p (map snd ns) \<and> node_addrs ns' \<subseteq> node_addrs ns \<and>
    dom h' = dom h - (node_addrs ns - node_addrs ns') \<and>
    (\<forall>b. b \<notin> node_addrs ns \<longrightarrow> h' b = h b)"
proof -
  from queue_remove_rep [OF rep, of p] obtain q' h'
    where "queue_remove p (q, h) = Some (q', h')" "queue_rep h' q' (remove_node p ns)"
      "dom h' = dom h - (node_addrs ns - node_addrs (remove_node p ns))"
      "\<forall>b. b \<notin> node_addrs ns \<longrightarrow> h' b = h b"
    by blast
  with remove_node_addrs remove_node_procs show ?thesis by blast
qed

text \<open>An allocator for the witnesses: the least address not in use.\<close>

definition least_free :: "node_heap \<Rightarrow> addr" where
  "least_free h = (LEAST a. h a = None)"

lemma least_free: "finite (dom h) \<Longrightarrow> h (least_free h) = None"
  unfolding least_free_def by (rule LeastI_ex) (metis domI ex_new_if_finite infinite_UNIV_nat domIff)


definition demo_heap :: node_heap where
  "demo_heap = [1 \<mapsto> \<lparr>node_process = 70, node_next = Some 2, node_prev = None\<rparr>,
                2 \<mapsto> \<lparr>node_process = 80, node_next = None, node_prev = Some 1\<rparr>]"

definition demo_queue :: ProcessQueue where
  "demo_queue = \<lparr>queue_head = Some 1, queue_tail = Some 2, queue_count = 2\<rparr>"

lemma queue_remove_correct_witness:
  "\<exists>q' h' ns'. queue_remove 80 (demo_queue, demo_heap) = Some (q', h') \<and> queue_rep h' q' ns'
     \<and> map snd ns' = [70]"
proof -
  have "queue_rep demo_heap demo_queue [(1, 70), (2, 80)]" by code_simp
  from queue_remove_correct [OF this, of 80] obtain q' h' ns'
    where "queue_remove 80 (demo_queue, demo_heap) = Some (q', h')" "queue_rep h' q' ns'"
      "map snd ns' = remove1 80 (map snd [(1, 70), (2 :: addr, 80)])" by blast
  then show ?thesis by (intro exI conjI) simp_all
qed

end
