(* ===== verification/Privilege.thy ===== *)
theory Privilege
  imports Prelude
begin

text \<open>
  The privilege rings of \<^verbatim>\<open>src/kernel/privilege.c\<close>: one global
  \<^verbatim>\<open>PrivilegeContext\<close>, the two mode switches that save and swap the stack pointers,
  the access checks and the privileged instructions. The addresses of the two static
  stack buffers are parameters (\<open>kbuf\<close>, \<open>ubuf\<close>), the low 32 bits the code keeps of
  them. Printing is not modelled; what \<^verbatim>\<open>privilege_raise_exception\<close> reports is.
\<close>

section \<open>Constants and state\<close>

definition PRIVILEGE_KERNEL :: u32 where "PRIVILEGE_KERNEL = 0"
definition PRIVILEGE_USER :: u32 where "PRIVILEGE_USER = 3"

definition PRIV_FLAG_SUPERVISOR :: u32 where "PRIV_FLAG_SUPERVISOR = 0x0001"
definition PRIV_FLAG_IO_ACCESS :: u32 where "PRIV_FLAG_IO_ACCESS = 0x0002"
definition PRIV_FLAG_MEM_MANAGE :: u32 where "PRIV_FLAG_MEM_MANAGE = 0x0004"
definition PRIV_FLAG_INTERRUPT :: u32 where "PRIV_FLAG_INTERRUPT = 0x0008"
definition PRIV_FLAG_SYSCALL :: u32 where "PRIV_FLAG_SYSCALL = 0x0010"

lemmas priv_consts = PRIVILEGE_KERNEL_def PRIVILEGE_USER_def PRIV_FLAG_SUPERVISOR_def
  PRIV_FLAG_IO_ACCESS_def PRIV_FLAG_MEM_MANAGE_def PRIV_FLAG_INTERRUPT_def PRIV_FLAG_SYSCALL_def

definition EXCEPTION_GENERAL_PROTECTION :: u32 where "EXCEPTION_GENERAL_PROTECTION = 0x0D"
definition EXCEPTION_PRIVILEGE_VIOLATION :: u32 where "EXCEPTION_PRIVILEGE_VIOLATION = 0x0E"
definition EXCEPTION_INVALID_OPCODE :: u32 where "EXCEPTION_INVALID_OPCODE = 0x06"
definition EXCEPTION_STACK_FAULT :: u32 where "EXCEPTION_STACK_FAULT = 0x0C"

record PrivilegeContext =
  current_level :: u32
  priv_flags :: u32
  kernel_stack :: u32
  user_stack :: u32
  current_esp :: u32
  kernel_context :: u64
  user_context :: u64

definition KERNEL_STACK_SIZE :: u32 where "KERNEL_STACK_SIZE = 64 * 1024"
definition USER_STACK_SIZE :: u32 where "USER_STACK_SIZE = 256 * 1024"

text \<open>The flags of the two modes the code switches between.\<close>

definition kernel_flags :: u32 where
  "kernel_flags = PRIV_FLAG_SUPERVISOR OR PRIV_FLAG_IO_ACCESS OR PRIV_FLAG_MEM_MANAGE
     OR PRIV_FLAG_INTERRUPT"

section \<open>Operations\<close>

definition privilege_init :: "u32 \<Rightarrow> u32 \<Rightarrow> PrivilegeContext" where
  "privilege_init kbuf ubuf =
     \<lparr>current_level = PRIVILEGE_KERNEL,
      priv_flags = kernel_flags,
      kernel_stack = kbuf + (KERNEL_STACK_SIZE - 16),
      user_stack = ubuf + (USER_STACK_SIZE - 16),
      current_esp = kbuf + (KERNEL_STACK_SIZE - 16),
      kernel_context = 0,
      user_context = 0\<rparr>"

definition privilege_enter_kernel_mode :: "PrivilegeContext \<Rightarrow> PrivilegeContext" where
  "privilege_enter_kernel_mode c =
     (if current_level c = PRIVILEGE_KERNEL then c
      else c\<lparr>user_stack := current_esp c,
             current_esp := kernel_stack c,
             current_level := PRIVILEGE_KERNEL,
             priv_flags := (priv_flags c OR kernel_flags) AND NOT PRIV_FLAG_SYSCALL\<rparr>)"

definition privilege_enter_user_mode :: "PrivilegeContext \<Rightarrow> PrivilegeContext" where
  "privilege_enter_user_mode c =
     (if current_level c = PRIVILEGE_USER then c
      else c\<lparr>kernel_stack := current_esp c,
             current_esp := user_stack c,
             current_level := PRIVILEGE_USER,
             priv_flags := (priv_flags c AND NOT kernel_flags) OR PRIV_FLAG_SYSCALL\<rparr>)"

definition privilege_check_access :: "PrivilegeContext \<Rightarrow> u32 \<Rightarrow> int" where
  "privilege_check_access c required_level = (if current_level c \<le> required_level then 1 else 0)"

definition privilege_can_execute :: "PrivilegeContext \<Rightarrow> u32 \<Rightarrow> int" where
  "privilege_can_execute c instruction_flags =
     (if instruction_flags AND PRIV_FLAG_SUPERVISOR \<noteq> 0
      then (if priv_flags c AND PRIV_FLAG_SUPERVISOR \<noteq> 0 then 1 else 0)
      else if instruction_flags AND PRIV_FLAG_IO_ACCESS \<noteq> 0
      then (if priv_flags c AND PRIV_FLAG_IO_ACCESS \<noteq> 0 then 1 else 0)
      else if instruction_flags AND PRIV_FLAG_MEM_MANAGE \<noteq> 0
      then (if priv_flags c AND PRIV_FLAG_MEM_MANAGE \<noteq> 0 then 1 else 0)
      else 1)"

definition KERNEL_SPACE_END :: u32 where "KERNEL_SPACE_END = 0x3FFFFFFF"

definition privilege_can_access_memory :: "PrivilegeContext \<Rightarrow> u32 \<Rightarrow> int \<Rightarrow> int" where
  "privilege_can_access_memory c address write =
     (if current_level c = PRIVILEGE_KERNEL then 1
      else if address \<le> KERNEL_SPACE_END then 0
      else 1)"

text \<open>
  A privileged instruction either completes with its return value or raises an
  exception, after which the function returns the value the code gives there.
\<close>

datatype 'a priv_result = Completed 'a | Raised u32 'a

definition privilege_raise_exception :: "u32 \<Rightarrow> string" where
  "privilege_raise_exception exception_code =
     (if exception_code = EXCEPTION_GENERAL_PROTECTION then ''General Protection Fault''
      else if exception_code = EXCEPTION_PRIVILEGE_VIOLATION then ''Privilege Violation''
      else if exception_code = EXCEPTION_INVALID_OPCODE then ''Invalid Opcode''
      else if exception_code = EXCEPTION_STACK_FAULT then ''Stack Fault''
      else ''Unknown Exception'')"

definition privilege_cli :: "PrivilegeContext \<Rightarrow> unit priv_result" where
  "privilege_cli c =
     (if priv_flags c AND PRIV_FLAG_SUPERVISOR = 0
      then Raised EXCEPTION_GENERAL_PROTECTION () else Completed ())"

definition privilege_sti :: "PrivilegeContext \<Rightarrow> unit priv_result" where
  "privilege_sti c =
     (if priv_flags c AND PRIV_FLAG_SUPERVISOR = 0
      then Raised EXCEPTION_GENERAL_PROTECTION () else Completed ())"

definition privilege_hlt :: "PrivilegeContext \<Rightarrow> unit priv_result" where
  "privilege_hlt c =
     (if priv_flags c AND PRIV_FLAG_SUPERVISOR = 0
      then Raised EXCEPTION_GENERAL_PROTECTION () else Completed ())"

definition privilege_in :: "PrivilegeContext \<Rightarrow> u16 \<Rightarrow> u32 priv_result" where
  "privilege_in c port =
     (if priv_flags c AND PRIV_FLAG_IO_ACCESS = 0
      then Raised EXCEPTION_GENERAL_PROTECTION 0xFFFFFFFF else Completed 0)"

definition privilege_out :: "PrivilegeContext \<Rightarrow> u16 \<Rightarrow> u32 \<Rightarrow> unit priv_result" where
  "privilege_out c port v =
     (if priv_flags c AND PRIV_FLAG_IO_ACCESS = 0
      then Raised EXCEPTION_GENERAL_PROTECTION () else Completed ())"

section \<open>The invariant of the two modes\<close>

definition priv_wf :: "PrivilegeContext \<Rightarrow> bool" where
  "priv_wf c \<longleftrightarrow>
     (current_level c = PRIVILEGE_KERNEL \<and> priv_flags c = kernel_flags
        \<and> current_esp c = kernel_stack c)
   \<or> (current_level c = PRIVILEGE_USER \<and> priv_flags c = PRIV_FLAG_SYSCALL
        \<and> current_esp c = user_stack c)"

lemma kernel_flags_eq: "kernel_flags = 0xF"
  by (simp add: kernel_flags_def priv_consts)

lemma level_neq [simp]: "PRIVILEGE_KERNEL \<noteq> PRIVILEGE_USER" "PRIVILEGE_USER \<noteq> PRIVILEGE_KERNEL"
  by (simp_all add: priv_consts)

lemma mode_flags [simp]:
  "(PRIV_FLAG_SYSCALL OR kernel_flags) AND NOT PRIV_FLAG_SYSCALL = kernel_flags"
  "(kernel_flags AND NOT kernel_flags) OR PRIV_FLAG_SYSCALL = PRIV_FLAG_SYSCALL"
  by (simp_all add: kernel_flags_eq priv_consts word_facts)

lemma priv_wf_init [vm_inv]: "priv_wf (privilege_init kbuf ubuf)"
  by (simp add: priv_wf_def privilege_init_def)

lemma priv_wf_kernel [vm_inv]: "priv_wf c \<Longrightarrow> priv_wf (privilege_enter_kernel_mode c)"
  by (auto simp: priv_wf_def privilege_enter_kernel_mode_def)

lemma priv_wf_user [vm_inv]: "priv_wf c \<Longrightarrow> priv_wf (privilege_enter_user_mode c)"
  by (auto simp: priv_wf_def privilege_enter_user_mode_def)

lemma level_enter_kernel [simp]: "current_level (privilege_enter_kernel_mode c) = PRIVILEGE_KERNEL"
  by (simp add: privilege_enter_kernel_mode_def)

lemma level_enter_user [simp]: "current_level (privilege_enter_user_mode c) = PRIVILEGE_USER"
  by (simp add: privilege_enter_user_mode_def)

section \<open>Runs of mode switches\<close>

datatype priv_switch = EnterKernel | EnterUser

fun switch_mode :: "priv_switch \<Rightarrow> PrivilegeContext \<Rightarrow> PrivilegeContext" where
  "switch_mode EnterKernel c = privilege_enter_kernel_mode c"
| "switch_mode EnterUser c = privilege_enter_user_mode c"

lemma priv_wf_run: "priv_wf (fold switch_mode sw (privilege_init kbuf ubuf))"
proof (rule fold_invariant_all)
  show "priv_wf (switch_mode x c)" if "priv_wf c" for x c
    using that by (cases x) (simp_all add: vm_inv)
qed (rule priv_wf_init)

lemma flags_of_mode:
  "priv_wf c \<Longrightarrow> current_level c = PRIVILEGE_USER \<Longrightarrow>
     priv_flags c AND PRIV_FLAG_SUPERVISOR = 0 \<and> priv_flags c AND PRIV_FLAG_IO_ACCESS = 0"
  "priv_wf c \<Longrightarrow> current_level c = PRIVILEGE_KERNEL \<Longrightarrow>
     priv_flags c AND PRIV_FLAG_SUPERVISOR \<noteq> 0 \<and> priv_flags c AND PRIV_FLAG_IO_ACCESS \<noteq> 0"
  by (auto simp: priv_wf_def kernel_flags_eq priv_consts)

section \<open>Properties\<close>

text \<open>
  C2: After any sequence of mode switches the context is in one of the two rings, and the
  ring decides everything: in user mode every privileged instruction raises a general
  protection fault, kernel memory is refused and ring 0 access is denied; in kernel mode
  all of them are granted.
\<close>

theorem privilege_isolation:
  assumes "c = fold switch_mode sw (privilege_init kbuf ubuf)"
  shows "if current_level c = PRIVILEGE_USER
    then privilege_cli c = Raised EXCEPTION_GENERAL_PROTECTION () \<and>
         privilege_sti c = Raised EXCEPTION_GENERAL_PROTECTION () \<and>
         privilege_hlt c = Raised EXCEPTION_GENERAL_PROTECTION () \<and>
         privilege_in c port = Raised EXCEPTION_GENERAL_PROTECTION 0xFFFFFFFF \<and>
         privilege_out c port v = Raised EXCEPTION_GENERAL_PROTECTION () \<and>
         privilege_can_execute c PRIV_FLAG_SUPERVISOR = 0 \<and>
         privilege_check_access c PRIVILEGE_KERNEL = 0 \<and>
         (privilege_can_access_memory c addr w = 1 \<longleftrightarrow> KERNEL_SPACE_END < addr)
    else current_level c = PRIVILEGE_KERNEL \<and>
         privilege_cli c = Completed () \<and> privilege_sti c = Completed () \<and>
         privilege_hlt c = Completed () \<and> privilege_in c port = Completed 0 \<and>
         privilege_out c port v = Completed () \<and>
         privilege_can_execute c PRIV_FLAG_SUPERVISOR = 1 \<and>
         privilege_check_access c PRIVILEGE_KERNEL = 1 \<and>
         privilege_can_access_memory c addr w = 1"
proof -
  have wf: "priv_wf c" using assms priv_wf_run by simp
  note ops = privilege_cli_def privilege_sti_def privilege_hlt_def privilege_in_def
    privilege_out_def privilege_can_execute_def privilege_check_access_def
    privilege_can_access_memory_def
  show ?thesis
  proof (cases "current_level c = PRIVILEGE_USER")
    case True
    note f = flags_of_mode(1) [OF wf True]
    have sup: "PRIV_FLAG_SUPERVISOR AND PRIV_FLAG_SUPERVISOR \<noteq> 0" by (simp add: priv_consts)
    have lvl: "\<not> PRIVILEGE_USER \<le> PRIVILEGE_KERNEL" by (simp add: priv_consts)
    from True f sup lvl show ?thesis by (auto simp: ops)
  next
    case False
    then have k: "current_level c = PRIVILEGE_KERNEL" using wf by (auto simp: priv_wf_def)
    note f = flags_of_mode(2) [OF wf k]
    have sup: "PRIV_FLAG_SUPERVISOR AND PRIV_FLAG_SUPERVISOR \<noteq> 0" by (simp add: priv_consts)
    from False k f sup show ?thesis by (simp add: ops)
  qed
qed

lemma privilege_isolation_witness:
  "privilege_cli (fold switch_mode [EnterUser] (privilege_init 0x1000 0x20000))
     = Raised EXCEPTION_GENERAL_PROTECTION ()"
  using privilege_isolation
    [of "fold switch_mode [EnterUser] (privilege_init 0x1000 0x20000)" "[EnterUser]" 4096 131072]
  by simp

text \<open>
  The two mode switches are inverse to each other on every context reachable from
  \<^verbatim>\<open>privilege_init\<close>: going to the other ring and back restores the complete context,
  flags and both saved stack pointers included.
\<close>

theorem privilege_switch_roundtrip:
  assumes "c = fold switch_mode sw (privilege_init kbuf ubuf)"
  shows "(if current_level c = PRIVILEGE_KERNEL
          then privilege_enter_kernel_mode (privilege_enter_user_mode c)
          else privilege_enter_user_mode (privilege_enter_kernel_mode c)) = c"
proof -
  have "priv_wf c" using assms priv_wf_run by simp
  then show ?thesis
    by (cases c) (auto simp: priv_wf_def privilege_enter_kernel_mode_def privilege_enter_user_mode_def)
qed

lemma privilege_switch_roundtrip_witness:
  "privilege_enter_user_mode (privilege_enter_kernel_mode
      (fold switch_mode [EnterUser] (privilege_init 0x1000 0x20000)))
     = fold switch_mode [EnterUser] (privilege_init 0x1000 0x20000)"
  using privilege_switch_roundtrip
    [of "fold switch_mode [EnterUser] (privilege_init 0x1000 0x20000)" "[EnterUser]" 4096 131072]
  by simp

end
