(* ===== verification/Scheduler.thy ===== *)
theory Scheduler
  imports ProcessTable ProcQueue Privilege
begin

text \<open>
  The process scheduler of \<^verbatim>\<open>src/kernel/scheduler.c\<close> over the linked queues of
  \<open>ProcQueue\<close>, the process structures of \<open>ProcessTable\<close> and the rings of \<open>Privilege\<close>.
  Processes are addresses into the store \<open>procs\<close>; dereferencing an address that is not
  there is undefined behaviour (\<open>None\<close>). The \<open>n\<close>-th call of \<^verbatim>\<open>malloc\<close> for a queue node is
  \<open>al n h\<close>, \<open>h\<close> the nodes in use. Printing is left out, the fields it reads are not.
\<close>

section \<open>State\<close>

datatype SchedulerAlgorithm =
  SCHED_ROUND_ROBIN | SCHED_PRIORITY | SCHED_MULTILEVEL | SCHED_REAL_TIME

definition SCHEDULER_QUANTUM_MS :: u32 where "SCHEDULER_QUANTUM_MS = 10"
definition SCHEDULER_MAX_QUEUES :: nat where "SCHEDULER_MAX_QUEUES = 5"

record Scheduler =
  algorithm :: SchedulerAlgorithm
  current_process :: "addr option"
  idle_process :: "addr option"
  ready_queue :: ProcessQueue
  blocked_queue :: ProcessQueue
  priority_queues :: "ProcessQueue option list"
  total_context_switches :: u64
  total_preemptions :: u64
  total_yields :: u64
  quantum_ms :: u32
  last_schedule_time :: u64
  current_quantum_remaining :: u64
  preemption_enabled :: bool
  scheduling_enabled :: bool

text \<open>The scheduler with the global state it works on.\<close>

record sched_world =
  sched :: Scheduler
  sched_initialized :: bool
  nodes :: node_heap
  procs :: "addr \<Rightarrow> Process option"
  priv :: PrivilegeContext
  mallocs :: nat

type_synonym allocator = "nat \<Rightarrow> node_heap \<Rightarrow> addr option"

section \<open>Initialisation, start and stop\<close>

text \<open>\<open>mem\<close> says which of the five allocations of queue structures succeed.\<close>

definition scheduler_init :: "(nat \<Rightarrow> bool) \<Rightarrow> sched_world \<Rightarrow> int \<times> sched_world" where
  "scheduler_init mem w =
     (if sched_initialized w then (0, w)
      else (0, w\<lparr>sched :=
          \<lparr>algorithm = SCHED_ROUND_ROBIN, current_process = None, idle_process = None,
           ready_queue = queue_init, blocked_queue = queue_init,
           priority_queues = map (\<lambda>i. if mem i then Some queue_init else None) [0..<SCHEDULER_MAX_QUEUES],
           total_context_switches = 0, total_preemptions = 0, total_yields = 0,
           quantum_ms = SCHEDULER_QUANTUM_MS, last_schedule_time = 0,
           current_quantum_remaining = 0, preemption_enabled = True, scheduling_enabled = False\<rparr>,
         sched_initialized := True\<rparr>))"

definition scheduler_cleanup :: "sched_world \<Rightarrow> sched_world" where
  "scheduler_cleanup w =
     (if \<not> sched_initialized w then w
      else w\<lparr>sched := (sched w)\<lparr>priority_queues := map (\<lambda>_. None) (priority_queues (sched w))\<rparr>,
             sched_initialized := False\<rparr>)"

definition scheduler_start :: "sched_world \<Rightarrow> sched_world" where
  "scheduler_start w = w\<lparr>sched := (sched w)\<lparr>scheduling_enabled := True, last_schedule_time := 0\<rparr>\<rparr>"

definition scheduler_stop :: "sched_world \<Rightarrow> sched_world" where
  "scheduler_stop w = w\<lparr>sched := (sched w)\<lparr>scheduling_enabled := False\<rparr>\<rparr>"

section \<open>Queue management\<close>

text \<open>\<^verbatim>\<open>p->state = st\<close>.\<close>

definition set_proc_state :: "addr \<Rightarrow> ProcessState \<Rightarrow> sched_world \<Rightarrow> sched_world option" where
  "set_proc_state p st w =
     do { pr \<leftarrow> procs w p; Some (w\<lparr>procs := (procs w)(p \<mapsto> pr\<lparr>pstate := st\<rparr>)\<rparr>) }"

definition scheduler_enqueue_ready ::
  "allocator \<Rightarrow> addr option \<Rightarrow> sched_world \<Rightarrow> sched_world option" where
  "scheduler_enqueue_ready al process w =
     (case process of None \<Rightarrow> Some w
      | Some p \<Rightarrow> do {
          w1 \<leftarrow> set_proc_state p PROC_STATE_RUNNING w;
          (q, h) \<leftarrow> queue_enqueue (al (mallocs w1) (nodes w1)) p (ready_queue (sched w1), nodes w1);
          Some (w1\<lparr>sched := (sched w1)\<lparr>ready_queue := q\<rparr>, nodes := h, mallocs := mallocs w1 + 1\<rparr>) })"

definition scheduler_enqueue_blocked ::
  "allocator \<Rightarrow> addr option \<Rightarrow> sched_world \<Rightarrow> sched_world option" where
  "scheduler_enqueue_blocked al process w =
     (case process of None \<Rightarrow> Some w
      | Some p \<Rightarrow> do {
          w1 \<leftarrow> set_proc_state p PROC_STATE_SLEEPING w;
          (q, h) \<leftarrow> queue_enqueue (al (mallocs w1) (nodes w1)) p (blocked_queue (sched w1), nodes w1);
          Some (w1\<lparr>sched := (sched w1)\<lparr>blocked_queue := q\<rparr>, nodes := h, mallocs := mallocs w1 + 1\<rparr>) })"

definition remove_from_ready :: "addr \<Rightarrow> sched_world \<Rightarrow> sched_world option" where
  "remove_from_ready p w = do {
     (q, h) \<leftarrow> queue_remove p (ready_queue (sched w), nodes w);
     Some (w\<lparr>sched := (sched w)\<lparr>ready_queue := q\<rparr>, nodes := h\<rparr>) }"

definition remove_from_blocked :: "addr \<Rightarrow> sched_world \<Rightarrow> sched_world option" where
  "remove_from_blocked p w = do {
     (q, h) \<leftarrow> queue_remove p (blocked_queue (sched w), nodes w);
     Some (w\<lparr>sched := (sched w)\<lparr>blocked_queue := q\<rparr>, nodes := h\<rparr>) }"

definition scheduler_remove_from_queue :: "addr option \<Rightarrow> sched_world \<Rightarrow> sched_world option" where
  "scheduler_remove_from_queue process w =
     (case process of None \<Rightarrow> Some w
      | Some p \<Rightarrow> do { w1 \<leftarrow> remove_from_ready p w; remove_from_blocked p w1 })"

definition scheduler_dequeue_ready :: "sched_world \<Rightarrow> (addr option \<times> sched_world) option" where
  "scheduler_dequeue_ready w = do {
     (r, q, h) \<leftarrow> queue_dequeue (ready_queue (sched w), nodes w);
     Some (r, w\<lparr>sched := (sched w)\<lparr>ready_queue := q\<rparr>, nodes := h\<rparr>) }"

section \<open>Picking and switching\<close>

text \<open>The search of \<^verbatim>\<open>SCHED_PRIORITY\<close> over the queue indices; a queue that was not
  allocated is a NULL pointer, whose \<^verbatim>\<open>count\<close> cannot be read.\<close>

fun pick_priority :: "nat list \<Rightarrow> sched_world \<Rightarrow> (addr option \<times> sched_world) option" where
  "pick_priority [] w = Some (None, w)"
| "pick_priority (i # is) w =
     (case priority_queues (sched w) ! i of
        None \<Rightarrow> None
      | Some q \<Rightarrow>
          if 0 < queue_count q then do {
            (r, q', h) \<leftarrow> queue_dequeue (q, nodes w);
            Some (r, w\<lparr>sched := (sched w)\<lparr>priority_queues := (priority_queues (sched w))[i := Some q']\<rparr>,
                       nodes := h\<rparr>) }
          else pick_priority is w)"

definition scheduler_pick_next_process :: "sched_world \<Rightarrow> (addr option \<times> sched_world) option" where
  "scheduler_pick_next_process w =
     (case algorithm (sched w) of
        SCHED_ROUND_ROBIN \<Rightarrow> scheduler_dequeue_ready w
      | SCHED_PRIORITY \<Rightarrow> pick_priority (rev [0..<SCHEDULER_MAX_QUEUES]) w
      | _ \<Rightarrow> scheduler_dequeue_ready w)"

text \<open>Saving and loading a context only read the process (its pid is printed).\<close>

definition scheduler_save_context :: "addr option \<Rightarrow> sched_world \<Rightarrow> sched_world option" where
  "scheduler_save_context process w =
     (case process of None \<Rightarrow> Some w | Some p \<Rightarrow> do { pr \<leftarrow> procs w p; Some w })"

definition scheduler_load_context :: "addr option \<Rightarrow> sched_world \<Rightarrow> sched_world option" where
  "scheduler_load_context process w =
     (case process of None \<Rightarrow> Some w | Some p \<Rightarrow> do { pr \<leftarrow> procs w p; Some w })"

definition scheduler_context_switch ::
  "addr option \<Rightarrow> addr option \<Rightarrow> sched_world \<Rightarrow> sched_world option" where
  "scheduler_context_switch old_proc new_proc w =
     (case new_proc of None \<Rightarrow> Some w
      | Some p \<Rightarrow> do {
          w1 \<leftarrow> scheduler_save_context old_proc w;
          w2 \<leftarrow> scheduler_load_context new_proc w1;
          pr \<leftarrow> procs w2 p;
          Some (if 0 < pid pr then w2\<lparr>priv := privilege_enter_user_mode (priv w2)\<rparr> else w2) })"

definition scheduler_schedule :: "allocator \<Rightarrow> sched_world \<Rightarrow> sched_world option" where
  "scheduler_schedule al w =
     (if \<not> sched_initialized w \<or> \<not> scheduling_enabled (sched w) then Some w
      else do {
        let w0 = w\<lparr>priv := privilege_enter_kernel_mode (priv w)\<rparr>;
        let old = current_process (sched w0);
        (picked, w1) \<leftarrow> scheduler_pick_next_process w0;
        let new = (case picked of None \<Rightarrow> idle_process (sched w1) | Some p \<Rightarrow> Some p);
        (if new = old then Some w1
         else do {
           w2 \<leftarrow> (case old of None \<Rightarrow> Some w1
                  | Some c \<Rightarrow> do {
                      pr \<leftarrow> procs w1 c;
                      (if pstate pr = PROC_STATE_RUNNING then scheduler_enqueue_ready al (Some c) w1
                       else Some w1) });
           (case new of None \<Rightarrow> Some w2
            | Some n \<Rightarrow> do {
                w3 \<leftarrow> set_proc_state n PROC_STATE_RUNNING w2;
                w4 \<leftarrow> scheduler_context_switch old (Some n)
                        (w3\<lparr>sched := (sched w3)\<lparr>current_process := Some n\<rparr>\<rparr>);
                Some (w4\<lparr>sched := (sched w4)
                        \<lparr>total_context_switches := total_context_switches (sched w4) + 1,
                         current_quantum_remaining := ucast (quantum_ms (sched w4))\<rparr>\<rparr>) }) }) })"

definition scheduler_yield :: "allocator \<Rightarrow> sched_world \<Rightarrow> sched_world option" where
  "scheduler_yield al w =
     (if \<not> sched_initialized w then Some w
      else scheduler_schedule al (w\<lparr>sched := (sched w)\<lparr>total_yields := total_yields (sched w) + 1\<rparr>\<rparr>))"

definition scheduler_preempt :: "allocator \<Rightarrow> sched_world \<Rightarrow> sched_world option" where
  "scheduler_preempt al w =
     (if \<not> sched_initialized w \<or> \<not> preemption_enabled (sched w) then Some w
      else scheduler_schedule al
             (w\<lparr>sched := (sched w)\<lparr>total_preemptions := total_preemptions (sched w) + 1\<rparr>\<rparr>))"

definition scheduler_tick :: "allocator \<Rightarrow> sched_world \<Rightarrow> sched_world option" where
  "scheduler_tick al w =
     (if \<not> sched_initialized w \<or> \<not> scheduling_enabled (sched w) then Some w
      else (let w1 = (if 0 < current_quantum_remaining (sched w)
                      then w\<lparr>sched := (sched w)
                             \<lparr>current_quantum_remaining := current_quantum_remaining (sched w) - 1\<rparr>\<rparr>
                      else w)
            in if current_quantum_remaining (sched w1) = 0 \<and> preemption_enabled (sched w1)
               then scheduler_preempt al w1 else Some w1))"

section \<open>Blocking and waking\<close>

definition scheduler_block_process ::
  "allocator \<Rightarrow> addr option \<Rightarrow> sched_world \<Rightarrow> sched_world option" where
  "scheduler_block_process al process w =
     (case process of None \<Rightarrow> Some w
      | Some p \<Rightarrow> do {
          w1 \<leftarrow> scheduler_remove_from_queue (Some p) w;
          w2 \<leftarrow> scheduler_enqueue_blocked al (Some p) w1;
          (if current_process (sched w2) = Some p then scheduler_schedule al w2 else Some w2) })"

definition scheduler_unblock_process ::
  "allocator \<Rightarrow> addr option \<Rightarrow> sched_world \<Rightarrow> sched_world option" where
  "scheduler_unblock_process al process w =
     (case process of None \<Rightarrow> Some w
      | Some p \<Rightarrow> do {
          w1 \<leftarrow> remove_from_blocked p w;
          scheduler_enqueue_ready al (Some p) w1 })"

definition scheduler_sleep_process ::
  "allocator \<Rightarrow> addr option \<Rightarrow> u32 \<Rightarrow> sched_world \<Rightarrow> sched_world option" where
  "scheduler_sleep_process al process ms w =
     (case process of None \<Rightarrow> Some w | Some p \<Rightarrow> scheduler_block_process al (Some p) w)"

definition scheduler_wake_process ::
  "allocator \<Rightarrow> addr option \<Rightarrow> sched_world \<Rightarrow> sched_world option" where
  "scheduler_wake_process al process w = scheduler_unblock_process al process w"

section \<open>Policy\<close>

definition scheduler_set_algorithm :: "SchedulerAlgorithm \<Rightarrow> sched_world \<Rightarrow> sched_world" where
  "scheduler_set_algorithm algo w = w\<lparr>sched := (sched w)\<lparr>algorithm := algo\<rparr>\<rparr>"

definition scheduler_set_quantum :: "u32 \<Rightarrow> sched_world \<Rightarrow> sched_world" where
  "scheduler_set_quantum ms w = w\<lparr>sched := (sched w)\<lparr>quantum_ms := ms\<rparr>\<rparr>"

definition scheduler_should_preempt :: "Process option \<Rightarrow> Process option \<Rightarrow> int" where
  "scheduler_should_preempt current candidate =
     (case (current, candidate) of
        (Some cu, Some ca) \<Rightarrow> of_cbool (priority_code (priority ca) > priority_code (priority cu))
      | _ \<Rightarrow> 0)"

section \<open>What the scheduler's queues hold\<close>

text \<open>
  \<open>sched_holds w rps bps\<close>: the two queues are well-formed, share no node and hold the
  processes \<open>rps\<close> (ready) and \<open>bps\<close> (blocked); every process pointer of the scheduler is valid.
\<close>

definition sched_holds :: "sched_world \<Rightarrow> addr list \<Rightarrow> addr list \<Rightarrow> bool" where
  "sched_holds w rps bps \<longleftrightarrow>
     finite (dom (nodes w)) \<and>
     (\<exists>rs bs. queue_rep (nodes w) (ready_queue (sched w)) rs \<and>
        queue_rep (nodes w) (blocked_queue (sched w)) bs \<and>
        node_addrs rs \<inter> node_addrs bs = {} \<and> map snd rs = rps \<and> map snd bs = bps) \<and>
     set rps \<union> set bps \<union> set_option (current_process (sched w)) \<union> set_option (idle_process (sched w))
       \<subseteq> dom (procs w)"

text \<open>An allocator that has memory left and returns a node not in use.\<close>

definition alloc_ok :: "allocator \<Rightarrow> bool" where
  "alloc_ok al \<longleftrightarrow> (\<forall>n h. finite (dom h) \<longrightarrow> (\<exists>a. al n h = Some a \<and> h a = None))"

lemma sched_holds_priv [simp]: "sched_holds (w\<lparr>priv := x\<rparr>) rps bps = sched_holds w rps bps"
  by (simp add: sched_holds_def)

lemma sched_holds_mallocs [simp]: "sched_holds (w\<lparr>mallocs := m\<rparr>) rps bps = sched_holds w rps bps"
  by (simp add: sched_holds_def)

lemma sched_holds_fields [simp]:
  "sched_holds (w\<lparr>sched := s\<lparr>total_preemptions := x\<rparr>\<rparr>) rps bps = sched_holds (w\<lparr>sched := s\<rparr>) rps bps"
  "sched_holds (w\<lparr>sched := s\<lparr>total_yields := x\<rparr>\<rparr>) rps bps = sched_holds (w\<lparr>sched := s\<rparr>) rps bps"
  "sched_holds (w\<lparr>sched := s\<lparr>total_context_switches := x\<rparr>\<rparr>) rps bps = sched_holds (w\<lparr>sched := s\<rparr>) rps bps"
  "sched_holds (w\<lparr>sched := s\<lparr>current_quantum_remaining := x\<rparr>\<rparr>) rps bps = sched_holds (w\<lparr>sched := s\<rparr>) rps bps"
  "sched_holds (w\<lparr>sched := s\<lparr>algorithm := alg\<rparr>\<rparr>) rps bps = sched_holds (w\<lparr>sched := s\<rparr>) rps bps"
  "sched_holds (w\<lparr>sched := s\<lparr>scheduling_enabled := b\<rparr>\<rparr>) rps bps = sched_holds (w\<lparr>sched := s\<rparr>) rps bps"
  by (simp_all add: sched_holds_def)

lemma sched_holds_same [simp]: "w\<lparr>sched := sched w\<rparr> = w"
  by simp

lemma sched_holds_current:
  "sched_holds w rps bps \<Longrightarrow> p \<in> dom (procs w) \<Longrightarrow>
     sched_holds (w\<lparr>sched := (sched w)\<lparr>current_process := Some p\<rparr>\<rparr>) rps bps"
  by (auto simp: sched_holds_def)

lemma sched_holds_procs:
  "sched_holds w rps bps \<Longrightarrow> sched_holds (w\<lparr>procs := (procs w)(p \<mapsto> x)\<rparr>) rps bps"
  by (auto simp: sched_holds_def)

lemma sched_holds_valid:
  assumes "sched_holds w rps bps"
  shows "p \<in> set rps \<Longrightarrow> p \<in> dom (procs w)" "p \<in> set bps \<Longrightarrow> p \<in> dom (procs w)"
    "current_process (sched w) = Some p \<Longrightarrow> p \<in> dom (procs w)"
    "idle_process (sched w) = Some p \<Longrightarrow> p \<in> dom (procs w)"
  using assms by (auto simp: sched_holds_def)

lemma sched_holdsE:
  assumes "sched_holds w rps bps"
  obtains rs bs where "queue_rep (nodes w) (ready_queue (sched w)) rs"
    "queue_rep (nodes w) (blocked_queue (sched w)) bs" "node_addrs rs \<inter> node_addrs bs = {}"
    "rps = map snd rs" "bps = map snd bs" "finite (dom (nodes w))"
  using assms by (auto simp: sched_holds_def)

section \<open>The queue operations on the scheduler's lists\<close>

lemma enqueue_ready_holds:
  assumes h: "sched_holds w rps bps" and p: "procs w p = Some pr" and al: "alloc_ok al"
  shows "\<exists>q nh. let w' = w\<lparr>procs := (procs w)(p \<mapsto> pr\<lparr>pstate := PROC_STATE_RUNNING\<rparr>),
             sched := (sched w)\<lparr>ready_queue := q\<rparr>, nodes := nh, mallocs := mallocs w + 1\<rparr>
           in scheduler_enqueue_ready al (Some p) w = Some w' \<and> sched_holds w' (rps @ [p]) bps"
proof -
  from h obtain rs bs where r: "queue_rep (nodes w) (ready_queue (sched w)) rs"
    "queue_rep (nodes w) (blocked_queue (sched w)) bs" "node_addrs rs \<inter> node_addrs bs = {}"
    "rps = map snd rs" "bps = map snd bs" "finite (dom (nodes w))" by (rule sched_holdsE)
  obtain a where a: "al (mallocs w) (nodes w) = Some a" "nodes w a = None"
    using al r(6) by (auto simp: alloc_ok_def)
  from queue_enqueue_rep [OF r(1) a(2), of p] obtain q nh
    where e: "queue_enqueue (Some a) p (ready_queue (sched w), nodes w) = Some (q, nh)"
      "queue_rep nh q (rs @ [(a, p)])" "dom nh = insert a (dom (nodes w))"
      "\<forall>b. b \<notin> insert a (node_addrs rs) \<longrightarrow> nh b = nodes w b" by blast
  have ab: "a \<notin> node_addrs bs" using queue_rep_dom [OF r(2)] a(2) by auto
  have "queue_rep (nodes w) (blocked_queue (sched w)) bs = queue_rep nh (blocked_queue (sched w)) bs"
    using e(4) ab r(3) by (intro queue_rep_cong) auto
  with r(2) have b: "queue_rep nh (blocked_queue (sched w)) bs" by simp
  let ?w = "w\<lparr>procs := (procs w)(p \<mapsto> pr\<lparr>pstate := PROC_STATE_RUNNING\<rparr>),
             sched := (sched w)\<lparr>ready_queue := q\<rparr>, nodes := nh, mallocs := mallocs w + 1\<rparr>"
  have "scheduler_enqueue_ready al (Some p) w = Some ?w"
    using p a e(1) by (simp add: scheduler_enqueue_ready_def set_proc_state_def)
  moreover have "\<exists>rs' bs'. queue_rep nh q rs' \<and> queue_rep nh (blocked_queue (sched w)) bs' \<and>
      node_addrs rs' \<inter> node_addrs bs' = {} \<and> map snd rs' = rps @ [p] \<and> map snd bs' = bps"
    using e(2) b r ab by (intro exI [of _ "rs @ [(a, p)]"] exI [of _ bs]) simp
  then have "sched_holds ?w (rps @ [p]) bps" using h p e(3) by (auto simp: sched_holds_def)
  ultimately show ?thesis by (auto simp: Let_def)
qed

lemma enqueue_blocked_holds:
  assumes h: "sched_holds w rps bps" and p: "procs w p = Some pr" and al: "alloc_ok al"
  shows "\<exists>q nh. let w' = w\<lparr>procs := (procs w)(p \<mapsto> pr\<lparr>pstate := PROC_STATE_SLEEPING\<rparr>),
             sched := (sched w)\<lparr>blocked_queue := q\<rparr>, nodes := nh, mallocs := mallocs w + 1\<rparr>
           in scheduler_enqueue_blocked al (Some p) w = Some w' \<and> sched_holds w' rps (bps @ [p])"
proof -
  from h obtain rs bs where r: "queue_rep (nodes w) (ready_queue (sched w)) rs"
    "queue_rep (nodes w) (blocked_queue (sched w)) bs" "node_addrs rs \<inter> node_addrs bs = {}"
    "rps = map snd rs" "bps = map snd bs" "finite (dom (nodes w))" by (rule sched_holdsE)
  obtain a where a: "al (mallocs w) (nodes w) = Some a" "nodes w a = None"
    using al r(6) by (auto simp: alloc_ok_def)
  from queue_enqueue_rep [OF r(2) a(2), of p] obtain q nh
    where e: "queue_enqueue (Some a) p (blocked_queue (sched w), nodes w) = Some (q, nh)"
      "queue_rep nh q (bs @ [(a, p)])" "dom nh = insert a (dom (nodes w))"
      "\<forall>b. b \<notin> insert a (node_addrs bs) \<longrightarrow> nh b = nodes w b" by blast
  have ab: "a \<notin> node_addrs rs" using queue_rep_dom [OF r(1)] a(2) by auto
  have "queue_rep (nodes w) (ready_queue (sched w)) rs = queue_rep nh (ready_queue (sched w)) rs"
    using e(4) ab r(3) by (intro queue_rep_cong) auto
  with r(1) have b: "queue_rep nh (ready_queue (sched w)) rs" by simp
  let ?w = "w\<lparr>procs := (procs w)(p \<mapsto> pr\<lparr>pstate := PROC_STATE_SLEEPING\<rparr>),
             sched := (sched w)\<lparr>blocked_queue := q\<rparr>, nodes := nh, mallocs := mallocs w + 1\<rparr>"
  have "scheduler_enqueue_blocked al (Some p) w = Some ?w"
    using p a e(1) by (simp add: scheduler_enqueue_blocked_def set_proc_state_def)
  moreover have "\<exists>rs' bs'. queue_rep nh (ready_queue (sched w)) rs' \<and> queue_rep nh q bs' \<and>
      node_addrs rs' \<inter> node_addrs bs' = {} \<and> map snd rs' = rps \<and> map snd bs' = bps @ [p]"
    using e(2) b r ab by (intro exI [of _ rs] exI [of _ "bs @ [(a, p)]"]) simp
  then have "sched_holds ?w rps (bps @ [p])" using h p e(3) by (auto simp: sched_holds_def)
  ultimately show ?thesis by (auto simp: Let_def)
qed

lemma dequeue_ready_empty:
  assumes "sched_holds w [] bps"
  shows "scheduler_dequeue_ready w = Some (None, w)"
proof -
  from assms obtain rs bs where "queue_rep (nodes w) (ready_queue (sched w)) rs" "[] = map snd rs"
    by (rule sched_holdsE)
  then have "queue_rep (nodes w) (ready_queue (sched w)) []" by simp
  from queue_dequeue_empty [OF this] show ?thesis by (simp add: scheduler_dequeue_ready_def)
qed

lemma dequeue_ready_holds:
  assumes h: "sched_holds w (p # rps) bps"
  shows "\<exists>q nh. let w' = w\<lparr>sched := (sched w)\<lparr>ready_queue := q\<rparr>, nodes := nh\<rparr>
           in scheduler_dequeue_ready w = Some (Some p, w') \<and> sched_holds w' rps bps"
proof -
  from h obtain rs bs where r: "queue_rep (nodes w) (ready_queue (sched w)) rs"
    "queue_rep (nodes w) (blocked_queue (sched w)) bs" "node_addrs rs \<inter> node_addrs bs = {}"
    "p # rps = map snd rs" "bps = map snd bs" "finite (dom (nodes w))" by (rule sched_holdsE)
  then obtain a ns where ns: "rs = (a, p) # ns" "rps = map snd ns" by (auto simp: Cons_eq_map_conv)
  from queue_dequeue_rep [OF r(1) [unfolded ns(1)]] obtain q nh
    where e: "queue_dequeue (ready_queue (sched w), nodes w) = Some (Some p, q, nh)"
      "queue_rep nh q ns" "dom nh = dom (nodes w) - {a}"
      "\<forall>b. b \<notin> insert a (node_addrs ns) \<longrightarrow> nh b = nodes w b" by blast
  have "queue_rep (nodes w) (blocked_queue (sched w)) bs = queue_rep nh (blocked_queue (sched w)) bs"
    using e(4) r(3) ns(1) by (intro queue_rep_cong) auto
  with r(2) have b: "queue_rep nh (blocked_queue (sched w)) bs" by simp
  let ?w = "w\<lparr>sched := (sched w)\<lparr>ready_queue := q\<rparr>, nodes := nh\<rparr>"
  have "scheduler_dequeue_ready w = Some (Some p, ?w)"
    using e(1) by (simp add: scheduler_dequeue_ready_def)
  moreover have "\<exists>rs' bs'. queue_rep nh q rs' \<and> queue_rep nh (blocked_queue (sched w)) bs' \<and>
      node_addrs rs' \<inter> node_addrs bs' = {} \<and> map snd rs' = rps \<and> map snd bs' = bps"
    using e(2) b r ns by (intro exI [of _ ns] exI [of _ bs]) auto
  then have "sched_holds ?w rps bps" using h e(3) by (auto simp: sched_holds_def)
  ultimately show ?thesis by (auto simp: Let_def)
qed

lemma remove_from_ready_holds:
  assumes h: "sched_holds w rps bps"
  shows "\<exists>q nh. let w' = w\<lparr>sched := (sched w)\<lparr>ready_queue := q\<rparr>, nodes := nh\<rparr>
           in remove_from_ready p w = Some w' \<and> sched_holds w' (remove1 p rps) bps"
proof -
  from h obtain rs bs where r: "queue_rep (nodes w) (ready_queue (sched w)) rs"
    "queue_rep (nodes w) (blocked_queue (sched w)) bs" "node_addrs rs \<inter> node_addrs bs = {}"
    "rps = map snd rs" "bps = map snd bs" "finite (dom (nodes w))" by (rule sched_holdsE)
  from queue_remove_rep [OF r(1), of p] obtain q nh
    where e: "queue_remove p (ready_queue (sched w), nodes w) = Some (q, nh)"
      "queue_rep nh q (remove_node p rs)"
      "dom nh = dom (nodes w) - (node_addrs rs - node_addrs (remove_node p rs))"
      "\<forall>b. b \<notin> node_addrs rs \<longrightarrow> nh b = nodes w b" by blast
  have "queue_rep (nodes w) (blocked_queue (sched w)) bs = queue_rep nh (blocked_queue (sched w)) bs"
    using e(4) r(3) by (intro queue_rep_cong) auto
  with r(2) have b: "queue_rep nh (blocked_queue (sched w)) bs" by simp
  let ?w = "w\<lparr>sched := (sched w)\<lparr>ready_queue := q\<rparr>, nodes := nh\<rparr>"
  have "remove_from_ready p w = Some ?w" using e(1) by (simp add: remove_from_ready_def)
  moreover have "\<exists>rs' bs'. queue_rep nh q rs' \<and> queue_rep nh (blocked_queue (sched w)) bs' \<and>
      node_addrs rs' \<inter> node_addrs bs' = {} \<and> map snd rs' = remove1 p rps \<and> map snd bs' = bps"
    using e(2) b r remove_node_addrs [of p rs]
    by (intro exI [of _ "remove_node p rs"] exI [of _ bs]) auto
  then have "sched_holds ?w (remove1 p rps) bps"
    using h e(3) set_remove1_subset [of p rps] by (auto simp: sched_holds_def)
  ultimately show ?thesis by (auto simp: Let_def)
qed

lemma remove_from_blocked_holds:
  assumes h: "sched_holds w rps bps"
  shows "\<exists>q nh. let w' = w\<lparr>sched := (sched w)\<lparr>blocked_queue := q\<rparr>, nodes := nh\<rparr>
           in remove_from_blocked p w = Some w' \<and> sched_holds w' rps (remove1 p bps)"
proof -
  from h obtain rs bs where r: "queue_rep (nodes w) (ready_queue (sched w)) rs"
    "queue_rep (nodes w) (blocked_queue (sched w)) bs" "node_addrs rs \<inter> node_addrs bs = {}"
    "rps = map snd rs" "bps = map snd bs" "finite (dom (nodes w))" by (rule sched_holdsE)
  from queue_remove_rep [OF r(2), of p] obtain q nh
    where e: "queue_remove p (blocked_queue (sched w), nodes w) = Some (q, nh)"
      "queue_rep nh q (remove_node p bs)"
      "dom nh = dom (nodes w) - (node_addrs bs - node_addrs (remove_node p bs))"
      "\<forall>b. b \<notin> node_addrs bs \<longrightarrow> nh b = nodes w b" by blast
  have "queue_rep (nodes w) (ready_queue (sched w)) rs = queue_rep nh (ready_queue (sched w)) rs"
    using e(4) r(3) by (intro queue_rep_cong) auto
  with r(1) have b: "queue_rep nh (ready_queue (sched w)) rs" by simp
  let ?w = "w\<lparr>sched := (sched w)\<lparr>blocked_queue := q\<rparr>, nodes := nh\<rparr>"
  have "remove_from_blocked p w = Some ?w" using e(1) by (simp add: remove_from_blocked_def)
  moreover have "\<exists>rs' bs'. queue_rep nh (ready_queue (sched w)) rs' \<and> queue_rep nh q bs' \<and>
      node_addrs rs' \<inter> node_addrs bs' = {} \<and> map snd rs' = rps \<and> map snd bs' = remove1 p bps"
    using e(2) b r remove_node_addrs [of p bs]
    by (intro exI [of _ rs] exI [of _ "remove_node p bs"]) auto
  then have "sched_holds ?w rps (remove1 p bps)"
    using h e(3) set_remove1_subset [of p bps] by (auto simp: sched_holds_def)
  ultimately show ?thesis by (auto simp: Let_def)
qed

section \<open>One scheduling step\<close>

text \<open>What scheduling does not touch.\<close>

definition sched_config ::
  "sched_world \<Rightarrow> SchedulerAlgorithm \<times> addr option \<times> u32 \<times> bool \<times> bool \<times> bool" where
  "sched_config w = (algorithm (sched w), idle_process (sched w), quantum_ms (sched w),
     scheduling_enabled (sched w), preemption_enabled (sched w), sched_initialized w)"

text \<open>The scheduler is running round-robin (every algorithm but \<^verbatim>\<open>SCHED_PRIORITY\<close> is).\<close>

definition sched_running :: "sched_world \<Rightarrow> bool" where
  "sched_running w \<longleftrightarrow>
     sched_initialized w \<and> scheduling_enabled (sched w) \<and> algorithm (sched w) \<noteq> SCHED_PRIORITY"

text \<open>What goes back into the ready queue when the current process is switched away.\<close>

definition requeued :: "sched_world \<Rightarrow> addr list" where
  "requeued w = (case current_process (sched w) of
      None \<Rightarrow> []
    | Some c \<Rightarrow> (case procs w c of None \<Rightarrow> []
                 | Some pr \<Rightarrow> if pstate pr = PROC_STATE_RUNNING then [c] else []))"

lemma sched_running_config: "sched_config w' = sched_config w \<Longrightarrow> sched_running w' = sched_running w"
  by (simp add: sched_config_def sched_running_def)

lemma pick_running:
  "sched_running w \<Longrightarrow> scheduler_pick_next_process w = scheduler_dequeue_ready w"
  by (auto simp: sched_running_def scheduler_pick_next_process_def split: SchedulerAlgorithm.splits)

lemma pick_running_priv [simp]:
  "sched_running (w\<lparr>priv := x\<rparr>) = sched_running w"
  by (simp add: sched_running_def)

lemma pstate_same [simp]: "pstate pr = st \<Longrightarrow> pr\<lparr>pstate := st\<rparr> = pr"
  by (cases pr) simp

text \<open>The switch to a process that was not current.\<close>

lemma context_switch_holds:
  assumes "procs w n = Some pr" and "\<And>c. oldp = Some c \<Longrightarrow> c \<in> dom (procs w)"
  shows "\<exists>x. scheduler_context_switch oldp (Some n) w = Some (w\<lparr>priv := x\<rparr>)"
proof -
  have "scheduler_save_context oldp w = Some w"
    using assms(2) by (cases oldp) (auto simp: scheduler_save_context_def)
  moreover have "\<exists>x. w = w\<lparr>priv := x\<rparr>" by (intro exI [of _ "priv w"]) simp
  ultimately show ?thesis
    using assms(1) by (auto simp: scheduler_context_switch_def scheduler_load_context_def)
qed

definition running_version :: "addr \<Rightarrow> sched_world \<Rightarrow> addr \<Rightarrow> Process option" where
  "running_version p w = (procs w)(p := map_option (\<lambda>pr. pr\<lparr>pstate := PROC_STATE_RUNNING\<rparr>) (procs w p))"

lemma world_self: "\<exists>q nh m. w = w\<lparr>sched := (sched w)\<lparr>ready_queue := q\<rparr>, nodes := nh, mallocs := m\<rparr>"
  by (intro exI [of _ "ready_queue (sched w)"] exI [of _ "nodes w"] exI [of _ "mallocs w"]) simp

text \<open>The requeueing of the old process: it is in the ready queue again when it was running.\<close>

lemma requeue_holds:
  assumes h: "sched_holds w rps bps" and al: "alloc_ok al"
  shows "\<exists>w'. (case current_process (sched w) of None \<Rightarrow> Some w
            | Some c \<Rightarrow> do { pr \<leftarrow> procs w c;
                (if pstate pr = PROC_STATE_RUNNING then scheduler_enqueue_ready al (Some c) w else Some w) })
           = Some w' \<and> sched_holds w' (rps @ requeued w) bps \<and> procs w' = procs w \<and>
         (\<exists>q nh m. w' = w\<lparr>sched := (sched w)\<lparr>ready_queue := q\<rparr>, nodes := nh, mallocs := m\<rparr>)"
proof (cases "current_process (sched w)")
  case None
  with h world_self [of w] show ?thesis
    using world_self [of w] by (intro exI [of _ w]) (auto simp: requeued_def)
next
  case (Some c)
  obtain pr where pr: "procs w c = Some pr" using sched_holds_valid(3) [OF h Some] by auto
  show ?thesis
  proof (cases "pstate pr = PROC_STATE_RUNNING")
    case True
    have same: "(procs w)(c \<mapsto> pr) = procs w" using pr by auto
    from enqueue_ready_holds [OF h pr al] True same obtain q nh
      where e: "scheduler_enqueue_ready al (Some c) w
          = Some (w\<lparr>sched := (sched w)\<lparr>ready_queue := q\<rparr>, nodes := nh, mallocs := mallocs w + 1\<rparr>)"
        "sched_holds (w\<lparr>sched := (sched w)\<lparr>ready_queue := q\<rparr>, nodes := nh, mallocs := mallocs w + 1\<rparr>)
           (rps @ [c]) bps"
      by (auto simp: Let_def)
    then show ?thesis using Some pr True by (auto simp: requeued_def)
  next
    case False
    with Some pr h show ?thesis
      using world_self [of w] by (intro exI [of _ w]) (auto simp: requeued_def)
  qed
qed

lemma schedule_switch:
  assumes h: "sched_holds w (p # rps) bps" and run: "sched_running w"
    and cur: "current_process (sched w) \<noteq> Some p" and al: "alloc_ok al"
  shows "\<exists>w'. scheduler_schedule al w = Some w' \<and> sched_holds w' (rps @ requeued w) bps \<and>
    current_process (sched w') = Some p \<and> procs w' = running_version p w \<and>
    sched_config w' = sched_config w \<and>
    current_quantum_remaining (sched w') = ucast (quantum_ms (sched w)) \<and>
    total_context_switches (sched w') = total_context_switches (sched w) + 1"
proof -
  let ?w0 = "w\<lparr>priv := privilege_enter_kernel_mode (priv w)\<rparr>"
  have h0: "sched_holds ?w0 (p # rps) bps" using h by simp
  from dequeue_ready_holds [OF h0] obtain q nh
    where dq: "scheduler_dequeue_ready ?w0 = Some (Some p, ?w0\<lparr>sched := (sched w)\<lparr>ready_queue := q\<rparr>, nodes := nh\<rparr>)"
      "sched_holds (?w0\<lparr>sched := (sched w)\<lparr>ready_queue := q\<rparr>, nodes := nh\<rparr>) rps bps"
    by (auto simp: Let_def)
  let ?w1 = "?w0\<lparr>sched := (sched w)\<lparr>ready_queue := q\<rparr>, nodes := nh\<rparr>"
  have pick: "scheduler_pick_next_process ?w0 = Some (Some p, ?w1)"
    using pick_running [of ?w0] run dq(1) by simp
  have same1: "current_process (sched ?w1) = current_process (sched w)" "procs ?w1 = procs w"
      "requeued ?w1 = requeued w"
    by (simp_all add: requeued_def cong del: option.case_cong_weak)
  from requeue_holds [OF dq(2) al] obtain w2
    where rq: "(case current_process (sched w) of None \<Rightarrow> Some ?w1
            | Some c \<Rightarrow> do { pr \<leftarrow> procs ?w1 c;
                (if pstate pr = PROC_STATE_RUNNING then scheduler_enqueue_ready al (Some c) ?w1 else Some ?w1) })
           = Some w2"
      and h2: "sched_holds w2 (rps @ requeued w) bps" and p2: "procs w2 = procs w"
      and f2: "\<exists>q nh m. w2 = ?w1\<lparr>sched := (sched ?w1)\<lparr>ready_queue := q\<rparr>, nodes := nh, mallocs := m\<rparr>"
    unfolding same1 by blast
  obtain pr where pr: "procs w p = Some pr" using sched_holds_valid(1) [OF h, of p] by auto
  let ?pr = "pr\<lparr>pstate := PROC_STATE_RUNNING\<rparr>"
  let ?w3 = "w2\<lparr>procs := (procs w2)(p \<mapsto> ?pr), sched := (sched w2)\<lparr>current_process := Some p\<rparr>\<rparr>"
  have h3: "sched_holds ?w3 (rps @ requeued w) bps"
    using sched_holds_current [OF sched_holds_procs [OF h2, of p ?pr], of p] by simp
  have "\<exists>x. scheduler_context_switch (current_process (sched w)) (Some p) ?w3 = Some (?w3\<lparr>priv := x\<rparr>)"
    using context_switch_holds [of ?w3 p ?pr "current_process (sched w)"] sched_holds_valid(3) [OF h] p2
    by auto
  then obtain x where cs: "scheduler_context_switch (current_process (sched w)) (Some p) ?w3
      = Some (?w3\<lparr>priv := x\<rparr>)" by blast
  let ?w4 = "?w3\<lparr>priv := x\<rparr>"
  let ?w5 = "?w4\<lparr>sched := (sched ?w4)\<lparr>total_context_switches := total_context_switches (sched ?w4) + 1,
                   current_quantum_remaining := ucast (quantum_ms (sched ?w4))\<rparr>\<rparr>"
  have "set_proc_state p PROC_STATE_RUNNING w2 = Some (w2\<lparr>procs := (procs w2)(p \<mapsto> ?pr)\<rparr>)"
    using pr p2 by (simp add: set_proc_state_def)
  with rq cs have "scheduler_schedule al w = Some ?w5"
    using run cur pick by (simp add: scheduler_schedule_def sched_running_def Let_def cong del: option.case_cong_weak)
  moreover have "sched_holds ?w5 (rps @ requeued w) bps" using h3 by (simp add: sched_holds_def)
  moreover have "procs ?w5 = running_version p w" using pr p2 by (simp add: running_version_def)
  moreover have "sched_config ?w5 = sched_config w" using f2 by (auto simp: sched_config_def)
  moreover have "quantum_ms (sched ?w4) = quantum_ms (sched w)"
    "total_context_switches (sched ?w4) = total_context_switches (sched w)" using f2 by auto
  ultimately show ?thesis by (intro exI [of _ ?w5]) simp
qed

section \<open>Runs\<close>

fun sched_times :: "allocator \<Rightarrow> nat \<Rightarrow> sched_world \<Rightarrow> sched_world option" where
  "sched_times al 0 w = Some w"
| "sched_times al (Suc n) w = do { w1 \<leftarrow> scheduler_schedule al w; sched_times al n w1 }"

fun ticks :: "allocator \<Rightarrow> nat \<Rightarrow> sched_world \<Rightarrow> sched_world option" where
  "ticks al 0 w = Some w"
| "ticks al (Suc n) w = do { w1 \<leftarrow> scheduler_tick al w; ticks al n w1 }"

lemma ticks_add: "ticks al (m + n) w = do { w1 \<leftarrow> ticks al m w; ticks al n w1 }"
proof (induction m arbitrary: w)
  case 0
  then show ?case by simp
next
  case (Suc m)
  then show ?case by (cases "scheduler_tick al w") simp_all
qed

lemma requeued_current: "set (requeued w) \<subseteq> set_option (current_process (sched w))" "distinct (requeued w)"
  by (auto simp: requeued_def split: option.splits if_splits)

text \<open>The state a round-robin run goes through: nobody is queued twice, the current
  process is not queued.\<close>

definition fair_state :: "sched_world \<Rightarrow> addr list \<Rightarrow> addr list \<Rightarrow> bool" where
  "fair_state w rps bps \<longleftrightarrow> sched_holds w rps bps \<and> sched_running w \<and> distinct rps \<and>
     current_process (sched w) \<notin> Some ` set rps"

lemma fair_step:
  assumes f: "fair_state w (p # rps) bps" and al: "alloc_ok al"
  shows "\<exists>w'. scheduler_schedule al w = Some w' \<and> fair_state w' (rps @ requeued w) bps \<and>
    current_process (sched w') = Some p \<and> sched_config w' = sched_config w \<and>
    current_quantum_remaining (sched w') = ucast (quantum_ms (sched w))"
proof -
  have h: "sched_holds w (p # rps) bps" and run: "sched_running w"
    and cur: "current_process (sched w) \<noteq> Some p"
    using f by (auto simp: fair_state_def)
  from schedule_switch [OF h run cur al] obtain w'
    where w': "scheduler_schedule al w = Some w'" "sched_holds w' (rps @ requeued w) bps"
      "current_process (sched w') = Some p" "sched_config w' = sched_config w"
      "current_quantum_remaining (sched w') = ucast (quantum_ms (sched w))" by blast
  have "distinct (rps @ requeued w)" "Some p \<notin> Some ` set (rps @ requeued w)"
    using f requeued_current [of w] cur by (auto simp: fair_state_def)
  with w' sched_running_config [OF w'(4)] run show ?thesis by (auto simp: fair_state_def)
qed

lemma sched_times_fair:
  "fair_state w rps bps \<Longrightarrow> alloc_ok al \<Longrightarrow> k < length rps \<Longrightarrow>
     \<exists>w'. sched_times al (Suc k) w = Some w' \<and> current_process (sched w') = Some (rps ! k)"
proof (induction k arbitrary: w rps)
  case 0
  then obtain p ps where "rps = p # ps" by (cases rps) auto
  with fair_step [of w p ps bps al] 0 show ?case by auto
next
  case (Suc k)
  then obtain p ps where rps: "rps = p # ps" by (cases rps) auto
  with fair_step [of w p ps bps al] Suc.prems obtain w1
    where w1: "scheduler_schedule al w = Some w1" "fair_state w1 (ps @ requeued w) bps" by auto
  have "k < length (ps @ requeued w)" using Suc.prems rps by simp
  from Suc.IH [OF w1(2) Suc.prems(2) this] w1(1) rps Suc.prems(3) show ?case
    by (simp add: nth_append)
qed

text \<open>Counting down the quantum.\<close>

lemma tick_countdown:
  assumes run: "sched_running w" and pre: "preemption_enabled (sched w)"
    and q: "current_quantum_remaining (sched w) = q" and "0 < q"
  shows "k < unat q \<Longrightarrow> ticks al k w
      = Some (w\<lparr>sched := (sched w)\<lparr>current_quantum_remaining := q - of_nat k\<rparr>\<rparr>)"
    and "ticks al (unat q) w
      = scheduler_preempt al (w\<lparr>sched := (sched w)\<lparr>current_quantum_remaining := 0\<rparr>\<rparr>)"
proof -
  have step: "scheduler_tick al (w\<lparr>sched := (sched w)\<lparr>current_quantum_remaining := r\<rparr>\<rparr>)
      = (let w1 = w\<lparr>sched := (sched w)\<lparr>current_quantum_remaining := r - 1\<rparr>\<rparr>
         in if r = 1 then scheduler_preempt al w1 else Some w1)" if "0 < r" for r
    using run pre that by (simp add: scheduler_tick_def sched_running_def Let_def)
  have run_to: "ticks al n (w\<lparr>sched := (sched w)\<lparr>current_quantum_remaining := r\<rparr>\<rparr>)
      = Some (w\<lparr>sched := (sched w)\<lparr>current_quantum_remaining := r - of_nat n\<rparr>\<rparr>)"
    if "n < unat r" for n r
    using that
  proof (induction n arbitrary: r)
    case 0
    then show ?case by simp
  next
    case (Suc n)
    have r: "0 < r" "r \<noteq> 1" using Suc.prems by (auto simp: word_less_nat_alt)
    have "n < unat (r - 1)" using Suc.prems by (simp add: unat_minus_one word_neq_0_conv r)
    from Suc.IH [OF this] show ?case using step [OF r(1)] r(2) by (simp add: Let_def algebra_simps)
  qed
  have self: "w\<lparr>sched := (sched w)\<lparr>current_quantum_remaining := q\<rparr>\<rparr> = w" using q by simp
  show "k < unat q \<Longrightarrow> ticks al k w
      = Some (w\<lparr>sched := (sched w)\<lparr>current_quantum_remaining := q - of_nat k\<rparr>\<rparr>)"
    using run_to [of k q] self by simp
  show "ticks al (unat q) w
      = scheduler_preempt al (w\<lparr>sched := (sched w)\<lparr>current_quantum_remaining := 0\<rparr>\<rparr>)"
  proof -
    obtain n where n: "unat q = Suc n" using \<open>0 < q\<close> by (cases "unat q") (auto simp: unat_eq_0)
    have last: "q - of_nat n = 1"
    proof -
      have "of_nat (unat q) = q" by simp
      then have "1 + of_nat n = q" using n by simp
      then show ?thesis by (simp add: eq_diff_eq [symmetric] diff_eq_eq)
    qed
    have "ticks al (n + 1) w = do { w1 \<leftarrow> ticks al n w; ticks al 1 w1 }" by (rule ticks_add)
    also have "\<dots> = scheduler_preempt al (w\<lparr>sched := (sched w)\<lparr>current_quantum_remaining := 0\<rparr>\<rparr>)"
      using run_to [of n q] self n last step [of 1]
      by (cases "scheduler_preempt al (w\<lparr>sched := (sched w)\<lparr>current_quantum_remaining := 0\<rparr>\<rparr>)")
        (simp_all add: Let_def)
    finally show ?thesis using n by simp
  qed
qed

lemma quantum_fair:
  assumes f: "fair_state w (p # rps) bps" and al: "alloc_ok al" and pre: "preemption_enabled (sched w)"
    and q: "current_quantum_remaining (sched w) = ucast (quantum_ms (sched w))"
    and pos: "0 < quantum_ms (sched w)"
  shows "\<exists>w'. ticks al (unat (quantum_ms (sched w))) w = Some w' \<and>
    fair_state w' (rps @ requeued w) bps \<and> current_process (sched w') = Some p \<and>
    sched_config w' = sched_config w \<and>
    current_quantum_remaining (sched w') = ucast (quantum_ms (sched w))"
proof -
  have run: "sched_running w" using f by (simp add: fair_state_def)
  let ?z = "w\<lparr>sched := (sched w)\<lparr>current_quantum_remaining := 0\<rparr>\<rparr>"
  let ?w = "?z\<lparr>sched := (sched ?z)\<lparr>total_preemptions := total_preemptions (sched ?z) + 1\<rparr>\<rparr>"
  have f': "fair_state ?w (p # rps) bps" and same: "requeued ?w = requeued w" "sched_config ?w = sched_config w"
    using f by (auto simp: fair_state_def sched_running_def requeued_def sched_config_def sched_holds_def
        cong del: option.case_cong_weak)
  have "unat (ucast (quantum_ms (sched w)) :: u64) = unat (quantum_ms (sched w))"
    by simp
  moreover have "0 < (ucast (quantum_ms (sched w)) :: u64)"
    using pos by (simp add: word_less_nat_alt)
  ultimately have "ticks al (unat (quantum_ms (sched w))) w = scheduler_preempt al ?z"
    using tick_countdown(2) [OF run pre q] by simp
  also have "\<dots> = scheduler_schedule al ?w"
    using run pre by (simp add: scheduler_preempt_def sched_running_def)
  finally show ?thesis using fair_step [OF f' al] same by simp
qed

lemma ticks_fair:
  "fair_state w rps bps \<Longrightarrow> alloc_ok al \<Longrightarrow> preemption_enabled (sched w) \<Longrightarrow>
   current_quantum_remaining (sched w) = ucast (quantum_ms (sched w)) \<Longrightarrow> 0 < quantum_ms (sched w) \<Longrightarrow>
   k < length rps \<Longrightarrow>
     \<exists>w'. ticks al (Suc k * unat (quantum_ms (sched w))) w = Some w' \<and>
        current_process (sched w') = Some (rps ! k)"
proof (induction k arbitrary: w rps)
  case 0
  then obtain p ps where "rps = p # ps" by (cases rps) auto
  with quantum_fair [of w p ps bps al] 0 show ?case by auto
next
  case (Suc k)
  then obtain p ps where rps: "rps = p # ps" by (cases rps) auto
  with quantum_fair [of w p ps bps al] Suc.prems obtain w1
    where w1: "ticks al (unat (quantum_ms (sched w))) w = Some w1" "fair_state w1 (ps @ requeued w) bps"
      "sched_config w1 = sched_config w"
      "current_quantum_remaining (sched w1) = ucast (quantum_ms (sched w))" by auto
  have cfg: "quantum_ms (sched w1) = quantum_ms (sched w)"
      "preemption_enabled (sched w1) = preemption_enabled (sched w)"
    using w1(3) by (simp_all add: sched_config_def)
  have k: "k < length (ps @ requeued w)" using Suc.prems rps by simp
  have "\<exists>w'. ticks al (Suc k * unat (quantum_ms (sched w1))) w1 = Some w' \<and>
      current_process (sched w') = Some ((ps @ requeued w) ! k)"
    using Suc.prems w1(4) cfg by (intro Suc.IH [OF w1(2) _ _ _ _ k]) simp_all
  moreover have "(ps @ requeued w) ! k = rps ! Suc k" using rps Suc.prems(6) by (simp add: nth_append)
  moreover have "ticks al (Suc (Suc k) * unat (quantum_ms (sched w))) w
      = ticks al (Suc k * unat (quantum_ms (sched w))) w1"
    using ticks_add [of al "unat (quantum_ms (sched w))" "Suc k * unat (quantum_ms (sched w))" w] w1(1)
    by simp
  ultimately show ?case using cfg by simp
qed

section \<open>Blocking the current process and waking it\<close>

lemma remove_from_queue_holds:
  assumes h: "sched_holds w rps bps"
  shows "\<exists>rq bq nh. let w' = w\<lparr>sched := (sched w)\<lparr>ready_queue := rq, blocked_queue := bq\<rparr>, nodes := nh\<rparr>
    in scheduler_remove_from_queue (Some p) w = Some w' \<and> sched_holds w' (remove1 p rps) (remove1 p bps)"
proof -
  from remove_from_ready_holds [OF h, of p] obtain rq nh1
    where r: "remove_from_ready p w = Some (w\<lparr>sched := (sched w)\<lparr>ready_queue := rq\<rparr>, nodes := nh1\<rparr>)"
      "sched_holds (w\<lparr>sched := (sched w)\<lparr>ready_queue := rq\<rparr>, nodes := nh1\<rparr>) (remove1 p rps) bps"
    by (auto simp: Let_def)
  from remove_from_blocked_holds [OF r(2), of p] r(1) show ?thesis
    by (auto simp: Let_def scheduler_remove_from_queue_def)
qed

lemma block_current_holds:
  assumes h: "sched_holds w (n # rps) bps" and run: "sched_running w"
    and cur: "current_process (sched w) = Some p" and fresh: "p \<notin> set (n # rps)" and al: "alloc_ok al"
  shows "\<exists>w'. scheduler_block_process al (Some p) w = Some w' \<and>
    sched_holds w' rps (remove1 p bps @ [p]) \<and> current_process (sched w') = Some n \<and>
    map_option pstate (procs w' p) = Some PROC_STATE_SLEEPING \<and> sched_config w' = sched_config w"
proof -
  from remove_from_queue_holds [OF h, of p] fresh obtain rq bq nh
    where r: "scheduler_remove_from_queue (Some p) w
        = Some (w\<lparr>sched := (sched w)\<lparr>ready_queue := rq, blocked_queue := bq\<rparr>, nodes := nh\<rparr>)"
      "sched_holds (w\<lparr>sched := (sched w)\<lparr>ready_queue := rq, blocked_queue := bq\<rparr>, nodes := nh\<rparr>)
         (n # rps) (remove1 p bps)"
    by (auto simp: Let_def remove1_idem)
  let ?w1 = "w\<lparr>sched := (sched w)\<lparr>ready_queue := rq, blocked_queue := bq\<rparr>, nodes := nh\<rparr>"
  obtain pr where pr: "procs w p = Some pr" using sched_holds_valid(3) [OF h cur] by auto
  from enqueue_blocked_holds [OF r(2), of p pr al] pr al obtain bq2 nh2
    where e: "scheduler_enqueue_blocked al (Some p) ?w1 = Some (?w1\<lparr>
        procs := (procs w)(p \<mapsto> pr\<lparr>pstate := PROC_STATE_SLEEPING\<rparr>),
        sched := (sched ?w1)\<lparr>blocked_queue := bq2\<rparr>, nodes := nh2, mallocs := mallocs w + 1\<rparr>)"
      "sched_holds (?w1\<lparr>
        procs := (procs w)(p \<mapsto> pr\<lparr>pstate := PROC_STATE_SLEEPING\<rparr>),
        sched := (sched ?w1)\<lparr>blocked_queue := bq2\<rparr>, nodes := nh2, mallocs := mallocs w + 1\<rparr>)
        (n # rps) (remove1 p bps @ [p])"
    by (auto simp: Let_def)
  let ?w2 = "?w1\<lparr>procs := (procs w)(p \<mapsto> pr\<lparr>pstate := PROC_STATE_SLEEPING\<rparr>),
        sched := (sched ?w1)\<lparr>blocked_queue := bq2\<rparr>, nodes := nh2, mallocs := mallocs w + 1\<rparr>"
  have run2: "sched_running ?w2" and cur2: "current_process (sched ?w2) \<noteq> Some n"
    and rq2: "requeued ?w2 = []" and cfg: "sched_config ?w2 = sched_config w"
    using run cur fresh by (auto simp: sched_running_def requeued_def sched_config_def)
  from schedule_switch [OF e(2) run2 cur2 al] rq2 obtain w'
    where s: "scheduler_schedule al ?w2 = Some w'" "sched_holds w' rps (remove1 p bps @ [p])"
      "current_process (sched w') = Some n" "procs w' = running_version n ?w2"
      "sched_config w' = sched_config ?w2" by auto
  have "map_option pstate (procs w' p) = Some PROC_STATE_SLEEPING"
    using s(4) fresh by (auto simp: running_version_def)
  moreover have "scheduler_block_process al (Some p) w = Some w'"
    using r(1) e(1) s(1) cur by (simp add: scheduler_block_process_def)
  ultimately show ?thesis using s cfg by auto
qed

lemma unblock_holds:
  assumes h: "sched_holds w rps bps" and p: "p \<in> dom (procs w)" and al: "alloc_ok al"
  shows "\<exists>w'. scheduler_unblock_process al (Some p) w = Some w' \<and>
    sched_holds w' (rps @ [p]) (remove1 p bps) \<and>
    current_process (sched w') = current_process (sched w) \<and> sched_config w' = sched_config w \<and>
    map_option pstate (procs w' p) = Some PROC_STATE_RUNNING"
proof -
  from remove_from_blocked_holds [OF h, of p] obtain q nh
    where r: "remove_from_blocked p w = Some (w\<lparr>sched := (sched w)\<lparr>blocked_queue := q\<rparr>, nodes := nh\<rparr>)"
      "sched_holds (w\<lparr>sched := (sched w)\<lparr>blocked_queue := q\<rparr>, nodes := nh\<rparr>) rps (remove1 p bps)"
    by (auto simp: Let_def)
  obtain pr where pr: "procs w p = Some pr" using p by auto
  from enqueue_ready_holds [OF r(2), of p pr al] pr al r(1) show ?thesis
    by (auto simp: Let_def scheduler_unblock_process_def sched_config_def)
qed

section \<open>Scheduling and the privilege ring\<close>

text \<open>
  The ring a scheduling operation starts in does not matter for what it schedules: the
  operations agree on worlds that differ in the privilege context only, up to that context.
\<close>

definition same_but_priv :: "sched_world \<Rightarrow> sched_world \<Rightarrow> bool" where
  "same_but_priv v w \<longleftrightarrow> (\<exists>x. v = w\<lparr>priv := x\<rparr>)"

lemma same_but_privI [intro]: "same_but_priv (w\<lparr>priv := x\<rparr>) w"
  by (auto simp: same_but_priv_def)

lemma set_proc_state_priv:
  "set_proc_state p st (w\<lparr>priv := x\<rparr>) = map_option (\<lambda>w. w\<lparr>priv := x\<rparr>) (set_proc_state p st w)"
  by (cases "procs w p") (simp_all add: set_proc_state_def)

lemma enqueue_ready_priv:
  "scheduler_enqueue_ready al p (w\<lparr>priv := x\<rparr>)
     = map_option (\<lambda>w. w\<lparr>priv := x\<rparr>) (scheduler_enqueue_ready al p w)"
proof (cases p)
  case None
  then show ?thesis by (simp add: scheduler_enqueue_ready_def)
next
  case (Some q)
  show ?thesis
  proof (cases "procs w q")
    case None
    with Some show ?thesis by (simp add: scheduler_enqueue_ready_def set_proc_state_def)
  next
    case (Some pr)
    with \<open>p = Some q\<close> show ?thesis
      by (cases "queue_enqueue (al (mallocs w) (nodes w)) q (ready_queue (sched w), nodes w)")
        (simp_all add: scheduler_enqueue_ready_def set_proc_state_def split_beta)
  qed
qed

lemma dequeue_ready_priv:
  "scheduler_dequeue_ready (w\<lparr>priv := x\<rparr>)
     = map_option (\<lambda>(r, w). (r, w\<lparr>priv := x\<rparr>)) (scheduler_dequeue_ready w)"
  by (cases "queue_dequeue (ready_queue (sched w), nodes w)")
    (simp_all add: scheduler_dequeue_ready_def split_beta)

lemma pick_priority_priv:
  "pick_priority is (w\<lparr>priv := x\<rparr>) = map_option (\<lambda>(r, w). (r, w\<lparr>priv := x\<rparr>)) (pick_priority is w)"
proof (induction "is")
  case Nil
  then show ?case by simp
next
  case (Cons i "is")
  show ?case
  proof (cases "priority_queues (sched w) ! i")
    case None
    then show ?thesis by simp
  next
    case (Some q)
    with Cons show ?thesis by (cases "queue_dequeue (q, nodes w)") (simp_all add: split_beta)
  qed
qed

lemma pick_next_priv:
  "scheduler_pick_next_process (w\<lparr>priv := x\<rparr>)
     = map_option (\<lambda>(r, w). (r, w\<lparr>priv := x\<rparr>)) (scheduler_pick_next_process w)"
  by (cases "algorithm (sched w)")
    (simp_all add: scheduler_pick_next_process_def dequeue_ready_priv pick_priority_priv)

lemma context_switch_priv:
  "rel_option same_but_priv (scheduler_context_switch oldp newp (w\<lparr>priv := x\<rparr>))
     (scheduler_context_switch oldp newp w)"
proof (cases newp)
  case None
  then show ?thesis by (auto simp: scheduler_context_switch_def)
next
  case (Some n)
  have "same_but_priv (w\<lparr>priv := y\<rparr>) (w\<lparr>priv := z\<rparr>)" for y z
    by (auto simp: same_but_priv_def intro: exI [of _ y])
  with Some show ?thesis
    by (cases oldp; cases "procs w n"; cases "procs w (the oldp)")
      (auto simp: scheduler_context_switch_def scheduler_save_context_def scheduler_load_context_def)
qed

lemma priv_sched_swap: "w\<lparr>priv := x, sched := s\<rparr> = w\<lparr>sched := s, priv := x\<rparr>"
  by simp

lemma context_switch_priv2:
  "rel_option same_but_priv (scheduler_context_switch oldp newp (w\<lparr>priv := x\<rparr>))
     (scheduler_context_switch oldp newp (w\<lparr>priv := y\<rparr>))"
  using context_switch_priv [where w = "w\<lparr>priv := y\<rparr>" and x = x] by simp

definition sched_requeue :: "allocator \<Rightarrow> addr option \<Rightarrow> sched_world \<Rightarrow> sched_world option" where
  "sched_requeue al old w =
     (case old of None \<Rightarrow> Some w
      | Some c \<Rightarrow> do { pr \<leftarrow> procs w c;
          (if pstate pr = PROC_STATE_RUNNING then scheduler_enqueue_ready al (Some c) w else Some w) })"

definition sched_switch :: "addr option \<Rightarrow> addr option \<Rightarrow> sched_world \<Rightarrow> sched_world option" where
  "sched_switch old new w =
     (case new of None \<Rightarrow> Some w
      | Some n \<Rightarrow> do {
          w3 \<leftarrow> set_proc_state n PROC_STATE_RUNNING w;
          w4 \<leftarrow> scheduler_context_switch old (Some n)
                  (w3\<lparr>sched := (sched w3)\<lparr>current_process := Some n\<rparr>\<rparr>);
          Some (w4\<lparr>sched := (sched w4)
                  \<lparr>total_context_switches := total_context_switches (sched w4) + 1,
                   current_quantum_remaining := ucast (quantum_ms (sched w4))\<rparr>\<rparr>) })"

lemma sched_requeue_priv:
  "sched_requeue al old (w\<lparr>priv := x\<rparr>) = map_option (\<lambda>w. w\<lparr>priv := x\<rparr>) (sched_requeue al old w)"
proof (cases old)
  case None
  then show ?thesis by (simp add: sched_requeue_def)
next
  case (Some c)
  then show ?thesis
    by (cases "procs w c") (simp_all add: sched_requeue_def enqueue_ready_priv)
qed

lemma rel_option_bind:
  "rel_option R a b \<Longrightarrow> (\<And>x y. R x y \<Longrightarrow> rel_option Q (f x) (g y)) \<Longrightarrow>
     rel_option Q (a \<bind> f) (b \<bind> g)"
  by (cases a; cases b) auto

lemma sched_switch_priv:
  "rel_option same_but_priv (sched_switch old new (w\<lparr>priv := x\<rparr>)) (sched_switch old new (w\<lparr>priv := y\<rparr>))"
proof (cases new)
  case None
  then show ?thesis by (auto simp: sched_switch_def same_but_priv_def intro: exI [of _ x])
next
  case (Some n)
  show ?thesis
  proof (cases "set_proc_state n PROC_STATE_RUNNING w")
    case None
    with Some show ?thesis by (simp add: sched_switch_def set_proc_state_priv)
  next
    case (Some w3)
    let ?w = "w3\<lparr>sched := (sched w3)\<lparr>current_process := Some n\<rparr>\<rparr>"
    let ?f = "\<lambda>w4. Some (w4\<lparr>sched := (sched w4)
                  \<lparr>total_context_switches := total_context_switches (sched w4) + 1,
                   current_quantum_remaining := ucast (quantum_ms (sched w4))\<rparr>\<rparr>)"
    have eq: "sched_switch old new (w\<lparr>priv := z\<rparr>)
        = scheduler_context_switch old (Some n) (?w\<lparr>priv := z\<rparr>) \<bind> ?f" for z
      using Some \<open>new = Some n\<close> by (simp add: sched_switch_def set_proc_state_priv priv_sched_swap)
    have "rel_option same_but_priv (scheduler_context_switch old (Some n) (?w\<lparr>priv := x\<rparr>) \<bind> ?f)
       (scheduler_context_switch old (Some n) (?w\<lparr>priv := y\<rparr>) \<bind> ?f)"
      by (rule rel_option_bind [OF context_switch_priv2]) (auto simp: same_but_priv_def priv_sched_swap)
    then show ?thesis by (simp only: eq)
  qed
qed

lemma schedule_unfold:
  "sched_initialized w \<Longrightarrow> scheduling_enabled (sched w) \<Longrightarrow>
   scheduler_schedule al w = do {
        (picked, w1) \<leftarrow> scheduler_pick_next_process (w\<lparr>priv := privilege_enter_kernel_mode (priv w)\<rparr>);
        let new = (case picked of None \<Rightarrow> idle_process (sched w1) | Some p \<Rightarrow> Some p);
        (if new = current_process (sched w) then Some w1
         else do { w2 \<leftarrow> sched_requeue al (current_process (sched w)) w1;
                   sched_switch (current_process (sched w)) new w2 }) }"
  by (simp add: scheduler_schedule_def sched_requeue_def sched_switch_def [abs_def] Let_def
      cong del: option.case_cong_weak if_weak_cong)

lemma schedule_priv:
  "rel_option same_but_priv (scheduler_schedule al (w\<lparr>priv := x\<rparr>)) (scheduler_schedule al w)"
proof (cases "sched_initialized w \<and> scheduling_enabled (sched w)")
  case False
  then show ?thesis by (auto simp: scheduler_schedule_def)
next
  case on: True
  show ?thesis
  proof (cases "scheduler_pick_next_process w")
    case None
    with on show ?thesis by (simp add: schedule_unfold pick_next_priv)
  next
    case (Some rw)
    obtain r w1 where rw: "rw = (r, w1)" by (cases rw)
    let ?old = "current_process (sched w)"
    let ?new = "case r of None \<Rightarrow> idle_process (sched w1) | Some p \<Rightarrow> Some p"
    have eq: "scheduler_schedule al (w\<lparr>priv := z\<rparr>)
        = (if ?new = ?old then Some (w1\<lparr>priv := privilege_enter_kernel_mode z\<rparr>)
           else do { w2 \<leftarrow> sched_requeue al ?old (w1\<lparr>priv := privilege_enter_kernel_mode z\<rparr>);
                     sched_switch ?old ?new w2 })" for z
      using Some rw on by (simp add: schedule_unfold pick_next_priv Let_def cong del: option.case_cong_weak if_weak_cong)
    have rel: "rel_option same_but_priv
        (if ?new = ?old then Some (w1\<lparr>priv := y\<rparr>)
           else do { w2 \<leftarrow> sched_requeue al ?old (w1\<lparr>priv := y\<rparr>); sched_switch ?old ?new w2 })
        (if ?new = ?old then Some (w1\<lparr>priv := z\<rparr>)
           else do { w2 \<leftarrow> sched_requeue al ?old (w1\<lparr>priv := z\<rparr>); sched_switch ?old ?new w2 })" for y z
    proof (cases "?new = ?old")
      case True
      then show ?thesis by (auto simp: same_but_priv_def intro: exI [of _ y])
    next
      case False
      then show ?thesis
        by (cases "sched_requeue al ?old w1") (simp_all add: sched_requeue_priv sched_switch_priv)
    qed
    from eq [of x] eq [of "priv w"] rel show ?thesis by simp
  qed
qed

lemma preempt_priv:
  "rel_option same_but_priv (scheduler_preempt al (w\<lparr>priv := x\<rparr>)) (scheduler_preempt al w)"
proof (cases "sched_initialized w \<and> preemption_enabled (sched w)")
  case False
  then show ?thesis by (auto simp: scheduler_preempt_def)
next
  case True
  then show ?thesis
    using schedule_priv [where x = x and al = al and
        w = "w\<lparr>sched := (sched w)\<lparr>total_preemptions := total_preemptions (sched w) + 1\<rparr>\<rparr>"]
    by (simp add: scheduler_preempt_def priv_sched_swap)
qed

lemma tick_priv:
  "rel_option same_but_priv (scheduler_tick al (w\<lparr>priv := x\<rparr>)) (scheduler_tick al w)"
proof -
  have p: "rel_option same_but_priv (scheduler_preempt al (v\<lparr>priv := x\<rparr>)) (scheduler_preempt al v)" for v
    by (rule preempt_priv)
  show ?thesis
    using p [of w] p [of "w\<lparr>sched := (sched w)
       \<lparr>current_quantum_remaining := current_quantum_remaining (sched w) - 1\<rparr>\<rparr>"]
    by (auto simp: scheduler_tick_def Let_def priv_sched_swap)
qed

text \<open>Ticks taken in kernel mode, as the timer interrupt takes them.\<close>

fun kernel_ticks :: "allocator \<Rightarrow> nat \<Rightarrow> sched_world \<Rightarrow> sched_world option" where
  "kernel_ticks al 0 w = Some w"
| "kernel_ticks al (Suc n) w = do {
     w1 \<leftarrow> scheduler_tick al (w\<lparr>priv := privilege_enter_kernel_mode (priv w)\<rparr>);
     kernel_ticks al n w1 }"

lemma kernel_ticks_rel:
  "same_but_priv v w \<Longrightarrow> rel_option same_but_priv (kernel_ticks al n v) (ticks al n w)"
proof (induction n arbitrary: v w)
  case 0
  then show ?case by simp
next
  case (Suc n)
  obtain x where v: "v = w\<lparr>priv := x\<rparr>" using Suc.prems by (auto simp: same_but_priv_def)
  then have "v\<lparr>priv := privilege_enter_kernel_mode (priv v)\<rparr>
      = w\<lparr>priv := privilege_enter_kernel_mode (priv v)\<rparr>" by simp
  then show ?case
    using rel_option_bind [OF tick_priv Suc.IH] by simp
qed

section \<open>Properties\<close>

text \<open>
  One round-robin scheduling step: the process at the head of the ready queue becomes
  current and running, the old current process goes to the tail when (and only when) it is
  still running, the blocked queue is untouched, the quantum is reset and the switch
  counted; no undefined behaviour occurs.
\<close>

theorem scheduler_schedule_round_robin:
  assumes "sched_holds w (p # rps) bps" and "sched_running w"
    and "current_process (sched w) \<noteq> Some p" and "alloc_ok al"
  shows "\<exists>w'. scheduler_schedule al w = Some w' \<and> sched_holds w' (rps @ requeued w) bps \<and>
    current_process (sched w') = Some p \<and> procs w' = running_version p w \<and>
    sched_config w' = sched_config w \<and>
    current_quantum_remaining (sched w') = ucast (quantum_ms (sched w)) \<and>
    total_context_switches (sched w') = total_context_switches (sched w) + 1"
  using assms by (rule schedule_switch)

text \<open>
  C4: Starvation freedom of the timer: with preemption on and a quantum of \<open>Q\<close> ticks, the
  process at position \<open>k\<close> of the ready queue is the current process after exactly
  \<open>(k + 1) * Q\<close> timer ticks.
\<close>

theorem scheduler_tick_fairness:
  assumes "fair_state w rps bps" and "alloc_ok al" and "preemption_enabled (sched w)"
    and "current_quantum_remaining (sched w) = ucast (quantum_ms (sched w))"
    and "0 < quantum_ms (sched w)" and "k < length rps"
  shows "\<exists>w'. ticks al (Suc k * unat (quantum_ms (sched w))) w = Some w' \<and>
    current_process (sched w') = Some (rps ! k)"
  using assms by (rule ticks_fair)

text \<open>
  A process is never preempted before its quantum is over: for fewer ticks than remain,
  the only change is the countdown; the tick that reaches zero preempts.
\<close>

theorem scheduler_tick_quantum:
  assumes "sched_running w" and "preemption_enabled (sched w)"
    and "current_quantum_remaining (sched w) = q" and "0 < q" and "k < unat q"
  shows "ticks al k w = Some (w\<lparr>sched := (sched w)\<lparr>current_quantum_remaining := q - of_nat k\<rparr>\<rparr>) \<and>
    ticks al (unat q) w
      = scheduler_preempt al (w\<lparr>sched := (sched w)\<lparr>current_quantum_remaining := 0\<rparr>\<rparr>)"
  using tick_countdown [OF assms(1-4)] assms(5) by simp

text \<open>
  Blocking the running process hands the CPU to the head of the ready queue and puts
  the process, sleeping, into the blocked queue once; unblocking it moves it from there to
  the tail of the ready queue.
\<close>

theorem scheduler_block_wake:
  assumes h: "sched_holds w (n # rps) bps" and run: "sched_running w"
    and cur: "current_process (sched w) = Some p"
    and fresh: "p \<notin> set (n # rps)" "p \<notin> set bps" and al: "alloc_ok al"
  shows "\<exists>w1 w2. scheduler_block_process al (Some p) w = Some w1 \<and>
    sched_holds w1 rps (bps @ [p]) \<and> current_process (sched w1) = Some n \<and>
    map_option pstate (procs w1 p) = Some PROC_STATE_SLEEPING \<and>
    scheduler_unblock_process al (Some p) w1 = Some w2 \<and>
    sched_holds w2 (rps @ [p]) bps \<and> current_process (sched w2) = Some n \<and>
    map_option pstate (procs w2 p) = Some PROC_STATE_RUNNING"
proof -
  from block_current_holds [OF h run cur fresh(1) al] fresh(2) obtain w1
    where w1: "scheduler_block_process al (Some p) w = Some w1" "sched_holds w1 rps (bps @ [p])"
      "current_process (sched w1) = Some n" "map_option pstate (procs w1 p) = Some PROC_STATE_SLEEPING"
    by (auto simp: remove1_idem)
  have "p \<in> dom (procs w1)" using sched_holds_valid(2) [OF w1(2)] by simp
  from unblock_holds [OF w1(2) this al] w1 fresh(2) show ?thesis
    by (auto simp: remove1_append)
qed

lemma pick_priority_empty:
  assumes "priority_queues (sched w) = replicate SCHEDULER_MAX_QUEUES (Some queue_init)"
  shows "set is \<subseteq> {0..<SCHEDULER_MAX_QUEUES} \<Longrightarrow> pick_priority is w = Some (None, w)"
  using assms by (induction "is") (auto simp: queue_init_def)

lemma enqueue_ready_keeps_priority_queues:
  "scheduler_enqueue_ready al p w = Some w' \<Longrightarrow> priority_queues (sched w') = priority_queues (sched w)"
  by (auto simp: scheduler_enqueue_ready_def set_proc_state_def split: option.splits bind_splits)

text \<open>
  Under \<^verbatim>\<open>SCHED_PRIORITY\<close> nothing ever runs: the search looks only at the
  priority queues, which \<^verbatim>\<open>scheduler_init\<close> leaves empty and enqueueing a ready process
  does not fill, so scheduling, however often it is repeated, leaves the ready queue
  unserved and no process current (with no idle process set).
\<close>

theorem scheduler_priority_starves:
  assumes "priority_queues (sched w) = replicate SCHEDULER_MAX_QUEUES (Some queue_init)"
    and "algorithm (sched w) = SCHED_PRIORITY"
    and "current_process (sched w) = None" and "idle_process (sched w) = None"
    and "sched_initialized w" and "scheduling_enabled (sched w)"
    and enq: "scheduler_enqueue_ready al p w = Some w1" and n: "0 < n"
  shows "sched_times al n w1 = Some (w1\<lparr>priv := privilege_enter_kernel_mode (priv w1)\<rparr>)"
proof -
  have w1: "priority_queues (sched w1) = replicate SCHEDULER_MAX_QUEUES (Some queue_init)"
    "algorithm (sched w1) = SCHED_PRIORITY" "current_process (sched w1) = None"
    "idle_process (sched w1) = None" "sched_initialized w1" "scheduling_enabled (sched w1)"
    using assms by (auto simp: scheduler_enqueue_ready_def set_proc_state_def split: option.splits bind_splits)
  have one: "scheduler_schedule al (w1\<lparr>priv := x\<rparr>)
      = Some (w1\<lparr>priv := privilege_enter_kernel_mode x\<rparr>)" for x
    using w1 pick_priority_empty [of "w1\<lparr>priv := privilege_enter_kernel_mode x\<rparr>" "rev [0..<SCHEDULER_MAX_QUEUES]"]
    by (simp add: scheduler_schedule_def scheduler_pick_next_process_def Let_def)
  have idem: "privilege_enter_kernel_mode (privilege_enter_kernel_mode x) = privilege_enter_kernel_mode x" for x
    by (simp add: privilege_enter_kernel_mode_def)
  have "sched_times al (Suc m) (w1\<lparr>priv := x\<rparr>) = Some (w1\<lparr>priv := privilege_enter_kernel_mode x\<rparr>)" for m x
    by (induction m arbitrary: x) (simp_all add: one idem)
  from this [of "n - 1" "priv w1"] n show ?thesis by simp
qed

section \<open>Witnesses\<close>

definition demo_al :: allocator where
  "demo_al n h = Some (least_free h)"

lemma demo_al_ok: "alloc_ok demo_al"
  by (simp add: alloc_ok_def demo_al_def least_free)

definition demo_sched :: Scheduler where
  "demo_sched =
     \<lparr>algorithm = SCHED_ROUND_ROBIN, current_process = Some 60, idle_process = None,
      ready_queue = demo_queue, blocked_queue = queue_init,
      priority_queues = replicate SCHEDULER_MAX_QUEUES (Some queue_init),
      total_context_switches = 0, total_preemptions = 0, total_yields = 0,
      quantum_ms = SCHEDULER_QUANTUM_MS, last_schedule_time = 0,
      current_quantum_remaining = 10, preemption_enabled = True, scheduling_enabled = True\<rparr>"

definition demo_proc :: "int \<Rightarrow> Process" where
  "demo_proc p = new_process 0 p ''p'' None PROC_PRIORITY_NORMAL"

definition demo_world :: sched_world where
  "demo_world =
     \<lparr>sched = demo_sched, sched_initialized = True, nodes = demo_heap,
      procs = [60 \<mapsto> demo_proc 6, 70 \<mapsto> demo_proc 7, 80 \<mapsto> demo_proc 8],
      priv = privilege_init 4096 131072, mallocs = 2\<rparr>"

lemma demo_holds: "sched_holds demo_world [70, 80] []"
proof -
  have "queue_rep demo_heap demo_queue [(1, 70), (2, 80)]" by code_simp
  moreover have "queue_rep demo_heap queue_init []" by (rule queue_rep_init)
  ultimately have "\<exists>rs bs. queue_rep demo_heap demo_queue rs \<and> queue_rep demo_heap queue_init bs \<and>
      node_addrs rs \<inter> node_addrs bs = {} \<and> map snd rs = [70, 80] \<and> map snd bs = []"
    by (intro exI [of _ "[(1, 70), (2, 80)]"] exI [of _ "[]"]) simp
  then show ?thesis by (simp add: sched_holds_def demo_world_def demo_sched_def demo_heap_def)
qed

lemma demo_fair: "fair_state demo_world [70, 80] []"
  using demo_holds by (simp add: fair_state_def sched_running_def demo_world_def demo_sched_def)

lemma scheduler_schedule_round_robin_witness:
  "\<exists>w'. scheduler_schedule demo_al demo_world = Some w' \<and> sched_holds w' [80, 60] [] \<and>
     current_process (sched w') = Some 70"
proof -
  have "requeued demo_world = [60]" by (simp add: requeued_def demo_world_def demo_sched_def demo_proc_def new_process_def)
  moreover have "sched_running demo_world" "current_process (sched demo_world) \<noteq> Some 70"
    by (simp_all add: sched_running_def demo_world_def demo_sched_def)
  ultimately show ?thesis
    using scheduler_schedule_round_robin [OF demo_holds _ _ demo_al_ok] by auto
qed

lemma scheduler_tick_fairness_witness:
  "\<exists>w'. ticks demo_al 20 demo_world = Some w' \<and> current_process (sched w') = Some 80"
proof -
  have q: "quantum_ms (sched demo_world) = 10" "preemption_enabled (sched demo_world)"
    "current_quantum_remaining (sched demo_world) = 10"
    by (simp_all add: demo_world_def demo_sched_def SCHEDULER_QUANTUM_MS_def)
  have "\<exists>w'. ticks demo_al (Suc 1 * unat (quantum_ms (sched demo_world))) demo_world = Some w' \<and>
      current_process (sched w') = Some ([70, 80] ! 1)"
    by (rule scheduler_tick_fairness [OF demo_fair demo_al_ok q(2)]) (simp_all add: q)
  then show ?thesis by (simp add: q del: ticks.simps)
qed

lemma scheduler_tick_quantum_witness:
  "ticks demo_al 9 demo_world
     = Some (demo_world\<lparr>sched := (sched demo_world)\<lparr>current_quantum_remaining := 1\<rparr>\<rparr>)"
proof -
  have q: "current_quantum_remaining (sched demo_world) = 10" "preemption_enabled (sched demo_world)"
      "sched_running demo_world"
    by (simp_all add: sched_running_def demo_world_def demo_sched_def)
  from scheduler_tick_quantum [OF q(3) q(2) q(1), of 9 demo_al] show ?thesis
    by (simp del: ticks.simps)
qed

lemma scheduler_block_wake_witness:
  "\<exists>w1 w2. scheduler_block_process demo_al (Some 60) demo_world = Some w1 \<and>
     sched_holds w1 [80] [60] \<and> current_process (sched w1) = Some 70 \<and>
     scheduler_unblock_process demo_al (Some 60) w1 = Some w2 \<and> sched_holds w2 [80, 60] []"
proof -
  have "sched_running demo_world" "current_process (sched demo_world) = Some 60"
    by (simp_all add: sched_running_def demo_world_def demo_sched_def)
  from scheduler_block_wake [OF demo_holds this _ _ demo_al_ok] show ?thesis by auto
qed

text \<open>A fresh scheduler set to the priority policy, and one process.\<close>

definition prio_world :: sched_world where
  "prio_world = scheduler_start (scheduler_set_algorithm SCHED_PRIORITY (snd (scheduler_init (\<lambda>_. True)
     (demo_world\<lparr>sched_initialized := False, nodes := Map.empty\<rparr>))))"

lemma scheduler_priority_starves_witness:
  "\<exists>w1. scheduler_enqueue_ready (\<lambda>_ _. Some 1) (Some 70) prio_world = Some w1 \<and>
     queue_count (ready_queue (sched w1)) = 1 \<and>
     sched_times (\<lambda>_ _. Some 1) 1000 w1 = Some (w1\<lparr>priv := privilege_enter_kernel_mode (priv w1)\<rparr>)"
proof -
  have q: "map_option (\<lambda>w. queue_count (ready_queue (sched w)))
      (scheduler_enqueue_ready (\<lambda>_ _. Some 1) (Some 70) prio_world) = Some 1"
    by (simp add: prio_world_def scheduler_enqueue_ready_def set_proc_state_def scheduler_start_def
      scheduler_set_algorithm_def scheduler_init_def demo_world_def queue_enqueue_def
      alloc_queue_node_def queue_init_def)
  then obtain w1 where w1: "scheduler_enqueue_ready (\<lambda>_ _. Some 1) (Some 70) prio_world = Some w1"
      "queue_count (ready_queue (sched w1)) = 1" by auto
  have "map (\<lambda>i. Some queue_init) [0..<SCHEDULER_MAX_QUEUES] = replicate SCHEDULER_MAX_QUEUES (Some queue_init)"
    by (simp add: map_replicate_const)
  then have "sched_times (\<lambda>_ _. Some 1) 1000 w1 = Some (w1\<lparr>priv := privilege_enter_kernel_mode (priv w1)\<rparr>)"
    by (intro scheduler_priority_starves [OF _ _ _ _ _ _ w1(1)])
      (simp_all add: prio_world_def scheduler_start_def scheduler_set_algorithm_def scheduler_init_def demo_world_def)
  with w1 show ?thesis by blast
qed

section \<open>Divergences\<close>

text \<open>The comment of \<^verbatim>\<open>scheduler_should_preempt\<close> promises preemption by a candidate of
  higher priority; the enumeration counts the other way, so an idle candidate preempts a
  real-time process and not the converse.\<close>

lemma should_preempt_inverted:
  "scheduler_should_preempt (Some (demo_proc 6\<lparr>priority := PROC_PRIORITY_REALTIME\<rparr>))
     (Some (demo_proc 7\<lparr>priority := PROC_PRIORITY_IDLE\<rparr>)) = 1 \<and>
   scheduler_should_preempt (Some (demo_proc 7\<lparr>priority := PROC_PRIORITY_IDLE\<rparr>))
     (Some (demo_proc 6\<lparr>priority := PROC_PRIORITY_REALTIME\<rparr>)) = 0"
  by (simp add: scheduler_should_preempt_def)

text \<open>
  A process that blocks while nothing else is ready stays the current process; when it is
  woken after another process it is queued while still current, and the next switch queues
  it a second time.
\<close>

definition lone_world :: sched_world where
  "lone_world = scheduler_start (snd (scheduler_init (\<lambda>_. True)
     (demo_world\<lparr>sched_initialized := False, nodes := Map.empty, mallocs := 0\<rparr>)))"

definition double_queue_run :: "allocator \<Rightarrow> sched_world option" where
  "double_queue_run al = do {
     w1 \<leftarrow> scheduler_enqueue_ready al (Some 60) lone_world;
     w2 \<leftarrow> scheduler_schedule al w1;
     w3 \<leftarrow> scheduler_block_process al (Some 60) w2;
     w4 \<leftarrow> scheduler_enqueue_ready al (Some 70) w3;
     w5 \<leftarrow> scheduler_unblock_process al (Some 60) w4;
     scheduler_schedule al w5 }"

lemma woken_current_queued_twice:
  "\<exists>w. double_queue_run (\<lambda>n _. Some n) = Some w \<and>
     current_process (sched w) = Some 70 \<and>
     map_option fst (drain queue_dequeue 5 (ready_queue (sched w), nodes w)) = Some [60, 60]"
proof -
  have "map_option (\<lambda>w. (current_process (sched w),
      map_option fst (drain queue_dequeue 5 (ready_queue (sched w), nodes w))))
      (double_queue_run (\<lambda>n _. Some n)) = Some (Some 70, Some [60, 60])"
    by code_simp
  then show ?thesis by auto
qed

end
