(* ===== verification/Frames.thy ===== *)
theory Frames
  imports Handles
begin

text \<open>
  The physical frame allocator of \<^verbatim>\<open>src/kernel/mmu.c\<close>: a bitmap of 512 words of 32 bits, one
  bit per 4 KB frame of the 64 MB memory, and the counters with the search hint
  \<^verbatim>\<open>first_free_frame\<close>. Words keep their 32-bit width.
\<close>

section \<open>State\<close>

definition PAGE_SIZE :: u32 where "PAGE_SIZE = 4096"
definition PHYSICAL_MEMORY_SIZE :: u32 where "PHYSICAL_MEMORY_SIZE = 64 * 1024 * 1024"
definition TOTAL_FRAMES :: u32 where "TOTAL_FRAMES = PHYSICAL_MEMORY_SIZE div PAGE_SIZE"

lemma TOTAL_FRAMES_eq: "TOTAL_FRAMES = 16384"
  by (simp add: TOTAL_FRAMES_def PHYSICAL_MEMORY_SIZE_def PAGE_SIZE_def word_div_def)

record FrameAllocator =
  frame_bitmap :: "u32 list"
  total_frames :: u32
  used_frames :: u32
  free_frames :: u32
  first_free_frame :: u32

text \<open>The value \<^verbatim>\<open>mmu_alloc_frame\<close> returns when memory is exhausted.\<close>

definition NO_FRAME :: u32 where "NO_FRAME = 0xFFFFFFFF"

section \<open>Operations\<close>

definition is_frame_allocated :: "u32 list \<Rightarrow> u32 \<Rightarrow> bool" where
  "is_frame_allocated bm frame =
     (bm ! unat (frame div 32) AND push_bit (unat (frame mod 32)) 1 \<noteq> 0)"

definition set_frame_allocated :: "u32 \<Rightarrow> u32 list \<Rightarrow> u32 list" where
  "set_frame_allocated frame bm =
     bm[unat (frame div 32) := bm ! unat (frame div 32) OR push_bit (unat (frame mod 32)) 1]"

definition set_frame_free :: "u32 \<Rightarrow> u32 list \<Rightarrow> u32 list" where
  "set_frame_free frame bm =
     bm[unat (frame div 32) := bm ! unat (frame div 32) AND NOT (push_bit (unat (frame mod 32)) 1)]"

definition frame_allocator_init :: FrameAllocator where
  "frame_allocator_init =
     \<lparr>frame_bitmap = replicate (unat (TOTAL_FRAMES div 32)) 0, total_frames = TOTAL_FRAMES,
      used_frames = 0, free_frames = TOTAL_FRAMES, first_free_frame = 0\<rparr>"

text \<open>The search loop of \<^verbatim>\<open>mmu_alloc_frame\<close>.\<close>

function frame_search :: "u32 list \<Rightarrow> u32 \<Rightarrow> u32 \<Rightarrow> u32 option" where
  "frame_search bm frame lim =
     (if frame < lim
      then (if \<not> is_frame_allocated bm frame then Some frame else frame_search bm (frame + 1) lim)
      else None)"
  by pat_completeness auto

lemma unat_Suc_less: "(frame :: 'a :: len word) < lim \<Longrightarrow> unat (frame + 1) = Suc (unat frame)"
proof -
  assume "frame < lim"
  moreover have "unat lim < 2 ^ LENGTH('a)" by (rule unsigned_less)
  ultimately have "Suc (unat frame) < 2 ^ LENGTH('a)" unfolding word_less_nat_alt by linarith
  then show ?thesis by (simp add: unat_word_ariths)
qed

termination frame_search
  by (relation "measure (\<lambda>(bm, frame, lim). unat lim - unat frame)")
    (auto simp: unat_Suc_less word_less_nat_alt)

declare frame_search.simps [simp del]

definition mmu_alloc_frame :: "FrameAllocator \<Rightarrow> u32 \<times> FrameAllocator" where
  "mmu_alloc_frame a =
     (case frame_search (frame_bitmap a) (first_free_frame a) (total_frames a) of
        None \<Rightarrow> (NO_FRAME, a)
      | Some frame \<Rightarrow>
          (frame, a\<lparr>frame_bitmap := set_frame_allocated frame (frame_bitmap a),
                    used_frames := used_frames a + 1,
                    free_frames := free_frames a - 1,
                    first_free_frame := frame + 1\<rparr>))"

definition mmu_free_frame :: "u32 \<Rightarrow> FrameAllocator \<Rightarrow> FrameAllocator" where
  "mmu_free_frame frame a =
     (if total_frames a \<le> frame then a
      else if is_frame_allocated (frame_bitmap a) frame
      then (let a1 = a\<lparr>frame_bitmap := set_frame_free frame (frame_bitmap a),
                       used_frames := used_frames a - 1,
                       free_frames := free_frames a + 1\<rparr>
            in if frame < first_free_frame a1 then a1\<lparr>first_free_frame := frame\<rparr> else a1)
      else a)"

definition mmu_is_frame_allocated :: "FrameAllocator \<Rightarrow> u32 \<Rightarrow> int" where
  "mmu_is_frame_allocated a frame =
     (if total_frames a \<le> frame then 0 else of_cbool (is_frame_allocated (frame_bitmap a) frame))"

section \<open>The frames in use\<close>

text \<open>Frame numbers as naturals: the bit of frame \<open>n\<close> in the bitmap.\<close>

definition frame_bit :: "u32 list \<Rightarrow> nat \<Rightarrow> bool" where
  "frame_bit bm n \<longleftrightarrow> bit (bm ! (n div 32)) (n mod 32)"

definition frames_in_use :: "FrameAllocator \<Rightarrow> nat set" where
  "frames_in_use a = {n. n < 16384 \<and> frame_bit (frame_bitmap a) n}"

definition frames_inv :: "FrameAllocator \<Rightarrow> bool" where
  "frames_inv a \<longleftrightarrow>
     length (frame_bitmap a) = 512 \<and> total_frames a = 16384 \<and>
     used_frames a = of_nat (card (frames_in_use a)) \<and>
     free_frames a = 16384 - used_frames a \<and>
     first_free_frame a \<le> 16384 \<and>
     (\<forall>n < unat (first_free_frame a). n \<in> frames_in_use a)"

lemma is_frame_allocated_iff: "is_frame_allocated bm f \<longleftrightarrow> frame_bit bm (unat f)"
  by (simp add: is_frame_allocated_def frame_bit_def bit_iff_and_push_bit_not_eq_0 unat_div unat_mod)

lemma frame_bit_set:
  assumes "length bm = 512" and "unat f < 16384"
  shows "frame_bit (set_frame_allocated f bm) n \<longleftrightarrow> n = unat f \<or> frame_bit bm n"
    and "frame_bit (set_frame_free f bm) n \<longleftrightarrow> n \<noteq> unat f \<and> frame_bit bm n"
proof -
  have idx: "unat f div 32 < length bm" using assms by simp
  have same: "n div 32 = unat f div 32 \<and> n mod 32 = unat f mod 32 \<longleftrightarrow> n = unat f"
    by (metis div_mult_mod_eq)
  have lt: "n mod 32 < 32" by simp
  show "frame_bit (set_frame_allocated f bm) n \<longleftrightarrow> n = unat f \<or> frame_bit bm n"
    using idx same lt
    by (cases "n div 32 = unat f div 32")
      (auto simp: frame_bit_def set_frame_allocated_def unat_div unat_mod bit_or_iff bit_exp_iff
         nth_list_update)
  show "frame_bit (set_frame_free f bm) n \<longleftrightarrow> n \<noteq> unat f \<and> frame_bit bm n"
    using idx same lt
    by (cases "n div 32 = unat f div 32")
      (auto simp: frame_bit_def set_frame_free_def unat_div unat_mod bit_and_iff bit_not_iff
         bit_exp_iff nth_list_update)
qed

lemma length_set_frame [simp]:
  "length (set_frame_allocated f bm) = length bm" "length (set_frame_free f bm) = length bm"
  by (simp_all add: set_frame_allocated_def set_frame_free_def)

lemma finite_frames_in_use [simp]: "finite (frames_in_use a)"
  by (simp add: frames_in_use_def)

lemma card_frames_in_use: "card (frames_in_use a) \<le> 16384"
proof -
  have "frames_in_use a \<subseteq> {..<16384}" by (auto simp: frames_in_use_def)
  then show ?thesis using card_mono [of "{..<16384 :: nat}"] by fastforce
qed

text \<open>The search returns the least free frame from where it starts, if there is one.\<close>

lemma frame_search_SomeD:
  "frame_search bm f lim = Some r \<Longrightarrow>
     f \<le> r \<and> r < lim \<and> \<not> frame_bit bm (unat r) \<and> (\<forall>n. unat f \<le> n \<and> n < unat r \<longrightarrow> frame_bit bm n)"
proof (induction bm f lim rule: frame_search.induct)
  case (1 bm f lim)
  show ?case
  proof (cases "f < lim")
    case False
    with "1.prems" show ?thesis by (simp add: frame_search.simps)
  next
    case lt: True
    show ?thesis
    proof (cases "frame_bit bm (unat f)")
      case False
      with "1.prems" lt show ?thesis by (auto simp: frame_search.simps [of bm f] is_frame_allocated_iff)
    next
      case True
      have "frame_search bm (f + 1) lim = Some r"
        using "1.prems" lt True by (simp add: frame_search.simps [of bm f] is_frame_allocated_iff)
      note IH = "1.IH" [OF lt _ this]
      have IH: "f + 1 \<le> r" "r < lim" "\<not> frame_bit bm (unat r)"
          "\<forall>n. unat (f + 1) \<le> n \<and> n < unat r \<longrightarrow> frame_bit bm n"
        using IH True by (simp_all add: is_frame_allocated_iff)
      have "\<forall>n. unat f \<le> n \<and> n < unat r \<longrightarrow> frame_bit bm n"
        using IH(4) True unat_Suc_less [OF lt] by (metis le_neq_implies_less Suc_leI)
      with IH show ?thesis using unat_Suc_less [OF lt] by (auto simp: word_le_nat_alt)
    qed
  qed
qed

lemma frame_search_NoneD:
  "frame_search bm f lim = None \<Longrightarrow> unat f \<le> n \<Longrightarrow> n < unat lim \<Longrightarrow> frame_bit bm n"
proof (induction bm f lim rule: frame_search.induct)
  case (1 bm f lim)
  then have lt: "f < lim" by (simp add: word_less_nat_alt)
  have bit: "frame_bit bm (unat f)"
    using "1.prems"(1) lt by (auto simp: frame_search.simps [of bm f] is_frame_allocated_iff split: if_splits)
  have rec: "frame_search bm (f + 1) lim = None"
    using "1.prems"(1) lt bit by (simp add: frame_search.simps [of bm f] is_frame_allocated_iff)
  show ?case
  proof (cases "n = unat f")
    case True
    with bit show ?thesis by simp
  next
    case False
    with "1.IH" [OF lt _ rec] bit "1.prems" unat_Suc_less [OF lt] show ?thesis
      by (simp add: is_frame_allocated_iff)
  qed
qed

section \<open>The invariant\<close>

lemma frames_in_use_set:
  assumes "length (frame_bitmap a) = 512" and "unat f < 16384"
  shows "frames_in_use (a\<lparr>frame_bitmap := set_frame_allocated f (frame_bitmap a)\<rparr>)
           = insert (unat f) (frames_in_use a)"
    and "frames_in_use (a\<lparr>frame_bitmap := set_frame_free f (frame_bitmap a)\<rparr>)
           = frames_in_use a - {unat f}"
  using frame_bit_set [OF assms] assms(2) by (auto simp: frames_in_use_def)

lemma frames_in_use_counters [simp]:
  "frames_in_use (a\<lparr>used_frames := x\<rparr>) = frames_in_use a"
  "frames_in_use (a\<lparr>free_frames := x\<rparr>) = frames_in_use a"
  "frames_in_use (a\<lparr>first_free_frame := x\<rparr>) = frames_in_use a"
  by (simp_all add: frames_in_use_def)

lemma frames_in_use_init: "frames_in_use frame_allocator_init = {}"
  by (auto simp: frames_in_use_def frame_bit_def frame_allocator_init_def TOTAL_FRAMES_eq word_div_def)

lemma frames_inv_init [vm_inv]: "frames_inv frame_allocator_init"
  using frames_in_use_init
  by (simp add: frames_inv_def frame_allocator_init_def TOTAL_FRAMES_eq word_div_def)

text \<open>What an allocation returns: the least frame not in use, or the failure value when all
  16384 frames are in use.\<close>

lemma alloc_frame_cases:
  assumes inv: "frames_inv a"
  obtains (ok) r where "mmu_alloc_frame a = (r, a\<lparr>
        frame_bitmap := set_frame_allocated r (frame_bitmap a), used_frames := used_frames a + 1,
        free_frames := free_frames a - 1, first_free_frame := r + 1\<rparr>)"
      "unat r < 16384" "unat r \<notin> frames_in_use a" "\<forall>n < unat r. n \<in> frames_in_use a"
  | (full) "mmu_alloc_frame a = (NO_FRAME, a)" "frames_in_use a = {..<16384}"
proof (cases "frame_search (frame_bitmap a) (first_free_frame a) (total_frames a)")
  case None
  have "n \<in> frames_in_use a" if "n < 16384" for n
  proof (cases "n < unat (first_free_frame a)")
    case True
    with inv show ?thesis by (simp add: frames_inv_def)
  next
    case False
    with frame_search_NoneD [OF None, of n] that inv show ?thesis
      by (simp add: frames_inv_def frames_in_use_def)
  qed
  then have "frames_in_use a = {..<16384}" by (auto simp: frames_in_use_def)
  with None show thesis by (intro full) (simp_all add: mmu_alloc_frame_def)
next
  case (Some r)
  note s = frame_search_SomeD [OF Some]
  have r: "unat r < 16384" using s inv by (simp add: frames_inv_def word_less_nat_alt)
  moreover have "unat r \<notin> frames_in_use a" using s by (simp add: frames_in_use_def)
  moreover have "n \<in> frames_in_use a" if "n < unat r" for n
  proof (cases "n < unat (first_free_frame a)")
    case True
    with inv show ?thesis by (simp add: frames_inv_def)
  next
    case False
    with s that r show ?thesis by (simp add: frames_in_use_def)
  qed
  ultimately show thesis using Some by (intro ok [of r]) (simp_all add: mmu_alloc_frame_def)
qed

lemma frames_inv_alloc [vm_inv]:
  assumes inv: "frames_inv a"
  shows "frames_inv (snd (mmu_alloc_frame a))"
  using inv
proof (cases rule: alloc_frame_cases)
  case (ok r)
  let ?a = "snd (mmu_alloc_frame a)"
  have len: "length (frame_bitmap a) = 512" using inv by (simp add: frames_inv_def)
  have use: "frames_in_use ?a = insert (unat r) (frames_in_use a)"
    using frames_in_use_set(1) [OF len ok(2)] ok(1) by (simp add: frames_in_use_def)
  have card: "card (frames_in_use ?a) = Suc (card (frames_in_use a))" using use ok(3) by simp
  have next_r: "unat (r + 1) = Suc (unat r)"
    using unat_Suc_less [of r 16384] ok(2) by (simp add: word_less_nat_alt)
  have "\<forall>n < unat (r + 1). n \<in> frames_in_use ?a" using ok(4) use next_r by (auto simp: less_Suc_eq)
  moreover have "r + 1 \<le> 16384" using next_r ok(2) by (simp add: word_le_nat_alt)
  ultimately show ?thesis using inv card ok(1) by (simp add: frames_inv_def)
next
  case full
  with inv show ?thesis by simp
qed

lemma frames_free_cases:
  assumes inv: "frames_inv a"
  obtains (freed) "unat f \<in> frames_in_use a" "mmu_free_frame f a = a\<lparr>
       frame_bitmap := set_frame_free f (frame_bitmap a), used_frames := used_frames a - 1,
       free_frames := free_frames a + 1, first_free_frame := min f (first_free_frame a)\<rparr>"
  | (ignored) "unat f \<notin> frames_in_use a" "mmu_free_frame f a = a"
proof (cases "unat f \<in> frames_in_use a")
  case True
  then have "f < total_frames a" "is_frame_allocated (frame_bitmap a) f"
    using inv by (simp_all add: frames_inv_def frames_in_use_def word_less_nat_alt is_frame_allocated_iff)
  with True show thesis
    by (intro freed) (auto simp: mmu_free_frame_def Let_def min_def)
next
  case False
  then have "total_frames a \<le> f \<or> \<not> is_frame_allocated (frame_bitmap a) f"
    using inv by (auto simp: frames_inv_def frames_in_use_def word_le_nat_alt is_frame_allocated_iff)
  with False show thesis by (intro ignored) (auto simp: mmu_free_frame_def)
qed

lemma frames_in_use_free:
  assumes inv: "frames_inv a"
  shows "frames_in_use (mmu_free_frame f a) = frames_in_use a - {unat f}"
  using inv
proof (cases rule: frames_free_cases [where f = f])
  case freed
  have len: "length (frame_bitmap a) = 512" "unat f < 16384"
    using inv freed(1) by (simp_all add: frames_inv_def frames_in_use_def)
  show ?thesis using frames_in_use_set(2) [OF len] freed(2) by (simp add: frames_in_use_def)
next
  case ignored
  then show ?thesis by simp
qed

lemma frames_inv_free [vm_inv]:
  assumes inv: "frames_inv a"
  shows "frames_inv (mmu_free_frame f a)"
  using inv
proof (cases rule: frames_free_cases [where f = f])
  case freed
  let ?a = "mmu_free_frame f a"
  note use = frames_in_use_free [OF inv, of f]
  have card: "Suc (card (frames_in_use ?a)) = card (frames_in_use a)"
    using use freed(1) card_Suc_Diff1 [OF finite_frames_in_use freed(1)] by simp
  have "(of_nat (card (frames_in_use a)) :: u32) = of_nat (card (frames_in_use ?a)) + 1"
    using arg_cong [OF card, of "of_nat :: nat \<Rightarrow> u32"] by (simp add: add.commute)
  moreover have "\<forall>n < unat (min f (first_free_frame a)). n \<in> frames_in_use ?a"
    using inv use by (auto simp: frames_inv_def min_def word_le_nat_alt split: if_splits)
  ultimately show ?thesis using inv freed(2) by (simp add: frames_inv_def min_le_iff_disj)
next
  case ignored
  with inv show ?thesis by simp
qed

section \<open>The allocator hands out fresh frames\<close>

definition frame_alive :: "FrameAllocator \<Rightarrow> int \<Rightarrow> unit option" where
  "frame_alive a k = (if 0 \<le> k \<and> nat k \<in> frames_in_use a then Some () else None)"

definition frame_create :: "unit \<Rightarrow> FrameAllocator \<Rightarrow> (int \<times> FrameAllocator) option" where
  "frame_create _ a = (case mmu_alloc_frame a of (r, a') \<Rightarrow> if r = NO_FRAME then None else Some (uint r, a'))"

lemma frame_create_SomeD:
  assumes inv: "frames_inv a" and cr: "frame_create u a = Some (k, a')"
  shows "frames_inv a' \<and> 0 \<le> k \<and> nat k \<notin> frames_in_use a \<and>
    frames_in_use a' = insert (nat k) (frames_in_use a)"
  using inv
proof (cases rule: alloc_frame_cases)
  case (ok r)
  have len: "length (frame_bitmap a) = 512" using inv by (simp add: frames_inv_def)
  from ok(1) cr have k: "k = uint r" and a': "a' = snd (mmu_alloc_frame a)"
    by (auto simp: frame_create_def split: if_splits)
  have "frames_in_use a' = insert (unat r) (frames_in_use a)"
    using frames_in_use_set(1) [OF len ok(2)] ok(1) a' by (simp add: frames_in_use_def)
  with k a' ok(3) frames_inv_alloc [OF inv] show ?thesis by simp
next
  case full
  with cr show ?thesis by (simp add: frame_create_def)
qed

text \<open>A frame number is a \<^verbatim>\<open>uint32_t\<close>.\<close>

definition frame_destroy :: "int \<Rightarrow> FrameAllocator \<Rightarrow> FrameAllocator" where
  "frame_destroy k a = (if 0 \<le> k \<and> k < 2 ^ 32 then mmu_free_frame (of_int k) a else a)"

lemma frame_destroy_other:
  assumes inv: "frames_inv a" and k: "k' \<noteq> k"
  shows "frame_alive (frame_destroy k a) k' = frame_alive a k'"
proof (cases "0 \<le> k \<and> k < 2 ^ 32")
  case True
  have "uint (of_int k :: u32) = k" by (rule word_of_int_inverse) (use True in simp_all)
  then have nk: "unat (of_int k :: u32) = nat k" by (metis nat_uint_eq)
  have use_k: "frames_in_use (frame_destroy k a) = frames_in_use a - {nat k}"
    unfolding frame_destroy_def using True frames_in_use_free [OF inv, of "of_int k"] nk by metis
  have "0 \<le> k' \<Longrightarrow> nat k' \<noteq> nat k" using True k by (metis eq_nat_nat_iff)
  with use_k show ?thesis unfolding frame_alive_def by simp
next
  case False
  then show ?thesis by (auto simp: frame_destroy_def)
qed

interpretation frame_pool: handle_table frames_inv frame_alive frame_create frame_destroy
proof unfold_locales
  show "frames_inv a'" if "frames_inv a" "frame_create u a = Some (k, a')" for a u k a'
    using frame_create_SomeD [OF that] by simp
  show "frame_alive a k = None" if "frames_inv a" "frame_create u a = Some (k, a')" for a u k a'
    using frame_create_SomeD [OF that] by (simp add: frame_alive_def)
  show "frame_alive a' k \<noteq> None" if "frames_inv a" "frame_create u a = Some (k, a')" for a u k a'
    using frame_create_SomeD [OF that] by (simp add: frame_alive_def)
  show "frame_alive a' k' = frame_alive a k'"
    if "frames_inv a" "frame_create u a = Some (k, a')" "k' \<noteq> k" for a u k a' k'
    using frame_create_SomeD [OF that(1,2)] that(3) by (auto simp: frame_alive_def)
  show "frames_inv (frame_destroy k a)" if "frames_inv a" for a k
    using that frames_inv_free by (simp add: frame_destroy_def)
  show "frame_alive (frame_destroy k a) k' = frame_alive a k'"
    if "frames_inv a" "k' \<noteq> k" for a k k'
    using that by (rule frame_destroy_other)
qed

section \<open>Properties\<close>

text \<open>
  C5: \<^verbatim>\<open>mmu_alloc_frame\<close> returns the least frame not in use and marks exactly it, and
  returns 0xFFFFFFFF, changing nothing, exactly when all 16384 frames are in use; the hint
  and the counters stay correct.
\<close>

theorem mmu_alloc_frame_least:
  assumes inv: "frames_inv a"
  shows "case mmu_alloc_frame a of (r, a') \<Rightarrow> frames_inv a' \<and>
    (if frames_in_use a = {..<16384} then r = NO_FRAME \<and> a' = a
     else unat r < 16384 \<and> unat r \<notin> frames_in_use a \<and> (\<forall>n < unat r. n \<in> frames_in_use a) \<and>
          frames_in_use a' = insert (unat r) (frames_in_use a))"
  using inv
proof (cases rule: alloc_frame_cases)
  case (ok r)
  have len: "length (frame_bitmap a) = 512" using inv by (simp add: frames_inv_def)
  have "frames_in_use (snd (mmu_alloc_frame a)) = insert (unat r) (frames_in_use a)"
    using frames_in_use_set(1) [OF len ok(2)] ok(1) by (simp add: frames_in_use_def)
  with ok frames_inv_alloc [OF inv] show ?thesis by auto
next
  case full
  with inv show ?thesis by simp
qed

lemma mmu_alloc_frame_least_witness:
  "fst (mmu_alloc_frame (mmu_free_frame 1 (snd (mmu_alloc_frame (snd (mmu_alloc_frame
      (snd (mmu_alloc_frame frame_allocator_init)))))))) = 1 \<and>
   frames_inv (snd (mmu_alloc_frame frame_allocator_init))"
proof -
  have "frames_inv (snd (mmu_alloc_frame frame_allocator_init))"
    using mmu_alloc_frame_least [OF frames_inv_init] by (simp add: case_prod_beta)
  moreover have "fst (mmu_alloc_frame (mmu_free_frame 1 (snd (mmu_alloc_frame (snd (mmu_alloc_frame
      (snd (mmu_alloc_frame frame_allocator_init)))))))) = 1"
    by code_simp
  ultimately show ?thesis by simp
qed

text \<open>The calls other code makes on the allocator.\<close>

datatype frame_op = AllocFrame | FreeFrame u32

fun frame_call :: "frame_op \<Rightarrow> FrameAllocator \<Rightarrow> FrameAllocator" where
  "frame_call AllocFrame a = snd (mmu_alloc_frame a)"
| "frame_call (FreeFrame f) a = mmu_free_frame f a"

text \<open>
  C6: Whatever allocations and frees (of any number, mapped or not, twice or never
  allocated) follow initialisation, the counters are exact: \<^verbatim>\<open>used_frames\<close> is the
  number of frames marked in the bitmap, \<^verbatim>\<open>free_frames\<close> the rest.
\<close>

theorem frame_accounting:
  "let a = fold frame_call ops frame_allocator_init in
     unat (used_frames a) = card {f. unat f < 16384 \<and> mmu_is_frame_allocated a f = 1} \<and>
     unat (used_frames a) + unat (free_frames a) = 16384"
proof -
  let ?a = "fold frame_call ops frame_allocator_init"
  have inv: "frames_inv ?a"
  proof (rule fold_invariant_all)
    show "frames_inv (frame_call x a)" if "frames_inv a" for x a
      using that by (cases x) (simp_all add: vm_inv)
  qed (rule frames_inv_init)
  have le: "card (frames_in_use ?a) \<le> 16384" by (rule card_frames_in_use)
  then have used: "unat (used_frames ?a) = card (frames_in_use ?a)"
    using inv by (simp add: frames_inv_def unat_of_nat take_bit_nat_eq_self)
  have "unat ` {f. unat f < 16384 \<and> mmu_is_frame_allocated ?a f = 1} = frames_in_use ?a"
  proof (intro set_eqI iffI)
    fix n assume "n \<in> frames_in_use ?a"
    then have "n < 16384" and "frame_bit (frame_bitmap ?a) n" by (simp_all add: frames_in_use_def)
    moreover from this have "unat (of_nat n :: u32) = n" by (simp add: unat_of_nat take_bit_nat_eq_self)
    ultimately show "n \<in> unat ` {f. unat f < 16384 \<and> mmu_is_frame_allocated ?a f = 1}"
      using inv by (intro image_eqI [of _ _ "of_nat n"])
        (simp_all add: mmu_is_frame_allocated_def frames_inv_def is_frame_allocated_iff word_le_nat_alt)
  next
    fix n assume "n \<in> unat ` {f. unat f < 16384 \<and> mmu_is_frame_allocated ?a f = 1}"
    then show "n \<in> frames_in_use ?a"
      by (auto simp: mmu_is_frame_allocated_def is_frame_allocated_iff frames_in_use_def split: if_splits)
  qed
  then have "card {f. unat f < 16384 \<and> mmu_is_frame_allocated ?a f = 1} = card (frames_in_use ?a)"
    by (metis (no_types, lifting) card_image inj_on_def unsigned_word_eqI)
  moreover have "unat (used_frames ?a) + unat (free_frames ?a) = 16384"
  proof -
    have "used_frames ?a \<le> 16384" using used le by (simp add: word_le_nat_alt)
    then have "unat (16384 - used_frames ?a) = 16384 - unat (used_frames ?a)" by (simp add: unat_sub)
    then show ?thesis using inv used le by (simp add: frames_inv_def)
  qed
  ultimately show ?thesis using used by (simp add: Let_def)
qed

text \<open>
  Frames handed out one after the other are pairwise different, were not in use before
  and all are in use afterwards.
\<close>

theorem frame_batch_distinct:
  assumes inv: "frames_inv a"
  shows "case create_all frame_create us a of (ks, a') \<Rightarrow>
    distinct ks \<and> frames_inv a' \<and> (\<forall>k \<in> set ks. frame_alive a k = None \<and> frame_alive a' k = Some ())"
proof -
  obtain ks a' where r: "create_all frame_create us a = (ks, a')" by fastforce
  with frame_pool.create_all_distinct [OF inv, of us] frame_pool.create_all_alive [OF inv r]
  show ?thesis by auto
qed

lemma frame_batch_distinct_witness:
  "fst (create_all frame_create [(), (), ()] frame_allocator_init) = [0, 1, 2] \<and>
   distinct (fst (create_all frame_create [(), (), ()] frame_allocator_init))"
proof -
  have "fst (create_all frame_create [(), (), ()] frame_allocator_init) = [0, 1, 2]" by code_simp
  then show ?thesis using frame_batch_distinct [OF frames_inv_init, of "[(), (), ()]"]
    by (simp add: case_prod_beta)
qed

end
