(* ===== verification/Mmu.thy ===== *)
theory Mmu
  imports Frames
begin

text \<open>
  The paging code of \<^verbatim>\<open>src/kernel/mmu.c\<close>: page directories and page tables of 1024
  entries, kept at the 64-bit addresses \<^verbatim>\<open>VirtualAlloc\<close> returns. A directory entry keeps only
  20 bits of its table's address, exactly as in the code; following it yields a pointer that
  need not be the table any more, and dereferencing a pointer that is no table is undefined
  behaviour (\<open>None\<close>). The address the \<open>n\<close>-th allocation returns is \<open>va n U\<close>, \<open>U\<close> the
  addresses in use. NULL is the address 0.
\<close>

section \<open>Entries\<close>

definition PAGE_PRESENT :: u32 where "PAGE_PRESENT = 0x001"
definition PAGE_WRITABLE :: u32 where "PAGE_WRITABLE = 0x002"
definition PAGE_USER :: u32 where "PAGE_USER = 0x004"
definition PAGE_WRITE_THROUGH :: u32 where "PAGE_WRITE_THROUGH = 0x008"
definition PAGE_CACHE_DISABLE :: u32 where "PAGE_CACHE_DISABLE = 0x010"
definition PAGE_GLOBAL :: u32 where "PAGE_GLOBAL = 0x100"
definition PAGE_KERNEL :: u32 where "PAGE_KERNEL = 0x200"

lemmas page_flags = PAGE_PRESENT_def PAGE_WRITABLE_def PAGE_USER_def PAGE_WRITE_THROUGH_def
  PAGE_CACHE_DISABLE_def PAGE_GLOBAL_def PAGE_KERNEL_def

definition PAGE_DIRECTORY_ENTRIES :: nat where "PAGE_DIRECTORY_ENTRIES = 1024"
definition PAGE_TABLE_ENTRIES :: nat where "PAGE_TABLE_ENTRIES = 1024"

lemmas entry_counts [simp] = PAGE_DIRECTORY_ENTRIES_def PAGE_TABLE_ENTRIES_def

record PageTableEntry =
  pte_present :: bool
  pte_writable :: bool
  pte_user_mode :: bool
  pte_write_through :: bool
  pte_cache_disable :: bool
  pte_accessed :: bool
  pte_dirty :: bool
  pte_pat :: bool
  pte_global :: bool
  pte_available :: u32
  pte_frame :: u32

record PageDirectoryEntry =
  pde_present :: bool
  pde_writable :: bool
  pde_user_mode :: bool
  pde_write_through :: bool
  pde_cache_disable :: bool
  pde_accessed :: bool
  pde_available1 :: bool
  pde_page_size :: bool
  pde_available2 :: u32
  pde_table_addr :: u32

definition zero_pte :: PageTableEntry where
  "zero_pte = \<lparr>pte_present = False, pte_writable = False, pte_user_mode = False,
     pte_write_through = False, pte_cache_disable = False, pte_accessed = False,
     pte_dirty = False, pte_pat = False, pte_global = False, pte_available = 0, pte_frame = 0\<rparr>"

definition zero_pde :: PageDirectoryEntry where
  "zero_pde = \<lparr>pde_present = False, pde_writable = False, pde_user_mode = False,
     pde_write_through = False, pde_cache_disable = False, pde_accessed = False,
     pde_available1 = False, pde_page_size = False, pde_available2 = 0, pde_table_addr = 0\<rparr>"

type_synonym PageTable = "PageTableEntry list"
type_synonym PageDirectory = "PageDirectoryEntry list"

section \<open>State\<close>

record TLBStats =
  entries_flushed :: u32
  full_flushes :: u32
  single_flushes :: u32

record MmuState =
  frame_allocator :: FrameAllocator
  tlb_stats :: TLBStats
  page_dirs :: "u64 \<Rightarrow> PageDirectory option"
  page_tables :: "u64 \<Rightarrow> PageTable option"
  kernel_page_directory :: u64
  current_page_directory :: u64
  paging_enabled :: bool
  mmu_initialized :: bool
  valloc_calls :: nat

type_synonym vallocator = "nat \<Rightarrow> u64 set \<Rightarrow> u64 option"

definition addrs_in_use :: "MmuState \<Rightarrow> u64 set" where
  "addrs_in_use s = dom (page_dirs s) \<union> dom (page_tables s)"

section \<open>Address arithmetic\<close>

definition PAGE_MASK :: u32 where "PAGE_MASK = 0xFFFFF000"

definition PD_INDEX :: "u32 \<Rightarrow> nat" where "PD_INDEX addr = unat (drop_bit 22 addr)"
definition PT_INDEX :: "u32 \<Rightarrow> nat" where "PT_INDEX addr = unat (drop_bit 12 addr AND 0x3FF)"
definition PAGE_OFFSET :: "u32 \<Rightarrow> u32" where "PAGE_OFFSET addr = addr AND 0xFFF"
definition PAGE_ALIGN_DOWN :: "u32 \<Rightarrow> u32" where "PAGE_ALIGN_DOWN addr = addr AND PAGE_MASK"
definition PAGE_ALIGN_UP :: "u32 \<Rightarrow> u32" where
  "PAGE_ALIGN_UP addr = (addr + PAGE_SIZE - 1) AND PAGE_MASK"

text \<open>\<^verbatim>\<open>(PageTable*)(uintptr_t)(entry.table_addr << PAGE_SHIFT)\<close>: the 20-bit field is promoted
  to a signed 32-bit int, shifted, and sign-extended to 64 bits.\<close>

definition table_ptr :: "PageDirectoryEntry \<Rightarrow> u64" where
  "table_ptr e = scast (push_bit 12 (pde_table_addr e) :: u32)"

section \<open>Directories and tables\<close>

definition mmu_create_page_directory :: "vallocator \<Rightarrow> MmuState \<Rightarrow> u64 \<times> MmuState" where
  "mmu_create_page_directory va s =
     (let s1 = s\<lparr>valloc_calls := valloc_calls s + 1\<rparr> in
      case va (valloc_calls s) (addrs_in_use s) of
        None \<Rightarrow> (0, s1)
      | Some a \<Rightarrow> (a, s1\<lparr>page_dirs := (page_dirs s1)(a \<mapsto> replicate PAGE_DIRECTORY_ENTRIES zero_pde)\<rparr>))"

definition get_or_create_page_table ::
  "vallocator \<Rightarrow> u64 \<Rightarrow> nat \<Rightarrow> MmuState \<Rightarrow> (u64 \<times> MmuState) option" where
  "get_or_create_page_table va dir pd_index s =
     (if dir = 0 then Some (0, s)
      else do {
        d \<leftarrow> page_dirs s dir;
        (if pde_present (d ! pd_index) then Some (table_ptr (d ! pd_index), s)
         else (let s1 = s\<lparr>valloc_calls := valloc_calls s + 1\<rparr> in
           case va (valloc_calls s) (addrs_in_use s) of
             None \<Rightarrow> Some (0, s1)
           | Some a \<Rightarrow>
               Some (a, s1\<lparr>page_tables := (page_tables s1)(a \<mapsto> replicate PAGE_TABLE_ENTRIES zero_pte),
                 page_dirs := (page_dirs s1)(dir \<mapsto> d[pd_index := (d ! pd_index)\<lparr>
                   pde_present := True, pde_writable := True, pde_user_mode := True,
                   pde_table_addr := take_bit 20 (ucast (drop_bit 12 a))\<rparr>])\<rparr>))) })"

text \<open>Freeing the tables of the present entries, in index order, and then the directory.\<close>

definition mmu_destroy_page_directory :: "u64 \<Rightarrow> MmuState \<Rightarrow> MmuState option" where
  "mmu_destroy_page_directory dir s =
     (if dir = 0 then Some s
      else do {
        d \<leftarrow> page_dirs s dir;
        let ts = fold (\<lambda>e t. if pde_present e then t(table_ptr e := None) else t) d (page_tables s);
        Some (s\<lparr>page_tables := ts, page_dirs := (page_dirs s)(dir := None)\<rparr>) })"

definition mmu_switch_page_directory :: "u64 \<Rightarrow> MmuState \<Rightarrow> MmuState" where
  "mmu_switch_page_directory dir s =
     (if dir = 0 then s
      else s\<lparr>current_page_directory := dir,
             tlb_stats := (tlb_stats s)\<lparr>full_flushes := full_flushes (tlb_stats s) + 1\<rparr>\<rparr>)"

definition mmu_flush_tlb :: "MmuState \<Rightarrow> MmuState" where
  "mmu_flush_tlb s = s\<lparr>tlb_stats := (tlb_stats s)
     \<lparr>full_flushes := full_flushes (tlb_stats s) + 1,
      entries_flushed := entries_flushed (tlb_stats s)
        + of_nat (PAGE_DIRECTORY_ENTRIES * PAGE_TABLE_ENTRIES)\<rparr>\<rparr>"

definition mmu_flush_tlb_single :: "u32 \<Rightarrow> MmuState \<Rightarrow> MmuState" where
  "mmu_flush_tlb_single virtual_addr s = s\<lparr>tlb_stats := (tlb_stats s)
     \<lparr>single_flushes := single_flushes (tlb_stats s) + 1,
      entries_flushed := entries_flushed (tlb_stats s) + 1\<rparr>\<rparr>"

definition mmu_invalidate_page :: "u32 \<Rightarrow> MmuState \<Rightarrow> MmuState" where
  "mmu_invalidate_page virtual_addr s = mmu_flush_tlb_single virtual_addr s"

section \<open>Mapping\<close>

definition pte_set :: "u32 \<Rightarrow> u32 \<Rightarrow> PageTableEntry \<Rightarrow> PageTableEntry" where
  "pte_set physical_addr flags e =
     e\<lparr>pte_present := (flags AND PAGE_PRESENT \<noteq> 0),
       pte_writable := (flags AND PAGE_WRITABLE \<noteq> 0),
       pte_user_mode := (flags AND PAGE_USER \<noteq> 0),
       pte_write_through := (flags AND PAGE_WRITE_THROUGH \<noteq> 0),
       pte_cache_disable := (flags AND PAGE_CACHE_DISABLE \<noteq> 0),
       pte_accessed := False,
       pte_dirty := False,
       pte_global := (flags AND PAGE_GLOBAL \<noteq> 0),
       pte_frame := drop_bit 12 physical_addr\<rparr>"

definition mmu_map_page ::
  "vallocator \<Rightarrow> u64 \<Rightarrow> u32 \<Rightarrow> u32 \<Rightarrow> u32 \<Rightarrow> MmuState \<Rightarrow> (int \<times> MmuState) option" where
  "mmu_map_page va dir virtual_addr physical_addr flags s =
     (if dir = 0 then Some (-1, s)
      else do {
        (table, s1) \<leftarrow> get_or_create_page_table va dir (PD_INDEX virtual_addr) s;
        (if table = 0 then Some (-1, s1)
         else do {
           t \<leftarrow> page_tables s1 table;
           let i = PT_INDEX virtual_addr;
           let s2 = s1\<lparr>page_tables := (page_tables s1)
                        (table \<mapsto> t[i := pte_set physical_addr flags (t ! i)])\<rparr>;
           Some (0, mmu_flush_tlb_single virtual_addr s2) }) })"

definition mmu_unmap_page :: "u64 \<Rightarrow> u32 \<Rightarrow> MmuState \<Rightarrow> (int \<times> MmuState) option" where
  "mmu_unmap_page dir virtual_addr s =
     (if dir = 0 then Some (-1, s)
      else do {
        d \<leftarrow> page_dirs s dir;
        (if \<not> pde_present (d ! PD_INDEX virtual_addr) then Some (0, s)
         else do {
           let table = table_ptr (d ! PD_INDEX virtual_addr);
           t \<leftarrow> page_tables s table;
           let i = PT_INDEX virtual_addr;
           (if pte_present (t ! i)
            then (let s1 = s\<lparr>frame_allocator := mmu_free_frame (pte_frame (t ! i)) (frame_allocator s)\<rparr>;
                      s2 = s1\<lparr>page_tables := (page_tables s1)(table \<mapsto> t[i := zero_pte])\<rparr>
                  in Some (0, mmu_flush_tlb_single virtual_addr s2))
            else Some (0, s)) }) })"

text \<open>The loop of \<^verbatim>\<open>mmu_map_range\<close>; the first argument counts down the safety limit.\<close>

fun map_range_loop ::
  "vallocator \<Rightarrow> u64 \<Rightarrow> u32 \<Rightarrow> u32 \<Rightarrow> nat \<Rightarrow> u32 \<Rightarrow> u32 \<Rightarrow> MmuState \<Rightarrow> (int \<times> MmuState) option" where
  "map_range_loop va dir end_addr flags 0 v p s = Some (0, s)"
| "map_range_loop va dir end_addr flags (Suc k) v p s =
     (if v < end_addr then do {
        (r, s1) \<leftarrow> mmu_map_page va dir v p flags s;
        (if r < 0 then Some (-1, s1)
         else map_range_loop va dir end_addr flags k (v + PAGE_SIZE) (p + PAGE_SIZE) s1) }
      else Some (0, s))"

definition mmu_map_range ::
  "vallocator \<Rightarrow> u64 \<Rightarrow> u32 \<Rightarrow> u32 \<Rightarrow> u32 \<Rightarrow> u32 \<Rightarrow> MmuState \<Rightarrow> (int \<times> MmuState) option" where
  "mmu_map_range va dir virtual_start physical_start sz flags s =
     (if sz = 0 \<or> 0x80000000 < sz then Some (-1, s)
      else map_range_loop va dir (virtual_start + sz) flags 100000
             (PAGE_ALIGN_DOWN virtual_start) (PAGE_ALIGN_DOWN physical_start) s)"

definition mmu_identity_map_range ::
  "vallocator \<Rightarrow> u64 \<Rightarrow> u32 \<Rightarrow> u32 \<Rightarrow> u32 \<Rightarrow> MmuState \<Rightarrow> MmuState option" where
  "mmu_identity_map_range va dir physical_start sz flags s =
     map_option snd (mmu_map_range va dir physical_start physical_start sz flags s)"

partial_function (option) unmap_range_loop ::
  "u64 \<Rightarrow> u32 \<Rightarrow> u32 \<Rightarrow> MmuState \<Rightarrow> MmuState option" where
  "unmap_range_loop dir end_addr v s =
     (if v < end_addr then do {
        (_, s1) \<leftarrow> mmu_unmap_page dir v s;
        unmap_range_loop dir end_addr (v + PAGE_SIZE) s1 }
      else Some s)"

declare unmap_range_loop.simps [code]

definition mmu_unmap_range :: "u64 \<Rightarrow> u32 \<Rightarrow> u32 \<Rightarrow> MmuState \<Rightarrow> (int \<times> MmuState) option" where
  "mmu_unmap_range dir virtual_start sz s =
     map_option (\<lambda>s'. (0, s'))
       (unmap_range_loop dir (PAGE_ALIGN_UP (virtual_start + sz)) (PAGE_ALIGN_DOWN virtual_start) s)"

section \<open>Translation and protection\<close>

definition NOT_MAPPED :: u32 where "NOT_MAPPED = 0xFFFFFFFF"

definition mmu_virtual_to_physical :: "MmuState \<Rightarrow> u64 \<Rightarrow> u32 \<Rightarrow> u32 option" where
  "mmu_virtual_to_physical s dir virtual_addr =
     (if dir = 0 then Some NOT_MAPPED
      else do {
        d \<leftarrow> page_dirs s dir;
        (if \<not> pde_present (d ! PD_INDEX virtual_addr) then Some NOT_MAPPED
         else do {
           t \<leftarrow> page_tables s (table_ptr (d ! PD_INDEX virtual_addr));
           let e = t ! PT_INDEX virtual_addr;
           Some (if \<not> pte_present e then NOT_MAPPED
                 else push_bit 12 (pte_frame e) OR PAGE_OFFSET virtual_addr) }) })"

definition mmu_is_mapped :: "MmuState \<Rightarrow> u64 \<Rightarrow> u32 \<Rightarrow> int option" where
  "mmu_is_mapped s dir virtual_addr =
     map_option (\<lambda>p. of_cbool (p \<noteq> NOT_MAPPED)) (mmu_virtual_to_physical s dir virtual_addr)"

definition mmu_set_page_flags ::
  "u64 \<Rightarrow> u32 \<Rightarrow> u32 \<Rightarrow> MmuState \<Rightarrow> (int \<times> MmuState) option" where
  "mmu_set_page_flags dir virtual_addr flags s =
     (if dir = 0 then Some (-1, s)
      else do {
        d \<leftarrow> page_dirs s dir;
        (if \<not> pde_present (d ! PD_INDEX virtual_addr) then Some (-1, s)
         else do {
           let table = table_ptr (d ! PD_INDEX virtual_addr);
           t \<leftarrow> page_tables s table;
           let i = PT_INDEX virtual_addr;
           (if \<not> pte_present (t ! i) then Some (-1, s)
            else Some (0, mmu_flush_tlb_single virtual_addr
                   (s\<lparr>page_tables := (page_tables s)(table \<mapsto> t[i := (t ! i)\<lparr>
                      pte_writable := (flags AND PAGE_WRITABLE \<noteq> 0),
                      pte_user_mode := (flags AND PAGE_USER \<noteq> 0)\<rparr>])\<rparr>))) }) })"

definition mmu_get_page_flags :: "MmuState \<Rightarrow> u64 \<Rightarrow> u32 \<Rightarrow> u32 option" where
  "mmu_get_page_flags s dir virtual_addr =
     (if dir = 0 then Some 0
      else do {
        d \<leftarrow> page_dirs s dir;
        (if \<not> pde_present (d ! PD_INDEX virtual_addr) then Some 0
         else do {
           t \<leftarrow> page_tables s (table_ptr (d ! PD_INDEX virtual_addr));
           let e = t ! PT_INDEX virtual_addr;
           Some (if \<not> pte_present e then 0
                 else (if pte_present e then PAGE_PRESENT else 0)
                   OR (if pte_writable e then PAGE_WRITABLE else 0)
                   OR (if pte_user_mode e then PAGE_USER else 0)) }) })"

partial_function (option) protect_range_loop ::
  "u64 \<Rightarrow> u32 \<Rightarrow> u32 \<Rightarrow> u32 \<Rightarrow> MmuState \<Rightarrow> MmuState option" where
  "protect_range_loop dir end_addr flags v s =
     (if v < end_addr then do {
        (_, s1) \<leftarrow> mmu_set_page_flags dir v flags s;
        protect_range_loop dir end_addr flags (v + PAGE_SIZE) s1 }
      else Some s)"

declare protect_range_loop.simps [code]

definition mmu_protect_range :: "u64 \<Rightarrow> u32 \<Rightarrow> u32 \<Rightarrow> u32 \<Rightarrow> MmuState \<Rightarrow> (int \<times> MmuState) option" where
  "mmu_protect_range dir virtual_start sz flags s =
     map_option (\<lambda>s'. (0, s'))
       (protect_range_loop dir (PAGE_ALIGN_UP (virtual_start + sz)) flags
          (PAGE_ALIGN_DOWN virtual_start) s)"

section \<open>Page faults\<close>

text \<open>Copy-on-write is not implemented: every path returns -1.\<close>

definition mmu_handle_cow_fault :: "MmuState \<Rightarrow> u32 \<Rightarrow> int option" where
  "mmu_handle_cow_fault s virtual_addr =
     (let dir = current_page_directory s in
      if dir = 0 then Some (-1)
      else do {
        d \<leftarrow> page_dirs s dir;
        (if \<not> pde_present (d ! PD_INDEX virtual_addr) then Some (-1)
         else do {
           t \<leftarrow> page_tables s (table_ptr (d ! PD_INDEX virtual_addr));
           (if \<not> pte_present (t ! PT_INDEX virtual_addr) then Some (-1) else Some (-1)) }) })"

text \<open>Whether the fault was handled (otherwise it is reported as unhandled).\<close>

definition mmu_page_fault_handler :: "MmuState \<Rightarrow> u32 \<Rightarrow> u32 \<Rightarrow> bool option" where
  "mmu_page_fault_handler s fault_addr error_code =
     (if error_code AND 1 \<noteq> 0 \<and> error_code AND 2 \<noteq> 0
      then map_option (\<lambda>r. r = 0) (mmu_handle_cow_fault s fault_addr)
      else Some False)"

section \<open>Initialisation\<close>

definition mmu_init :: "vallocator \<Rightarrow> MmuState \<Rightarrow> (int \<times> MmuState) option" where
  "mmu_init va s =
     (if mmu_initialized s then Some (0, s)
      else do {
        let s1 = s\<lparr>frame_allocator := frame_allocator_init,
                   tlb_stats := \<lparr>entries_flushed = 0, full_flushes = 0, single_flushes = 0\<rparr>\<rparr>;
        let (dir, s2) = mmu_create_page_directory va s1;
        let s3 = s2\<lparr>kernel_page_directory := dir\<rparr>;
        (if dir = 0 then Some (-1, s3)
         else do {
           s4 \<leftarrow> mmu_identity_map_range va dir 0 PHYSICAL_MEMORY_SIZE
                    (PAGE_PRESENT OR PAGE_WRITABLE OR PAGE_KERNEL) s3;
           Some (0, s4\<lparr>current_page_directory := kernel_page_directory s4, mmu_initialized := True\<rparr>) }) })"

definition mmu_cleanup :: "MmuState \<Rightarrow> MmuState option" where
  "mmu_cleanup s =
     (if \<not> mmu_initialized s then Some s
      else do {
        s1 \<leftarrow> (if kernel_page_directory s \<noteq> 0 then do {
                  s' \<leftarrow> mmu_destroy_page_directory (kernel_page_directory s) s;
                  Some (s'\<lparr>kernel_page_directory := 0\<rparr>) }
                else Some s);
        Some (s1\<lparr>current_page_directory := 0, mmu_initialized := False\<rparr>) })"

definition mmu_enable_paging :: "MmuState \<Rightarrow> MmuState" where
  "mmu_enable_paging s =
     (if \<not> mmu_initialized s \<or> paging_enabled s then s else s\<lparr>paging_enabled := True\<rparr>)"

definition mmu_disable_paging :: "MmuState \<Rightarrow> MmuState" where
  "mmu_disable_paging s = (if \<not> paging_enabled s then s else s\<lparr>paging_enabled := False\<rparr>)"

section \<open>Addresses\<close>

lemma PD_INDEX_less [simp]: "PD_INDEX v < 1024"
proof -
  have "unat v < 2 ^ 32" using unsigned_less [where 'a = nat, of v] by simp
  then show ?thesis by (simp add: PD_INDEX_def unsigned_drop_bit_eq drop_bit_eq_div unat_div less_mult_imp_div_less)
qed
lemma PT_INDEX_less [simp]: "PT_INDEX v < 1024"
  by (simp add: PT_INDEX_def and_mask_10 unsigned_take_bit_eq take_bit_nat_def)

text \<open>Two addresses select the same entry exactly when they are in the same page.\<close>

definition same_page :: "u32 \<Rightarrow> u32 \<Rightarrow> bool" where
  "same_page v w \<longleftrightarrow> drop_bit 12 v = drop_bit 12 w"

lemma same_page_index: "same_page v w \<longleftrightarrow> PD_INDEX v = PD_INDEX w \<and> PT_INDEX v = PT_INDEX w"
  unfolding same_page_def PD_INDEX_def PT_INDEX_def
proof (rule sym, rule iffI)
  assume "unat (drop_bit 22 v) = unat (drop_bit 22 w) \<and> unat (drop_bit 12 v AND 0x3FF) = unat (drop_bit 12 w AND 0x3FF)"
  then have h: "drop_bit 22 v = drop_bit 22 w" "take_bit 10 (drop_bit 12 v) = take_bit 10 (drop_bit 12 w)"
    unfolding and_mask_10 by (blast intro: unsigned_word_eqI)+
  show "drop_bit 12 v = drop_bit 12 w"
  proof (rule bit_word_eqI)
    fix n
    show "bit (drop_bit 12 v) n = bit (drop_bit 12 w) n"
    proof (cases "n < 10")
      case True
      then show ?thesis using arg_cong [OF h(2), of "\<lambda>x. bit x n"] by (simp add: bit_take_bit_iff)
    next
      case False
      then show ?thesis using arg_cong [OF h(1), of "\<lambda>x. bit x (n - 10)"] by (simp add: bit_drop_bit_eq)
    qed
  qed
next
  assume a: "drop_bit 12 v = drop_bit 12 w"
  have "drop_bit 22 x = drop_bit 10 (drop_bit 12 x)" for x :: u32 by simp
  with a show "unat (drop_bit 22 v) = unat (drop_bit 22 w) \<and> unat (drop_bit 12 v AND 0x3FF) = unat (drop_bit 12 w AND 0x3FF)"
    by metis
qed
text \<open>A page-aligned table address below 2 GB survives being kept in 20 bits.\<close>

lemma table_addr_low:
  assumes "(a :: u64) < 0x80000000" "a AND 0xFFF = 0"
  shows "scast (push_bit 12 (take_bit 20 (ucast (drop_bit 12 a))) :: u32) = a"
proof (rule bit_word_eqI)
  fix n assume n: "n < LENGTH(64)"
  have hi: "bit a m \<Longrightarrow> m < 31" for m using bit_less_2p [of a 31] assms(1) by simp
  have m: "take_bit 12 a = 0" using assms(2) by (simp add: take_bit_eq_mask mask_eq_exp_minus_1)
  have lo: "bit a m \<Longrightarrow> 12 \<le> m" for m using arg_cong [OF m, of "\<lambda>x. bit x m"] by (auto simp: bit_take_bit_iff)
  show "bit (scast (push_bit 12 (take_bit 20 (ucast (drop_bit 12 a))) :: u32) :: u64) n = bit a n"
  proof (cases "n < 31")
    case True
    then show ?thesis using n lo [of n] by (auto simp: bit_simps min_def)
  next
    case False
    then have "\<not> bit a n" "min 31 n = 31" "\<not> bit a 31" using hi by auto
    then show ?thesis by (simp add: bit_simps)
  qed
qed

section \<open>Well-formed page directories\<close>

text \<open>
  What the allocation of pages provides: a page-aligned non-NULL address not in use. The code
  also relies on it being below 2 GB (\<open>low\<close>), since it keeps 20 bits of it.
\<close>

definition valloc_ok :: "vallocator \<Rightarrow> bool" where
  "valloc_ok va \<longleftrightarrow> (\<forall>n U a. va n U = Some a \<longrightarrow>
     a \<notin> U \<and> a \<noteq> 0 \<and> a AND 0xFFF = 0 \<and> a < 0x80000000)"

text \<open>It succeeds while fewer pages than \<open>VALLOC_ROOM\<close> are in use (the 2 GB have twice as many).\<close>

definition VALLOC_ROOM :: nat where "VALLOC_ROOM = 262144"

definition valloc_total :: "vallocator \<Rightarrow> bool" where
  "valloc_total va \<longleftrightarrow> (\<forall>n U. card U < VALLOC_ROOM \<longrightarrow> va n U \<noteq> None)"

text \<open>Every present directory entry points to a table of its own.\<close>

definition mmu_wf :: "MmuState \<Rightarrow> bool" where
  "mmu_wf s \<longleftrightarrow>
     finite (addrs_in_use s) \<and>
     (\<forall>d D. page_dirs s d = Some D \<longrightarrow> d \<noteq> 0 \<and> length D = 1024 \<and>
        (\<forall>i < 1024. pde_present (D ! i) \<longrightarrow> table_ptr (D ! i) \<noteq> 0 \<and>
           (\<exists>T. page_tables s (table_ptr (D ! i)) = Some T \<and> length T = 1024))) \<and>
     (\<forall>d D d' D' i j. page_dirs s d = Some D \<longrightarrow> page_dirs s d' = Some D' \<longrightarrow>
        i < 1024 \<longrightarrow> j < 1024 \<longrightarrow> pde_present (D ! i) \<longrightarrow> pde_present (D' ! j) \<longrightarrow>
        table_ptr (D ! i) = table_ptr (D' ! j) \<longrightarrow> d = d' \<and> i = j)"

text \<open>The entry of a page, all zero where there is no table: what the paging code is about.\<close>

definition pte_of :: "MmuState \<Rightarrow> u64 \<Rightarrow> u32 \<Rightarrow> PageTableEntry" where
  "pte_of s d v =
     (case page_dirs s d of None \<Rightarrow> zero_pte
      | Some D \<Rightarrow> if pde_present (D ! PD_INDEX v)
                  then (case page_tables s (table_ptr (D ! PD_INDEX v)) of
                          None \<Rightarrow> zero_pte | Some T \<Rightarrow> T ! PT_INDEX v)
                  else zero_pte)"

lemma mmu_wf_finite: "mmu_wf s \<Longrightarrow> finite (addrs_in_use s)"
  by (simp add: mmu_wf_def)

lemma mmu_wf_dir: "mmu_wf s \<Longrightarrow> page_dirs s d = Some D \<Longrightarrow> d \<noteq> 0 \<and> length D = 1024"
  unfolding mmu_wf_def by blast

lemma mmu_wf_table:
  "mmu_wf s \<Longrightarrow> page_dirs s d = Some D \<Longrightarrow> i < 1024 \<Longrightarrow> pde_present (D ! i) \<Longrightarrow>
     table_ptr (D ! i) \<noteq> 0 \<and> (\<exists>T. page_tables s (table_ptr (D ! i)) = Some T \<and> length T = 1024)"
  unfolding mmu_wf_def by blast

lemma mmu_wf_inj:
  "mmu_wf s \<Longrightarrow> page_dirs s d = Some D \<Longrightarrow> page_dirs s d' = Some D' \<Longrightarrow> i < 1024 \<Longrightarrow> j < 1024 \<Longrightarrow>
     pde_present (D ! i) \<Longrightarrow> pde_present (D' ! j) \<Longrightarrow> table_ptr (D ! i) = table_ptr (D' ! j) \<Longrightarrow>
     d = d' \<and> i = j"
  unfolding mmu_wf_def by blast

lemma mmu_wfI:
  assumes "finite (addrs_in_use s)"
    and "\<And>d D. page_dirs s d = Some D \<Longrightarrow> d \<noteq> 0 \<and> length D = 1024"
    and "\<And>d D i. page_dirs s d = Some D \<Longrightarrow> i < 1024 \<Longrightarrow> pde_present (D ! i) \<Longrightarrow>
       table_ptr (D ! i) \<noteq> 0 \<and> (\<exists>T. page_tables s (table_ptr (D ! i)) = Some T \<and> length T = 1024)"
    and "\<And>d D d' D' i j. page_dirs s d = Some D \<Longrightarrow> page_dirs s d' = Some D' \<Longrightarrow>
       i < 1024 \<Longrightarrow> j < 1024 \<Longrightarrow> pde_present (D ! i) \<Longrightarrow> pde_present (D' ! j) \<Longrightarrow>
       table_ptr (D ! i) = table_ptr (D' ! j) \<Longrightarrow> d = d' \<and> i = j"
  shows "mmu_wf s"
  unfolding mmu_wf_def using assms by blast

text \<open>Fields outside directories and tables do not matter.\<close>

lemma mmu_wf_fields [simp]:
  "mmu_wf (s\<lparr>valloc_calls := n\<rparr>) = mmu_wf s" "mmu_wf (s\<lparr>frame_allocator := fa\<rparr>) = mmu_wf s"
  "mmu_wf (s\<lparr>tlb_stats := ts\<rparr>) = mmu_wf s" "mmu_wf (mmu_flush_tlb_single v s) = mmu_wf s"
  "mmu_wf (s\<lparr>kernel_page_directory := k\<rparr>) = mmu_wf s"
  "mmu_wf (s\<lparr>current_page_directory := k\<rparr>) = mmu_wf s"
  "mmu_wf (s\<lparr>mmu_initialized := b\<rparr>) = mmu_wf s"
  by (simp_all add: mmu_wf_def addrs_in_use_def mmu_flush_tlb_single_def)

lemma pte_of_fields [simp]:
  "pte_of (s\<lparr>valloc_calls := n\<rparr>) = pte_of s" "pte_of (s\<lparr>frame_allocator := fa\<rparr>) = pte_of s"
  "pte_of (s\<lparr>tlb_stats := ts\<rparr>) = pte_of s" "pte_of (mmu_flush_tlb_single v s) = pte_of s"
  "pte_of (s\<lparr>kernel_page_directory := k\<rparr>) = pte_of s"
  "pte_of (s\<lparr>current_page_directory := k\<rparr>) = pte_of s"
  "pte_of (s\<lparr>mmu_initialized := b\<rparr>) = pte_of s"
  by (simp_all add: pte_of_def mmu_flush_tlb_single_def fun_eq_iff cong: option.case_cong if_cong)

lemma pte_of_entry:
  "page_dirs s d = Some D \<Longrightarrow> pde_present (D ! PD_INDEX v) \<Longrightarrow>
     page_tables s (table_ptr (D ! PD_INDEX v)) = Some T \<Longrightarrow> pte_of s d v = T ! PT_INDEX v"
  by (simp add: pte_of_def)

text \<open>Writing one entry of one table changes one page of one directory.\<close>

lemma write_entry:
  fixes e :: PageTableEntry
  assumes wf: "mmu_wf s" and D: "page_dirs s d = Some D" and pr: "pde_present (D ! PD_INDEX v)"
    and T: "page_tables s (table_ptr (D ! PD_INDEX v)) = Some T" and len: "length T = 1024"
  defines "s' \<equiv> s\<lparr>page_tables := (page_tables s)(table_ptr (D ! PD_INDEX v) \<mapsto> T[PT_INDEX v := e])\<rparr>"
  shows "mmu_wf s'"
    and "pte_of s' d' w = (if d' = d \<and> same_page w v then e else pte_of s d' w)"
proof -
  have dirs: "page_dirs s' = page_dirs s"
    and tabs: "page_tables s' = (page_tables s)(table_ptr (D ! PD_INDEX v) \<mapsto> T[PT_INDEX v := e])"
    by (simp_all add: s'_def)
  have "addrs_in_use s' = addrs_in_use s" using T by (auto simp: addrs_in_use_def dirs tabs)
  then show "mmu_wf s'"
  proof (intro mmu_wfI)
    fix d1 D1 i
    assume "page_dirs s' d1 = Some D1" and "i < 1024" and "pde_present (D1 ! i)"
    then show "table_ptr (D1 ! i) \<noteq> 0 \<and> (\<exists>T. page_tables s' (table_ptr (D1 ! i)) = Some T \<and> length T = 1024)"
      using mmu_wf_table [OF wf] len by (auto simp: dirs tabs)
  next
    show "finite (addrs_in_use s')" if "addrs_in_use s' = addrs_in_use s"
      using that mmu_wf_finite [OF wf] by simp
    show "d0 \<noteq> 0 \<and> length D0 = 1024" if "page_dirs s' d0 = Some D0" for d0 D0
      using that mmu_wf_dir [OF wf] by (simp add: dirs)
  qed (use mmu_wf_inj [OF wf] in \<open>simp add: dirs\<close>)
  show "pte_of s' d' w = (if d' = d \<and> same_page w v then e else pte_of s d' w)"
  proof (cases "page_dirs s d'")
    case None
    with D show ?thesis by (auto simp: pte_of_def dirs)
  next
    case (Some D')
    show ?thesis
    proof (cases "pde_present (D' ! PD_INDEX w)")
      case False
      then have "\<not> (d' = d \<and> same_page w v)" using D Some pr by (auto simp: same_page_index)
      with False Some show ?thesis by (auto simp: pte_of_def dirs)
    next
      case True
      have "table_ptr (D' ! PD_INDEX w) = table_ptr (D ! PD_INDEX v) \<longleftrightarrow> d' = d \<and> PD_INDEX w = PD_INDEX v"
        using mmu_wf_inj [OF wf Some D PD_INDEX_less PD_INDEX_less True pr] Some D by auto
      then show ?thesis using Some True D T len
        by (auto simp: pte_of_def dirs tabs same_page_index)
    qed
  qed
qed

section \<open>The operations on the page map\<close>

text \<open>A new table: the directory entry leads to it, and no page changes.\<close>

lemma new_table:
  fixes k :: nat
  assumes wf: "mmu_wf s" and va: "valloc_ok va" and D: "page_dirs s d = Some D"
    and np: "\<not> pde_present (D ! i)" and i: "i < 1024" and a: "va n (addrs_in_use s) = Some a"
  defines "e \<equiv> (D ! i)\<lparr>pde_present := True, pde_writable := True, pde_user_mode := True,
                pde_table_addr := take_bit 20 (ucast (drop_bit 12 a))\<rparr>"
  defines "s1 \<equiv> s\<lparr>valloc_calls := k, page_tables := (page_tables s)(a \<mapsto> replicate 1024 zero_pte),
                page_dirs := (page_dirs s)(d \<mapsto> D[i := e])\<rparr>"
  shows "a \<noteq> 0" and "table_ptr e = a" and "mmu_wf s1" and "pte_of s1 = pte_of s"
    and "card (addrs_in_use s1) \<le> Suc (card (addrs_in_use s))"
proof -
  have fin: "finite (addrs_in_use s)" by (rule mmu_wf_finite [OF wf])
  have a_ok: "a \<notin> addrs_in_use s" "a \<noteq> 0" "a AND 0xFFF = 0" "a < 0x80000000"
    using va a unfolding valloc_ok_def by blast+
  show "a \<noteq> 0" by fact
  have ptr: "table_ptr e = a" using table_addr_low [OF a_ok(4,3)] by (simp add: table_ptr_def e_def)
  then show "table_ptr e = a" .
  have e: "pde_present e" by (simp add: e_def)
  have lenD: "length D = 1024" using mmu_wf_dir [OF wf D] by simp
  have dirs: "page_dirs s1 = (page_dirs s)(d \<mapsto> D[i := e])"
    and tabs: "page_tables s1 = (page_tables s)(a \<mapsto> replicate 1024 zero_pte)" by (simp_all add: s1_def)
  have old_ptr: "table_ptr (D0 ! j) \<noteq> a" if "page_dirs s d0 = Some D0" "j < 1024" "pde_present (D0 ! j)" for d0 D0 j
    using mmu_wf_table [OF wf that] a_ok(1) by (auto simp: addrs_in_use_def)
  have entry: "(d0 = d \<and> j = i \<and> D0 ! j = e) \<or> (\<exists>Dx. page_dirs s d0 = Some Dx \<and> D0 ! j = Dx ! j \<and> \<not> (d0 = d \<and> j = i))"
    if "page_dirs s1 d0 = Some D0" "j < 1024" for d0 D0 j
    using that D i lenD by (auto simp: dirs nth_list_update split: if_splits)
  have used: "addrs_in_use s1 = insert a (addrs_in_use s)"
    using D by (auto simp: addrs_in_use_def dirs tabs)
  then show "card (addrs_in_use s1) \<le> Suc (card (addrs_in_use s))" by (simp add: card_insert_le_m1)
  show "mmu_wf s1"
  proof (rule mmu_wfI)
    show "finite (addrs_in_use s1)" using fin used by simp
    show "d0 \<noteq> 0 \<and> length D0 = 1024" if "page_dirs s1 d0 = Some D0" for d0 D0
      using that mmu_wf_dir [OF wf] D by (auto simp: dirs split: if_splits)
    show "table_ptr (D0 ! j) \<noteq> 0 \<and> (\<exists>T. page_tables s1 (table_ptr (D0 ! j)) = Some T \<and> length T = 1024)"
      if "page_dirs s1 d0 = Some D0" "j < 1024" "pde_present (D0 ! j)" for d0 D0 j
      using entry [OF that(1,2)]
    proof (elim disjE conjE exE)
      assume "D0 ! j = e"
      then show ?thesis using ptr a_ok(2) by (simp add: tabs)
    next
      fix Dx assume "page_dirs s d0 = Some Dx" "D0 ! j = Dx ! j"
      then show ?thesis using mmu_wf_table [OF wf, of d0 Dx j] old_ptr [of d0 Dx j] that by (simp add: tabs)
    qed
    show "d1 = d2 \<and> i1 = i2"
      if "page_dirs s1 d1 = Some D1" "page_dirs s1 d2 = Some D2" "i1 < 1024" "i2 < 1024"
        "pde_present (D1 ! i1)" "pde_present (D2 ! i2)" "table_ptr (D1 ! i1) = table_ptr (D2 ! i2)"
      for d1 D1 d2 D2 i1 i2
      using entry [OF that(1,3)] entry [OF that(2,4)] that ptr old_ptr mmu_wf_inj [OF wf, of d1 _ d2 _ i1 i2]
      by metis
  qed
  show "pte_of s1 = pte_of s"
  proof (intro ext)
    fix d0 v
    show "pte_of s1 d0 v = pte_of s d0 v"
    proof (cases "page_dirs s d0")
      case None
      then show ?thesis using D by (auto simp: pte_of_def dirs)
    next
      case (Some D0)
      show ?thesis
      proof (cases "d0 = d \<and> PD_INDEX v = i")
        case True
        then show ?thesis using Some D np lenD i e ptr by (simp add: pte_of_def dirs tabs)
      next
        case False
        then have "page_dirs s1 d0 = Some D0 \<or> d0 = d \<and> page_dirs s1 d0 = Some (D0[i := e]) \<and> PD_INDEX v \<noteq> i"
          using Some D by (auto simp: dirs)
        then show ?thesis
        proof (elim disjE conjE)
          assume "page_dirs s1 d0 = Some D0"
          then show ?thesis
            using Some old_ptr [OF Some PD_INDEX_less] by (simp add: pte_of_def tabs)
        next
          assume "page_dirs s1 d0 = Some (D0[i := e])" "PD_INDEX v \<noteq> i"
          then show ?thesis
            using Some old_ptr [OF Some PD_INDEX_less] by (simp add: pte_of_def tabs)
        qed
      qed
    qed
  qed
qed

lemma get_or_create_spec:
  assumes wf: "mmu_wf s" and va: "valloc_ok va" and D: "page_dirs s d = Some D"
  obtains (failed) s1 where "get_or_create_page_table va d (PD_INDEX v) s = Some (0, s1)"
      "va (valloc_calls s) (addrs_in_use s) = None" "mmu_wf s1" "pte_of s1 = pte_of s"
      "dom (page_dirs s1) = dom (page_dirs s)" "frame_allocator s1 = frame_allocator s"
  | (table) t s1 D1 T where "get_or_create_page_table va d (PD_INDEX v) s = Some (t, s1)" "t \<noteq> 0"
      "mmu_wf s1" "pte_of s1 = pte_of s" "dom (page_dirs s1) = dom (page_dirs s)"
      "frame_allocator s1 = frame_allocator s"
      "page_dirs s1 d = Some D1" "pde_present (D1 ! PD_INDEX v)" "table_ptr (D1 ! PD_INDEX v) = t"
      "page_tables s1 t = Some T" "length T = 1024"
      "card (addrs_in_use s1) \<le> Suc (card (addrs_in_use s))"
proof -
  have d0: "d \<noteq> 0" and lenD: "length D = 1024" using mmu_wf_dir [OF wf D] by simp_all
  show thesis
  proof (cases "pde_present (D ! PD_INDEX v)")
    case True
    from mmu_wf_table [OF wf D PD_INDEX_less True] obtain T
      where T: "table_ptr (D ! PD_INDEX v) \<noteq> 0" "page_tables s (table_ptr (D ! PD_INDEX v)) = Some T"
        "length T = 1024" by blast
    show thesis
      by (rule table [of "table_ptr (D ! PD_INDEX v)" s D T])
        (use True T wf D d0 in \<open>simp_all add: get_or_create_page_table_def\<close>)
  next
    case False
    show thesis
    proof (cases "va (valloc_calls s) (addrs_in_use s)")
      case None
      show thesis
        by (rule failed [of "s\<lparr>valloc_calls := valloc_calls s + 1\<rparr>"])
          (use False None wf D d0 in \<open>simp_all add: get_or_create_page_table_def Let_def\<close>)
    next
      case (Some a)
      let ?e = "(D ! PD_INDEX v)\<lparr>pde_present := True, pde_writable := True, pde_user_mode := True,
                pde_table_addr := take_bit 20 (ucast (drop_bit 12 a))\<rparr>"
      let ?s1 = "s\<lparr>valloc_calls := valloc_calls s + 1,
                page_tables := (page_tables s)(a \<mapsto> replicate 1024 zero_pte),
                page_dirs := (page_dirs s)(d \<mapsto> D[PD_INDEX v := ?e])\<rparr>"
      note nt = new_table(1,2) [OF wf va D False PD_INDEX_less Some]
        new_table(3,4,5) [OF wf va D False PD_INDEX_less Some, of "valloc_calls s + 1"]
      have "get_or_create_page_table va d (PD_INDEX v) s = Some (a, ?s1)"
        using False Some D d0 by (simp add: get_or_create_page_table_def Let_def)
      moreover have "dom (page_dirs ?s1) = dom (page_dirs s)" using D by auto
      ultimately show thesis
        using nt lenD by (intro table [of a ?s1 "D[PD_INDEX v := ?e]" "replicate 1024 zero_pte"]) simp_all
    qed
  qed
qed

text \<open>Reading the page map: translation and flags see exactly the entry of the page.\<close>

lemma translate_spec:
  assumes wf: "mmu_wf s" and D: "page_dirs s d = Some D"
  shows "mmu_virtual_to_physical s d v =
    Some (if pte_present (pte_of s d v) then push_bit 12 (pte_frame (pte_of s d v)) OR PAGE_OFFSET v
          else NOT_MAPPED)"
proof (cases "pde_present (D ! PD_INDEX v)")
  case True
  from mmu_wf_table [OF wf D PD_INDEX_less True] mmu_wf_dir [OF wf D] D True show ?thesis
    by (auto simp: mmu_virtual_to_physical_def pte_of_def Let_def)
next
  case False
  with mmu_wf_dir [OF wf D] D show ?thesis
    by (simp add: mmu_virtual_to_physical_def pte_of_def zero_pte_def)
qed

lemma get_flags_spec:
  assumes wf: "mmu_wf s" and D: "page_dirs s d = Some D"
  shows "mmu_get_page_flags s d v =
    Some (if pte_present (pte_of s d v)
          then PAGE_PRESENT OR (if pte_writable (pte_of s d v) then PAGE_WRITABLE else 0)
             OR (if pte_user_mode (pte_of s d v) then PAGE_USER else 0)
          else 0)"
proof (cases "pde_present (D ! PD_INDEX v)")
  case True
  from mmu_wf_table [OF wf D PD_INDEX_less True] mmu_wf_dir [OF wf D] D True show ?thesis
    by (auto simp: mmu_get_page_flags_def pte_of_def Let_def)
next
  case False
  with mmu_wf_dir [OF wf D] D show ?thesis
    by (simp add: mmu_get_page_flags_def pte_of_def zero_pte_def)
qed

lemma map_page_spec:
  assumes wf: "mmu_wf s" and va: "valloc_ok va" and D: "page_dirs s d = Some D"
  obtains (failed) s1 where "mmu_map_page va d v p flags s = Some (-1, s1)"
      "va (valloc_calls s) (addrs_in_use s) = None" "mmu_wf s1" "pte_of s1 = pte_of s"
      "dom (page_dirs s1) = dom (page_dirs s)" "frame_allocator s1 = frame_allocator s"
  | (mapped) s1 where "mmu_map_page va d v p flags s = Some (0, s1)" "mmu_wf s1"
      "\<And>d' w. pte_of s1 d' w = (if d' = d \<and> same_page w v then pte_set p flags (pte_of s d v)
                              else pte_of s d' w)"
      "dom (page_dirs s1) = dom (page_dirs s)" "frame_allocator s1 = frame_allocator s"
      "card (addrs_in_use s1) \<le> Suc (card (addrs_in_use s))"
proof -
  have d0: "d \<noteq> 0" using mmu_wf_dir [OF wf D] by simp
  show thesis
    using wf va D
  proof (cases rule: get_or_create_spec [where v = v])
    case (failed s1)
    show thesis
      by (rule that(1) [of s1]) (use failed d0 in \<open>simp_all add: mmu_map_page_def\<close>)
  next
    case (table t s1 D1 T)
    let ?e = "pte_set p flags (T ! PT_INDEX v)"
    let ?s2 = "s1\<lparr>page_tables := (page_tables s1)(t \<mapsto> T[PT_INDEX v := ?e])\<rparr>"
    have T': "page_tables s1 (table_ptr (D1 ! PD_INDEX v)) = Some T" using table by simp
    have eq: "pte_of s d v = T ! PT_INDEX v"
      using pte_of_entry [OF table(7,8) T'] table(4) by simp
    note w = write_entry [OF table(3,7,8) T' table(11), where e = ?e, unfolded table(9)]
    show thesis
    proof (rule that(2) [of "mmu_flush_tlb_single v ?s2"])
      show "mmu_map_page va d v p flags s = Some (0, mmu_flush_tlb_single v ?s2)"
        using table d0 by (simp add: mmu_map_page_def Let_def)
      show "mmu_wf (mmu_flush_tlb_single v ?s2)" using w(1) by simp
      show "pte_of (mmu_flush_tlb_single v ?s2) d' w
          = (if d' = d \<and> same_page w v then pte_set p flags (pte_of s d v) else pte_of s d' w)" for d' w
        using w(2) [of d' w] eq table(4) by simp
      show "dom (page_dirs (mmu_flush_tlb_single v ?s2)) = dom (page_dirs s)"
        "frame_allocator (mmu_flush_tlb_single v ?s2) = frame_allocator s"
        using table(5,6) by (simp_all add: mmu_flush_tlb_single_def)
      have "addrs_in_use (mmu_flush_tlb_single v ?s2) = addrs_in_use s1"
        using table(10) by (auto simp: addrs_in_use_def mmu_flush_tlb_single_def)
      then show "card (addrs_in_use (mmu_flush_tlb_single v ?s2)) \<le> Suc (card (addrs_in_use s))"
        using table(12) by simp
    qed
  qed
qed

lemma unmap_page_spec:
  assumes wf: "mmu_wf s" and D: "page_dirs s d = Some D"
  shows "\<exists>s1. mmu_unmap_page d v s = Some (0, s1) \<and> mmu_wf s1 \<and>
    (\<forall>d' w. pte_of s1 d' w = (if d' = d \<and> same_page w v \<and> pte_present (pte_of s d v) then zero_pte
                           else pte_of s d' w)) \<and>
    page_dirs s1 = page_dirs s \<and>
    frame_allocator s1 = (if pte_present (pte_of s d v)
       then mmu_free_frame (pte_frame (pte_of s d v)) (frame_allocator s) else frame_allocator s)"
proof (cases "pde_present (D ! PD_INDEX v)")
  case False
  then have "\<not> pte_present (pte_of s d v)" using D by (simp add: pte_of_def zero_pte_def)
  with False mmu_wf_dir [OF wf D] D wf show ?thesis by (intro exI [of _ s]) (auto simp: mmu_unmap_page_def)
next
  case True
  from mmu_wf_table [OF wf D PD_INDEX_less True] obtain T
    where T: "page_tables s (table_ptr (D ! PD_INDEX v)) = Some T" "length T = 1024" by blast
  have eq: "pte_of s d v = T ! PT_INDEX v" by (rule pte_of_entry [OF D True T(1)])
  show ?thesis
  proof (cases "pte_present (T ! PT_INDEX v)")
    case False
    with True mmu_wf_dir [OF wf D] D wf T eq show ?thesis
      by (intro exI [of _ s]) (auto simp: mmu_unmap_page_def Let_def)
  next
    case pr: True
    let ?s2 = "s\<lparr>page_tables := (page_tables s)(table_ptr (D ! PD_INDEX v) \<mapsto> T[PT_INDEX v := zero_pte])\<rparr>"
    let ?s3 = "?s2\<lparr>frame_allocator := mmu_free_frame (pte_frame (T ! PT_INDEX v)) (frame_allocator s)\<rparr>"
    note w = write_entry [OF wf D True T, where e = zero_pte]
    have "mmu_unmap_page d v s = Some (0, mmu_flush_tlb_single v ?s3)"
      using True mmu_wf_dir [OF wf D] D T pr
      by (simp add: mmu_unmap_page_def Let_def mmu_flush_tlb_single_def)
    moreover have "mmu_wf ?s3" "pte_of ?s3 = pte_of ?s2"
      using w(1) mmu_wf_fields(2) pte_of_fields(2) by blast+
    ultimately show ?thesis
      using w(2) eq pr by (intro exI [of _ "mmu_flush_tlb_single v ?s3"])
        (simp add: mmu_flush_tlb_single_def [of v ?s3])
  qed
qed

lemma set_flags_spec:
  assumes wf: "mmu_wf s" and D: "page_dirs s d = Some D"
  shows "\<exists>s1. mmu_set_page_flags d v flags s
        = Some (if pte_present (pte_of s d v) then 0 else -1, s1) \<and> mmu_wf s1 \<and>
    (\<forall>d' w. pte_of s1 d' w = (if d' = d \<and> same_page w v \<and> pte_present (pte_of s d v)
        then (pte_of s d v)\<lparr>pte_writable := (flags AND PAGE_WRITABLE \<noteq> 0),
                            pte_user_mode := (flags AND PAGE_USER \<noteq> 0)\<rparr>
        else pte_of s d' w)) \<and>
    page_dirs s1 = page_dirs s \<and> frame_allocator s1 = frame_allocator s"
proof (cases "pde_present (D ! PD_INDEX v)")
  case False
  then have "\<not> pte_present (pte_of s d v)" using D by (simp add: pte_of_def zero_pte_def)
  with False mmu_wf_dir [OF wf D] D wf show ?thesis
    by (intro exI [of _ s]) (auto simp: mmu_set_page_flags_def)
next
  case True
  from mmu_wf_table [OF wf D PD_INDEX_less True] obtain T
    where T: "page_tables s (table_ptr (D ! PD_INDEX v)) = Some T" "length T = 1024" by blast
  have eq: "pte_of s d v = T ! PT_INDEX v" by (rule pte_of_entry [OF D True T(1)])
  show ?thesis
  proof (cases "pte_present (T ! PT_INDEX v)")
    case False
    with True mmu_wf_dir [OF wf D] D wf T eq show ?thesis
      by (intro exI [of _ s]) (auto simp: mmu_set_page_flags_def Let_def)
  next
    case pr: True
    let ?e = "(T ! PT_INDEX v)\<lparr>pte_writable := (flags AND PAGE_WRITABLE \<noteq> 0),
                pte_user_mode := (flags AND PAGE_USER \<noteq> 0)\<rparr>"
    let ?s2 = "s\<lparr>page_tables := (page_tables s)(table_ptr (D ! PD_INDEX v) \<mapsto> T[PT_INDEX v := ?e])\<rparr>"
    note w = write_entry [OF wf D True T, where e = ?e]
    have "mmu_set_page_flags d v flags s = Some (0, mmu_flush_tlb_single v ?s2)"
      using True mmu_wf_dir [OF wf D] D T pr by (simp add: mmu_set_page_flags_def Let_def)
    then show ?thesis
      using w eq pr by (intro exI [of _ "mmu_flush_tlb_single v ?s2"])
        (simp add: mmu_flush_tlb_single_def [of v ?s2])
  qed
qed

section \<open>Pages\<close>

text \<open>The page number of an address.\<close>

definition page_of :: "u32 \<Rightarrow> nat" where
  "page_of v = unat v div 4096"

lemma same_page_of: "same_page v w \<longleftrightarrow> page_of v = page_of w"
proof -
  have "page_of x = unat (drop_bit 12 x)" for x
    by (simp add: page_of_def unsigned_drop_bit_eq drop_bit_eq_div unat_div)
  then show ?thesis unfolding same_page_def by (metis unsigned_word_eqI)
qed

lemma page_mask_eq: "PAGE_MASK = NOT (mask 12)"
proof -
  have "(0xFFFFF000 :: u32) = - 4096" by (simp add: eq_neg_iff_add_eq_0)
  then show ?thesis by (simp add: PAGE_MASK_def mask_eq_exp_minus_1)
qed

lemma align_down_mask: "PAGE_ALIGN_DOWN w = w AND NOT (mask 12)"
  by (simp only: PAGE_ALIGN_DOWN_def page_mask_eq)

lemma align_down_bits: "PAGE_ALIGN_DOWN w = push_bit 12 (drop_bit 12 w)"
proof -
  have "PAGE_ALIGN_DOWN w = w AND NOT (mask 12)" by (rule align_down_mask)
  also have "\<dots> = push_bit 12 (drop_bit 12 w)"
    by (rule bit_word_eqI) (auto simp: bit_simps)
  finally show ?thesis .
qed

lemma align_down_unat: "unat (PAGE_ALIGN_DOWN w) = 4096 * page_of w"
proof -
  have "unat w < 2 ^ 32" using unsigned_less [where 'a = nat, of w] by simp
  then have "4096 * (unat w div 4096) < 2 ^ 32" by simp
  then show ?thesis
    by (simp only: align_down_bits page_of_def unsigned_push_bit_eq unsigned_drop_bit_eq
       drop_bit_take_bit) (simp add: push_bit_eq_mult drop_bit_eq_div take_bit_nat_eq_self)
qed

lemma page_offset_mask: "PAGE_OFFSET w = w AND mask 12"
  by (simp add: PAGE_OFFSET_def mask_eq_exp_minus_1)

lemma align_down_offset: "PAGE_ALIGN_DOWN w + PAGE_OFFSET w = w"
proof -
  have "(w AND NOT (mask 12)) AND (w AND mask 12) = 0" by (rule bit_word_eqI) (auto simp: bit_simps)
  then have "(w AND NOT (mask 12)) + (w AND mask 12) = (w AND NOT (mask 12)) OR (w AND mask 12)"
    by (rule disjunctive_add_eq_or)
  also have "\<dots> = w" by (rule bit_word_eqI) (auto simp: bit_simps)
  finally show ?thesis by (simp only: align_down_mask page_offset_mask)
qed

text \<open>The translation of a mapped address.\<close>

lemma translate_word:
  assumes "PAGE_ALIGN_DOWN x = x"
  shows "push_bit 12 (drop_bit 12 x) OR PAGE_OFFSET w = x + (w - PAGE_ALIGN_DOWN w)"
proof -
  have x: "push_bit 12 (drop_bit 12 x) = x" using assms by (simp add: align_down_bits)
  have "x AND PAGE_OFFSET w = (x AND NOT (mask 12)) AND (w AND mask 12)"
    using assms by (simp only: align_down_mask page_offset_mask)
  also have "\<dots> = 0" by (rule bit_word_eqI) (auto simp: bit_simps)
  finally have "x + PAGE_OFFSET w = x OR PAGE_OFFSET w" by (rule disjunctive_add_eq_or)
  moreover have "PAGE_OFFSET w = w - PAGE_ALIGN_DOWN w" using align_down_offset [of w] by (simp add: algebra_simps)
  ultimately show ?thesis using x by simp
qed

lemma align_down_idem [simp]: "PAGE_ALIGN_DOWN (PAGE_ALIGN_DOWN w) = PAGE_ALIGN_DOWN w"
  by (simp add: PAGE_ALIGN_DOWN_def and.assoc)

lemma aligned_unat: "PAGE_ALIGN_DOWN v = v \<longleftrightarrow> unat v = 4096 * page_of v"
  by (metis align_down_unat unsigned_word_eqI)

lemma page_of_align [simp]: "page_of (PAGE_ALIGN_DOWN w) = page_of w"
  by (simp add: page_of_def [of "PAGE_ALIGN_DOWN w"] align_down_unat)

text \<open>The next page.\<close>

lemma next_page:
  assumes "PAGE_ALIGN_DOWN v = v" and "v < e" and "unat e \<le> 0xFFFFF000"
  shows "PAGE_ALIGN_DOWN (v + PAGE_SIZE) = v + PAGE_SIZE" "page_of (v + PAGE_SIZE) = Suc (page_of v)"
    "unat (v + PAGE_SIZE) = unat v + 4096"
proof -
  have lt: "unat v + 4096 < 2 ^ 32" using assms(2,3) by (simp add: word_less_nat_alt)
  have "unat (v + PAGE_SIZE) = (unat v + unat PAGE_SIZE) mod 2 ^ 32" by (simp add: unat_word_ariths)
  then show u: "unat (v + PAGE_SIZE) = unat v + 4096" using lt by (simp add: PAGE_SIZE_def)
  show p: "page_of (v + PAGE_SIZE) = Suc (page_of v)" by (simp add: page_of_def u)
  show "PAGE_ALIGN_DOWN (v + PAGE_SIZE) = v + PAGE_SIZE"
    using assms(1) u p by (simp add: aligned_unat)
qed

lemma aligned_dvd: "PAGE_ALIGN_DOWN v = v \<longleftrightarrow> 4096 dvd unat v"
  unfolding aligned_unat page_of_def by (metis dvd_mult_div_cancel dvd_triv_left)

lemma add_aligned:
  assumes "PAGE_ALIGN_DOWN p = p" and "PAGE_ALIGN_DOWN q = q"
  shows "PAGE_ALIGN_DOWN (p + q) = p + q"
proof -
  have "4096 dvd (unat p + unat q) mod 2 ^ 32"
    using assms by (intro dvd_mod) (simp_all add: aligned_dvd)
  then show ?thesis by (simp add: aligned_dvd unat_word_ariths)
qed

text \<open>Only the page number of an address matters for its entry.\<close>

lemma pte_of_same_page: "same_page v w \<Longrightarrow> pte_of s d v = pte_of s d w"
  by (simp add: pte_of_def same_page_index cong: option.case_cong if_cong)

lemma same_page_refl [simp]: "same_page v v"
  by (simp add: same_page_def)

text \<open>The pages the mapping loop writes, and what it writes.\<close>

lemma map_range_loop_spec:
  assumes va: "valloc_ok va" "valloc_total va"
    and e: "unat e \<le> 0xFFFFF000"
  shows "mmu_wf s \<Longrightarrow> d \<in> dom (page_dirs s) \<Longrightarrow> PAGE_ALIGN_DOWN v = v \<Longrightarrow>
    unat e \<le> unat v + 4096 * k \<Longrightarrow> card (addrs_in_use s) + k \<le> VALLOC_ROOM \<Longrightarrow>
    \<exists>s'. map_range_loop va d e flags k v p s = Some (0, s') \<and> mmu_wf s' \<and>
      dom (page_dirs s') = dom (page_dirs s) \<and> frame_allocator s' = frame_allocator s \<and>
      (\<forall>d' w. pte_of s' d' w =
         (if d' = d \<and> page_of v \<le> page_of w \<and> 4096 * page_of w < unat e
          then pte_set (p + (PAGE_ALIGN_DOWN w - v)) flags (pte_of s d w) else pte_of s d' w))"
proof (induction k arbitrary: s v p)
  case 0
  have v: "unat v = 4096 * page_of v" using "0.prems"(3) by (simp add: aligned_unat)
  have "\<not> (page_of v \<le> page_of w \<and> 4096 * page_of w < unat e)" for w
    using "0.prems"(4) v by auto
  then show ?case using "0.prems" by auto
next
  case (Suc k)
  have v: "unat v = 4096 * page_of v" using Suc.prems(3) by (simp add: aligned_unat)
  show ?case
  proof (cases "v < e")
    case False
    then have "\<not> (page_of v \<le> page_of w \<and> 4096 * page_of w < unat e)" for w
      using v by (auto simp: word_less_nat_alt)
    with False Suc.prems show ?thesis by auto
  next
    case True
    obtain D where D: "page_dirs s d = Some D" using Suc.prems(2) by auto
    note nx = next_page [OF Suc.prems(3) True e]
    obtain s1 where s1: "mmu_map_page va d v p flags s = Some (0, s1)" "mmu_wf s1"
        "\<And>d' w. pte_of s1 d' w = (if d' = d \<and> same_page w v then pte_set p flags (pte_of s d v)
                                else pte_of s d' w)"
        "dom (page_dirs s1) = dom (page_dirs s)" "frame_allocator s1 = frame_allocator s"
        "card (addrs_in_use s1) \<le> Suc (card (addrs_in_use s))"
      using Suc.prems(1) va(1) D
    proof (cases rule: map_page_spec [where v = v and p = p and flags = flags])
      case (failed s1)
      have "card (addrs_in_use s) < VALLOC_ROOM" using Suc.prems(5) by simp
      with failed(2) va(2) show ?thesis unfolding valloc_total_def by blast
    next
      case (mapped s1)
      then show ?thesis by (rule that)
    qed
    have fuel: "unat e \<le> unat (v + PAGE_SIZE) + 4096 * k" using Suc.prems(4) nx(3) by simp
    have d1: "d \<in> dom (page_dirs s1)" using s1(4) Suc.prems(2) by simp
    have room: "card (addrs_in_use s1) + k \<le> VALLOC_ROOM" using s1(6) Suc.prems(5) by simp
    from Suc.IH [OF s1(2) d1 nx(1) fuel room, of "p + PAGE_SIZE"] obtain s'
      where s': "map_range_loop va d e flags k (v + PAGE_SIZE) (p + PAGE_SIZE) s1 = Some (0, s')" "mmu_wf s'"
        "dom (page_dirs s') = dom (page_dirs s1)" "frame_allocator s' = frame_allocator s1"
        "\<forall>d' w. pte_of s' d' w =
           (if d' = d \<and> page_of (v + PAGE_SIZE) \<le> page_of w \<and> 4096 * page_of w < unat e
            then pte_set (p + PAGE_SIZE + (PAGE_ALIGN_DOWN w - (v + PAGE_SIZE))) flags (pte_of s1 d w)
            else pte_of s1 d' w)"
      by blast
    have "pte_of s' d' w = (if d' = d \<and> page_of v \<le> page_of w \<and> 4096 * page_of w < unat e
          then pte_set (p + (PAGE_ALIGN_DOWN w - v)) flags (pte_of s d w) else pte_of s d' w)" for d' w
    proof -
      consider "d' = d" "page_of w = page_of v" | "d' = d" "page_of w < page_of v"
        | "d' = d" "page_of v < page_of w" | "d' \<noteq> d" by linarith
      then show ?thesis
      proof cases
        case 1
        then have same: "same_page w v" by (simp add: same_page_of)
        have "PAGE_ALIGN_DOWN w = v" using 1 v align_down_unat [of w] by (metis unsigned_word_eqI)
        moreover have "4096 * page_of w < unat e" using 1 v True by (simp add: word_less_nat_alt)
        ultimately show ?thesis using 1 s'(5) s1(3) nx(2) same pte_of_same_page [OF same] by simp
      next
        case 2
        then show ?thesis using s'(5) s1(3) nx(2) by (simp add: same_page_of)
      next
        case 3
        then show ?thesis using s'(5) s1(3) nx(2) by (simp add: same_page_of)
      next
        case 4
        then show ?thesis using s'(5) s1(3) by simp
      qed
    qed
    then show ?thesis using True s1 s' by simp
  qed
qed

text \<open>The unmapping loop ends, without undefined behaviour, and clears the pages of the range.\<close>

lemma unmap_range_loop_spec:
  assumes e: "unat e \<le> 0xFFFFF000"
  shows "mmu_wf s \<Longrightarrow> d \<in> dom (page_dirs s) \<Longrightarrow> PAGE_ALIGN_DOWN v = v \<Longrightarrow>
    unat e \<le> unat v + 4096 * k \<Longrightarrow>
    \<exists>s'. unmap_range_loop d e v s = Some s' \<and> mmu_wf s' \<and> page_dirs s' = page_dirs s \<and>
      (\<forall>d' w. pte_of s' d' w =
         (if d' = d \<and> page_of v \<le> page_of w \<and> 4096 * page_of w < unat e \<and> pte_present (pte_of s d w)
          then zero_pte else pte_of s d' w))"
proof (induction k arbitrary: s v)
  case 0
  have v: "unat v = 4096 * page_of v" using "0.prems"(3) by (simp add: aligned_unat)
  have ge: "\<not> v < e" using "0.prems"(4) by (simp add: word_less_nat_alt)
  have "\<not> (page_of v \<le> page_of w \<and> 4096 * page_of w < unat e)" for w
    using "0.prems"(4) v by auto
  then show ?case using "0.prems" ge by (subst unmap_range_loop.simps) auto
next
  case (Suc k)
  have v: "unat v = 4096 * page_of v" using Suc.prems(3) by (simp add: aligned_unat)
  show ?case
  proof (cases "v < e")
    case False
    then have "\<not> (page_of v \<le> page_of w \<and> 4096 * page_of w < unat e)" for w
      using v by (auto simp: word_less_nat_alt)
    with False Suc.prems show ?thesis by (subst unmap_range_loop.simps) auto
  next
    case True
    obtain D where D: "page_dirs s d = Some D" using Suc.prems(2) by auto
    note nx = next_page [OF Suc.prems(3) True e]
    from unmap_page_spec [OF Suc.prems(1) D, of v] obtain s1
      where s1: "mmu_unmap_page d v s = Some (0, s1)" "mmu_wf s1" "page_dirs s1 = page_dirs s"
        "\<forall>d' w. pte_of s1 d' w = (if d' = d \<and> same_page w v \<and> pte_present (pte_of s d v) then zero_pte
                           else pte_of s d' w)" by blast
    have fuel: "unat e \<le> unat (v + PAGE_SIZE) + 4096 * k" using Suc.prems(4) nx(3) by simp
    have d1: "d \<in> dom (page_dirs s1)" using s1(3) Suc.prems(2) by simp
    from Suc.IH [OF s1(2) d1 nx(1) fuel] obtain s'
      where s': "unmap_range_loop d e (v + PAGE_SIZE) s1 = Some s'" "mmu_wf s'" "page_dirs s' = page_dirs s1"
        "\<forall>d' w. pte_of s' d' w =
         (if d' = d \<and> page_of (v + PAGE_SIZE) \<le> page_of w \<and> 4096 * page_of w < unat e \<and>
             pte_present (pte_of s1 d w)
          then zero_pte else pte_of s1 d' w)" by blast
    have "pte_of s' d' w =
         (if d' = d \<and> page_of v \<le> page_of w \<and> 4096 * page_of w < unat e \<and> pte_present (pte_of s d w)
          then zero_pte else pte_of s d' w)" for d' w
    proof -
      consider "d' = d" "page_of w = page_of v" | "d' = d" "page_of w < page_of v"
        | "d' = d" "page_of v < page_of w" | "d' \<noteq> d" by linarith
      then show ?thesis
      proof cases
        case 1
        then have same: "same_page w v" by (simp add: same_page_of)
        moreover have "4096 * page_of w < unat e" using 1 v True by (simp add: word_less_nat_alt)
        ultimately show ?thesis using 1 s'(4) s1(4) nx(2) pte_of_same_page [OF same] by simp
      next
        case 2
        then show ?thesis using s'(4) s1(4) nx(2) by (simp add: same_page_of)
      next
        case 3
        then show ?thesis using s'(4) s1(4) nx(2) by (simp add: same_page_of)
      next
        case 4
        then show ?thesis using s'(4) s1(4) by simp
      qed
    qed
    then show ?thesis using True s1 s' by (subst unmap_range_loop.simps) simp
  qed
qed

lemma page_align_up_le: "unat (PAGE_ALIGN_UP x) \<le> 0xFFFFF000"
proof -
  have "PAGE_ALIGN_UP x = PAGE_ALIGN_DOWN (x + PAGE_SIZE - 1)"
    by (simp add: PAGE_ALIGN_UP_def PAGE_ALIGN_DOWN_def)
  then have "unat (PAGE_ALIGN_UP x) = 4096 * page_of (x + PAGE_SIZE - 1)" by (simp add: align_down_unat)
  moreover have "unat (x + PAGE_SIZE - 1) < 2 ^ 32"
    using unsigned_less [where 'a = nat, of "x + PAGE_SIZE - 1"] by simp
  then have "page_of (x + PAGE_SIZE - 1) \<le> 0xFFFFF" unfolding page_of_def by simp
  ultimately show ?thesis by simp
qed

lemma present_pte_set [simp]:
  "pte_present (pte_set p flags e) \<longleftrightarrow> flags AND PAGE_PRESENT \<noteq> 0"
  "pte_frame (pte_set p flags e) = drop_bit 12 p"
  by (simp_all add: pte_set_def)

lemma zero_pte_absent [simp]: "\<not> pte_present zero_pte"
  by (simp add: zero_pte_def)

text \<open>What an entry makes of an address.\<close>

definition translation :: "PageTableEntry \<Rightarrow> u32 \<Rightarrow> u32" where
  "translation e v = (if pte_present e then push_bit 12 (pte_frame e) OR PAGE_OFFSET v else NOT_MAPPED)"

lemma translate_eq:
  "mmu_wf s \<Longrightarrow> d \<in> dom (page_dirs s) \<Longrightarrow>
     mmu_virtual_to_physical s d v = Some (translation (pte_of s d v) v)"
  using translate_spec by (auto simp: translation_def)

lemma translation_pte_set:
  "flags AND PAGE_PRESENT \<noteq> 0 \<Longrightarrow>
     translation (pte_set p flags e) v = PAGE_ALIGN_DOWN p + PAGE_OFFSET v"
proof -
  assume f: "flags AND PAGE_PRESENT \<noteq> 0"
  have "push_bit 12 (drop_bit 12 p) OR PAGE_OFFSET v
      = push_bit 12 (drop_bit 12 (PAGE_ALIGN_DOWN p)) OR PAGE_OFFSET v"
    by (simp add: align_down_bits [symmetric])
  also have "\<dots> = PAGE_ALIGN_DOWN p + (v - PAGE_ALIGN_DOWN v)" by (rule translate_word) simp
  also have "v - PAGE_ALIGN_DOWN v = PAGE_OFFSET v" using align_down_offset [of v] by (simp add: algebra_simps)
  finally show ?thesis using f by (simp add: translation_def)
qed

section \<open>Ranges\<close>

text \<open>The addresses whose page starts inside a range.\<close>

definition in_pages :: "u32 \<Rightarrow> u32 \<Rightarrow> u32 \<Rightarrow> bool" where
  "in_pages v0 e w \<longleftrightarrow> PAGE_ALIGN_DOWN v0 \<le> w \<and> PAGE_ALIGN_DOWN w < e"

lemma in_pages_iff:
  "in_pages v0 e w \<longleftrightarrow> page_of (PAGE_ALIGN_DOWN v0) \<le> page_of w \<and> 4096 * page_of w < unat e"
proof -
  have "PAGE_ALIGN_DOWN v0 \<le> w \<longleftrightarrow> page_of v0 \<le> page_of w"
    unfolding word_le_nat_alt align_down_unat
    by (metis div_le_mono mult.commute nonzero_mult_div_cancel_left page_of_def times_div_less_eq_dividend
        order_trans mult_le_mono2 zero_neq_numeral)
  then show ?thesis by (simp add: in_pages_def word_less_nat_alt align_down_unat)
qed

lemma map_range_spec:
  assumes va: "valloc_ok va" "valloc_total va" and wf: "mmu_wf s" and d: "d \<in> dom (page_dirs s)"
    and room: "card (addrs_in_use s) + 100000 \<le> VALLOC_ROOM"
    and size: "0 < n" "n \<le> 0x80000000" "unat n \<le> 4096 * 99999"
    and nowrap: "unat v + unat n \<le> 0xFFFFF000"
  shows "\<exists>s'. mmu_map_range va d v p n flags s = Some (0, s') \<and> mmu_wf s' \<and>
    dom (page_dirs s') = dom (page_dirs s) \<and> frame_allocator s' = frame_allocator s \<and>
    (\<forall>d' w. pte_of s' d' w =
       (if d' = d \<and> in_pages v (v + n) w
        then pte_set (PAGE_ALIGN_DOWN p + (PAGE_ALIGN_DOWN w - PAGE_ALIGN_DOWN v)) flags (pte_of s d w)
        else pte_of s d' w))"
proof -
  have sum: "unat (v + n) = unat v + unat n" using nowrap by (simp add: unat_word_ariths)
  have low: "unat v \<le> unat (PAGE_ALIGN_DOWN v) + 4095" by (simp add: align_down_unat page_of_def)
  have e: "unat (v + n) \<le> 0xFFFFF000" using sum nowrap by simp
  have fuel: "unat (v + n) \<le> unat (PAGE_ALIGN_DOWN v) + 4096 * 100000"
    using sum size(3) low by simp
  from map_range_loop_spec [OF va e wf d align_down_idem fuel room, of flags "PAGE_ALIGN_DOWN p"]
  moreover have "n \<noteq> 0" "\<not> 0x80000000 < n" using size(1,2) by auto
  ultimately show ?thesis by (simp add: mmu_map_range_def in_pages_iff)
qed

lemma unmap_range_spec:
  assumes wf: "mmu_wf s" and d: "d \<in> dom (page_dirs s)"
  shows "\<exists>s'. mmu_unmap_range d v n s = Some (0, s') \<and> mmu_wf s' \<and> page_dirs s' = page_dirs s \<and>
    (\<forall>d' w. pte_of s' d' w =
       (if d' = d \<and> in_pages v (PAGE_ALIGN_UP (v + n)) w \<and> pte_present (pte_of s d w)
        then zero_pte else pte_of s d' w))"
proof -
  let ?e = "PAGE_ALIGN_UP (v + n)"
  have "unat ?e \<le> unat (PAGE_ALIGN_DOWN v) + 4096 * 1048576"
    using page_align_up_le [of "v + n"] by simp
  from unmap_range_loop_spec [OF page_align_up_le wf d align_down_idem this]
  show ?thesis by (auto simp: mmu_unmap_range_def in_pages_iff)
qed

section \<open>Properties\<close>


text \<open>
  Unmapping a page always succeeds without undefined behaviour; afterwards no address of
  that page is mapped, all other translations are as before, and the physical frame of the
  page is free in the frame allocator, whoever else maps it.
\<close>

theorem mmu_unmap_page_frees:
  assumes wf: "mmu_wf s" and d: "d \<in> dom (page_dirs s)" and fr: "frames_inv (frame_allocator s)"
  shows "\<exists>s'. mmu_unmap_page d v s = Some (0, s') \<and> mmu_wf s' \<and> frames_inv (frame_allocator s') \<and>
    (\<forall>d' \<in> dom (page_dirs s). \<forall>w. mmu_virtual_to_physical s' d' w
        = (if d' = d \<and> same_page w v then Some NOT_MAPPED else mmu_virtual_to_physical s d' w)) \<and>
    frames_in_use (frame_allocator s') = frames_in_use (frame_allocator s)
        - (if pte_present (pte_of s d v) then {unat (pte_frame (pte_of s d v))} else {})"
proof -
  obtain D where D: "page_dirs s d = Some D" using d by auto
  from unmap_page_spec [OF wf D, of v] obtain s'
    where s': "mmu_unmap_page d v s = Some (0, s')" "mmu_wf s'" "page_dirs s' = page_dirs s"
      "\<forall>d' w. pte_of s' d' w = (if d' = d \<and> same_page w v \<and> pte_present (pte_of s d v) then zero_pte
                           else pte_of s d' w)"
      "frame_allocator s' = (if pte_present (pte_of s d v)
       then mmu_free_frame (pte_frame (pte_of s d v)) (frame_allocator s) else frame_allocator s)"
    by blast
  have "mmu_virtual_to_physical s' d' w
      = (if d' = d \<and> same_page w v then Some NOT_MAPPED else mmu_virtual_to_physical s d' w)"
    if "d' \<in> dom (page_dirs s)" for d' w
    using that wf s' pte_of_same_page [of w v s d] by (auto simp: translate_eq translation_def)
  with s' fr show ?thesis by (auto simp: frames_inv_free frames_in_use_free)
qed

text \<open>
  Mapping a range that does not reach the last page of the address space maps exactly
  its pages, to consecutive physical pages: every address at or above the (aligned) start
  whose page begins before the end translates to the physical start plus its distance, and
  every other address as before.
\<close>

theorem mmu_map_range_translate:
  assumes va: "valloc_ok va" "valloc_total va" and wf: "mmu_wf s" and d: "d \<in> dom (page_dirs s)"
    and room: "card (addrs_in_use s) + 100000 \<le> VALLOC_ROOM"
    and size: "0 < n" "n \<le> 0x80000000" "unat n \<le> 4096 * 99999"
    and nowrap: "unat v + unat n \<le> 0xFFFFF000" and present: "flags AND PAGE_PRESENT \<noteq> 0"
  shows "\<exists>s'. mmu_map_range va d v p n flags s = Some (0, s') \<and> mmu_wf s' \<and>
    (\<forall>d' \<in> dom (page_dirs s). \<forall>w. mmu_virtual_to_physical s' d' w
       = (if d' = d \<and> PAGE_ALIGN_DOWN v \<le> w \<and> PAGE_ALIGN_DOWN w < v + n
          then Some (PAGE_ALIGN_DOWN p + (w - PAGE_ALIGN_DOWN v))
          else mmu_virtual_to_physical s d' w))"
proof -
  from map_range_spec [OF va wf d room size nowrap, of p flags] obtain s'
    where s': "mmu_map_range va d v p n flags s = Some (0, s')" "mmu_wf s'"
      "dom (page_dirs s') = dom (page_dirs s)"
      "\<forall>d' w. pte_of s' d' w =
       (if d' = d \<and> in_pages v (v + n) w
        then pte_set (PAGE_ALIGN_DOWN p + (PAGE_ALIGN_DOWN w - PAGE_ALIGN_DOWN v)) flags (pte_of s d w)
        else pte_of s d' w)" by blast
  have al: "PAGE_ALIGN_DOWN (PAGE_ALIGN_DOWN p + (PAGE_ALIGN_DOWN w - PAGE_ALIGN_DOWN v))
      = PAGE_ALIGN_DOWN p + (PAGE_ALIGN_DOWN w - PAGE_ALIGN_DOWN v)" if "in_pages v (v + n) w" for w
  proof -
    have "PAGE_ALIGN_DOWN v \<le> PAGE_ALIGN_DOWN w"
      using that unfolding in_pages_iff by (simp add: word_le_nat_alt align_down_unat)
    then have "4096 dvd unat (PAGE_ALIGN_DOWN w - PAGE_ALIGN_DOWN v)"
      by (simp add: unat_sub align_down_unat flip: right_diff_distrib')
    then show ?thesis by (intro add_aligned) (simp_all add: aligned_dvd)
  qed
  have "mmu_virtual_to_physical s' d' w
       = (if d' = d \<and> in_pages v (v + n) w then Some (PAGE_ALIGN_DOWN p + (w - PAGE_ALIGN_DOWN v))
          else mmu_virtual_to_physical s d' w)" if "d' \<in> dom (page_dirs s)" for d' w
  proof (cases "d' = d \<and> in_pages v (v + n) w")
    case True
    have "PAGE_ALIGN_DOWN p + (PAGE_ALIGN_DOWN w - PAGE_ALIGN_DOWN v) + PAGE_OFFSET w
        = PAGE_ALIGN_DOWN p + ((PAGE_ALIGN_DOWN w + PAGE_OFFSET w) - PAGE_ALIGN_DOWN v)"
      by (simp add: algebra_simps)
    then have "PAGE_ALIGN_DOWN p + (PAGE_ALIGN_DOWN w - PAGE_ALIGN_DOWN v) + PAGE_OFFSET w
        = PAGE_ALIGN_DOWN p + (w - PAGE_ALIGN_DOWN v)" by (simp only: align_down_offset)
    with True that s' wf present al show ?thesis by (simp add: translate_eq translation_pte_set)
  next
    case False
    with that s' wf show ?thesis by (auto simp: translate_eq)
  qed
  with s' show ?thesis unfolding in_pages_def by blast
qed

text \<open>
  \<^verbatim>\<open>mmu_unmap_range\<close> always terminates, for every start and size (wrapping ones
  included), without undefined behaviour, and afterwards exactly the pages between the
  aligned start and the aligned end are unmapped.
\<close>

theorem mmu_unmap_range_terminates:
  assumes wf: "mmu_wf s" and d: "d \<in> dom (page_dirs s)"
  shows "\<exists>s'. mmu_unmap_range d v n s = Some (0, s') \<and> mmu_wf s' \<and>
    (\<forall>d' \<in> dom (page_dirs s). \<forall>w. mmu_virtual_to_physical s' d' w
       = (if d' = d \<and> PAGE_ALIGN_DOWN v \<le> w \<and> PAGE_ALIGN_DOWN w < PAGE_ALIGN_UP (v + n)
          then Some NOT_MAPPED else mmu_virtual_to_physical s d' w))"
proof -
  from unmap_range_spec [OF wf d, of v n] obtain s'
    where s': "mmu_unmap_range d v n s = Some (0, s')" "mmu_wf s'" "page_dirs s' = page_dirs s"
      "\<forall>d' w. pte_of s' d' w =
       (if d' = d \<and> in_pages v (PAGE_ALIGN_UP (v + n)) w \<and> pte_present (pte_of s d w)
        then zero_pte else pte_of s d' w)" by blast
  have "mmu_virtual_to_physical s' d' w
       = (if d' = d \<and> in_pages v (PAGE_ALIGN_UP (v + n)) w then Some NOT_MAPPED
          else mmu_virtual_to_physical s d' w)" if "d' \<in> dom (page_dirs s)" for d' w
    using that s' wf by (auto simp: translate_eq translation_def)
  with s' show ?thesis unfolding in_pages_def by blast
qed

lemma map_page_kernel_dir:
  "mmu_map_page va d v p flags s = Some (r, s') \<Longrightarrow> kernel_page_directory s' = kernel_page_directory s"
  by (auto simp: mmu_map_page_def get_or_create_page_table_def mmu_flush_tlb_single_def Let_def
    split: if_splits bind_splits option.splits)

lemma map_range_loop_kernel_dir:
  "map_range_loop va d e flags k v p s = Some (r, s') \<Longrightarrow>
     kernel_page_directory s' = kernel_page_directory s"
proof (induction k arbitrary: v p s)
  case 0
  then show ?case by simp
next
  case (Suc k)
  then show ?case by (auto split: if_splits bind_splits dest!: map_page_kernel_dir)
qed

lemma map_range_kernel_dir:
  "mmu_map_range va d v p n flags s = Some (r, s') \<Longrightarrow>
     kernel_page_directory s' = kernel_page_directory s"
  by (auto simp: mmu_map_range_def split: if_splits dest: map_range_loop_kernel_dir)

definition mmu_blank :: "MmuState \<Rightarrow> bool" where
  "mmu_blank s \<longleftrightarrow> page_dirs s = Map.empty \<and> page_tables s = Map.empty \<and> \<not> mmu_initialized s"

lemma new_directory:
  assumes wf: "mmu_wf s" and va: "valloc_ok va" and a: "va (valloc_calls s) (addrs_in_use s) = Some a"
    and new: "page_dirs s = Map.empty"
  shows "mmu_wf (snd (mmu_create_page_directory va s))"
    and "fst (mmu_create_page_directory va s) = a" "a \<noteq> 0"
    and "page_dirs (snd (mmu_create_page_directory va s)) = [a \<mapsto> replicate 1024 zero_pde]"
    and "pte_of (snd (mmu_create_page_directory va s)) a v = zero_pte"
proof -
  have ok: "a \<noteq> 0" using va a by (auto simp: valloc_ok_def)
  then show "a \<noteq> 0" .
  show "fst (mmu_create_page_directory va s) = a"
    and "page_dirs (snd (mmu_create_page_directory va s)) = [a \<mapsto> replicate 1024 zero_pde]"
    using a new by (simp_all add: mmu_create_page_directory_def Let_def)
  show "mmu_wf (snd (mmu_create_page_directory va s))"
    by (rule mmu_wfI) (use a new ok in
      \<open>auto simp: mmu_create_page_directory_def Let_def zero_pde_def split: if_splits\<close>)
  show "pte_of (snd (mmu_create_page_directory va s)) a v = zero_pte"
    using a new by (simp add: mmu_create_page_directory_def Let_def pte_of_def zero_pde_def)
qed

text \<open>
  \<^verbatim>\<open>mmu_init\<close> on an empty machine (with memory for the tables) succeeds and
  establishes the identity map of the 64 MB of physical memory: an address below 64 MB
  translates to itself, every other address is not mapped, and the kernel directory is
  current. The frame allocator however starts with no frame in use, although all of them
  are mapped.
\<close>

theorem mmu_init_identity:
  assumes va: "valloc_ok va" "valloc_total va" and s: "mmu_blank s"
  shows "\<exists>s'. mmu_init va s = Some (0, s') \<and> mmu_wf s' \<and> frames_inv (frame_allocator s') \<and>
    frames_in_use (frame_allocator s') = {} \<and>
    current_page_directory s' = kernel_page_directory s' \<and>
    kernel_page_directory s' \<in> dom (page_dirs s') \<and>
    (\<forall>w. mmu_virtual_to_physical s' (kernel_page_directory s') w
       = Some (if w < PHYSICAL_MEMORY_SIZE then w else NOT_MAPPED))"
proof -
  let ?s1 = "s\<lparr>frame_allocator := frame_allocator_init,
               tlb_stats := \<lparr>entries_flushed = 0, full_flushes = 0, single_flushes = 0\<rparr>\<rparr>"
  have blank: "page_dirs s = Map.empty" "page_tables s = Map.empty" "\<not> mmu_initialized s"
    using s by (simp_all add: mmu_blank_def)
  have wf1: "mmu_wf ?s1" by (rule mmu_wfI) (simp_all add: blank addrs_in_use_def)
  have used: "addrs_in_use ?s1 = {}" by (simp add: addrs_in_use_def blank)
  obtain a where a: "va (valloc_calls ?s1) (addrs_in_use ?s1) = Some a"
    using va(2) used unfolding valloc_total_def VALLOC_ROOM_def
    by (metis card.empty not_None_eq zero_less_numeral)
  obtain dir s2 where cr: "mmu_create_page_directory va ?s1 = (dir, s2)" by fastforce
  have new: "page_dirs ?s1 = Map.empty" by (simp add: blank)
  note nd = new_directory [OF wf1 va(1) a new, unfolded cr snd_conv fst_conv]
  let ?s3 = "s2\<lparr>kernel_page_directory := dir\<rparr>"
  have s2: "addrs_in_use s2 = {a}" "frame_allocator s2 = frame_allocator_init" "\<not> mmu_initialized s2"
    using cr a blank
    by (auto simp: mmu_create_page_directory_def Let_def addrs_in_use_def split: if_splits)
  have wf3: "mmu_wf ?s3" using nd(1) by simp
  have d3: "dir \<in> dom (page_dirs ?s3)" using nd(2,4) by simp
  have room: "card (addrs_in_use ?s3) + 100000 \<le> VALLOC_ROOM"
    using s2(1) by (simp add: addrs_in_use_def VALLOC_ROOM_def)
  let ?fl = "PAGE_PRESENT OR PAGE_WRITABLE OR PAGE_KERNEL"
  have size: "0 < PHYSICAL_MEMORY_SIZE" "PHYSICAL_MEMORY_SIZE \<le> 0x80000000"
      "unat PHYSICAL_MEMORY_SIZE \<le> 4096 * 99999" "unat (0 :: u32) + unat PHYSICAL_MEMORY_SIZE \<le> 0xFFFFF000"
    by (simp_all add: PHYSICAL_MEMORY_SIZE_def)
  have present: "?fl AND PAGE_PRESENT \<noteq> 0" by (simp add: page_flags)
  have al0: "PAGE_ALIGN_DOWN 0 = 0" by (simp add: PAGE_ALIGN_DOWN_def)
  have limit: "PAGE_ALIGN_DOWN w < PHYSICAL_MEMORY_SIZE \<longleftrightarrow> w < PHYSICAL_MEMORY_SIZE" for w
    by (simp add: word_less_nat_alt align_down_unat page_of_def PHYSICAL_MEMORY_SIZE_def)
      linarith
  from map_range_spec [OF va wf3 d3 room size, of 0 ?fl] obtain s4
    where s4: "mmu_map_range va dir 0 0 PHYSICAL_MEMORY_SIZE ?fl ?s3 = Some (0, s4)" "mmu_wf s4"
      "dom (page_dirs s4) = dom (page_dirs ?s3)" "frame_allocator s4 = frame_allocator ?s3"
      "\<forall>d' w. pte_of s4 d' w = (if d' = dir \<and> in_pages 0 (0 + PHYSICAL_MEMORY_SIZE) w
        then pte_set (PAGE_ALIGN_DOWN 0 + (PAGE_ALIGN_DOWN w - PAGE_ALIGN_DOWN 0)) ?fl (pte_of ?s3 dir w)
        else pte_of ?s3 d' w)" by blast
  have kdir: "kernel_page_directory s4 = dir"
    using s4(1) by (rule map_range_kernel_dir [THEN trans]) simp
  let ?s5 = "s4\<lparr>current_page_directory := kernel_page_directory s4, mmu_initialized := True\<rparr>"
  have "mmu_init va s = Some (0, ?s5)"
    using cr nd(2,3) s4(1) blank by (simp add: mmu_init_def mmu_identity_map_range_def Let_def)
  moreover have "mmu_wf ?s5" "frames_inv (frame_allocator ?s5)" "frames_in_use (frame_allocator ?s5) = {}"
    using s4(2,4) s2(2) by (simp_all add: frames_inv_init frames_in_use_init)
  moreover have "mmu_virtual_to_physical ?s5 dir w
      = Some (if w < PHYSICAL_MEMORY_SIZE then w else NOT_MAPPED)" for w
  proof -
    have "dir \<in> dom (page_dirs ?s5)" using s4(3) d3 by simp
    then have "mmu_virtual_to_physical ?s5 dir w = Some (translation (pte_of s4 dir w) w)"
      using translate_eq [OF \<open>mmu_wf ?s5\<close>] by simp
    moreover have "translation (pte_of s4 dir w) w
        = (if w < PHYSICAL_MEMORY_SIZE then w else NOT_MAPPED)"
    proof (cases "w < PHYSICAL_MEMORY_SIZE")
      case True
      then have "in_pages 0 (0 + PHYSICAL_MEMORY_SIZE) w" by (simp add: in_pages_def al0 limit)
      with s4(5) True present show ?thesis
        by (simp add: al0 translation_pte_set align_down_offset)
    next
      case False
      then have "\<not> in_pages 0 (0 + PHYSICAL_MEMORY_SIZE) w" by (simp add: in_pages_def al0 limit)
      with s4(5) False nd(2,5) show ?thesis by (simp add: translation_def)
    qed
    ultimately show ?thesis by simp
  qed
  ultimately show ?thesis using kdir s4(3) d3 by (intro exI [of _ ?s5]) auto
qed

text \<open>
  Changing the protection of a mapped page is read back exactly: the page stays present,
  writable and user flags are the ones given, the translation of every address is unchanged;
  on an unmapped page -1 is returned and nothing changes.
\<close>

theorem mmu_set_get_flags:
  assumes wf: "mmu_wf s" and d: "d \<in> dom (page_dirs s)"
  shows "\<exists>r s'. mmu_set_page_flags d v flags s = Some (r, s') \<and> mmu_wf s' \<and>
    (r = 0 \<longleftrightarrow> pte_present (pte_of s d v)) \<and>
    mmu_get_page_flags s' d v
      = Some (if r = 0 then PAGE_PRESENT OR (flags AND (PAGE_WRITABLE OR PAGE_USER)) else 0) \<and>
    (\<forall>d' \<in> dom (page_dirs s). \<forall>w. mmu_virtual_to_physical s' d' w = mmu_virtual_to_physical s d' w)"
proof -
  obtain D where D: "page_dirs s d = Some D" using d by auto
  from set_flags_spec [OF wf D, of v flags] obtain s'
    where s': "mmu_set_page_flags d v flags s = Some (if pte_present (pte_of s d v) then 0 else -1, s')"
      "mmu_wf s'" "page_dirs s' = page_dirs s"
      "\<forall>d' w. pte_of s' d' w = (if d' = d \<and> same_page w v \<and> pte_present (pte_of s d v)
        then (pte_of s d v)\<lparr>pte_writable := (flags AND PAGE_WRITABLE \<noteq> 0),
                            pte_user_mode := (flags AND PAGE_USER \<noteq> 0)\<rparr>
        else pte_of s d' w)" by blast
  have D': "page_dirs s' d = Some D" using s'(3) D by simp
  have bits: "(flags AND PAGE_WRITABLE \<noteq> 0) = bit flags 1" "(flags AND PAGE_USER \<noteq> 0) = bit flags 2"
    using bit_iff_and_push_bit_not_eq_0 [of flags 1] bit_iff_and_push_bit_not_eq_0 [of flags 2]
    by (simp_all add: page_flags)
  have low: "(flags AND (PAGE_WRITABLE OR PAGE_USER))
      = (if bit flags 1 then PAGE_WRITABLE else 0) OR (if bit flags 2 then PAGE_USER else 0)"
  proof -
    have gen: "bit (2 ^ k :: u32) n \<longleftrightarrow> n = k" if "k < 32" for k n
      using that by (auto simp: bit_exp_iff)
    have pow: "PAGE_WRITABLE = 2 ^ 1" "PAGE_USER = 2 ^ 2" by (simp_all add: page_flags)
    have e: "bit PAGE_WRITABLE n \<longleftrightarrow> n = 1" "bit PAGE_USER n \<longleftrightarrow> n = 2" for n
      unfolding pow using gen [of 1 n] gen [of 2 n] by simp_all
    show ?thesis by (rule bit_word_eqI) (auto simp: bit_and_iff bit_or_iff e)
  qed
  have flags_read: "mmu_get_page_flags s' d v = Some (if pte_present (pte_of s d v)
      then PAGE_PRESENT OR (flags AND (PAGE_WRITABLE OR PAGE_USER)) else 0)"
    using get_flags_spec [OF s'(2) D'] s'(4) bits low by (auto simp: or.assoc)
  have "mmu_virtual_to_physical s' d' w = mmu_virtual_to_physical s d' w"
    if "d' \<in> dom (page_dirs s)" for d' w
    using that wf s' pte_of_same_page [of w v s d] by (auto simp: translate_eq translation_def)
  with s' flags_read show ?thesis
    by (intro exI [of _ "if pte_present (pte_of s d v) then 0 else -1"] exI [of _ s']) auto
qed

section \<open>Witnesses\<close>

text \<open>An allocator for the witnesses: the lowest page, page 0 excluded, that is not in use.\<close>

definition low_pages :: "u64 list" where
  "low_pages = map (\<lambda>i. of_nat (4096 * i)) [1..<262146]"

definition low_valloc :: vallocator where
  "low_valloc n U = find (\<lambda>a. a \<notin> U) low_pages"

lemma low_page: "i < 262146 \<Longrightarrow> unat (of_nat (4096 * i) :: u64) = 4096 * i"
  by (simp add: unat_of_nat take_bit_nat_eq_self del: of_nat_mult)

lemma low_valloc_ok: "valloc_ok low_valloc"
proof -
  have "a \<noteq> 0 \<and> a AND 0xFFF = 0 \<and> a < 0x80000000" if "a \<in> set low_pages" for a
  proof -
    from that obtain i where i: "1 \<le> i" "i < 262146" "a = of_nat (4096 * i)" by (auto simp: low_pages_def)
    have u: "unat a = 4096 * i" using low_page [OF i(2)] i(3) by simp
    have "a \<noteq> 0" using u i(1) by auto
    moreover have "unat (take_bit 12 a) = 0" using u by (simp add: unsigned_take_bit_eq take_bit_nat_def)
    then have "a AND 0xFFF = 0" by (simp add: take_bit_eq_mask mask_eq_exp_minus_1 unat_eq_0)
    moreover have "a < 0x80000000" using u i(2) by (simp add: word_less_nat_alt)
    ultimately show ?thesis by simp
  qed
  then show ?thesis
    unfolding valloc_ok_def low_valloc_def by (metis find_Some_iff nth_mem)
qed

lemma low_valloc_total: "valloc_total low_valloc"
proof -
  have "distinct low_pages"
    unfolding low_pages_def distinct_map
    by (auto intro!: inj_onI dest!: arg_cong [where f = unat] simp: low_page simp del: of_nat_mult)
  then have "card (set low_pages) = 262145" by (simp add: distinct_card) (simp add: low_pages_def)
  then have "\<not> set low_pages \<subseteq> U" if "card U < VALLOC_ROOM" for U
    using that card_mono [of U "set low_pages"] by (auto simp: VALLOC_ROOM_def)
  then show ?thesis by (auto simp: valloc_total_def low_valloc_def find_None_iff)
qed

definition blank_mmu :: MmuState where
  "blank_mmu = \<lparr>frame_allocator = frame_allocator_init,
     tlb_stats = \<lparr>entries_flushed = 0, full_flushes = 0, single_flushes = 0\<rparr>,
     page_dirs = Map.empty, page_tables = Map.empty, kernel_page_directory = 0,
     current_page_directory = 0, paging_enabled = False, mmu_initialized = False, valloc_calls = 0\<rparr>"

text \<open>One directory with one table, in which page 5 is mapped to frame 7.\<close>

definition demo_mmu :: MmuState where
  "demo_mmu = blank_mmu\<lparr>
     page_dirs := [0x1000 \<mapsto> (replicate 1024 zero_pde)[0 := zero_pde\<lparr>pde_present := True, pde_table_addr := 2\<rparr>]],
     page_tables := [0x2000 \<mapsto> (replicate 1024 zero_pte)[5 := pte_set 0x7000 PAGE_PRESENT zero_pte]]\<rparr>"

lemma demo_mmu_wf: "mmu_wf demo_mmu"
proof (rule mmu_wfI)
  have ptr: "table_ptr (zero_pde\<lparr>pde_present := True, pde_table_addr := 2\<rparr>) = 0x2000" by (simp add: table_ptr_def)
  show "finite (addrs_in_use demo_mmu)" by (simp add: addrs_in_use_def)
  show "d \<noteq> 0 \<and> length D = 1024" if "page_dirs demo_mmu d = Some D" for d D
    using that by (auto simp: demo_mmu_def split: if_splits)
  show "table_ptr (D ! i) \<noteq> 0 \<and> (\<exists>T. page_tables demo_mmu (table_ptr (D ! i)) = Some T \<and> length T = 1024)"
    if "page_dirs demo_mmu d = Some D" "i < 1024" "pde_present (D ! i)" for d D i
    using that ptr by (auto simp: demo_mmu_def nth_list_update zero_pde_def split: if_splits)
  show "d = d' \<and> i = j" if "page_dirs demo_mmu d = Some D" "page_dirs demo_mmu d' = Some D'"
    "i < 1024" "j < 1024" "pde_present (D ! i)" "pde_present (D' ! j)" for d D d' D' i j
    using that by (auto simp: demo_mmu_def nth_list_update zero_pde_def split: if_splits)
qed

lemma demo_mmu_dir: "0x1000 \<in> dom (page_dirs demo_mmu)"
  by (simp add: demo_mmu_def)

lemma demo_mmu_pte: "pte_of demo_mmu 0x1000 0x5123 = pte_set 0x7000 PAGE_PRESENT zero_pte"
proof -
  have "PD_INDEX 0x5123 = 0" "PT_INDEX 0x5123 = 5" by (simp_all add: PD_INDEX_def PT_INDEX_def)
  then show ?thesis by (simp add: pte_of_def demo_mmu_def table_ptr_def)
qed

lemma demo_mmu_card: "card (addrs_in_use demo_mmu) \<le> 2"
proof -
  have "addrs_in_use demo_mmu = {0x1000, 0x2000}" by (auto simp: addrs_in_use_def demo_mmu_def split: if_splits)
  then show ?thesis by simp
qed


lemma mmu_unmap_page_frees_witness:
  "\<exists>s'. mmu_unmap_page 0x1000 0x5123 demo_mmu = Some (0, s') \<and>
     mmu_virtual_to_physical s' 0x1000 0x5123 = Some NOT_MAPPED"
proof -
  have "frames_inv (frame_allocator demo_mmu)" by (simp add: demo_mmu_def blank_mmu_def frames_inv_init)
  from mmu_unmap_page_frees [OF demo_mmu_wf demo_mmu_dir this, of "0x5123"]
  obtain s' where s': "mmu_unmap_page 0x1000 0x5123 demo_mmu = Some (0, s')"
    "\<forall>d' \<in> dom (page_dirs demo_mmu). \<forall>w. mmu_virtual_to_physical s' d' w
        = (if d' = 0x1000 \<and> same_page w 0x5123 then Some NOT_MAPPED
           else mmu_virtual_to_physical demo_mmu d' w)" by blast
  with demo_mmu_dir show ?thesis by auto
qed

lemma mmu_map_range_translate_witness:
  "\<exists>s'. mmu_map_range low_valloc 0x1000 0x40000000 0x10000 0x3000 PAGE_PRESENT demo_mmu = Some (0, s') \<and>
     mmu_virtual_to_physical s' 0x1000 0x40002ABC = Some 0x12ABC"
proof -
  have room: "card (addrs_in_use demo_mmu) + 100000 \<le> VALLOC_ROOM"
    using demo_mmu_card by (simp add: VALLOC_ROOM_def)
  have "PAGE_PRESENT AND PAGE_PRESENT \<noteq> 0" by (simp add: page_flags)
  from mmu_map_range_translate [OF low_valloc_ok low_valloc_total demo_mmu_wf demo_mmu_dir room _ _ _ _ this,
      of "0x3000" "0x40000000" "0x10000"]
  obtain s' where s': "mmu_map_range low_valloc 0x1000 0x40000000 0x10000 0x3000 PAGE_PRESENT demo_mmu = Some (0, s')"
    "\<forall>d' \<in> dom (page_dirs demo_mmu). \<forall>w. mmu_virtual_to_physical s' d' w
       = (if d' = 0x1000 \<and> PAGE_ALIGN_DOWN 0x40000000 \<le> w \<and> PAGE_ALIGN_DOWN w < 0x40000000 + 0x3000
          then Some (PAGE_ALIGN_DOWN 0x10000 + (w - PAGE_ALIGN_DOWN 0x40000000))
          else mmu_virtual_to_physical demo_mmu d' w)" by auto
  have "PAGE_ALIGN_DOWN 0x40000000 = 0x40000000" "PAGE_ALIGN_DOWN 0x40002ABC = 0x40002000"
    "PAGE_ALIGN_DOWN 0x10000 = 0x10000" by (simp_all add: PAGE_ALIGN_DOWN_def PAGE_MASK_def)
  with s' demo_mmu_dir show ?thesis by (auto intro!: exI [of _ s'])
qed

lemma mmu_unmap_range_terminates_witness:
  "\<exists>s'. mmu_unmap_range 0x1000 0x5000 0x800 demo_mmu = Some (0, s') \<and>
     mmu_virtual_to_physical s' 0x1000 0x5FFF = Some NOT_MAPPED"
proof -
  from mmu_unmap_range_terminates [OF demo_mmu_wf demo_mmu_dir, of "0x5000" "0x800"]
  obtain s' where s': "mmu_unmap_range 0x1000 0x5000 0x800 demo_mmu = Some (0, s')"
    "\<forall>d' \<in> dom (page_dirs demo_mmu). \<forall>w. mmu_virtual_to_physical s' d' w
       = (if d' = 0x1000 \<and> PAGE_ALIGN_DOWN 0x5000 \<le> w \<and> PAGE_ALIGN_DOWN w < PAGE_ALIGN_UP (0x5000 + 0x800)
          then Some NOT_MAPPED else mmu_virtual_to_physical demo_mmu d' w)" by auto
  have "PAGE_ALIGN_DOWN 0x5000 = 0x5000" "PAGE_ALIGN_DOWN 0x5FFF = 0x5000" "PAGE_ALIGN_UP (0x5000 + 0x800) = 0x6000"
    by (simp_all add: PAGE_ALIGN_DOWN_def PAGE_ALIGN_UP_def PAGE_SIZE_def PAGE_MASK_def)
  with s' demo_mmu_dir show ?thesis by (auto intro!: exI [of _ s'])
qed

lemma mmu_init_identity_witness:
  "\<exists>s'. mmu_init low_valloc blank_mmu = Some (0, s') \<and>
     mmu_virtual_to_physical s' (kernel_page_directory s') 0x123456 = Some 0x123456 \<and>
     mmu_virtual_to_physical s' (kernel_page_directory s') 0x4000000 = Some NOT_MAPPED"
proof -
  have "mmu_blank blank_mmu" by (simp add: mmu_blank_def blank_mmu_def)
  from mmu_init_identity [OF low_valloc_ok low_valloc_total this] show ?thesis
    by (auto simp: PHYSICAL_MEMORY_SIZE_def)
qed

lemma mmu_set_get_flags_witness:
  "\<exists>s'. mmu_set_page_flags 0x1000 0x5123 PAGE_WRITABLE demo_mmu = Some (0, s') \<and>
     mmu_get_page_flags s' 0x1000 0x5123 = Some 3"
proof -
  have "pte_present (pte_of demo_mmu 0x1000 0x5123)" by (simp add: demo_mmu_pte page_flags)
  with mmu_set_get_flags [OF demo_mmu_wf demo_mmu_dir, of "0x5123" PAGE_WRITABLE] show ?thesis
    by (auto simp: page_flags)
qed

section \<open>Divergences\<close>

text \<open>Mapping the last page of the address space reports success and maps nothing: the end
  of the range wraps to 0.\<close>

lemma map_range_top_maps_nothing:
  "mmu_map_range va d 0xFFFFF000 p 0x1000 flags s = Some (0, s)"
proof -
  have "map_range_loop va d 0 flags k v q s = Some (0, s)" for k v q by (cases k) simp_all
  moreover have "(0xFFFFF000 :: u32) + 0x1000 = 0" by simp
  moreover have "(0x1000 :: u32) \<noteq> 0" "\<not> (0x80000000 :: u32) < 0x1000" by simp_all
  ultimately show ?thesis unfolding mmu_map_range_def by presburger
qed

text \<open>A table allocated at or above 4 GB is lost: its directory entry leads elsewhere, and the
  next access through it is undefined.\<close>

lemma high_table_lost:
  "\<exists>s'. mmu_map_page (\<lambda>_ _. Some 0x100003000) 0x1000 0x40000000 0x9000 PAGE_PRESENT demo_mmu = Some (0, s') \<and>
     mmu_virtual_to_physical s' 0x1000 0x40000000 = None"
  by (simp add: mmu_map_page_def get_or_create_page_table_def demo_mmu_def Let_def PD_INDEX_def
      PT_INDEX_def zero_pde_def mmu_flush_tlb_single_def mmu_virtual_to_physical_def table_ptr_def)

text \<open>A mapped address may translate to the value that means not mapped.\<close>

lemma top_frame_looks_unmapped:
  "translation (pte_set 0xFFFFF000 PAGE_PRESENT zero_pte) 0x5FFF = NOT_MAPPED"
  by (simp add: translation_pte_set page_flags PAGE_ALIGN_DOWN_def PAGE_MASK_def PAGE_OFFSET_def NOT_MAPPED_def)

end
