(* ===== verification/Keyboard.thy ===== *)
theory Keyboard
  imports Fifo
begin

text \<open>
  The keyboard ring buffer of \<^verbatim>\<open>src/kernel/interrupts.c\<close>: 256 scancodes, a read and a write
  position and a count. The C ints of the positions never leave 0..256 and are naturals.
\<close>

definition KB_BUFFER_SIZE :: nat where "KB_BUFFER_SIZE = 256"

record KeyboardBuffer =
  kb_buffer :: "u8 list"
  kb_read_pos :: nat
  kb_write_pos :: nat
  kb_count :: nat

definition kb_empty :: KeyboardBuffer where
  "kb_empty = \<lparr>kb_buffer = replicate KB_BUFFER_SIZE 0, kb_read_pos = 0, kb_write_pos = 0, kb_count = 0\<rparr>"

text \<open>The insertion of \<^verbatim>\<open>irq_keyboard\<close>, for any scancode.\<close>

definition kb_put :: "u8 \<Rightarrow> KeyboardBuffer \<Rightarrow> KeyboardBuffer" where
  "kb_put scancode k =
     (if kb_count k < KB_BUFFER_SIZE
      then k\<lparr>kb_buffer := (kb_buffer k)[kb_write_pos k := scancode],
             kb_write_pos := (kb_write_pos k + 1) mod KB_BUFFER_SIZE,
             kb_count := kb_count k + 1\<rparr>
      else k)"

definition interrupts_keyboard_getchar :: "KeyboardBuffer \<Rightarrow> u8 \<times> KeyboardBuffer" where
  "interrupts_keyboard_getchar k =
     (if kb_count k = 0 then (0, k)
      else (kb_buffer k ! kb_read_pos k,
            k\<lparr>kb_read_pos := (kb_read_pos k + 1) mod KB_BUFFER_SIZE, kb_count := kb_count k - 1\<rparr>))"

definition interrupts_keyboard_available :: "KeyboardBuffer \<Rightarrow> int" where
  "interrupts_keyboard_available k = of_cbool (0 < kb_count k)"

section \<open>The ring as a bounded queue\<close>

definition kb_contents :: "KeyboardBuffer \<Rightarrow> u8 list" where
  "kb_contents k =
     map (\<lambda>i. kb_buffer k ! ((kb_read_pos k + i) mod KB_BUFFER_SIZE)) [0..<kb_count k]"

definition kb_inv :: "KeyboardBuffer \<Rightarrow> bool" where
  "kb_inv k \<longleftrightarrow> length (kb_buffer k) = KB_BUFFER_SIZE \<and> kb_read_pos k < KB_BUFFER_SIZE \<and>
     kb_count k \<le> KB_BUFFER_SIZE \<and> kb_write_pos k = (kb_read_pos k + kb_count k) mod KB_BUFFER_SIZE"

lemma length_kb_contents [simp]: "length (kb_contents k) = kb_count k"
  by (simp add: kb_contents_def)

lemma kb_empty_rep [vm_inv]: "kb_inv kb_empty" "kb_contents kb_empty = []"
  by (simp_all add: kb_inv_def kb_contents_def kb_empty_def KB_BUFFER_SIZE_def)

lemma ring_pos_neq:
  assumes "r < n" and "c < n" and "i < c"
  shows "(r + i) mod n \<noteq> (r + c) mod (n :: nat)"
proof -
  have "(r + x) mod n = (if r + x < n then r + x else r + x - n)" if "x < n" for x
    using that assms(1) by (simp add: mod_if)
  from this [of i] this [of c] assms show ?thesis by (auto split: if_splits)
qed

lemma kb_put_rep:
  assumes inv: "kb_inv k"
  shows "kb_inv (kb_put c k)"
    and "kb_contents (kb_put c k) = (if kb_count k < KB_BUFFER_SIZE then kb_contents k @ [c] else kb_contents k)"
proof -
  have len: "length (kb_buffer k) = KB_BUFFER_SIZE" and rd: "kb_read_pos k < KB_BUFFER_SIZE"
    and wr: "kb_write_pos k = (kb_read_pos k + kb_count k) mod KB_BUFFER_SIZE"
    using inv by (simp_all add: kb_inv_def)
  have wrl: "kb_write_pos k < KB_BUFFER_SIZE" by (simp add: wr KB_BUFFER_SIZE_def)
  show "kb_inv (kb_put c k)"
    using len rd wr inv by (simp add: kb_inv_def kb_put_def mod_Suc_eq)
  show "kb_contents (kb_put c k) = (if kb_count k < KB_BUFFER_SIZE then kb_contents k @ [c] else kb_contents k)"
  proof (cases "kb_count k < KB_BUFFER_SIZE")
    case True
    have "kb_write_pos k \<noteq> (kb_read_pos k + i) mod KB_BUFFER_SIZE" if "i < kb_count k" for i
      using ring_pos_neq [OF rd True that] wr by simp
    with True len wrl wr show ?thesis by (auto simp: kb_contents_def kb_put_def)
  next
    case False
    then show ?thesis by (simp add: kb_put_def)
  qed
qed

lemma kb_get_rep:
  assumes inv: "kb_inv k"
  shows "kb_inv (snd (interrupts_keyboard_getchar k))"
    and "kb_contents k = c # cs \<Longrightarrow>
      interrupts_keyboard_getchar k = (c, snd (interrupts_keyboard_getchar k)) \<and>
      kb_contents (snd (interrupts_keyboard_getchar k)) = cs"
    and "kb_contents k = [] \<Longrightarrow> interrupts_keyboard_getchar k = (0, k)"
proof -
  have pos: "0 < KB_BUFFER_SIZE" by (simp add: KB_BUFFER_SIZE_def)
  have wr: "kb_write_pos k = (kb_read_pos k + kb_count k) mod KB_BUFFER_SIZE" and rd: "kb_read_pos k < KB_BUFFER_SIZE"
    using inv by (simp_all add: kb_inv_def)
  have shift: "((kb_read_pos k + 1) mod KB_BUFFER_SIZE + i) mod KB_BUFFER_SIZE
      = (kb_read_pos k + Suc i) mod KB_BUFFER_SIZE" for i
    by (simp add: mod_add_left_eq)
  show "kb_inv (snd (interrupts_keyboard_getchar k))"
    using inv pos shift [of "kb_count k - 1"]
    by (auto simp: kb_inv_def interrupts_keyboard_getchar_def)
  show "interrupts_keyboard_getchar k = (0, k)" if "kb_contents k = []"
  proof -
    have "kb_count k = 0" using that length_kb_contents [of k] by simp
    then show ?thesis by (simp add: interrupts_keyboard_getchar_def)
  qed
  show "interrupts_keyboard_getchar k = (c, snd (interrupts_keyboard_getchar k)) \<and>
      kb_contents (snd (interrupts_keyboard_getchar k)) = cs" if cs: "kb_contents k = c # cs"
  proof -
    obtain m where m: "kb_count k = Suc m" using cs length_kb_contents [of k] by (cases "kb_count k") auto
    have "kb_contents k = (kb_buffer k ! kb_read_pos k)
        # map (\<lambda>i. kb_buffer k ! ((kb_read_pos k + Suc i) mod KB_BUFFER_SIZE)) [0..<m]"
      unfolding kb_contents_def m upt_conv_Cons [OF zero_less_Suc] using rd
      by (simp add: map_Suc_upt [symmetric] del: map_Suc_upt upt_Suc)
    with cs show ?thesis using m shift
      by (auto simp: interrupts_keyboard_getchar_def kb_contents_def)
  qed
qed

text \<open>The ring provides the buffer contract; an insertion needs a free place.\<close>

definition kb_enq :: "unit \<Rightarrow> u8 \<Rightarrow> KeyboardBuffer \<Rightarrow> KeyboardBuffer option" where
  "kb_enq u c k = Some (kb_put c k)"

definition kb_deq :: "KeyboardBuffer \<Rightarrow> (u8 option \<times> KeyboardBuffer) option" where
  "kb_deq k = Some (if interrupts_keyboard_available k = 0 then (None, k)
                    else map_prod Some id (interrupts_keyboard_getchar k))"

interpretation kring: fifo "\<lambda>k cs. kb_inv k \<and> kb_contents k = cs" "\<lambda>_ k. kb_count k < KB_BUFFER_SIZE" kb_enq kb_deq
proof unfold_locales
  show "\<exists>k'. kb_enq u c k = Some k' \<and> kb_inv k' \<and> kb_contents k' = cs @ [c]"
    if "kb_inv k \<and> kb_contents k = cs" and "kb_count k < KB_BUFFER_SIZE" for k cs and u :: unit and c
    using that kb_put_rep [of k c] by (simp add: kb_enq_def)
  show "kb_deq k = Some (None, k)" if "kb_inv k \<and> kb_contents k = []" for k
    using that length_kb_contents [of k] by (simp add: kb_deq_def interrupts_keyboard_available_def)
  show "\<exists>k'. kb_deq k = Some (Some c, k') \<and> kb_inv k' \<and> kb_contents k' = cs"
    if "kb_inv k \<and> kb_contents k = c # cs" for k c cs
  proof -
    from that have "0 < kb_count k" using length_kb_contents [of k] by (cases "kb_count k") auto
    moreover from that kb_get_rep(1) [of k] kb_get_rep(2) [of k c cs] obtain k' where
      "interrupts_keyboard_getchar k = (c, k')" "kb_inv k'" "kb_contents k' = cs"
      by (metis snd_conv)
    ultimately show ?thesis by (simp add: kb_deq_def interrupts_keyboard_available_def)
  qed
qed

section \<open>Properties\<close>

lemma kb_fold_put:
  "kb_inv k \<Longrightarrow> kb_inv (fold kb_put cs k) \<and>
     kb_contents (fold kb_put cs k) = take KB_BUFFER_SIZE (kb_contents k @ cs)"
proof (induction cs arbitrary: k)
  case Nil
  have "length (kb_contents k) \<le> KB_BUFFER_SIZE" using Nil by (simp add: kb_inv_def)
  with Nil show ?case by simp
next
  case (Cons c cs)
  have le: "length (kb_contents k) \<le> KB_BUFFER_SIZE" using Cons.prems by (simp add: kb_inv_def)
  show ?case
    using Cons.IH [OF kb_put_rep(1) [OF Cons.prems, of c]] kb_put_rep(2) [OF Cons.prems, of c] le
    by (auto simp: take_Cons' Suc_diff_Suc)
qed


end
