(* ===== verification/Interrupts.thy ===== *)
theory Interrupts
  imports Scheduler Mmu Keyboard
begin

text \<open>
  The interrupt controller of \<^verbatim>\<open>src/kernel/interrupts.c\<close>: descriptor table, handler table,
  statistics and dispatch, with the timer driving the scheduler, the keyboard filling its
  ring and the page fault calling the MMU. Handlers are the functions of the file; the low
  32 bits of their addresses, which the gates keep, are given by \<open>fn\<close>. Handlers whose body
  only prints leave the state alone.
\<close>

section \<open>State\<close>

datatype InterruptHandler =
  exception_divide_error | exception_debug | exception_nmi | exception_breakpoint
| exception_overflow | exception_bound_range | exception_invalid_opcode
| exception_device_not_available | exception_double_fault | exception_invalid_tss
| exception_segment_not_present | exception_stack_fault | exception_general_protection
| exception_page_fault | exception_fpu_error | exception_alignment_check
| exception_machine_check | exception_simd_exception
| irq_timer | irq_keyboard | irq_cascade | irq_com2 | irq_com1 | irq_lpt2 | irq_floppy
| irq_lpt1 | irq_rtc | irq_mouse | irq_coprocessor | irq_primary_ata | irq_secondary_ata
| interrupt_syscall_handler

definition INT_IRQ_BASE :: u8 where "INT_IRQ_BASE = 0x20"
definition INT_TIMER :: u8 where "INT_TIMER = 0x20"
definition INT_KEYBOARD :: u8 where "INT_KEYBOARD = 0x21"
definition INT_SYSCALL :: u8 where "INT_SYSCALL = 0x80"
definition MAX_INTERRUPTS :: nat where "MAX_INTERRUPTS = 256"

record IDTEntry =
  offset_low :: u16
  selector :: u16
  zero :: u8
  type_attr :: u8
  offset_high :: u16

record InterruptContext =
  int_no :: u32
  err_code :: u32
  eip :: u32
  eax :: u32

record InterruptStats =
  total_interrupts :: u64
  handled_interrupts :: u64
  spurious_interrupts :: u64
  nested_interrupts :: u64
  interrupt_counts :: "u64 list"

record InterruptController =
  idt :: "IDTEntry list"
  handlers :: "InterruptHandler option list"
  int_stats :: InterruptStats
  interrupts_enabled :: bool
  nested_level :: int
  interrupt_mask :: u32

record int_world =
  int_controller :: InterruptController
  interrupts_initialized :: bool
  system_ticks :: u64
  timer_frequency :: u64
  keyboard :: KeyboardBuffer
  int_sched :: sched_world
  int_mmu :: MmuState

definition zero_gate :: IDTEntry where
  "zero_gate = \<lparr>offset_low = 0, selector = 0, zero = 0, type_attr = 0, offset_high = 0\<rparr>"

definition zero_controller :: InterruptController where
  "zero_controller =
     \<lparr>idt = replicate MAX_INTERRUPTS zero_gate, handlers = replicate MAX_INTERRUPTS None,
      int_stats = \<lparr>total_interrupts = 0, handled_interrupts = 0, spurious_interrupts = 0,
                   nested_interrupts = 0, interrupt_counts = replicate MAX_INTERRUPTS 0\<rparr>,
      interrupts_enabled = False, nested_level = 0, interrupt_mask = 0\<rparr>"

section \<open>Descriptor and handler tables\<close>

definition idt_set_gate ::
  "u8 \<Rightarrow> u32 \<Rightarrow> u16 \<Rightarrow> u8 \<Rightarrow> InterruptController \<Rightarrow> InterruptController" where
  "idt_set_gate num handler sel flags c =
     c\<lparr>idt := (idt c)[unat num :=
        \<lparr>offset_low = ucast (handler AND 0xFFFF), selector = sel, zero = 0, type_attr = flags,
         offset_high = ucast (drop_bit 16 handler AND 0xFFFF)\<rparr>]\<rparr>"

text \<open>\<^verbatim>\<open>int_no >= MAX_INTERRUPTS\<close> is never true of a \<^verbatim>\<open>uint8_t\<close>; the test is kept.\<close>

definition interrupt_register_handler ::
  "(InterruptHandler \<Rightarrow> u32) \<Rightarrow> u8 \<Rightarrow> InterruptHandler \<Rightarrow> InterruptController \<Rightarrow> InterruptController" where
  "interrupt_register_handler fn n handler c =
     (if MAX_INTERRUPTS \<le> unat n then c
      else (let c1 = c\<lparr>handlers := (handlers c)[unat n := Some handler]\<rparr>;
                flags = (if n = INT_SYSCALL then 0xEE else 0x8E)
            in idt_set_gate n (fn handler) 0x08 flags c1))"

definition interrupt_unregister_handler :: "u8 \<Rightarrow> InterruptController \<Rightarrow> InterruptController" where
  "interrupt_unregister_handler n c =
     (if MAX_INTERRUPTS \<le> unat n then c else c\<lparr>handlers := (handlers c)[unat n := None]\<rparr>)"

text \<open>The registrations of \<^verbatim>\<open>interrupts_init\<close>, in order.\<close>

definition boot_handlers :: "(u8 \<times> InterruptHandler) list" where
  "boot_handlers =
     [(0x00, exception_divide_error), (0x01, exception_debug), (0x02, exception_nmi),
      (0x03, exception_breakpoint), (0x04, exception_overflow), (0x05, exception_bound_range),
      (0x06, exception_invalid_opcode), (0x07, exception_device_not_available),
      (0x08, exception_double_fault), (0x0A, exception_invalid_tss),
      (0x0B, exception_segment_not_present), (0x0C, exception_stack_fault),
      (0x0D, exception_general_protection), (0x0E, exception_page_fault),
      (0x10, exception_fpu_error), (0x11, exception_alignment_check),
      (0x12, exception_machine_check), (0x13, exception_simd_exception),
      (INT_TIMER, irq_timer), (INT_KEYBOARD, irq_keyboard), (INT_SYSCALL, interrupt_syscall_handler)]"

definition interrupts_init :: "(InterruptHandler \<Rightarrow> u32) \<Rightarrow> int_world \<Rightarrow> int \<times> int_world" where
  "interrupts_init fn w =
     (if interrupts_initialized w then (0, w)
      else (let c = fold (\<lambda>(n, h). interrupt_register_handler fn n h) boot_handlers zero_controller
            in (0, w\<lparr>int_controller := c\<lparr>interrupts_enabled := True\<rparr>, interrupts_initialized := True\<rparr>)))"

definition interrupts_cleanup :: "int_world \<Rightarrow> int_world" where
  "interrupts_cleanup w =
     (if \<not> interrupts_initialized w then w else w\<lparr>interrupts_initialized := False\<rparr>)"

section \<open>Enabling and masking\<close>

text \<open>\<^verbatim>\<open>privilege_sti\<close> and \<^verbatim>\<open>privilege_cli\<close> change no state; an exception they raise is reported
  only, and the call returns.\<close>

definition interrupts_enable :: "int_world \<Rightarrow> unit priv_result \<times> int_world" where
  "interrupts_enable w =
     (let w1 = w\<lparr>int_controller := (int_controller w)\<lparr>interrupts_enabled := True\<rparr>\<rparr>
      in (privilege_sti (priv (int_sched w1)), w1))"

definition interrupts_disable :: "int_world \<Rightarrow> unit priv_result \<times> int_world" where
  "interrupts_disable w =
     (let w1 = w\<lparr>int_controller := (int_controller w)\<lparr>interrupts_enabled := False\<rparr>\<rparr>
      in (privilege_cli (priv (int_sched w1)), w1))"

definition interrupts_set_mask :: "u32 \<Rightarrow> int_world \<Rightarrow> int_world" where
  "interrupts_set_mask m w = w\<lparr>int_controller := (int_controller w)\<lparr>interrupt_mask := m\<rparr>\<rparr>"

section \<open>Handlers and dispatch\<close>

definition run_irq_timer :: "allocator \<Rightarrow> int_world \<Rightarrow> int_world option" where
  "run_irq_timer al w = do {
     let w1 = w\<lparr>system_ticks := system_ticks w + 1\<rparr>;
     s \<leftarrow> scheduler_tick al (int_sched w1);
     Some (w1\<lparr>int_sched := s\<rparr>) }"

definition run_irq_keyboard :: "int_world \<Rightarrow> int_world" where
  "run_irq_keyboard w = w\<lparr>keyboard := kb_put 0x1E (keyboard w)\<rparr>"

definition run_exception_page_fault :: "InterruptContext \<Rightarrow> int_world \<Rightarrow> int_world option" where
  "run_exception_page_fault ctx w =
     do { _ \<leftarrow> mmu_page_fault_handler (int_mmu w) 0 (err_code ctx); Some w }"

definition run_handler ::
  "allocator \<Rightarrow> InterruptHandler \<Rightarrow> InterruptContext \<Rightarrow> int_world \<Rightarrow> int_world option" where
  "run_handler al h ctx w =
     (case h of
        irq_timer \<Rightarrow> run_irq_timer al w
      | irq_keyboard \<Rightarrow> Some (run_irq_keyboard w)
      | exception_page_fault \<Rightarrow> run_exception_page_fault ctx w
      | _ \<Rightarrow> Some w)"

definition upd_stats :: "(InterruptStats \<Rightarrow> InterruptStats) \<Rightarrow> int_world \<Rightarrow> int_world" where
  "upd_stats f w = w\<lparr>int_controller := (int_controller w)\<lparr>int_stats := f (int_stats (int_controller w))\<rparr>\<rparr>"

definition interrupt_dispatch ::
  "allocator \<Rightarrow> InterruptContext option \<Rightarrow> int_world \<Rightarrow> int_world option" where
  "interrupt_dispatch al context w =
     (case context of None \<Rightarrow> Some w
      | Some ctx \<Rightarrow> do {
          let n = (ucast (int_no ctx) :: u8);
          let w1 = upd_stats (\<lambda>st. st\<lparr>total_interrupts := total_interrupts st + 1\<rparr>) w;
          let w2 = (if unat n < MAX_INTERRUPTS
                    then upd_stats (\<lambda>st. st\<lparr>interrupt_counts := (interrupt_counts st)
                           [unat n := interrupt_counts st ! unat n + 1]\<rparr>) w1
                    else w1);
          let w3 = w2\<lparr>int_sched := (int_sched w2)\<lparr>priv := privilege_enter_kernel_mode (priv (int_sched w2))\<rparr>\<rparr>;
          let w4 = w3\<lparr>int_controller := (int_controller w3)
                       \<lparr>nested_level := nested_level (int_controller w3) + 1\<rparr>\<rparr>;
          let w5 = (if 1 < nested_level (int_controller w4)
                    then upd_stats (\<lambda>st. st\<lparr>nested_interrupts := nested_interrupts st + 1\<rparr>) w4
                    else w4);
          w6 \<leftarrow> (if unat n < MAX_INTERRUPTS
                then (case handlers (int_controller w5) ! unat n of
                        Some h \<Rightarrow> do {
                          w' \<leftarrow> run_handler al h ctx w5;
                          Some (upd_stats (\<lambda>st. st\<lparr>handled_interrupts := handled_interrupts st + 1\<rparr>) w') }
                      | None \<Rightarrow> Some (upd_stats (\<lambda>st. st\<lparr>spurious_interrupts := spurious_interrupts st + 1\<rparr>) w5))
                else Some (upd_stats (\<lambda>st. st\<lparr>spurious_interrupts := spurious_interrupts st + 1\<rparr>) w5));
          Some (w6\<lparr>int_controller := (int_controller w6)
                     \<lparr>nested_level := nested_level (int_controller w6) - 1\<rparr>\<rparr>) })"

definition interrupts_get_uptime :: "int_world \<Rightarrow> u64" where
  "interrupts_get_uptime w = system_ticks w div timer_frequency w"

text \<open>The stubs: a zeroed context with the interrupt number.\<close>

definition isr_stub :: "allocator \<Rightarrow> u32 \<Rightarrow> int_world \<Rightarrow> int_world option" where
  "isr_stub al n w = interrupt_dispatch al (Some \<lparr>int_no = n, err_code = 0, eip = 0, eax = 0\<rparr>) w"

section \<open>The tables after initialisation\<close>

definition tables_ok :: "InterruptController \<Rightarrow> bool" where
  "tables_ok c \<longleftrightarrow> length (idt c) = MAX_INTERRUPTS \<and> length (handlers c) = MAX_INTERRUPTS"

text \<open>The address a gate leads to.\<close>

definition gate_target :: "IDTEntry \<Rightarrow> u32" where
  "gate_target g = push_bit 16 (ucast (offset_high g)) OR ucast (offset_low g)"

definition handler_gate :: "(InterruptHandler \<Rightarrow> u32) \<Rightarrow> u8 \<Rightarrow> InterruptHandler \<Rightarrow> IDTEntry" where
  "handler_gate fn n h =
     \<lparr>offset_low = ucast (fn h AND 0xFFFF), selector = 0x08, zero = 0,
      type_attr = (if n = INT_SYSCALL then 0xEE else 0x8E),
      offset_high = ucast (drop_bit 16 (fn h) AND 0xFFFF)\<rparr>"

lemma u8_lt_256 [simp]: "unat (n :: u8) < 256"
  using unsigned_less [where 'a = nat, of n] by simp

lemma join_halves:
  "push_bit 16 (ucast (ucast (drop_bit 16 x AND 0xFFFF) :: u16)) OR ucast (ucast (x AND 0xFFFF) :: u16) = (x :: u32)"
proof (rule bit_word_eqI)
  have m: "(0xFFFF :: u32) = mask 16" by (simp add: mask_eq_exp_minus_1)
  fix i assume "i < LENGTH(32)"
  then show "bit (push_bit 16 (ucast (ucast (drop_bit 16 x AND 0xFFFF) :: u16))
      OR ucast (ucast (x AND 0xFFFF) :: u16) :: u32) i = bit x i"
    unfolding m by (auto simp: bit_simps)
qed

lemma gate_target_handler: "gate_target (handler_gate fn n h) = fn h"
  by (simp add: gate_target_def handler_gate_def join_halves)

lemma register_step:
  assumes "tables_ok c"
  shows "tables_ok (interrupt_register_handler fn k h c)"
    and "handlers (interrupt_register_handler fn k h c) ! unat n
           = (if n = k then Some h else handlers c ! unat n)"
    and "idt (interrupt_register_handler fn k h c) ! unat n
           = (if n = k then handler_gate fn k h else idt c ! unat n)"
proof -
  have eq: "unat n = unat k \<longleftrightarrow> n = k" by (simp add: word_unat_eq_iff)
  have lt: "\<not> MAX_INTERRUPTS \<le> unat k" unfolding MAX_INTERRUPTS_def using u8_lt_256 [of k] by linarith
  have reg: "interrupt_register_handler fn k h c =
      c\<lparr>handlers := (handlers c)[unat k := Some h], idt := (idt c)[unat k := handler_gate fn k h]\<rparr>"
    using lt by (simp add: interrupt_register_handler_def idt_set_gate_def handler_gate_def Let_def)
  have len: "length (idt c) = 256" "length (handlers c) = 256"
    using assms by (simp_all add: tables_ok_def MAX_INTERRUPTS_def)
  show "tables_ok (interrupt_register_handler fn k h c)"
    using len by (simp add: reg tables_ok_def MAX_INTERRUPTS_def)
  show "handlers (interrupt_register_handler fn k h c) ! unat n
           = (if n = k then Some h else handlers c ! unat n)"
    using len eq by (auto simp: reg nth_list_update)
  show "idt (interrupt_register_handler fn k h c) ! unat n
           = (if n = k then handler_gate fn k h else idt c ! unat n)"
    using len eq by (auto simp: reg nth_list_update)
qed

lemma register_all:
  "tables_ok c \<Longrightarrow>
     tables_ok (fold (\<lambda>(n, h). interrupt_register_handler fn n h) hs c) \<and>
     handlers (fold (\<lambda>(n, h). interrupt_register_handler fn n h) hs c) ! unat n
       = (case map_of (rev hs) n of None \<Rightarrow> handlers c ! unat n | Some h \<Rightarrow> Some h) \<and>
     idt (fold (\<lambda>(n, h). interrupt_register_handler fn n h) hs c) ! unat n
       = (case map_of (rev hs) n of None \<Rightarrow> idt c ! unat n | Some h \<Rightarrow> handler_gate fn n h)"
proof (induction hs arbitrary: c)
  case Nil
  then show ?case by simp
next
  case (Cons a hs)
  obtain k h where a: "a = (k, h)" by (cases a)
  note st = register_step [OF Cons.prems, of fn k h]
  from Cons.IH [OF st(1)] st(2,3) [of n] a show ?case
    by (auto simp: map_add_def split: option.splits)
qed

section \<open>Accounting\<close>

definition int_inv :: "int_world \<Rightarrow> bool" where
  "int_inv w \<longleftrightarrow>
     length (interrupt_counts (int_stats (int_controller w))) = MAX_INTERRUPTS \<and>
     total_interrupts (int_stats (int_controller w))
       = handled_interrupts (int_stats (int_controller w)) + spurious_interrupts (int_stats (int_controller w)) \<and>
     total_interrupts (int_stats (int_controller w)) = sum_list (interrupt_counts (int_stats (int_controller w))) \<and>
     nested_interrupts (int_stats (int_controller w)) = 0 \<and>
     nested_level (int_controller w) = 0"

lemma sum_list_increment: "i < length xs \<Longrightarrow> sum_list (xs[i := xs ! i + 1]) = sum_list xs + (1 :: u64)"
proof (induction xs arbitrary: i)
  case Nil
  then show ?case by simp
next
  case (Cons x xs)
  then show ?case by (cases i) (simp_all add: algebra_simps)
qed

text \<open>No handler touches the controller.\<close>

lemma run_handler_controller:
  "run_handler al h ctx w = Some w' \<Longrightarrow> int_controller w' = int_controller w"
  by (cases h) (auto simp: run_handler_def run_irq_timer_def run_irq_keyboard_def
      run_exception_page_fault_def Let_def split: bind_splits)

lemma int_inv_dispatch [vm_inv]:
  assumes inv: "int_inv w" and d: "interrupt_dispatch al c w = Some w'"
  shows "int_inv w'"
proof (cases c)
  case None
  with assms show ?thesis by (simp add: interrupt_dispatch_def)
next
  case (Some ctx)
  let ?n = "ucast (int_no ctx) :: u8"
  have lt: "unat ?n < length (interrupt_counts (int_stats (int_controller w)))"
    using inv by (simp add: int_inv_def MAX_INTERRUPTS_def)
  note sum = sum_list_increment [OF lt]
  have nl: "nested_level (int_controller w) = 0" using inv by (simp add: int_inv_def)
  show ?thesis
  proof (cases "handlers (int_controller w) ! unat ?n")
    case None
    with d Some nl sum lt inv show ?thesis
      by (auto simp: interrupt_dispatch_def Let_def upd_stats_def MAX_INTERRUPTS_def int_inv_def)
  next
    case (Some h)
    with d \<open>c = Some ctx\<close> nl sum lt inv show ?thesis
      by (auto simp: interrupt_dispatch_def Let_def upd_stats_def MAX_INTERRUPTS_def int_inv_def
          split: bind_splits dest!: run_handler_controller)
  qed
qed

fun dispatch_all :: "allocator \<Rightarrow> InterruptContext list \<Rightarrow> int_world \<Rightarrow> int_world option" where
  "dispatch_all al [] w = Some w"
| "dispatch_all al (c # cs) w = do { w1 \<leftarrow> interrupt_dispatch al (Some c) w; dispatch_all al cs w1 }"

lemma int_inv_run: "int_inv w \<Longrightarrow> dispatch_all al cs w = Some w' \<Longrightarrow> int_inv w'"
proof (induction cs arbitrary: w)
  case Nil
  then show ?case by simp
next
  case (Cons c cs)
  then show ?case by (auto split: bind_splits intro: int_inv_dispatch)
qed

lemma register_keeps_stats:
  "int_stats (fold (\<lambda>(n, h). interrupt_register_handler fn n h) hs c) = int_stats c \<and>
   nested_level (fold (\<lambda>(n, h). interrupt_register_handler fn n h) hs c) = nested_level c"
proof (induction hs arbitrary: c)
  case Nil
  then show ?case by simp
next
  case (Cons a hs)
  then show ?case
    by (auto simp: interrupt_register_handler_def idt_set_gate_def Let_def split: prod.splits)
qed

lemma int_inv_init [vm_inv]:
  "\<not> interrupts_initialized w \<Longrightarrow> int_inv (snd (interrupts_init fn w))"
  using register_keeps_stats [of fn boot_handlers zero_controller]
  by (simp add: interrupts_init_def Let_def int_inv_def zero_controller_def sum_list_replicate)

section \<open>The timer interrupt\<close>

definition timer_context :: InterruptContext where
  "timer_context = \<lparr>int_no = 0x20, err_code = 0, eip = 0, eax = 0\<rparr>"

text \<open>One timer interrupt is one scheduler tick taken in kernel mode.\<close>

lemma dispatch_timer:
  assumes h: "handlers (int_controller w) ! 0x20 = Some irq_timer"
    and t: "scheduler_tick al ((int_sched w)\<lparr>priv := privilege_enter_kernel_mode (priv (int_sched w))\<rparr>) = Some s"
  shows "\<exists>w'. interrupt_dispatch al (Some timer_context) w = Some w' \<and> int_sched w' = s \<and>
    system_ticks w' = system_ticks w + 1 \<and> handlers (int_controller w') = handlers (int_controller w)"
  using assms
  by (simp add: interrupt_dispatch_def timer_context_def Let_def upd_stats_def MAX_INTERRUPTS_def
      run_handler_def run_irq_timer_def)

lemma timer_run:
  assumes "handlers (int_controller w) ! 0x20 = Some irq_timer"
    and "kernel_ticks al n (int_sched w) = Some s"
  shows "\<exists>w'. dispatch_all al (replicate n timer_context) w = Some w' \<and> int_sched w' = s \<and>
    system_ticks w' = system_ticks w + of_nat n"
  using assms
proof (induction n arbitrary: w)
  case 0
  then show ?case by simp
next
  case (Suc n)
  from Suc.prems(2) obtain s1
    where s1: "scheduler_tick al ((int_sched w)\<lparr>priv := privilege_enter_kernel_mode (priv (int_sched w))\<rparr>) = Some s1"
      "kernel_ticks al n s1 = Some s" by (auto split: bind_splits)
  from dispatch_timer [OF Suc.prems(1) s1(1)] obtain w1
    where w1: "interrupt_dispatch al (Some timer_context) w = Some w1" "int_sched w1 = s1"
      "system_ticks w1 = system_ticks w + 1" "handlers (int_controller w1) = handlers (int_controller w)"
    by blast
  from Suc.IH [of w1] w1 s1(2) Suc.prems(1) show ?case by (auto simp: algebra_simps)
qed

section \<open>Properties\<close>

lemma map_of_rev_distinct: "distinct (map fst xs) \<Longrightarrow> map_of (rev xs) = map_of xs"
proof (induction xs)
  case Nil
  then show ?case by simp
next
  case (Cons a xs)
  then have "map_of xs (fst a) = None" by (simp add: map_of_eq_None_iff)
  with Cons show ?case by (auto simp: fun_eq_iff map_add_def split: option.splits)
qed

text \<open>
  After \<^verbatim>\<open>interrupts_init\<close> the tables agree: exactly the vectors of the boot list have
  a handler and a gate, each gate leads to the address of its handler, and among all 256
  gates only the system call vector 0x80 may be entered from user mode (DPL 3).
\<close>

theorem interrupts_init_tables:
  assumes "\<not> interrupts_initialized w"
  shows "let c = int_controller (snd (interrupts_init fn w)) in
    handlers c ! unat n = map_of boot_handlers n \<and>
    (case map_of boot_handlers n of
       None \<Rightarrow> idt c ! unat n = zero_gate
     | Some h \<Rightarrow> gate_target (idt c ! unat n) = fn h \<and> bit (type_attr (idt c ! unat n)) 7) \<and>
    (take_bit 2 (drop_bit 5 (type_attr (idt c ! unat n))) = 3 \<longleftrightarrow> n = INT_SYSCALL)"
proof -
  have ok: "tables_ok zero_controller" by (simp add: tables_ok_def zero_controller_def)
  have "distinct (map fst boot_handlers)"
    by (simp add: boot_handlers_def INT_TIMER_def INT_KEYBOARD_def INT_SYSCALL_def)
  then have rev_eq: "map_of (rev boot_handlers) = map_of boot_handlers" by (rule map_of_rev_distinct)
  note all = register_all [OF ok, of fn boot_handlers n, unfolded rev_eq]
  have lt: "unat n < MAX_INTERRUPTS" unfolding MAX_INTERRUPTS_def by (rule u8_lt_256)
  have z: "handlers zero_controller ! unat n = None" "idt zero_controller ! unat n = zero_gate"
    using lt by (simp_all add: zero_controller_def)
  have sys: "map_of boot_handlers INT_SYSCALL = Some interrupt_syscall_handler"
    by (simp add: boot_handlers_def INT_TIMER_def INT_KEYBOARD_def INT_SYSCALL_def)
  have attr: "take_bit 2 (drop_bit 5 (0xEE :: u8)) = 3" "take_bit 2 (drop_bit 5 (0x8E :: u8)) = 0"
    "bit (0xEE :: u8) 7" "bit (0x8E :: u8) 7" by (simp_all add: bit_numeral_rec)
  show ?thesis
  proof (cases "map_of boot_handlers n")
    case None
    then have "n \<noteq> INT_SYSCALL" using sys by auto
    with None all z assms show ?thesis by (simp add: interrupts_init_def Let_def zero_gate_def)
  next
    case (Some h)
    with all z assms attr show ?thesis
      by (simp add: interrupts_init_def Let_def gate_target_handler)
        (simp add: handler_gate_def)
  qed
qed

text \<open>
  C9: The interrupt statistics are consistent after any sequence of interrupts that follows
  initialisation: every interrupt was counted as handled or as spurious, the per-vector
  counts add up to the total, and the nesting level is back at 0.
\<close>

theorem interrupt_accounting:
  assumes "\<not> interrupts_initialized w"
    and "dispatch_all al ctxs (snd (interrupts_init fn w)) = Some w'"
  shows "let st = int_stats (int_controller w') in
    total_interrupts st = handled_interrupts st + spurious_interrupts st \<and>
    sum_list (interrupt_counts st) = total_interrupts st \<and>
    nested_level (int_controller w') = 0 \<and> nested_interrupts st = 0"
  using int_inv_run [OF int_inv_init [OF assms(1)] assms(2)] by (auto simp: int_inv_def Let_def)

section \<open>Witnesses\<close>

definition int_blank :: int_world where
  "int_blank =
     \<lparr>int_controller = zero_controller, interrupts_initialized = False, system_ticks = 0,
      timer_frequency = 1000, keyboard = kb_empty, int_sched = demo_world, int_mmu = demo_mmu\<rparr>"

lemma interrupts_init_tables_witness:
  "gate_target (idt (int_controller (snd (interrupts_init (\<lambda>_. 0x401000) int_blank))) ! 0x20) = 0x401000 \<and>
   handlers (int_controller (snd (interrupts_init (\<lambda>_. 0x401000) int_blank))) ! 0x80
     = Some interrupt_syscall_handler"
proof -
  have un: "\<not> interrupts_initialized int_blank" by (simp add: int_blank_def)
  have "map_of boot_handlers 0x20 = Some irq_timer" "map_of boot_handlers 0x80 = Some interrupt_syscall_handler"
    by (simp_all add: boot_handlers_def INT_TIMER_def INT_KEYBOARD_def INT_SYSCALL_def)
  with interrupts_init_tables [OF un, of "\<lambda>_. 0x401000" "0x20"]
    interrupts_init_tables [OF un, of "\<lambda>_. 0x401000" "0x80"]
  show ?thesis by (simp add: Let_def)
qed

lemma interrupt_accounting_witness:
  "\<exists>w'. dispatch_all demo_al [timer_context\<lparr>int_no := 0x21\<rparr>, timer_context\<lparr>int_no := 0x155\<rparr>]
          (snd (interrupts_init (\<lambda>_. 0) int_blank)) = Some w' \<and>
     sum_list (interrupt_counts (int_stats (int_controller w'))) = total_interrupts (int_stats (int_controller w')) \<and>
     kb_contents (keyboard w') = [0x1E]"
proof -
  let ?w = "snd (interrupts_init (\<lambda>_. 0) int_blank)"
  have un: "\<not> interrupts_initialized int_blank" by (simp add: int_blank_def)
  have ok: "tables_ok zero_controller" by (simp add: tables_ok_def zero_controller_def)
  have m: "map_of (rev boot_handlers) 0x21 = Some irq_keyboard" "map_of (rev boot_handlers) 0x55 = None"
    by (simp_all add: boot_handlers_def INT_TIMER_def INT_KEYBOARD_def INT_SYSCALL_def)
  have h: "handlers (int_controller ?w) ! 0x21 = Some irq_keyboard" "handlers (int_controller ?w) ! 0x55 = None"
    using register_all [OF ok, of "\<lambda>_. 0" boot_handlers "0x21"]
      register_all [OF ok, of "\<lambda>_. 0" boot_handlers "0x55"] m un
    by (simp_all add: interrupts_init_def Let_def zero_controller_def MAX_INTERRUPTS_def)
  have kb: "keyboard ?w = kb_empty" by (simp add: interrupts_init_def int_blank_def Let_def)
  have "\<exists>w'. dispatch_all demo_al [timer_context\<lparr>int_no := 0x21\<rparr>, timer_context\<lparr>int_no := 0x155\<rparr>] ?w = Some w'
      \<and> keyboard w' = kb_put 0x1E kb_empty"
    using h kb by (simp add: interrupt_dispatch_def timer_context_def Let_def upd_stats_def
        MAX_INTERRUPTS_def run_handler_def run_irq_keyboard_def)
  then obtain w' where w': "dispatch_all demo_al [timer_context\<lparr>int_no := 0x21\<rparr>, timer_context\<lparr>int_no := 0x155\<rparr>] ?w = Some w'"
    "keyboard w' = kb_put 0x1E kb_empty" by blast
  have "kb_count kb_empty < KB_BUFFER_SIZE" by (simp add: kb_empty_def KB_BUFFER_SIZE_def)
  then have "kb_contents (kb_put 0x1E kb_empty) = [0x1E]"
    by (simp add: kb_put_rep(2) [OF kb_empty_rep(1)] kb_empty_rep(2))
  with interrupt_accounting [OF un w'(1)] w' show ?thesis by (auto simp: Let_def)
qed

section \<open>Divergences\<close>

text \<open>Disabling or masking interrupts has no effect on dispatch: it consults neither.\<close>

lemma dispatch_ignores_mask:
  "interrupt_dispatch al c (w\<lparr>int_controller := (int_controller w)\<lparr>interrupts_enabled := b, interrupt_mask := m\<rparr>\<rparr>)
     = map_option (\<lambda>v. v\<lparr>int_controller := (int_controller v)\<lparr>interrupts_enabled := b, interrupt_mask := m\<rparr>\<rparr>)
         (interrupt_dispatch al c w)"
proof (cases c)
  case None
  then show ?thesis by (simp add: interrupt_dispatch_def)
next
  case (Some ctx)
  show ?thesis
  proof (cases "handlers (int_controller w) ! unat (ucast (int_no ctx) :: u8)")
    case None
    with Some show ?thesis
      by (simp add: interrupt_dispatch_def Let_def upd_stats_def MAX_INTERRUPTS_def)
  next
    case (Some h)
    with \<open>c = Some ctx\<close> show ?thesis
      by (cases h) (auto simp: interrupt_dispatch_def Let_def upd_stats_def MAX_INTERRUPTS_def
          run_handler_def run_irq_timer_def run_irq_keyboard_def run_exception_page_fault_def
          split: bind_splits option.splits)
  qed
qed

end
