(* ===== verification/NetStack.thy ===== *)
theory NetStack
  imports Handles
begin

text \<open>
  The socket layer of \<^verbatim>\<open>src/kernel/network_stack.c\<close>: the table of 256 sockets, the descriptor
  counter and the statistics. The stack simulates the network: \<^verbatim>\<open>rand()\<close> is an argument, and
  so is whether \<^verbatim>\<open>calloc\<close> and the buffer \<^verbatim>\<open>malloc\<close>s succeed. The data buffers are allocated
  and freed but never accessed, so only their presence is kept; the fields no function
  touches are left out. Undefined behaviour is \<open>None\<close>.
\<close>

section \<open>Data\<close>

definition AF_INET :: int where "AF_INET = 2"
definition SOCK_STREAM :: int where "SOCK_STREAM = 1"
definition SOCK_DGRAM :: int where "SOCK_DGRAM = 2"
definition SOCKET_CLOSED :: int where "SOCKET_CLOSED = 0"
definition SOCKET_LISTEN :: int where "SOCKET_LISTEN = 1"
definition SOCKET_ESTABLISHED :: int where "SOCKET_ESTABLISHED = 4"
definition MAX_SOCKETS :: nat where "MAX_SOCKETS = 256"
definition MAX_LISTEN_BACKLOG :: int where "MAX_LISTEN_BACKLOG = 128"

lemmas net_const_defs =
  AF_INET_def SOCK_STREAM_def SOCK_DGRAM_def SOCKET_CLOSED_def SOCKET_LISTEN_def SOCKET_ESTABLISHED_def
  MAX_LISTEN_BACKLOG_def

datatype IPv4Address = IPv4 u8 u8 u8 u8

record SocketAddress =
  sa_family :: u16
  sa_port :: u16
  sa_addr :: IPv4Address
  sa_padding :: "u8 list"

record Socket =
  sock_fd :: int
  sock_family :: int
  sock_type :: int
  sock_protocol :: int
  sock_state :: int
  local :: SocketAddress
  remote :: SocketAddress
  backlog :: int
  recv_buffer :: bool
  recv_size :: u32
  send_buffer :: bool
  send_size :: u32
  seq_num :: u32

record NetworkStats =
  packets_sent :: u64
  packets_received :: u64
  bytes_sent :: u64
  bytes_received :: u64
  packets_dropped :: u64
  errors :: u64
  tcp_connections :: u64
  udp_datagrams :: u64
  icmp_messages :: u64

datatype MACAddress = MAC u8 u8 u8 u8 u8 u8

record NetworkInterface =
  if_name :: string
  if_index :: int
  if_flags :: int
  if_mac :: MACAddress
  if_ip :: IPv4Address
  if_netmask :: IPv4Address
  if_broadcast :: IPv4Address
  if_gateway :: IPv4Address
  rx_packets :: u64
  tx_packets :: u64
  rx_bytes :: u64
  tx_bytes :: u64
  mtu :: int

record RouteEntry =
  rt_dest :: IPv4Address
  rt_mask :: IPv4Address
  rt_gateway :: IPv4Address
  rt_metric :: int
  rt_interface :: int

text \<open>The interfaces and routes in use, the counted prefixes of their arrays.\<close>

record net_state =
  sockets :: "Socket option list"
  interfaces :: "NetworkInterface list"
  routes :: "RouteEntry list"
  next_fd :: int
  global_stats :: NetworkStats

section \<open>Byte order\<close>

definition htons :: "u16 \<Rightarrow> u16" where
  "htons x = push_bit 8 (x AND 0xFF) OR (drop_bit 8 x AND 0xFF)"

definition htonl :: "u32 \<Rightarrow> u32" where
  "htonl x = push_bit 24 (x AND 0xFF) OR push_bit 8 (x AND 0xFF00)
     OR drop_bit 8 (x AND 0xFF0000) OR drop_bit 24 (x AND 0xFF000000)"

definition ntohs :: "u16 \<Rightarrow> u16" where "ntohs x = htons x"

definition ntohl :: "u32 \<Rightarrow> u32" where "ntohl x = htonl x"

section \<open>Sockets\<close>

definition zero_stats :: NetworkStats where
  "zero_stats = \<lparr>packets_sent = 0, packets_received = 0, bytes_sent = 0, bytes_received = 0,
     packets_dropped = 0, errors = 0, tcp_connections = 0, udp_datagrams = 0, icmp_messages = 0\<rparr>"

definition zero_addr :: SocketAddress where
  "zero_addr = \<lparr>sa_family = 0, sa_port = 0, sa_addr = IPv4 0 0 0 0, sa_padding = replicate 8 0\<rparr>"

definition zero_interface :: NetworkInterface where
  "zero_interface = \<lparr>if_name = [], if_index = 0, if_flags = 0, if_mac = MAC 0 0 0 0 0 0,
     if_ip = IPv4 0 0 0 0, if_netmask = IPv4 0 0 0 0, if_broadcast = IPv4 0 0 0 0,
     if_gateway = IPv4 0 0 0 0, rx_packets = 0, tx_packets = 0, rx_bytes = 0, tx_bytes = 0, mtu = 0\<rparr>"

definition lo_interface :: NetworkInterface where
  "lo_interface = zero_interface\<lparr>if_name := ''lo'', if_flags := 0x1, if_ip := IPv4 127 0 0 1,
     if_netmask := IPv4 255 0 0 0, mtu := 65536\<rparr>"

definition zora0_interface :: NetworkInterface where
  "zora0_interface = zero_interface\<lparr>if_name := ''zora0'', if_index := 1, if_flags := 0x1,
     if_mac := MAC 0x52 0x54 0x00 0x12 0x34 0x56, if_ip := IPv4 10 0 2 15, if_netmask := IPv4 255 255 255 0,
     if_gateway := IPv4 10 0 2 1, if_broadcast := IPv4 10 0 2 255, mtu := 1500\<rparr>"

definition netstack_init :: net_state where
  "netstack_init = \<lparr>sockets = replicate MAX_SOCKETS None, interfaces = [lo_interface, zora0_interface],
     routes = [\<lparr>rt_dest = IPv4 0 0 0 0, rt_mask = IPv4 0 0 0 0, rt_gateway = if_gateway zora0_interface,
                 rt_metric = 0, rt_interface = 1\<rparr>,
               \<lparr>rt_dest = IPv4 10 0 2 0, rt_mask = if_netmask zora0_interface, rt_gateway = IPv4 0 0 0 0,
                 rt_metric = 0, rt_interface = 1\<rparr>],
     next_fd = 3, global_stats = zero_stats\<rparr>"

text \<open>An interface pointer is its index.\<close>

definition netstack_get_interface :: "int \<Rightarrow> net_state \<Rightarrow> nat option" where
  "netstack_get_interface i n = (if i < 0 \<or> int (length (interfaces n)) \<le> i then None else Some (nat i))"

definition netstack_find_interface :: "string \<Rightarrow> net_state \<Rightarrow> nat option" where
  "netstack_find_interface name n = first_index (\<lambda>f. if_name f = name) (interfaces n)"

definition netstack_cleanup :: "net_state \<Rightarrow> net_state" where
  "netstack_cleanup n = n\<lparr>sockets := map (\<lambda>_. None) (sockets n)\<rparr>"

text \<open>What the allocations of one call return.\<close>

record net_mem =
  calloc_ok :: bool
  recv_ok :: bool
  send_ok :: bool

definition netstack_socket ::
  "net_mem \<Rightarrow> nat \<Rightarrow> int \<Rightarrow> int \<Rightarrow> int \<Rightarrow> net_state \<Rightarrow> (int \<times> net_state) option" where
  "netstack_socket mem rnd family ty protocol n =
     (if family \<noteq> AF_INET then Some (-1, n)
      else (case first_index (\<lambda>s. s = None) (sockets n) of
              None \<Rightarrow> Some (-1, n)
            | Some i \<Rightarrow>
                if \<not> calloc_ok mem then None
                else (let fd = next_fd n;
                          s = \<lparr>sock_fd = fd, sock_family = family, sock_type = ty, sock_protocol = protocol,
                               sock_state = SOCKET_CLOSED, local = zero_addr, remote = zero_addr, backlog = 0,
                               recv_buffer = recv_ok mem, recv_size = 65536,
                               send_buffer = send_ok mem, send_size = 65536, seq_num = of_nat rnd\<rparr>
                      in Some (fd, n\<lparr>sockets := (sockets n)[i := Some s], next_fd := fd + 1\<rparr>))))"

text \<open>The lookup loop at the head of every operation: the slot of the first socket with the
  descriptor.\<close>

definition sock_index :: "net_state \<Rightarrow> int \<Rightarrow> nat option" where
  "sock_index n fd = first_index (\<lambda>s. case s of Some k \<Rightarrow> sock_fd k = fd | None \<Rightarrow> False) (sockets n)"

definition upd_sock :: "nat \<Rightarrow> (Socket \<Rightarrow> Socket) \<Rightarrow> net_state \<Rightarrow> net_state" where
  "upd_sock i f n = n\<lparr>sockets := (sockets n)[i := map_option f (sockets n ! i)]\<rparr>"

definition port_taken :: "net_state \<Rightarrow> nat \<Rightarrow> u16 \<Rightarrow> bool" where
  "port_taken n i port \<longleftrightarrow>
     (\<exists>j \<in> set [0..<length (sockets n)]. j \<noteq> i \<and>
        (case sockets n ! j of Some k \<Rightarrow> ntohs (sa_port (local k)) = port | None \<Rightarrow> False))"

definition netstack_bind :: "int \<Rightarrow> SocketAddress \<Rightarrow> net_state \<Rightarrow> int \<times> net_state" where
  "netstack_bind sockfd addr n =
     (case sock_index n sockfd of None \<Rightarrow> (-1, n)
      | Some i \<Rightarrow>
          if port_taken n i (ntohs (sa_port addr)) then (-1, n)
          else (0, upd_sock i (\<lambda>s. s\<lparr>local := addr\<rparr>) n))"

definition sock_at :: "net_state \<Rightarrow> nat \<Rightarrow> Socket" where
  "sock_at n i = the (sockets n ! i)"

definition netstack_listen :: "int \<Rightarrow> int \<Rightarrow> net_state \<Rightarrow> int \<times> net_state" where
  "netstack_listen sockfd bl n =
     (case sock_index n sockfd of None \<Rightarrow> (-1, n)
      | Some i \<Rightarrow>
          if sock_type (sock_at n i) \<noteq> SOCK_STREAM then (-1, n)
          else (0, upd_sock i (\<lambda>s. s\<lparr>sock_state := SOCKET_LISTEN,
                  backlog := (if bl > MAX_LISTEN_BACKLOG then MAX_LISTEN_BACKLOG else bl)\<rparr>) n))"

definition upd_stats_net :: "(NetworkStats \<Rightarrow> NetworkStats) \<Rightarrow> net_state \<Rightarrow> net_state" where
  "upd_stats_net f n = n\<lparr>global_stats := f (global_stats n)\<rparr>"

text \<open>The peer a simulated accept reports; the second and third \<^verbatim>\<open>rand()\<close> of the call.\<close>

definition simulated_peer :: "nat \<Rightarrow> nat \<Rightarrow> SocketAddress \<Rightarrow> SocketAddress" where
  "simulated_peer r1 r2 a =
     a\<lparr>sa_family := of_int AF_INET, sa_port := htons (of_nat (50000 + r1 mod 15000)),
       sa_addr := IPv4 10 0 2 (of_nat (2 + r2 mod 253))\<rparr>"

definition netstack_accept ::
  "net_mem \<Rightarrow> (nat \<Rightarrow> nat) \<Rightarrow> int \<Rightarrow> SocketAddress option \<Rightarrow> net_state
    \<Rightarrow> (int \<times> SocketAddress option \<times> net_state) option" where
  "netstack_accept mem rnd sockfd addr n =
     (case sock_index n sockfd of None \<Rightarrow> Some (-1, addr, n)
      | Some i \<Rightarrow>
          if sock_state (sock_at n i) \<noteq> SOCKET_LISTEN then Some (-1, addr, n)
          else (let sock = sock_at n i in
            (case netstack_socket mem (rnd 0) (sock_family sock) (sock_type sock) (sock_protocol sock) n of
               None \<Rightarrow> None
             | Some (new_fd, n1) \<Rightarrow>
                 if new_fd < 0 then Some (-1, addr, n1)
                 else (case sock_index n1 new_fd of
                         None \<Rightarrow> Some (new_fd, addr, n1)
                       | Some j \<Rightarrow>
                           let peer = simulated_peer (rnd 1) (rnd 2) (remote (sock_at n1 j));
                               n2 = upd_sock j (\<lambda>s. s\<lparr>sock_state := SOCKET_ESTABLISHED, local := local sock,
                                      remote := peer\<rparr>) n1
                           in Some (new_fd, map_option (\<lambda>_. peer) addr,
                                upd_stats_net (\<lambda>st. st\<lparr>tcp_connections := tcp_connections st + 1\<rparr>) n2)))))"

definition netstack_connect :: "int \<Rightarrow> SocketAddress \<Rightarrow> net_state \<Rightarrow> int \<times> net_state" where
  "netstack_connect sockfd addr n =
     (case sock_index n sockfd of None \<Rightarrow> (-1, n)
      | Some i \<Rightarrow>
          (let n1 = upd_sock i (\<lambda>s. s\<lparr>remote := addr\<rparr>) n in
           if sock_type (sock_at n1 i) = SOCK_STREAM
           then (0, upd_stats_net (\<lambda>st. st\<lparr>tcp_connections := tcp_connections st + 1\<rparr>)
                     (upd_sock i (\<lambda>s. s\<lparr>sock_state := SOCKET_ESTABLISHED\<rparr>) n1))
           else (0, n1)))"

text \<open>The \<^verbatim>\<open>uint32_t\<close> size is returned as an \<^verbatim>\<open>int\<close>.\<close>

definition netstack_send :: "int \<Rightarrow> u32 \<Rightarrow> net_state \<Rightarrow> int \<times> net_state" where
  "netstack_send sockfd sz n =
     (case sock_index n sockfd of None \<Rightarrow> (-1, n)
      | Some i \<Rightarrow>
          if sock_state (sock_at n i) \<noteq> SOCKET_ESTABLISHED then (-1, n)
          else (sint sz, upd_stats_net (\<lambda>st.
            (let st1 = st\<lparr>packets_sent := packets_sent st + 1, bytes_sent := bytes_sent st + ucast sz\<rparr>
             in if sock_type (sock_at n i) = SOCK_STREAM
                then st1\<lparr>tcp_connections := tcp_connections st1 + 1\<rparr>
                else if sock_type (sock_at n i) = SOCK_DGRAM
                then st1\<lparr>udp_datagrams := udp_datagrams st1 + 1\<rparr> else st1)) n))"

text \<open>\<^verbatim>\<open>rand() % size\<close> with \<^verbatim>\<open>size\<close> 0 is undefined.\<close>

definition received_bytes :: "nat \<Rightarrow> u32 \<Rightarrow> u32" where
  "received_bytes rnd sz =
     (let b = (of_nat rnd :: u32) mod sz + 1 in if sz < b then sz else b)"

definition netstack_recv :: "nat \<Rightarrow> int \<Rightarrow> u32 \<Rightarrow> net_state \<Rightarrow> (int \<times> net_state) option" where
  "netstack_recv rnd sockfd sz n =
     (case sock_index n sockfd of None \<Rightarrow> Some (-1, n)
      | Some i \<Rightarrow>
          if sz = 0 then None
          else (let b = received_bytes rnd sz in
            Some (sint b, upd_stats_net (\<lambda>st. st\<lparr>packets_received := packets_received st + 1,
                    bytes_received := bytes_received st + ucast b\<rparr>) n)))"

text \<open>\<^verbatim>\<open>sendto\<close> and \<^verbatim>\<open>recvfrom\<close> print the address they are given: NULL is undefined.\<close>

definition netstack_sendto :: "int \<Rightarrow> u32 \<Rightarrow> SocketAddress option \<Rightarrow> net_state \<Rightarrow> (int \<times> net_state) option" where
  "netstack_sendto sockfd sz addr n =
     (case sock_index n sockfd of None \<Rightarrow> Some (-1, n)
      | Some i \<Rightarrow>
          (case addr of None \<Rightarrow> None
           | Some a \<Rightarrow> Some (sint sz, upd_stats_net (\<lambda>st. st\<lparr>packets_sent := packets_sent st + 1,
               bytes_sent := bytes_sent st + ucast sz, udp_datagrams := udp_datagrams st + 1\<rparr>) n)))"

definition netstack_recvfrom ::
  "(nat \<Rightarrow> nat) \<Rightarrow> int \<Rightarrow> u32 \<Rightarrow> SocketAddress option \<Rightarrow> net_state
    \<Rightarrow> (int \<times> SocketAddress \<times> net_state) option option" where
  "netstack_recvfrom rnd sockfd sz addr n =
     (case sock_index n sockfd of None \<Rightarrow> Some None
      | Some i \<Rightarrow>
          if sz = 0 then None
          else (case addr of None \<Rightarrow> None
                | Some a \<Rightarrow>
                    let b = received_bytes (rnd 0) sz; a' = simulated_peer (rnd 1) (rnd 2) a in
                    Some (Some (sint b, a', upd_stats_net (\<lambda>st. st\<lparr>packets_received := packets_received st + 1,
                      bytes_received := bytes_received st + ucast b,
                      udp_datagrams := udp_datagrams st + 1\<rparr>) n))))"

definition netstack_close :: "int \<Rightarrow> net_state \<Rightarrow> int \<times> net_state" where
  "netstack_close sockfd n =
     (case sock_index n sockfd of None \<Rightarrow> (-1, n)
      | Some i \<Rightarrow> (0, n\<lparr>sockets := (sockets n)[i := None]\<rparr>))"

definition netstack_icmp_ping :: "nat \<Rightarrow> net_state \<Rightarrow> int \<times> net_state" where
  "netstack_icmp_ping rnd n =
     (int (1 + rnd mod 50),
      upd_stats_net (\<lambda>st. st\<lparr>packets_sent := packets_sent st + 1, packets_received := packets_received st + 1,
        icmp_messages := icmp_messages st + 2\<rparr>) n)"

section \<open>Invariant\<close>

definition sock_lookup :: "net_state \<Rightarrow> int \<Rightarrow> Socket option" where
  "sock_lookup n fd = map_option (sock_at n) (sock_index n fd)"

text \<open>\<open>holds n i k\<close>: slot \<open>i\<close> of the table owns socket \<open>k\<close>.\<close>

definition holds :: "net_state \<Rightarrow> nat \<Rightarrow> Socket \<Rightarrow> bool" where
  "holds n i k \<longleftrightarrow> i < length (sockets n) \<and> sockets n ! i = Some k"

text \<open>Descriptors are below the counter and belong to one slot.\<close>

definition net_inv :: "net_state \<Rightarrow> bool" where
  "net_inv n \<longleftrightarrow> length (sockets n) = MAX_SOCKETS \<and> 3 \<le> next_fd n \<and>
     (\<forall>i k. holds n i k \<longrightarrow> 3 \<le> sock_fd k \<and> sock_fd k < next_fd n) \<and>
     (\<forall>i j k l. holds n i k \<longrightarrow> holds n j l \<longrightarrow> sock_fd k = sock_fd l \<longrightarrow> i = j)"

lemma net_inv_init [vm_inv]: "net_inv netstack_init"
  by (auto simp: net_inv_def netstack_init_def holds_def)

lemma net_inv_fd: "net_inv n \<Longrightarrow> holds n i k \<Longrightarrow> 3 \<le> sock_fd k \<and> sock_fd k < next_fd n"
  unfolding net_inv_def by blast

lemma net_inv_one: "net_inv n \<Longrightarrow> holds n i k \<Longrightarrow> holds n j l \<Longrightarrow> sock_fd k = sock_fd l \<Longrightarrow> i = j"
  unfolding net_inv_def by blast

lemma holds_inj: "holds n i k \<Longrightarrow> holds n i l \<Longrightarrow> k = l"
  by (simp add: holds_def)

lemma sock_index_SomeD: "sock_index n fd = Some i \<Longrightarrow> holds n i (sock_at n i) \<and> sock_fd (sock_at n i) = fd"
  unfolding sock_index_def by (drule first_index_SomeD) (auto simp: holds_def sock_at_def split: option.splits)

lemma sock_index_NoneD: "sock_index n fd = None \<Longrightarrow> holds n i k \<Longrightarrow> sock_fd k \<noteq> fd"
  unfolding sock_index_def first_index_None_iff holds_def by (auto simp: all_set_conv_all_nth split: option.splits)

lemma sock_index_holds:
  assumes inv: "net_inv n" and h: "holds n i k"
  shows "sock_index n (sock_fd k) = Some i"
proof (cases "sock_index n (sock_fd k)")
  case None
  with sock_index_NoneD [OF this h] show ?thesis by simp
next
  case (Some j)
  with net_inv_one [OF inv _ h] sock_index_SomeD [OF Some] show ?thesis by blast
qed

lemma sock_lookup_iff:
  assumes inv: "net_inv n"
  shows "sock_lookup n fd = Some k \<longleftrightarrow> (\<exists>i. holds n i k \<and> sock_fd k = fd)"
proof
  assume "sock_lookup n fd = Some k"
  then obtain i where "sock_index n fd = Some i" "k = sock_at n i" by (auto simp: sock_lookup_def)
  with sock_index_SomeD [OF this(1)] show "\<exists>i. holds n i k \<and> sock_fd k = fd" by blast
next
  assume "\<exists>i. holds n i k \<and> sock_fd k = fd"
  then obtain i where i: "holds n i k" "sock_fd k = fd" by blast
  with sock_index_holds [OF inv i(1)] show "sock_lookup n fd = Some k"
    by (simp add: sock_lookup_def holds_def sock_at_def)
qed

lemma holds_upd:
  "holds (upd_sock i f n) j s \<longleftrightarrow> (if j = i then \<exists>k. holds n i k \<and> s = f k else holds n j s)"
  by (auto simp: holds_def upd_sock_def nth_list_update)

text \<open>Updating a socket in place keeps its descriptor.\<close>

lemma upd_sock_inv [vm_inv]:
  assumes inv: "net_inv n" and f: "\<And>s. sock_fd (f s) = sock_fd s"
  shows "net_inv (upd_sock i f n)"
proof -
  have old: "\<exists>k'. holds n j k' \<and> sock_fd k' = sock_fd k" if "holds (upd_sock i f n) j k" for j k
    using that f by (auto simp: holds_upd split: if_splits)
  show ?thesis
    unfolding net_inv_def
  proof (intro conjI allI impI)
    show "length (sockets (upd_sock i f n)) = MAX_SOCKETS" "3 \<le> next_fd (upd_sock i f n)"
      using inv by (simp_all add: net_inv_def upd_sock_def)
    fix j k assume "holds (upd_sock i f n) j k"
    from old [OF this] net_inv_fd [OF inv]
    show "3 \<le> sock_fd k" "sock_fd k < next_fd (upd_sock i f n)" by (force simp: upd_sock_def)+
  next
    fix j j' k l assume "holds (upd_sock i f n) j k" "holds (upd_sock i f n) j' l" "sock_fd k = sock_fd l"
    with old net_inv_one [OF inv] show "j = j'" by metis
  qed
qed

lemma upd_sock_lookup:
  assumes inv: "net_inv n" and f: "\<And>s. sock_fd (f s) = sock_fd s" and i: "sock_index n fd = Some i"
  shows "sock_lookup (upd_sock i f n) fd' = (if fd' = fd then map_option f (sock_lookup n fd) else sock_lookup n fd')"
proof -
  note k = sock_index_SomeD [OF i]
  have inv': "net_inv (upd_sock i f n)" using upd_sock_inv [OF inv f] .
  have here: "sock_lookup n fd = Some (sock_at n i)" using k sock_lookup_iff [OF inv] by blast
  show ?thesis
  proof (cases "fd' = fd")
    case True
    have "holds (upd_sock i f n) i (f (sock_at n i))" using k by (auto simp: holds_upd)
    with True k f here show ?thesis using sock_lookup_iff [OF inv'] by auto
  next
    case False
    have "holds (upd_sock i f n) j s \<and> sock_fd s = fd' \<longleftrightarrow> holds n j s \<and> sock_fd s = fd'" for j s
      using False k f holds_inj [of n i] by (auto simp: holds_upd)
    with False sock_lookup_iff [OF inv'] sock_lookup_iff [OF inv] show ?thesis
      by (metis not_Some_eq)
  qed
qed

lemma upd_stats_net_simps [simp]:
  "sockets (upd_stats_net f n) = sockets n" "next_fd (upd_stats_net f n) = next_fd n"
  "net_inv (upd_stats_net f n) = net_inv n" "sock_lookup (upd_stats_net f n) fd = sock_lookup n fd"
  by (simp_all add: upd_stats_net_def net_inv_def holds_def sock_lookup_def sock_index_def sock_at_def cong: map_option_cong)

end
