(* ===== verification/NetCodec.thy ===== *)
theory NetCodec
  imports NetStack CLib
begin

text \<open>
  The encodings of \<^verbatim>\<open>src/kernel/network_stack.c\<close>: byte order, the Internet checksum
  (RFC 1071) and the dotted notation of addresses. A \<^verbatim>\<open>uint16_t\<close> is loaded from bytes in the
  little-endian order of the machine; \<^verbatim>\<open>sscanf\<close> and \<^verbatim>\<open>snprintf\<close> are modelled for the one
  format used.
\<close>

section \<open>Checksum\<close>

text \<open>The load of a 16-bit word, and the summing loop with the odd byte at the end.\<close>

definition load16 :: "u8 \<Rightarrow> u8 \<Rightarrow> u16" where
  "load16 a b = ucast a + push_bit 8 (ucast b)"

fun csum_words :: "u32 \<Rightarrow> u8 list \<Rightarrow> u32" where
  "csum_words s (a # b # bs) = csum_words (s + ucast (load16 a b)) bs"
| "csum_words s [a] = s + ucast a"
| "csum_words s [] = s"

lemma fold_step: "unat ((s AND 0xFFFF) + drop_bit 16 (s :: u32)) = unat s mod 65536 + unat s div 65536"
proof -
  have m: "(0xFFFF :: u32) = mask 16" by (simp add: mask_eq_exp_minus_1)
  have "unat (s AND 0xFFFF) = unat s mod 65536"
    unfolding m by (simp add: take_bit_eq_mask [symmetric] take_bit_eq_mod unat_mod_distrib)
  moreover have "unat (drop_bit 16 s) = unat s div 65536" by (simp add: drop_bit_eq_div unat_div_distrib)
  moreover have "unat s < 2 ^ 32" using unsigned_less [where 'a = nat, of s] by simp
  then have "unat s div 65536 < 65536" by (simp add: less_mult_imp_div_less)
  then have "unat s mod 65536 + unat s div 65536 < 2 ^ 32" by simp
  ultimately show ?thesis by (simp add: unat_word_ariths)
qed

text \<open>The carry folding loop.\<close>

function csum_fold :: "u32 \<Rightarrow> u32" where
  "csum_fold s = (if drop_bit 16 s \<noteq> 0 then csum_fold ((s AND 0xFFFF) + drop_bit 16 s) else s)"
  by auto

lemma drop_16_zero: "drop_bit 16 (s :: u32) = 0 \<longleftrightarrow> unat s < 65536"
proof -
  have "unat (drop_bit 16 s) = unat s div 65536" by (simp add: drop_bit_eq_div unat_div_distrib)
  then show ?thesis by (metis div_eq_0_iff unat_eq_0 zero_neq_numeral)
qed

termination csum_fold
proof (relation "measure unat")
  fix s :: u32
  assume "drop_bit 16 s \<noteq> 0"
  then have "65536 \<le> unat s" by (simp add: drop_16_zero)
  then have "unat s mod 65536 + unat s div 65536 < unat s"
    using div_mult_mod_eq [of "unat s" 65536] by linarith
  then show "((s AND 0xFFFF) + drop_bit 16 s, s) \<in> measure unat" using fold_step [of s] by simp
qed simp

declare csum_fold.simps [simp del]

definition netstack_checksum :: "u8 list \<Rightarrow> u16" where
  "netstack_checksum bs = ucast (NOT (csum_fold (csum_words 0 bs)))"

text \<open>Both loops over the naturals.\<close>

fun word_sum :: "u8 list \<Rightarrow> nat" where
  "word_sum (a # b # bs) = unat a + 256 * unat b + word_sum bs"
| "word_sum [a] = unat a"
| "word_sum [] = 0"

lemma u8_bound: "unat (x :: u8) < 256"
  using unsigned_less [where 'a = nat, of x] by simp

lemma load_word: "unat (ucast (load16 a b) :: u32) = unat a + 256 * unat b"
proof -
  have "unat (push_bit 8 (ucast b :: u16)) = 256 * unat b"
    using u8_bound [of b] by (simp add: push_bit_eq_mult unat_word_ariths unsigned_ucast_eq take_bit_nat_eq_self)
  moreover have "unat (ucast a :: u16) = unat a"
    using u8_bound [of a] by (simp add: unsigned_ucast_eq take_bit_nat_eq_self)
  ultimately have "unat (load16 a b) = unat a + 256 * unat b"
    using u8_bound [of a] u8_bound [of b] by (simp add: load16_def unat_word_ariths)
  moreover have "unat (ucast (x :: u16) :: u32) = unat x" for x
    using unsigned_less [where 'a = nat, of x] by (simp add: unsigned_ucast_eq take_bit_nat_eq_self)
  ultimately show ?thesis by simp
qed

lemma word_sum_bound: "word_sum bs \<le> 32768 * length bs + 255 * (length bs mod 2)"
proof (induction bs rule: word_sum.induct)
  case (1 a b bs)
  then show ?case using u8_bound [of a] u8_bound [of b] by simp
next
  case (2 a)
  then show ?case using u8_bound [of a] by simp
qed simp

lemma csum_words_nat:
  "unat s + word_sum bs < 2 ^ 32 \<Longrightarrow> unat (csum_words s bs) = unat s + word_sum bs"
proof (induction s bs rule: csum_words.induct)
  case (1 s a b bs)
  then have "unat (s + ucast (load16 a b)) = unat s + (unat a + 256 * unat b)"
    by (simp add: unat_word_ariths load_word)
  with 1 show ?case by simp
next
  case (2 s a)
  have "unat (ucast a :: u32) = unat a"
    using u8_bound [of a] by (simp add: unsigned_ucast_eq take_bit_nat_eq_self)
  with 2 show ?case by (simp add: unat_word_ariths)
qed simp

lemma csum_fold_nat:
  "unat (csum_fold s) < 65536 \<and> unat (csum_fold s) mod 65535 = unat s mod 65535 \<and>
     (csum_fold s = 0 \<longleftrightarrow> s = 0)"
proof (induction s rule: csum_fold.induct)
  case (1 s)
  show ?case
  proof (cases "drop_bit 16 s = 0")
    case True
    then show ?thesis by (subst (1 2 3) csum_fold.simps) (simp add: drop_16_zero)
  next
    case False
    let ?t = "(s AND 0xFFFF) + drop_bit 16 s"
    note IH = 1 [OF False]
    have eq: "csum_fold s = csum_fold ?t" using False by (subst csum_fold.simps) simp
    have "unat s = unat s mod 65536 + unat s div 65536 + 65535 * (unat s div 65536)"
      using mult_div_mod_eq [of 65536 "unat s"] by linarith
    then have "unat s mod 65535 = unat ?t mod 65535"
      unfolding fold_step by (metis mod_mult_self2)
    moreover have "?t = 0 \<longleftrightarrow> s = 0"
    proof -
      from False have "0 < unat s div 65536" by (simp add: drop_16_zero div_greater_zero_iff)
      then have "unat ?t \<noteq> 0" "unat s \<noteq> 0" unfolding fold_step by auto
      then show ?thesis by auto
    qed
    ultimately show ?thesis using IH eq by simp
  qed
qed

text \<open>The checksum over the naturals: 65535 less the sum folded into 16 bits.\<close>

lemma checksum_nat:
  assumes "word_sum bs < 2 ^ 32"
  shows "\<exists>r < 65536. unat (netstack_checksum bs) = 65535 - r \<and> r mod 65535 = word_sum bs mod 65535 \<and>
    (r = 0 \<longleftrightarrow> word_sum bs = 0)"
proof -
  let ?s = "csum_words 0 bs"
  have s: "unat ?s = word_sum bs" using csum_words_nat [of 0 bs] assms by simp
  let ?r = "unat (csum_fold ?s)"
  note f = csum_fold_nat [of ?s]
  have "netstack_checksum bs = NOT (ucast (csum_fold ?s))"
    unfolding netstack_checksum_def by (rule bit_word_eqI) (simp add: bit_simps)
  moreover have "unat (ucast (csum_fold ?s) :: u16) = ?r"
    using f by (simp add: unsigned_ucast_eq take_bit_nat_eq_self)
  moreover have "unat (NOT y) = 65535 - unat y" for y :: u16
  proof -
    have "NOT y = - 1 - y" by (simp add: not_eq_complement)
    moreover have "unat (- 1 :: u16) = 65535" by (simp add: unsigned_minus_1_eq_mask mask_eq_exp_minus_1)
    ultimately show ?thesis using unat_sub [of y "- 1"] by simp
  qed
  ultimately have "unat (netstack_checksum bs) = 65535 - ?r" by simp
  moreover have "?r = 0 \<longleftrightarrow> word_sum bs = 0" using f s by (metis unat_eq_0)
  ultimately show ?thesis using f s by auto
qed

lemma word_sum_append: "even (length bs) \<Longrightarrow> word_sum (bs @ cs) = word_sum bs + word_sum cs"
  by (induction bs rule: word_sum.induct) auto

text \<open>
  The checksum is the Internet checksum: a packet of even length with its checksum
  stored behind it, in the byte order it was computed in, sums to zero. Packets of up to
  128 KB are covered, beyond which the 32-bit sum could overflow.
\<close>

theorem checksum_verifies:
  assumes even: "even (length bs)" and len: "length bs \<le> 131068"
  defines "c \<equiv> netstack_checksum bs"
  shows "netstack_checksum (bs @ [ucast c, ucast (drop_bit 8 c)]) = 0"
proof -
  let ?bs = "bs @ [ucast c, ucast (drop_bit 8 c)]"
  have b: "word_sum xs < 2 ^ 32" if "length xs \<le> 131070" for xs
  proof -
    have "word_sum xs \<le> 32768 * 131070 + 255"
      using word_sum_bound [of xs] that by (auto intro: order_trans mult_le_mono)
    then show ?thesis by simp
  qed
  from checksum_nat [OF b, of bs] len obtain r where
    r: "r < 65536" "unat c = 65535 - r" "r mod 65535 = word_sum bs mod 65535" "r = 0 \<longleftrightarrow> word_sum bs = 0"
    unfolding c_def by auto
  have "unat (ucast c :: u8) + 256 * unat (ucast (drop_bit 8 c) :: u8) = unat c"
  proof -
    have c16: "unat c < 65536" using unsigned_less [where 'a = nat, of c] by simp
    have "unat (ucast c :: u8) = unat c mod 256" by (simp add: unsigned_ucast_eq take_bit_eq_mod)
    moreover have "unat (ucast (drop_bit 8 c) :: u8) = unat c div 256 mod 256"
      by (simp add: unsigned_ucast_eq drop_bit_eq_div take_bit_eq_mod unat_div_distrib)
    ultimately show ?thesis using c16 by (simp add: less_mult_imp_div_less)
  qed
  then have sum: "word_sum ?bs = word_sum bs + (65535 - r)" using even r by (simp add: word_sum_append)
  from checksum_nat [OF b, of ?bs] len obtain q where
    q: "q < 65536" "unat (netstack_checksum ?bs) = 65535 - q" "q mod 65535 = word_sum ?bs mod 65535"
    "q = 0 \<longleftrightarrow> word_sum ?bs = 0" by auto
  have "word_sum ?bs \<noteq> 0" using sum r by auto
  moreover have "word_sum ?bs mod 65535 = 0"
  proof -
    have "word_sum ?bs mod 65535 = (r mod 65535 + (65535 - r)) mod 65535"
      unfolding sum by (metis mod_add_left_eq r(3))
    also have "\<dots> = (r + (65535 - r)) mod 65535" by (simp add: mod_add_left_eq)
    also have "\<dots> = 0" using r(1) by simp
    finally show ?thesis .
  qed
  ultimately have "q \<noteq> 0" "q mod 65535 = 0" using q by simp_all
  with q(1) have "q = 65535" by (cases "q < 65535") auto
  with q(2) show ?thesis by (simp add: unat_eq_0)
qed


section \<open>Byte order\<close>

lemma htons_involution: "ntohs (htons x) = x" "htons (ntohs x) = x"
proof -
  have m: "(0xFF :: u16) = mask 8" by (simp add: mask_eq_exp_minus_1)
  have "htons (htons x) = x"
    unfolding htons_def m by (rule bit_word_eqI) (auto simp: bit_simps)
  then show "ntohs (htons x) = x" "htons (ntohs x) = x" by (simp_all add: ntohs_def)
qed

section \<open>Dotted addresses\<close>

fun octets :: "IPv4Address \<Rightarrow> u8 list" where
  "octets (IPv4 a b c d) = [a, b, c, d]"

definition netstack_format_ipv4 :: "IPv4Address \<Rightarrow> nat \<Rightarrow> string" where
  "netstack_format_ipv4 addr bufsize =
     (case addr of IPv4 a b c d \<Rightarrow>
        take (bufsize - 1) (dec (unat a) @ ''.'' @ dec (unat b) @ ''.'' @ dec (unat c) @ ''.'' @ dec (unat d)))"

text \<open>\<^verbatim>\<open>%02x\<close>\<close>

definition hex2 :: "u8 \<Rightarrow> string" where
  "hex2 b = (let d = (\<lambda>n. ''0123456789abcdef'' ! n) in [d (unat b div 16), d (unat b mod 16)])"

fun mac_bytes :: "MACAddress \<Rightarrow> u8 list" where
  "mac_bytes (MAC a b c d e f) = [a, b, c, d, e, f]"

definition netstack_format_mac :: "MACAddress \<Rightarrow> nat \<Rightarrow> string" where
  "netstack_format_mac mac sz =
     take (sz - 1) (concat (map (\<lambda>b. hex2 b @ '':'') (butlast (mac_bytes mac))) @ hex2 (last (mac_bytes mac)))"

text \<open>The values \<^verbatim>\<open>"%d.%d.%d.%d"\<close> converts: \<open>k\<close> more numbers with a dot before each but the first.\<close>

fun scan_dotted :: "nat \<Rightarrow> string \<Rightarrow> int list" where
  "scan_dotted 0 s = []"
| "scan_dotted (Suc k) s =
     (case scan_int s of None \<Rightarrow> []
      | Some (v, r) \<Rightarrow> v # (if k \<noteq> 0 \<and> r \<noteq> [] \<and> hd r = CHR ''.'' then scan_dotted k (tl r) else []))"

text \<open>A number that does not fit an \<^verbatim>\<open>int\<close> makes \<^verbatim>\<open>sscanf\<close> undefined.\<close>

definition netstack_parse_ipv4 :: "string \<Rightarrow> IPv4Address \<Rightarrow> (int \<times> IPv4Address) option" where
  "netstack_parse_ipv4 str addr =
     (let vs = scan_dotted 4 str in
      if \<exists>v \<in> set vs. v < - (2 ^ 31) \<or> 2 ^ 31 \<le> v then None
      else (case vs of
              [a, b, c, d] \<Rightarrow>
                if a < 0 \<or> a > 255 \<or> b < 0 \<or> b > 255 \<or> c < 0 \<or> c > 255 \<or> d < 0 \<or> d > 255 then Some (-1, addr)
                else Some (0, IPv4 (of_int a) (of_int b) (of_int c) (of_int d))
            | _ \<Rightarrow> Some (-1, addr)))"

text \<open>
  Addresses are read back from the notation they are printed in: for a buffer of at
  least 16 bytes, parsing the formatted address returns 0 and the address, whatever was in
  the result before.
\<close>

theorem ipv4_roundtrip:
  assumes "16 \<le> bufsize"
  shows "netstack_parse_ipv4 (netstack_format_ipv4 addr bufsize) old = Some (0, addr)"
proof -
  obtain a b c d where addr: "addr = IPv4 a b c d" by (cases addr)
  have o: "unat x < 256" "length (dec (unat x)) \<le> 3" for x :: u8
    using u8_bound [of x] length_dec [of "unat x"] by simp_all
  have fits: "netstack_format_ipv4 addr bufsize
      = dec (unat a) @ CHR ''.'' # dec (unat b) @ CHR ''.'' # dec (unat c) @ CHR ''.'' # dec (unat d)"
    using assms o [of a] o [of b] o [of c] o [of d] by (simp add: netstack_format_ipv4_def addr)
  have dot: "\<not> is_digit CHR ''.''" by (simp add: is_digit_def)
  have "scan_dotted 4 (netstack_format_ipv4 addr bufsize) = [int (unat a), int (unat b), int (unat c), int (unat d)]"
    unfolding fits using scan_dec [of "[]" "unat d"] dot
    by (simp add: numeral_eq_Suc scan_dec)
  moreover have "uint x \<le> 255 \<and> - 2147483648 \<le> uint x \<and> \<not> 2147483648 \<le> uint x" for x :: u8
  proof -
    have "0 \<le> uint x" "uint x < 256"
      using unsigned_less [where 'a = int, of x] unsigned_greater_eq [where 'a = int, of x] by simp_all
    then show ?thesis by linarith
  qed
  ultimately show ?thesis by (simp add: netstack_parse_ipv4_def addr Let_def not_less)
qed

text \<open>Anything after the fourth number is ignored.\<close>

lemma parse_ignores_rest: "netstack_parse_ipv4 ''10.0.2.15xyz'' old = Some (0, IPv4 10 0 2 15)"
  by (simp add: netstack_parse_ipv4_def numeral_eq_Suc scan_int_def Let_def is_digit_def is_space_def digits_val_def)

section \<open>Witnesses\<close>

lemma checksum_verifies_witness:
  "netstack_checksum [0x45, 0, 0, 0x54] = 0xABBA \<and> netstack_checksum [0x45, 0, 0, 0x54, 0xBA, 0xAB] = 0"
proof -
  have c: "netstack_checksum [0x45, 0, 0, 0x54] = 0xABBA"
    by (simp add: netstack_checksum_def load16_def csum_fold.simps)
  have b: "[0x45, 0, 0, 0x54] @ [ucast (0xABBA :: u16), ucast (drop_bit 8 (0xABBA :: u16))]
      = [0x45, 0, 0, 0x54, 0xBA, 0xAB :: u8]" by simp
  have "netstack_checksum ([0x45, 0, 0, 0x54] @ [ucast (0xABBA :: u16), ucast (drop_bit 8 (0xABBA :: u16))]) = 0"
    using checksum_verifies [of "[0x45, 0, 0, 0x54]"] unfolding c by simp
  with c show ?thesis unfolding b by blast
qed

lemma ipv4_roundtrip_witness:
  "netstack_parse_ipv4 (netstack_format_ipv4 (IPv4 10 0 2 255) 16) (IPv4 0 0 0 0) = Some (0, IPv4 10 0 2 255)"
  by (rule ipv4_roundtrip) simp

end
