(* ===== verification/Memory.thy ===== *)
theory Memory
  imports Prelude
begin

text \<open>
  The flat memory of the machine (\<^verbatim>\<open>src/memory/memory.c\<close>): a buffer allocated once, with
  guarded byte and block access. \<^verbatim>\<open>size_t\<close> is 64 bits wide, so the guards' additions can
  wrap; a copy that leaves the buffer is undefined behaviour (\<open>None\<close>). A pointer into the
  buffer is its offset.
\<close>

section \<open>State and operations\<close>

record Memory =
  mdata :: "u8 list"
  msize :: u64
  mallocated :: u64
  minitialized :: bool

definition memory_init :: "(u64 \<Rightarrow> bool) \<Rightarrow> u64 \<Rightarrow> Memory option \<Rightarrow> Memory option" where
  "memory_init malloc_ok sz m =
     (case m of Some v \<Rightarrow> Some v
      | None \<Rightarrow>
          if \<not> malloc_ok 32 then None
          else if \<not> malloc_ok sz then None
          else Some \<lparr>mdata = replicate (unat sz) 0, msize = sz, mallocated = sz, minitialized = True\<rparr>)"

definition memory_cleanup :: "Memory option \<Rightarrow> Memory option" where
  "memory_cleanup m = None"

definition memory_read :: "Memory option \<Rightarrow> u32 \<Rightarrow> u8" where
  "memory_read m a =
     (case m of None \<Rightarrow> 0
      | Some v \<Rightarrow> if \<not> minitialized v \<or> msize v \<le> ucast a then 0 else mdata v ! unat a)"

definition memory_write :: "u32 \<Rightarrow> u8 \<Rightarrow> Memory option \<Rightarrow> Memory option" where
  "memory_write a x m =
     (case m of None \<Rightarrow> None
      | Some v \<Rightarrow> if \<not> minitialized v \<or> msize v \<le> ucast a then Some v
                 else Some (v\<lparr>mdata := (mdata v)[unat a := x]\<rparr>))"

text \<open>The guard of the block operations: the sum is taken modulo 2^64.\<close>

definition block_refused :: "Memory \<Rightarrow> u32 \<Rightarrow> u64 \<Rightarrow> bool" where
  "block_refused v a n \<longleftrightarrow> \<not> minitialized v \<or> msize v < ucast a + n"

definition memory_read_block :: "Memory option \<Rightarrow> u32 \<Rightarrow> u64 \<Rightarrow> (int \<times> u8 list) option" where
  "memory_read_block m a n =
     (case m of None \<Rightarrow> Some (-1, [])
      | Some v \<Rightarrow>
          if block_refused v a n then Some (-1, [])
          else if length (mdata v) < unat a + unat n then None
          else Some (0, take (unat n) (drop (unat a) (mdata v))))"

definition memory_write_block :: "u32 \<Rightarrow> u8 list \<Rightarrow> Memory option \<Rightarrow> (int \<times> Memory option) option" where
  "memory_write_block a bs m =
     (case m of None \<Rightarrow> Some (-1, None)
      | Some v \<Rightarrow>
          if block_refused v a (of_nat (length bs)) then Some (-1, Some v)
          else if length (mdata v) < unat a + length bs then None
          else Some (0, Some (v\<lparr>mdata := take (unat a) (mdata v) @ bs @ drop (unat a + length bs) (mdata v)\<rparr>)))"

definition memory_map :: "Memory option \<Rightarrow> u32 \<Rightarrow> u64 \<Rightarrow> nat option" where
  "memory_map m a n =
     (case m of None \<Rightarrow> None | Some v \<Rightarrow> if block_refused v a n then None else Some (unat a))"

definition memory_unmap :: "Memory option \<Rightarrow> nat \<Rightarrow> u64 \<Rightarrow> int" where
  "memory_unmap m p n = 0"

definition memory_get_total :: "Memory option \<Rightarrow> u64" where
  "memory_get_total m = (case m of None \<Rightarrow> 0 | Some v \<Rightarrow> msize v)"

definition memory_get_used :: "Memory option \<Rightarrow> u64" where
  "memory_get_used m = (case m of None \<Rightarrow> 0 | Some v \<Rightarrow> mallocated v)"

definition memory_get_free :: "Memory option \<Rightarrow> u64" where
  "memory_get_free m = (case m of None \<Rightarrow> 0 | Some v \<Rightarrow> msize v - mallocated v)"

section \<open>Invariant and bounds\<close>

definition mem_inv :: "Memory option \<Rightarrow> bool" where
  "mem_inv m \<longleftrightarrow>
     (case m of None \<Rightarrow> True
      | Some v \<Rightarrow> minitialized v \<and> length (mdata v) = unat (msize v) \<and> mallocated v = msize v)"

lemma mem_inv_init [vm_inv]: "mem_inv (memory_init ok sz None)"
  by (simp add: mem_inv_def memory_init_def)

lemma mem_inv_write [vm_inv]: "mem_inv m \<Longrightarrow> mem_inv (memory_write a x m)"
  by (auto simp: mem_inv_def memory_write_def split: option.splits)

lemma mem_inv_write_block [vm_inv]:
  "mem_inv m \<Longrightarrow> memory_write_block a bs m = Some (r, m') \<Longrightarrow> mem_inv m'"
  by (auto simp: mem_inv_def memory_write_block_def split: option.splits if_splits)

text \<open>The memory never counts as free: all of it is allocated at initialisation.\<close>

lemma memory_free_zero: "mem_inv m \<Longrightarrow> memory_get_free m = 0"
  by (auto simp: mem_inv_def memory_get_free_def split: option.splits)

lemma ucast_add_nat:
  "unat (a :: u32) + unat (n :: u64) < 2 ^ 64 \<Longrightarrow> unat (ucast a + n :: u64) = unat a + unat n"
  by (simp add: unat_word_ariths)

text \<open>
  Blocks written to memory are read back: in an initialised memory a block of any
  length, as long as its end fits 64 bits, is either refused with -1 and no change, exactly
  when it does not fit the memory, or stored; then reading it returns it, every byte outside
  it is unchanged, and no access leaves the buffer.
\<close>

theorem memory_block_roundtrip:
  assumes inv: "mem_inv (Some v)" and wrap: "unat a + length bs < 2 ^ 64"
  shows "\<exists>r m'. memory_write_block a bs (Some v) = Some (r, m') \<and> mem_inv m' \<and>
    (if unat a + length bs \<le> unat (msize v)
     then r = 0 \<and> memory_read_block m' a (of_nat (length bs)) = Some (0, bs) \<and>
          (\<forall>b. unat b < unat a \<or> unat a + length bs \<le> unat b \<longrightarrow> memory_read m' b = memory_read (Some v) b)
     else r = -1 \<and> m' = Some v)"
proof -
  have len: "length (mdata v) = unat (msize v)" and ini: "minitialized v" using inv by (auto simp: mem_inv_def)
  have nb: "unat (of_nat (length bs) :: u64) = length bs"
    using wrap by (simp add: unsigned_of_nat take_bit_nat_eq_self)
  have sum: "unat (ucast a + of_nat (length bs) :: u64) = unat a + length bs"
    using ucast_add_nat [of a "of_nat (length bs)"] wrap nb by simp
  have ref: "block_refused v a (of_nat (length bs)) \<longleftrightarrow> unat (msize v) < unat a + length bs"
    using ini sum by (simp add: block_refused_def word_less_nat_alt)
  show ?thesis
  proof (cases "unat a + length bs \<le> unat (msize v)")
    case False
    with ref inv show ?thesis by (simp add: memory_write_block_def)
  next
    case True
    let ?v = "v\<lparr>mdata := take (unat a) (mdata v) @ bs @ drop (unat a + length bs) (mdata v)\<rparr>"
    have w: "memory_write_block a bs (Some v) = Some (0, Some ?v)"
      using True ref len by (simp add: memory_write_block_def)
    have ref': "block_refused ?v a (of_nat (length bs)) \<longleftrightarrow> block_refused v a (of_nat (length bs))"
      by (simp add: block_refused_def)
    have read: "memory_read_block (Some ?v) a (of_nat (length bs)) = Some (0, bs)"
      using True ref ref' len nb by (simp add: memory_read_block_def)
    have other: "memory_read (Some ?v) b = memory_read (Some v) b"
      if "unat b < unat a \<or> unat a + length bs \<le> unat b" for b
    proof (cases "msize v \<le> ucast b")
      case True
      then show ?thesis by (simp add: memory_read_def)
    next
      case False
      then have "unat b < unat (msize v)" by (simp add: word_le_nat_alt)
      with that True len have "(take (unat a) (mdata v) @ bs @ drop (unat a + length bs) (mdata v)) ! unat b
          = mdata v ! unat b"
        by (auto simp: nth_append)
      with False show ?thesis by (simp add: memory_read_def)
    qed
    show ?thesis
      using w mem_inv_write_block [OF inv w] read other True by (intro exI [of _ 0] exI [of _ "Some ?v"]) simp
  qed
qed

text \<open>A size close to 2^64 passes the guard and leaves the buffer.\<close>

lemma block_guard_wraps:
  assumes "mem_inv (Some v)" and "msize v = 0x100000"
  shows "memory_read_block (Some v) 0x10 (- 8) = None"
  using assms by (simp add: memory_read_block_def block_refused_def mem_inv_def)

lemma memory_block_roundtrip_witness:
  "\<exists>m'. memory_write_block 2 [7, 8] (memory_init (\<lambda>_. True) 6 None) = Some (0, m') \<and>
     memory_read_block m' 2 2 = Some (0, [7, 8])"
proof -
  obtain v where v: "memory_init (\<lambda>_. True) 6 None = Some v" "msize v = 6"
    by (simp add: memory_init_def)
  have "mem_inv (Some v)" using mem_inv_init [of "\<lambda>_. True" 6] v by simp
  from memory_block_roundtrip [OF this, of 2 "[7, 8]"] v show ?thesis by auto
qed

end
