(* ===== verification/NetProps.thy ===== *)
theory NetProps
  imports NetStack
begin

text \<open>
  Properties of the socket layer: descriptors as handles, exclusive ports, connection
  states, and what the code gets wrong.
\<close>

section \<open>Sockets as handles\<close>

type_synonym sock_args = "net_mem \<times> nat \<times> int \<times> int"

text \<open>\<^verbatim>\<open>netstack_socket\<close> for AF_INET, as an operation that fails or creates.\<close>

definition open_socket :: "sock_args \<Rightarrow> net_state \<Rightarrow> (int \<times> net_state) option" where
  "open_socket a n = (case a of (mem, rnd, ty, proto) \<Rightarrow>
     (case netstack_socket mem rnd AF_INET ty proto n of
        Some (fd, n') \<Rightarrow> (if fd < 0 then None else Some (fd, n')) | None \<Rightarrow> None))"

lemma netstack_socket_cases:
  assumes inv: "net_inv n" and sk: "netstack_socket mem rnd family ty proto n = Some (fd, n')"
  obtains (refused) "fd = -1" "n' = n" "family \<noteq> AF_INET \<or> (\<forall>i < length (sockets n). sockets n ! i \<noteq> None)"
  | (opened) i s where "fd = next_fd n" "i < length (sockets n)" "sockets n ! i = None" "calloc_ok mem"
      "n' = n\<lparr>sockets := (sockets n)[i := Some s], next_fd := fd + 1\<rparr>"
      "sock_fd s = fd" "sock_family s = family" "sock_type s = ty" "sock_protocol s = proto"
      "sock_state s = SOCKET_CLOSED" "local s = zero_addr"
proof (cases "family = AF_INET \<and> first_index (\<lambda>s. s = None) (sockets n) \<noteq> None")
  case False
  show thesis
  proof (rule refused)
    show "fd = -1" "n' = n" using False sk by (auto simp: netstack_socket_def split: option.splits if_splits)
    show "family \<noteq> AF_INET \<or> (\<forall>i < length (sockets n). sockets n ! i \<noteq> None)"
      using False first_index_None_iff [of "\<lambda>s. s = None" "sockets n"] by (auto simp: in_set_conv_nth)
  qed
next
  case True
  then obtain i where i: "first_index (\<lambda>s. s = None) (sockets n) = Some i" by auto
  from first_index_SomeD [OF i] True sk i show thesis
    by (intro opened) (auto simp: netstack_socket_def Let_def split: if_splits)
qed

lemma holds_new:
  "sockets n ! i = None \<Longrightarrow> i < length (sockets n) \<Longrightarrow>
    holds (n\<lparr>sockets := (sockets n)[i := Some s], next_fd := x\<rparr>) j k \<longleftrightarrow> (if j = i then k = s else holds n j k)"
  by (auto simp: holds_def nth_list_update)

lemma socket_opened:
  assumes inv: "net_inv n" and i: "sockets n ! i = None" "i < length (sockets n)" and s: "sock_fd s = next_fd n"
  defines "n' \<equiv> n\<lparr>sockets := (sockets n)[i := Some s], next_fd := next_fd n + 1\<rparr>"
  shows "net_inv n'" and "sock_lookup n' fd = (if fd = next_fd n then Some s else sock_lookup n fd)"
proof -
  note h = holds_new [OF i, where s = s and x = "next_fd n + 1", folded n'_def]
  have below: "sock_fd k < next_fd n" if "holds n j k" for j k using net_inv_fd [OF inv that] by simp
  show inv': "net_inv n'"
    unfolding net_inv_def
  proof (intro conjI allI impI)
    show "length (sockets n') = MAX_SOCKETS" "3 \<le> next_fd n'" using inv by (simp_all add: net_inv_def n'_def)
    fix j k assume jk: "holds n' j k"
    have "3 \<le> next_fd n" using inv by (simp add: net_inv_def)
    with jk h s net_inv_fd [OF inv, of j k] show "3 \<le> sock_fd k" "sock_fd k < next_fd n'"
      by (auto simp: n'_def split: if_splits)
  next
    fix j j' k l assume "holds n' j k" "holds n' j' l" "sock_fd k = sock_fd l"
    with h s below [of j k] below [of j' l] net_inv_one [OF inv, of j k j' l] show "j = j'"
      by (auto split: if_splits)
  qed
  show "sock_lookup n' fd = (if fd = next_fd n then Some s else sock_lookup n fd)"
  proof (cases "fd = next_fd n")
    case True
    with h s have "holds n' i s" "sock_fd s = fd" by auto
    with True sock_lookup_iff [OF inv'] show ?thesis by auto
  next
    case False
    have "(\<exists>j. holds n' j k \<and> sock_fd k = fd) \<longleftrightarrow> (\<exists>j. holds n j k \<and> sock_fd k = fd)" for k
    proof -
      have "\<not> holds n i k" using i by (simp add: holds_def)
      with h s False show ?thesis by metis
    qed
    with False sock_lookup_iff [OF inv'] sock_lookup_iff [OF inv] show ?thesis by (metis not_Some_eq)
  qed
qed

lemma open_socketD:
  assumes inv: "net_inv n" and op: "open_socket a n = Some (fd, n')"
  shows "net_inv n'" and "fd = next_fd n"
    and "\<exists>s. (\<forall>fd'. sock_lookup n' fd' = (if fd' = fd then Some s else sock_lookup n fd')) \<and>
      sock_state s = SOCKET_CLOSED \<and> sock_type s = fst (snd (snd a))"
proof -
  obtain mem rnd ty proto where a: "a = (mem, rnd, ty, proto)" by (cases a)
  from op a have sk: "netstack_socket mem rnd AF_INET ty proto n = Some (fd, n')" and fd: "\<not> fd < 0"
    by (auto simp: open_socket_def split: option.splits prod.splits if_splits)
  from netstack_socket_cases [OF inv sk] fd obtain i s where i: "fd = next_fd n" "i < length (sockets n)"
    "sockets n ! i = None" "n' = n\<lparr>sockets := (sockets n)[i := Some s], next_fd := fd + 1\<rparr>"
    "sock_fd s = fd" "sock_type s = ty" "sock_state s = SOCKET_CLOSED" by (metis neg_less_0_iff_less zero_less_one)
  note o = socket_opened [OF inv i(3,2) i(5) [unfolded i(1)], folded i(4) [unfolded i(1)]]
  show "net_inv n'" and "fd = next_fd n" using o(1) i(1) by simp_all
  show "\<exists>s. (\<forall>fd'. sock_lookup n' fd' = (if fd' = fd then Some s else sock_lookup n fd')) \<and>
      sock_state s = SOCKET_CLOSED \<and> sock_type s = fst (snd (snd a))"
    using o(2) i a by auto
qed

lemma lookup_below: "net_inv n \<Longrightarrow> sock_lookup n fd = Some s \<Longrightarrow> 3 \<le> fd \<and> fd < next_fd n"
  using net_inv_fd by (auto simp: sock_lookup_iff)

lemma close_lookup:
  assumes inv: "net_inv n"
  shows "net_inv (snd (netstack_close fd n))"
    and "sock_lookup (snd (netstack_close fd n)) fd' = (if fd' = fd then None else sock_lookup n fd')"
    and "fst (netstack_close fd n) = (if sock_lookup n fd = None then -1 else 0)"
proof -
  have "net_inv (snd (netstack_close fd n)) \<and>
    sock_lookup (snd (netstack_close fd n)) fd' = (if fd' = fd then None else sock_lookup n fd') \<and>
    fst (netstack_close fd n) = (if sock_lookup n fd = None then -1 else 0)"
  proof (cases "sock_index n fd")
    case None
    then show ?thesis using inv by (simp add: netstack_close_def sock_lookup_def)
  next
    case (Some i)
    let ?n = "n\<lparr>sockets := (sockets n)[i := None]\<rparr>"
    note k = sock_index_SomeD [OF Some]
    have h: "holds ?n j l \<longleftrightarrow> j \<noteq> i \<and> holds n j l" for j l
      by (cases "j = i") (auto simp: holds_def)
    have inv': "net_inv ?n"
      unfolding net_inv_def using h inv net_inv_fd [OF inv] net_inv_one [OF inv]
      by (auto simp: net_inv_def)
    have eq: "sock_lookup ?n fd' = Some l \<longleftrightarrow> fd' \<noteq> fd \<and> sock_lookup n fd' = Some l" for l
    proof -
      have "j \<noteq> i" if "holds n j l" "sock_fd l \<noteq> fd" for j using that k holds_inj [of n i] by blast
      moreover have "j = i" if "holds n j l" "sock_fd l = fd" for j using that k net_inv_one [OF inv] by blast
      ultimately show ?thesis unfolding sock_lookup_iff [OF inv'] sock_lookup_iff [OF inv] h by blast
    qed
    have look: "sock_lookup ?n fd' = (if fd' = fd then None else sock_lookup n fd')"
    proof (cases "sock_lookup ?n fd'")
      case None
      with eq [of "the (sock_lookup n fd')"] show ?thesis by (cases "sock_lookup n fd'") auto
    next
      case (Some l)
      with eq [of l] show ?thesis by simp
    qed
    with inv' Some show ?thesis by (simp add: netstack_close_def sock_lookup_def [of n fd])
  qed
  then show "net_inv (snd (netstack_close fd n))"
    and "sock_lookup (snd (netstack_close fd n)) fd' = (if fd' = fd then None else sock_lookup n fd')"
    and "fst (netstack_close fd n) = (if sock_lookup n fd = None then -1 else 0)" by auto
qed

interpretation sock: handle_table net_inv sock_lookup open_socket "\<lambda>fd n. snd (netstack_close fd n)"
proof unfold_locales
  show "net_inv n'" if "net_inv n" "open_socket a n = Some (k, n')" for n a k n'
    using open_socketD [OF that] by blast
  show "sock_lookup n k = None" if "net_inv n" "open_socket a n = Some (k, n')" for n a k n'
    using open_socketD(2) [OF that] lookup_below [OF that(1), of k] by (cases "sock_lookup n k") auto
  show "sock_lookup n' k \<noteq> None" if "net_inv n" "open_socket a n = Some (k, n')" for n a k n'
    using open_socketD(3) [OF that] by auto
  show "sock_lookup n' k' = sock_lookup n k'"
    if "net_inv n" "open_socket a n = Some (k, n')" "k' \<noteq> k" for n a k n' k'
    using open_socketD(3) [OF that(1,2)] that(3) by auto
qed (simp_all add: close_lookup)


section \<open>Ports\<close>

lemma port_taken_iff:
  assumes inv: "net_inv n" and i: "sock_index n fd = Some i"
  shows "port_taken n i p \<longleftrightarrow>
    (\<exists>fd' s. fd' \<noteq> fd \<and> sock_lookup n fd' = Some s \<and> ntohs (sa_port (local s)) = p)"
proof -
  have "port_taken n i p \<longleftrightarrow> (\<exists>j s. j \<noteq> i \<and> holds n j s \<and> ntohs (sa_port (local s)) = p)"
    by (auto simp: port_taken_def holds_def split: option.splits)
  also have "\<dots> \<longleftrightarrow> (\<exists>fd' s. fd' \<noteq> fd \<and> sock_lookup n fd' = Some s \<and> ntohs (sa_port (local s)) = p)"
    unfolding sock_lookup_iff [OF inv]
    using sock_index_SomeD [OF i] net_inv_one [OF inv] holds_inj [of n i] by metis
  finally show ?thesis .
qed

text \<open>
  Ports are exclusive at bind time: \<open>netstack_bind\<close> succeeds exactly when the descriptor
  is open and no other socket has the port; then this socket alone has it, with the rest of
  the table unchanged. A refused bind changes nothing.
\<close>

theorem bind_exclusive:
  fixes fd :: int and addr :: SocketAddress
  assumes inv: "net_inv n"
  defines "other \<equiv> (\<exists>fd' s. fd' \<noteq> fd \<and> sock_lookup n fd' = Some s \<and>
    ntohs (sa_port (local s)) = ntohs (sa_port addr))"
  shows "\<exists>r n'. netstack_bind fd addr n = (r, n') \<and> net_inv n' \<and>
    (if sock_lookup n fd \<noteq> None \<and> \<not> other
     then r = 0 \<and> (\<forall>fd'. sock_lookup n' fd' =
            (if fd' = fd then map_option (\<lambda>s. s\<lparr>local := addr\<rparr>) (sock_lookup n fd) else sock_lookup n fd')) \<and>
          (\<forall>fd' s. sock_lookup n' fd' = Some s \<and> ntohs (sa_port (local s)) = ntohs (sa_port addr) \<longrightarrow> fd' = fd)
     else r = -1 \<and> n' = n)"
proof (cases "sock_index n fd")
  case None
  then show ?thesis using inv by (simp add: netstack_bind_def sock_lookup_def)
next
  case (Some i)
  then have open_fd: "sock_lookup n fd \<noteq> None" by (simp add: sock_lookup_def)
  note taken = port_taken_iff [OF inv Some, of "ntohs (sa_port addr)", folded other_def]
  show ?thesis
  proof (cases other)
    case True
    with Some taken inv show ?thesis by (simp add: netstack_bind_def)
  next
    case False
    let ?n = "upd_sock i (\<lambda>s. s\<lparr>local := addr\<rparr>) n"
    have cond: "sock_lookup n fd \<noteq> None \<and> \<not> other" using open_fd False by simp
    have r: "netstack_bind fd addr n = (0, ?n)" using Some False taken by (simp add: netstack_bind_def)
    have i: "net_inv ?n" using inv by (rule upd_sock_inv) simp
    have l: "sock_lookup ?n fd' =
        (if fd' = fd then map_option (\<lambda>s. s\<lparr>local := addr\<rparr>) (sock_lookup n fd) else sock_lookup n fd')" for fd'
      using inv _ Some by (rule upd_sock_lookup) simp
    have u: "fd' = fd" if "sock_lookup ?n fd' = Some s \<and> ntohs (sa_port (local s)) = ntohs (sa_port addr)" for fd' s
      using that False l [of fd'] unfolding other_def by (metis (no_types))
    show ?thesis unfolding if_P [OF cond] using r i l u by blast
  qed
qed

section \<open>Connections\<close>

text \<open>Connecting makes a stream socket able to send, and no other: a datagram socket keeps
  its state, so that sending on a connected UDP socket is refused.\<close>

lemma connect_then_send:
  assumes inv: "net_inv n" and s: "sock_lookup n fd = Some s"
  shows "fst (netstack_connect fd addr n) = 0"
    and "sock_type s = SOCK_STREAM \<Longrightarrow> fst (netstack_send fd sz (snd (netstack_connect fd addr n))) = sint sz"
    and "sock_type s \<noteq> SOCK_STREAM \<Longrightarrow> sock_state s = SOCKET_CLOSED \<Longrightarrow>
      fst (netstack_send fd sz (snd (netstack_connect fd addr n))) = -1"
proof -
  from s obtain i where i: "sock_index n fd = Some i" "sock_at n i = s" by (auto simp: sock_lookup_def)
  let ?n1 = "upd_sock i (\<lambda>s. s\<lparr>remote := addr\<rparr>) n"
  have h: "holds n i s" "sock_fd s = fd" using sock_index_SomeD [OF i(1)] i(2) by auto
  have at1: "holds ?n1 i (s\<lparr>remote := addr\<rparr>)" using h by (auto simp: holds_upd)
  then have t1: "sock_at ?n1 i = s\<lparr>remote := addr\<rparr>" by (simp add: holds_def sock_at_def)
  have inv1: "net_inv ?n1" using inv by (rule upd_sock_inv) simp
  have idx: "sock_index m fd = Some i" if "net_inv m" "holds m i k" "sock_fd k = fd" for m k
    using sock_index_holds [OF that(1,2)] that(3) by simp
  let ?n2 = "upd_sock i (\<lambda>s. s\<lparr>sock_state := SOCKET_ESTABLISHED\<rparr>) ?n1"
  have inv2: "net_inv ?n2" using inv1 by (rule upd_sock_inv) simp
  have at2: "holds ?n2 i (s\<lparr>remote := addr, sock_state := SOCKET_ESTABLISHED\<rparr>)" using at1 by (auto simp: holds_upd)
  then have t2: "sock_at ?n2 i = s\<lparr>remote := addr, sock_state := SOCKET_ESTABLISHED\<rparr>"
    by (simp add: holds_def sock_at_def)
  have idx3: "sock_index (upd_stats_net f ?n2) fd = sock_index ?n2 fd" "sock_at (upd_stats_net f ?n2) i = sock_at ?n2 i"
    for f by (simp_all add: sock_index_def sock_at_def)
  show "fst (netstack_connect fd addr n) = 0" using i by (simp add: netstack_connect_def Let_def)
  show "fst (netstack_send fd sz (snd (netstack_connect fd addr n))) = sint sz" if "sock_type s = SOCK_STREAM"
    using that i t1 t2 idx [OF inv2 at2] idx3 h by (simp add: netstack_connect_def netstack_send_def Let_def)
  show "fst (netstack_send fd sz (snd (netstack_connect fd addr n))) = -1"
    if "sock_type s \<noteq> SOCK_STREAM" "sock_state s = SOCKET_CLOSED"
    using that i t1 idx [OF inv1 at1] h by (simp add: netstack_connect_def netstack_send_def Let_def net_const_defs)
qed

text \<open>An unbound socket counts as holding port 0: a second one cannot bind to port 0.\<close>

lemma bind_any_port_refused:
  assumes "net_inv n" and "fd' \<noteq> fd" and "sock_lookup n fd' = Some s" and "local s = zero_addr"
    and "sa_port addr = 0"
  shows "fst (netstack_bind fd addr n) = -1"
proof (cases "sock_index n fd")
  case None
  then show ?thesis by (simp add: netstack_bind_def)
next
  case (Some i)
  have "ntohs (sa_port (local s)) = ntohs (sa_port addr)" using assms(4,5) by (simp add: zero_addr_def)
  with port_taken_iff [OF assms(1) Some] assms(2,3) have "port_taken n i (ntohs (sa_port addr))" by blast
  with Some show ?thesis by (simp add: netstack_bind_def)
qed

section \<open>Witnesses\<close>

definition net_demo_mem :: net_mem where
  "net_demo_mem = \<lparr>calloc_ok = True, recv_ok = True, send_ok = True\<rparr>"

definition net_demo :: "int list \<times> net_state" where
  "net_demo = create_all open_socket [(net_demo_mem, 5, SOCK_STREAM, 6), (net_demo_mem, 9, SOCK_DGRAM, 17)] netstack_init"

lemma net_demo_fds: "fst net_demo = [3, 4]"
  by (simp add: net_demo_def open_socket_def netstack_socket_def netstack_init_def MAX_SOCKETS_def
      net_demo_mem_def Let_def AF_INET_def numeral_eq_Suc)


lemma bind_exclusive_witness:
  "\<exists>n'. netstack_bind 3 (zero_addr\<lparr>sa_port := htons 80\<rparr>) (snd net_demo) = (0, n') \<and>
     fst (netstack_bind 4 (zero_addr\<lparr>sa_port := htons 80\<rparr>) n') = -1"
proof -
  have run: "create_all open_socket [(net_demo_mem, 5, SOCK_STREAM, 6), (net_demo_mem, 9, SOCK_DGRAM, 17)] netstack_init
      = ([3, 4], snd net_demo)"
    using net_demo_fds by (simp add: net_demo_def prod_eq_iff)
  note al = sock.create_all_alive [OF net_inv_init run]
  have loc: "local s = zero_addr" if "sock_lookup (snd net_demo) fd = Some s" for fd s
    using that
    by (auto simp: net_demo_def open_socket_def netstack_socket_def netstack_init_def MAX_SOCKETS_def
        net_demo_mem_def Let_def AF_INET_def numeral_eq_Suc sock_lookup_def sock_index_def sock_at_def split: if_splits)
  have p: "ntohs (htons 80) = 80" "ntohs (sa_port zero_addr) = 0"
    by (simp_all add: ntohs_def htons_def zero_addr_def)
  have inv: "net_inv (snd net_demo)" using al by blast
  obtain s3 s4 where s3: "sock_lookup (snd net_demo) 3 = Some s3" and s4: "sock_lookup (snd net_demo) 4 = Some s4"
    using al by auto
  have no: "\<not> (\<exists>fd' s. fd' \<noteq> 3 \<and> sock_lookup (snd net_demo) fd' = Some s \<and>
      ntohs (sa_port (local s)) = ntohs (sa_port (zero_addr\<lparr>sa_port := htons 80\<rparr>)))"
    using loc p by auto
  from bind_exclusive [OF inv, of 3 "zero_addr\<lparr>sa_port := htons 80\<rparr>"] no s3 obtain n' where
    n': "netstack_bind 3 (zero_addr\<lparr>sa_port := htons 80\<rparr>) (snd net_demo) = (0, n')" "net_inv n'"
      "\<forall>fd'. sock_lookup n' fd' = (if fd' = 3
         then map_option (\<lambda>s. s\<lparr>local := zero_addr\<lparr>sa_port := htons 80\<rparr>\<rparr>) (sock_lookup (snd net_demo) 3)
         else sock_lookup (snd net_demo) fd')" by auto
  have "sock_lookup n' 3 = Some (s3\<lparr>local := zero_addr\<lparr>sa_port := htons 80\<rparr>\<rparr>)" using n'(3) s3 by simp
  then have "\<exists>fd' s. fd' \<noteq> 4 \<and> sock_lookup n' fd' = Some s \<and>
      ntohs (sa_port (local s)) = ntohs (sa_port (zero_addr\<lparr>sa_port := htons 80\<rparr>))"
    by (intro exI [of _ 3] exI [of _ "s3\<lparr>local := zero_addr\<lparr>sa_port := htons 80\<rparr>\<rparr>"]) simp
  then have c: "\<not> (sock_lookup n' 4 \<noteq> None \<and> \<not> (\<exists>fd' s. fd' \<noteq> 4 \<and> sock_lookup n' fd' = Some s \<and>
      ntohs (sa_port (local s)) = ntohs (sa_port (zero_addr\<lparr>sa_port := htons 80\<rparr>))))" by blast
  from bind_exclusive [OF n'(2), of 4 "zero_addr\<lparr>sa_port := htons 80\<rparr>"]
  have "fst (netstack_bind 4 (zero_addr\<lparr>sa_port := htons 80\<rparr>) n') = -1" unfolding if_not_P [OF c] by auto
  with n'(1) show ?thesis by blast
qed

end
