(* ===== verification/Syscalls.thy ===== *)
theory Syscalls
  imports Privilege Memory VfsDemo NetProps
begin

text \<open>
  The system call layer (\<^verbatim>\<open>src/kernel/syscall_table.c\<close>): the file descriptor table on top of
  the virtual file system, the socket calls on top of the network stack, memory mapping and
  the dispatcher that switches privilege rings.

  A descriptor holds the pointer to the data block of the file's node. Blocks and the
  pointers to them are explicit here: \<open>bufs\<close> holds the blocks from \<^verbatim>\<open>malloc\<close> and \<open>ndata\<close>
  the \<^verbatim>\<open>data\<close> pointer of every node, so that reading a freed block is undefined behaviour
  (\<open>None\<close>). Memory of the caller is in the environment; what is copied to it is recorded.
\<close>

section \<open>State\<close>

type_synonym dptr = nat
type_synonym blocks = "dptr \<Rightarrow> u8 list option"

definition MAX_FDS :: nat where "MAX_FDS = 256"
definition MAX_SYSCALLS :: u32 where "MAX_SYSCALLS = 256"

record FileDescriptor =
  fd_in_use :: bool
  fd_path :: "string option"
  fd_data :: "dptr option"
  fd_size :: nat
  fd_position :: nat
  fd_flags :: u32

datatype user_write = UBytes u32 "u8 list" | UAddr u32 SocketAddress

record sys_state =
  sys_vfs :: vfs_world
  ndata :: "vptr \<Rightarrow> dptr option"
  bufs :: blocks
  fds :: "FileDescriptor list"
  sys_priv :: PrivilegeContext
  sys_net :: net_state
  sys_mem :: "Memory option"
  mmap_base :: u32
  file_mmap_base :: u32
  console :: "u8 list"
  user_writes :: "user_write list"

text \<open>\<open>new_block\<close> is the address of a successful \<^verbatim>\<open>malloc\<close>, \<open>move_block\<close> the result of
  \<^verbatim>\<open>realloc\<close>, \<open>junk\<close> the bytes of memory not yet written; \<open>cstr_at\<close>, \<open>bytes_at\<close> and \<open>addr_at\<close>
  are the caller's memory.\<close>

record sys_env =
  on_vfs :: vfs_env
  new_block :: "blocks \<Rightarrow> dptr"
  move_block :: "blocks \<Rightarrow> dptr option \<Rightarrow> nat \<Rightarrow> dptr option"
  junk :: "nat \<Rightarrow> u8 list"
  cstr_at :: "u32 \<Rightarrow> string"
  bytes_at :: "u32 \<Rightarrow> nat \<Rightarrow> u8 list"
  addr_at :: "u32 \<Rightarrow> SocketAddress"
  on_net :: net_mem
  random :: "nat \<Rightarrow> nat"

definition fd_closed :: FileDescriptor where
  "fd_closed = \<lparr>fd_in_use = False, fd_path = None, fd_data = None, fd_size = 0, fd_position = 0, fd_flags = 0\<rparr>"

definition user_copy :: "user_write \<Rightarrow> sys_state \<Rightarrow> sys_state" where
  "user_copy x s = s\<lparr>user_writes := user_writes s @ [x]\<rparr>"

section \<open>File data with pointers\<close>

text \<open>\<^verbatim>\<open>vfs_read_file\<close>: the pointer it hands out is the node's; loading from the host allocates
  the block.\<close>

definition read_file_ptr ::
  "sys_env \<Rightarrow> string \<Rightarrow> sys_state \<Rightarrow> (int \<times> (dptr option \<times> nat) \<times> sys_state) option" where
  "read_file_ptr e path s = do {
     (r, d, v) \<leftarrow> vfs_read_file (on_vfs e) (Some path) (sys_vfs s);
     let s1 = s\<lparr>sys_vfs := v\<rparr>;
     (case d of None \<Rightarrow> Some (r, (None, 0), s1)
      | Some (bytes, sz) \<Rightarrow> do {
          node \<leftarrow> vfs_find_node v (Some path);
          (case node of None \<Rightarrow> None
           | Some a \<Rightarrow>
               (case ndata s1 a of
                  Some p \<Rightarrow> Some (r, (Some p, sz), s1)
                | None \<Rightarrow>
                    let p = new_block e (bufs s1) in
                    Some (r, (Some p, sz), s1\<lparr>ndata := (ndata s1)(a := Some p),
                       bufs := (bufs s1)(p \<mapsto> (case bytes of Some b \<Rightarrow> b | None \<Rightarrow> []) @ [0])\<rparr>))) }) }"

text \<open>\<^verbatim>\<open>vfs_write_file\<close>: the node's block is freed before the new one is filled from \<open>src\<close>.\<close>

definition write_file_ptr ::
  "sys_env \<Rightarrow> string \<Rightarrow> dptr option \<Rightarrow> nat \<Rightarrow> sys_state \<Rightarrow> (int \<times> sys_state) option" where
  "write_file_ptr e path src sz s = do {
     node \<leftarrow> vfs_find_node (sys_vfs s) (Some path);
     (case node of None \<Rightarrow> Some (-1, s)
      | Some a \<Rightarrow> do {
          n \<leftarrow> vnodes (sys_vfs s) a;
          perm \<leftarrow> vfs_check_permission (sys_vfs s) (Some path) (vfs_current_user (sys_vfs s)) (drop_bit 6 VFS_S_IWUSR);
          (if is_directory n \<or> perm = 0 then Some (-1, s)
           else do {
             freed \<leftarrow> (case ndata s a of None \<Rightarrow> Some (bufs s)
                      | Some p \<Rightarrow> if bufs s p = None then None else Some ((bufs s)(p := None)));
             (if 0 < sz \<and> src \<noteq> None
              then (if \<not> data_malloc (on_vfs e) sz
                    then Some (-1, s\<lparr>bufs := freed, ndata := (ndata s)(a := None),
                            sys_vfs := (sys_vfs s)\<lparr>vnodes := (vnodes (sys_vfs s))(a \<mapsto> n\<lparr>vdata := None\<rparr>)\<rparr>\<rparr>)
                    else do {
                      bytes \<leftarrow> freed (the src);
                      (if length bytes < sz then None else do {
                        let p = new_block e freed;
                        (r, v) \<leftarrow> vfs_write_file (on_vfs e) (Some path) (Some (take sz bytes)) (sys_vfs s);
                        Some (r, s\<lparr>bufs := freed(p \<mapsto> take sz bytes), ndata := (ndata s)(a := Some p),
                                  sys_vfs := v\<rparr>) }) })
              else do {
                (r, v) \<leftarrow> vfs_write_file (on_vfs e) (Some path) (Some []) (sys_vfs s);
                Some (r, s\<lparr>bufs := freed, ndata := (ndata s)(a := None), sys_vfs := v\<rparr>) }) }) }) }"

section \<open>Descriptor calls\<close>

text \<open>Bytes written into a block are the contents of the node it belongs to.\<close>

definition node_data_written :: "dptr \<Rightarrow> u8 list \<Rightarrow> sys_state \<Rightarrow> sys_state" where
  "node_data_written p block s = s\<lparr>bufs := (bufs s)(p \<mapsto> block),
     sys_vfs := (sys_vfs s)\<lparr>vnodes := (\<lambda>a. map_option
       (\<lambda>n. if ndata s a = Some p then n\<lparr>vdata := Some (take (vsize n) block)\<rparr> else n) (vnodes (sys_vfs s) a))\<rparr>\<rparr>"

definition fd_valid :: "u32 \<Rightarrow> sys_state \<Rightarrow> bool" where
  "fd_valid fd s \<longleftrightarrow> \<not> (unat fd < 3 \<or> MAX_FDS \<le> unat fd \<or> \<not> fd_in_use (fds s ! unat fd))"

definition set_fd :: "u32 \<Rightarrow> FileDescriptor \<Rightarrow> sys_state \<Rightarrow> sys_state" where
  "set_fd fd f s = s\<lparr>fds := (fds s)[unat fd := f]\<rparr>"

definition sys_read :: "sys_env \<Rightarrow> u32 \<Rightarrow> u32 \<Rightarrow> u32 \<Rightarrow> sys_state \<Rightarrow> (int \<times> sys_state) option" where
  "sys_read e fd buf count s =
     (if buf = 0 then Some (-1, s)
      else if fd = 0 then Some (0, s)
      else if \<not> fd_valid fd s then Some (-1, s)
      else (let file = fds s ! unat fd in
        if fd_flags file AND 0x03 = 1 then Some (-1, s)
        else (let available = fd_size file - fd_position file;
                  to_read = (if unat count < available then unat count else available)
              in if to_read = 0 then Some (0, s)
                 else do {
                   p \<leftarrow> fd_data file;
                   block \<leftarrow> bufs s p;
                   (if length block < fd_position file + to_read then None
                    else Some (sint (of_nat to_read :: u32),
                      set_fd fd (file\<lparr>fd_position := fd_position file + to_read\<rparr>)
                        (user_copy (UBytes buf (take to_read (drop (fd_position file) block))) s))) })))"

text \<open>The realloc, the copy into the block, and the write back.\<close>

definition sys_write :: "sys_env \<Rightarrow> u32 \<Rightarrow> u32 \<Rightarrow> u32 \<Rightarrow> sys_state \<Rightarrow> (int \<times> sys_state) option" where
  "sys_write e fd buf count s =
     (if buf = 0 then Some (-1, s)
      else if fd = 1 \<or> fd = 2
      then Some (sint count, s\<lparr>console := console s @ bytes_at e buf (unat count)\<rparr>)
      else if \<not> fd_valid fd s then Some (-1, s)
      else (let file = fds s ! unat fd in
        if fd_flags file AND 0x03 = 0 then Some (-1, s)
        else do {
          let new_pos = fd_position file + unat count;
          old \<leftarrow> (case fd_data file of None \<Rightarrow> Some [] | Some p \<Rightarrow> bufs s p);
          (case (if new_pos \<le> fd_size file then Some (fd_data file, fd_size file, bufs s)
                 else map_option (\<lambda>q. (Some q, new_pos,
                        (case fd_data file of None \<Rightarrow> bufs s | Some p \<Rightarrow> (bufs s)(p := None))
                          (q \<mapsto> take new_pos old @ junk e (new_pos - length old))))
                      (move_block e (bufs s) (fd_data file) new_pos)) of
             None \<Rightarrow> Some (-1, s)
           | Some (d, sz, b) \<Rightarrow> do {
               let file1 = file\<lparr>fd_data := d, fd_size := sz\<rparr>;
               p \<leftarrow> d;
               block \<leftarrow> b p;
               let block1 = take (fd_position file1) block @ bytes_at e buf (unat count)
                              @ drop (fd_position file1 + unat count) block;
               let file2 = file1\<lparr>fd_position := fd_position file1 + unat count\<rparr>;
               let s1 = set_fd fd file2 (node_data_written p block1 (s\<lparr>bufs := b\<rparr>));
               path \<leftarrow> fd_path file2;
               (r, s2) \<leftarrow> write_file_ptr e path (fd_data file2) (fd_size file2) s1;
               Some (if r \<noteq> 0 then -1 else sint count, s2) }) }))"

definition sys_open :: "sys_env \<Rightarrow> u32 \<Rightarrow> u32 \<Rightarrow> u32 \<Rightarrow> sys_state \<Rightarrow> (int \<times> sys_state) option" where
  "sys_open e pathname flags mode s =
     (if pathname = 0 then Some (-1, s)
      else (let path = cstr_at e pathname in
        case first_index (\<lambda>f. \<not> fd_in_use f) (drop 3 (fds s)) of
          None \<Rightarrow> Some (-1, s)
        | Some k \<Rightarrow> do {
            let fd = k + 3;
            node0 \<leftarrow> vfs_find_node (sys_vfs s) (Some path);
            (case (if node0 \<noteq> None then Some (Some (node0, s))
                   else if flags AND 0x40 \<noteq> 0
                   then (case vfs_create_file (on_vfs e) (Some path) (sys_vfs s) of
                           None \<Rightarrow> None
                         | Some (r, v) \<Rightarrow>
                             if r \<noteq> 0 then Some (Some (None, s\<lparr>sys_vfs := v\<rparr>))
                             else do { nd \<leftarrow> vfs_find_node v (Some path); Some (Some (nd, s\<lparr>sys_vfs := v\<rparr>)) })
                   else Some (Some (None, s))) of
               None \<Rightarrow> None
             | Some None \<Rightarrow> None
             | Some (Some (None, s1)) \<Rightarrow> Some (-1, s1)
             | Some (Some (Some a, s1)) \<Rightarrow> do {
                 n \<leftarrow> vnodes (sys_vfs s1) a;
                 (if is_directory n then Some (-1, s1)
                  else do {
                    (r, (d, sz), s2) \<leftarrow> read_file_ptr e path s1;
                    (if r \<noteq> 0 then Some (-1, s2)
                     else Some (int fd, s2\<lparr>fds := (fds s2)[fd := \<lparr>fd_in_use = True, fd_path = Some path,
                            fd_data = d, fd_size = sz, fd_position = 0, fd_flags = flags\<rparr>]\<rparr>)) }) }) }))"

definition sys_close :: "u32 \<Rightarrow> sys_state \<Rightarrow> int \<times> sys_state" where
  "sys_close fd s =
     (if unat fd < 3 \<or> MAX_FDS \<le> unat fd then (-1, s)
      else if \<not> fd_in_use (fds s ! unat fd) then (-1, s)
      else (0, set_fd fd fd_closed s))"

section \<open>Memory mapping\<close>

definition sys_mmap ::
  "sys_env \<Rightarrow> u32 \<Rightarrow> u32 \<Rightarrow> u32 \<Rightarrow> u32 \<Rightarrow> u32 \<Rightarrow> sys_state \<Rightarrow> (int \<times> sys_state) option" where
  "sys_mmap e addr len prot flags fd s =
     (if len = 0 \<or> memory_get_free (sys_mem s) < ucast len then Some (0, s)
      else if flags AND 0x20 \<noteq> 0
      then (let aligned = (len + 0xFFF) AND NOT 0xFFF in
        if 0x60000000 < mmap_base s + aligned then Some (0, s)
        else (case memory_map (sys_mem s) (mmap_base s) (ucast aligned) of
                None \<Rightarrow> Some (0, s)
              | Some off \<Rightarrow> do {
                  (r, m) \<leftarrow> memory_write_block (mmap_base s) (replicate (unat aligned) 0) (sys_mem s);
                  Some (sint (mmap_base s), s\<lparr>sys_mem := m, mmap_base := mmap_base s + aligned\<rparr>) }))
      else if fd_valid fd s
      then (let file = fds s ! unat fd;
                map_size = (if unat len < fd_size file then len else of_nat (fd_size file)) in
        (case memory_map (sys_mem s) (file_mmap_base s) (ucast map_size) of
           None \<Rightarrow> Some (0, s)
         | Some off \<Rightarrow> do {
             p \<leftarrow> fd_data file;
             block \<leftarrow> bufs s p;
             (if length block < unat map_size then None
              else do {
                (r, m) \<leftarrow> memory_write_block (file_mmap_base s) (take (unat map_size) block) (sys_mem s);
                Some (sint (file_mmap_base s), s\<lparr>sys_mem := m, file_mmap_base := file_mmap_base s + map_size\<rparr>) }) }))
      else Some (0, s))"

definition sys_munmap :: "u32 \<Rightarrow> u32 \<Rightarrow> sys_state \<Rightarrow> int \<times> sys_state" where
  "sys_munmap addr len s =
     (if addr < 0x30000000 \<or> 0x60000000 \<le> addr then (-1, s)
      else (memory_unmap (sys_mem s) (unat addr) (ucast len), s))"

section \<open>Socket calls\<close>

text \<open>The \<^verbatim>\<open>uint32_t\<close> arguments become \<^verbatim>\<open>int\<close>s.\<close>

definition with_net :: "sys_state \<Rightarrow> int \<times> net_state \<Rightarrow> int \<times> sys_state" where
  "with_net s r = (fst r, s\<lparr>sys_net := snd r\<rparr>)"

definition sys_socket :: "sys_env \<Rightarrow> u32 \<Rightarrow> u32 \<Rightarrow> u32 \<Rightarrow> sys_state \<Rightarrow> (int \<times> sys_state) option" where
  "sys_socket e domain ty protocol s =
     map_option (with_net s)
       (netstack_socket (on_net e) (random e 0) (sint domain) (sint ty) (sint protocol) (sys_net s))"

definition sys_bind :: "sys_env \<Rightarrow> u32 \<Rightarrow> u32 \<Rightarrow> sys_state \<Rightarrow> int \<times> sys_state" where
  "sys_bind e sockfd addr s =
     (if addr = 0 then (-1, s) else with_net s (netstack_bind (sint sockfd) (addr_at e addr) (sys_net s)))"

definition sys_connect :: "sys_env \<Rightarrow> u32 \<Rightarrow> u32 \<Rightarrow> sys_state \<Rightarrow> int \<times> sys_state" where
  "sys_connect e sockfd addr s =
     (if addr = 0 then (-1, s) else with_net s (netstack_connect (sint sockfd) (addr_at e addr) (sys_net s)))"

definition sys_listen :: "u32 \<Rightarrow> u32 \<Rightarrow> sys_state \<Rightarrow> int \<times> sys_state" where
  "sys_listen sockfd bl s = with_net s (netstack_listen (sint sockfd) (sint bl) (sys_net s))"

definition sys_accept :: "sys_env \<Rightarrow> u32 \<Rightarrow> u32 \<Rightarrow> sys_state \<Rightarrow> (int \<times> sys_state) option" where
  "sys_accept e sockfd addr s = do {
     (r, peer, n) \<leftarrow> netstack_accept (on_net e) (random e) (sint sockfd)
                       (if addr = 0 then None else Some (addr_at e addr)) (sys_net s);
     let s1 = s\<lparr>sys_net := n\<rparr>;
     Some (r, (case peer of Some a \<Rightarrow> if r < 0 then s1 else user_copy (UAddr addr a) s1 | None \<Rightarrow> s1)) }"

definition sys_send :: "u32 \<Rightarrow> u32 \<Rightarrow> u32 \<Rightarrow> sys_state \<Rightarrow> int \<times> sys_state" where
  "sys_send sockfd buf len s =
     (if buf = 0 then (-1, s) else with_net s (netstack_send (sint sockfd) len (sys_net s)))"

definition sys_recv :: "sys_env \<Rightarrow> u32 \<Rightarrow> u32 \<Rightarrow> u32 \<Rightarrow> sys_state \<Rightarrow> (int \<times> sys_state) option" where
  "sys_recv e sockfd buf len s =
     (if buf = 0 then Some (-1, s)
      else map_option (with_net s) (netstack_recv (random e 0) (sint sockfd) len (sys_net s)))"

definition sys_sendto :: "sys_env \<Rightarrow> u32 \<Rightarrow> u32 \<Rightarrow> u32 \<Rightarrow> u32 \<Rightarrow> sys_state \<Rightarrow> (int \<times> sys_state) option" where
  "sys_sendto e sockfd buf len dest s =
     (if buf = 0 then Some (-1, s)
      else map_option (with_net s) (netstack_sendto (sint sockfd) len
             (if dest = 0 then None else Some (addr_at e dest)) (sys_net s)))"

definition sys_recvfrom :: "sys_env \<Rightarrow> u32 \<Rightarrow> u32 \<Rightarrow> u32 \<Rightarrow> u32 \<Rightarrow> sys_state \<Rightarrow> (int \<times> sys_state) option" where
  "sys_recvfrom e sockfd buf len src s =
     (if buf = 0 then Some (-1, s)
      else do {
        x \<leftarrow> netstack_recvfrom (random e) (sint sockfd) len
               (if src = 0 then None else Some (addr_at e src)) (sys_net s);
        Some (case x of None \<Rightarrow> (-1, s)
              | Some (r, a, n) \<Rightarrow> (r, user_copy (UAddr src a) (s\<lparr>sys_net := n\<rparr>))) })"

section \<open>Dispatch\<close>

datatype syscall_handler =
  H_exit | H_fork | H_read | H_write | H_open | H_close | H_getpid | H_getuid | H_brk | H_mmap | H_munmap
| H_socket | H_bind | H_connect | H_listen | H_accept | H_send | H_recv | H_sendto | H_recvfrom

definition syscall_table_init :: "(u32 \<times> syscall_handler) list" where
  "syscall_table_init =
     [(1, H_exit), (2, H_fork), (3, H_read), (4, H_write), (5, H_open), (6, H_close), (20, H_getpid),
      (24, H_getuid), (45, H_brk), (90, H_mmap), (91, H_munmap), (200, H_socket), (201, H_bind),
      (202, H_connect), (203, H_listen), (204, H_accept), (208, H_send), (209, H_recv), (210, H_sendto),
      (211, H_recvfrom)]"

definition run_syscall ::
  "sys_env \<Rightarrow> syscall_handler \<Rightarrow> u32 \<Rightarrow> u32 \<Rightarrow> u32 \<Rightarrow> u32 \<Rightarrow> u32 \<Rightarrow> sys_state \<Rightarrow> (int \<times> sys_state) option" where
  "run_syscall e h a1 a2 a3 a4 a5 s =
     (case h of
        H_exit \<Rightarrow> Some (0, s) | H_fork \<Rightarrow> Some (0, s)
      | H_read \<Rightarrow> sys_read e a1 a2 a3 s | H_write \<Rightarrow> sys_write e a1 a2 a3 s
      | H_open \<Rightarrow> sys_open e a1 a2 a3 s | H_close \<Rightarrow> Some (sys_close a1 s)
      | H_getpid \<Rightarrow> Some (1, s) | H_getuid \<Rightarrow> Some (0, s) | H_brk \<Rightarrow> Some (sint a1, s)
      | H_mmap \<Rightarrow> sys_mmap e a1 a2 a3 a4 a5 s | H_munmap \<Rightarrow> Some (sys_munmap a1 a2 s)
      | H_socket \<Rightarrow> sys_socket e a1 a2 a3 s | H_bind \<Rightarrow> Some (sys_bind e a1 a2 s)
      | H_connect \<Rightarrow> Some (sys_connect e a1 a2 s) | H_listen \<Rightarrow> Some (sys_listen a1 a2 s)
      | H_accept \<Rightarrow> sys_accept e a1 a2 s | H_send \<Rightarrow> Some (sys_send a1 a2 a3 s)
      | H_recv \<Rightarrow> sys_recv e a1 a2 a3 s | H_sendto \<Rightarrow> sys_sendto e a1 a2 a3 a5 s
      | H_recvfrom \<Rightarrow> sys_recvfrom e a1 a2 a3 a5 s)"

definition syscall_dispatch ::
  "sys_env \<Rightarrow> u32 \<Rightarrow> u32 \<Rightarrow> u32 \<Rightarrow> u32 \<Rightarrow> u32 \<Rightarrow> u32 \<Rightarrow> sys_state \<Rightarrow> (int \<times> sys_state) option" where
  "syscall_dispatch e num a1 a2 a3 a4 a5 s =
     (if MAX_SYSCALLS \<le> num then Some (-1, s)
      else (case map_of syscall_table_init num of
              None \<Rightarrow> Some (-1, s)
            | Some h \<Rightarrow> do {
                let s1 = s\<lparr>sys_priv := privilege_enter_kernel_mode (sys_priv s)\<rparr>;
                (r, s2) \<leftarrow> run_syscall e h a1 a2 a3 a4 a5 s1;
                Some (r, s2\<lparr>sys_priv := privilege_enter_user_mode (sys_priv s2)\<rparr>) }))"

end
