(* ===== verification/SyscallProps.thy ===== *)
theory SyscallProps
  imports Syscalls
begin

text \<open>
  Properties of the system calls: reading a file in pieces, descriptors as handles, refused
  arguments, the rings around a call, and the calls that cannot work.
\<close>

section \<open>Reading\<close>

text \<open>A run of reads into the same buffer: the values returned and the final state.\<close>

fun read_seq :: "sys_env \<Rightarrow> u32 \<Rightarrow> u32 \<Rightarrow> u32 list \<Rightarrow> sys_state \<Rightarrow> (int list \<times> sys_state) option" where
  "read_seq e fd buf [] s = Some ([], s)"
| "read_seq e fd buf (c # cs) s = do {
     (r, s1) \<leftarrow> sys_read e fd buf c s;
     (rs, s2) \<leftarrow> read_seq e fd buf cs s1;
     Some (r # rs, s2) }"

fun payload :: "user_write \<Rightarrow> u8 list" where
  "payload (UBytes a bs) = bs"
| "payload (UAddr a x) = []"

text \<open>Descriptor \<open>fd\<close> is open for reading on \<open>bytes\<close>, at position \<open>pos\<close>.\<close>

definition reading :: "u32 \<Rightarrow> u8 list \<Rightarrow> nat \<Rightarrow> sys_state \<Rightarrow> bool" where
  "reading fd bytes pos s \<longleftrightarrow> fd_valid fd s \<and> length (fds s) = MAX_FDS \<and>
     fd_flags (fds s ! unat fd) AND 3 \<noteq> 1 \<and> fd_size (fds s ! unat fd) = length bytes \<and>
     fd_position (fds s ! unat fd) = pos \<and> pos \<le> length bytes \<and> length bytes < 2 ^ 31 \<and>
     (\<exists>p block. fd_data (fds s ! unat fd) = Some p \<and> bufs s p = Some block \<and> take (length bytes) block = bytes)"

definition advanced :: "u32 \<Rightarrow> nat \<Rightarrow> user_write list \<Rightarrow> sys_state \<Rightarrow> sys_state" where
  "advanced fd pos ws s = s\<lparr>fds := (fds s)[unat fd := (fds s ! unat fd)\<lparr>fd_position := pos\<rparr>],
     user_writes := user_writes s @ ws\<rparr>"

lemma fd_valid_range: "fd_valid fd s \<Longrightarrow> 3 \<le> unat fd \<and> unat fd < MAX_FDS \<and> fd_in_use (fds s ! unat fd)"
  by (simp add: fd_valid_def)

lemma fd_valid_small: "fd_valid fd s \<Longrightarrow> fd \<noteq> 0 \<and> fd \<noteq> 1 \<and> fd \<noteq> 2"
  by (auto dest!: fd_valid_range)

lemma sint_small: "n < 2 ^ 31 \<Longrightarrow> sint (of_nat n :: u32) = int n"
  by (simp add: signed_of_nat signed_take_bit_int_eq_self)

lemma reading_advanced:
  assumes "reading fd bytes pos s" and "pos' \<le> length bytes"
  shows "reading fd bytes pos' (advanced fd pos' ws s)"
proof -
  have "unat fd < length (fds s)" using assms fd_valid_range [of fd s] by (simp add: reading_def)
  with assms show ?thesis by (auto simp: reading_def advanced_def fd_valid_def)
qed

lemma advanced_self: "reading fd bytes pos s \<Longrightarrow> advanced fd pos [] s = s"
proof -
  assume "reading fd bytes pos s"
  then have "(fds s ! unat fd)\<lparr>fd_position := pos\<rparr> = fds s ! unat fd"
    by (cases "fds s ! unat fd") (simp add: reading_def)
  then show ?thesis by (simp add: advanced_def)
qed

lemma advanced_advanced:
  "unat fd < length (fds s) \<Longrightarrow> advanced fd q ws' (advanced fd p ws s) = advanced fd q (ws @ ws') s"
  by (simp add: advanced_def)

lemma sys_read_step:
  assumes rd: "reading fd bytes pos s" and buf: "buf \<noteq> 0" and n_def: "n = min (unat c) (length bytes - pos)"
  shows "sys_read e fd buf c s = Some (int n, if n = 0 then s else
    advanced fd (pos + n) [UBytes buf (take n (drop pos bytes))] s)"
proof -
  from rd obtain p block where b: "fd_data (fds s ! unat fd) = Some p" "bufs s p = Some block"
    "take (length bytes) block = bytes" by (auto simp: reading_def)
  have f: "fd_valid fd s" "fd \<noteq> 0" "fd_flags (fds s ! unat fd) AND 3 \<noteq> 1"
    "fd_size (fds s ! unat fd) = length bytes" "fd_position (fds s ! unat fd) = pos" "pos \<le> length bytes"
    "length bytes < 2 ^ 31"
    using rd fd_valid_small [of fd s] by (simp_all add: reading_def)
  have n: "(if unat c < length bytes - pos then unat c else length bytes - pos) = n" "n \<le> length bytes - pos"
    by (auto simp: n_def)
  have si: "sint (of_nat n :: u32) = int n" using f(7) n(2) by (intro sint_small) simp
  have "length bytes \<le> length block" using b(3) by (metis length_take min.cobounded2 min.commute)
  moreover have "take n (drop pos block) = take n (drop pos bytes)"
    using n(2) b(3) by (metis (no_types) drop_take min.absorb1 take_take)
  ultimately show ?thesis
    using f n buf b si
    by (auto simp: sys_read_def Let_def advanced_def set_fd_def user_copy_def)
qed

lemma read_seq_reading:
  assumes "reading fd bytes pos s" and "buf \<noteq> 0"
  shows "\<exists>rs ws. read_seq e fd buf cs s =
      Some (rs, advanced fd (min (length bytes) (pos + sum_list (map unat cs))) ws s) \<and>
    concat (map payload ws) = take (sum_list (map unat cs)) (drop pos bytes) \<and>
    sum_list rs = int (min (sum_list (map unat cs)) (length bytes - pos))"
  using assms
proof (induction cs arbitrary: pos s)
  case Nil
  then have "advanced fd pos [] s = s" using advanced_self by blast
  with Nil show ?case by (auto simp: reading_def min_absorb2 intro!: exI [of _ "[]"])
next
  case (Cons c cs)
  define n where "n = min (unat c) (length bytes - pos)"
  define w where "w = (if n = 0 then [] else [UBytes buf (take n (drop pos bytes))])"
  have le: "pos + n \<le> length bytes" using Cons.prems by (auto simp: n_def reading_def min_def)
  have lf: "unat fd < length (fds s)"
    using Cons.prems(1) fd_valid_range [of fd s] by (simp add: reading_def)
  have self: "n = 0 \<Longrightarrow> advanced fd (pos + n) [] s = s" using advanced_self [OF Cons.prems(1)] by simp
  have step: "sys_read e fd buf c s = Some (int n, advanced fd (pos + n) w s)"
    using sys_read_step [OF Cons.prems n_def, of e] self by (simp add: w_def)
  have pay: "concat (map payload w) = take n (drop pos bytes)" by (simp add: w_def)
  from Cons.IH [OF reading_advanced [OF Cons.prems(1) le] Cons.prems(2), of w] obtain rs ws where
    rs: "read_seq e fd buf cs (advanced fd (pos + n) w s) =
      Some (rs, advanced fd (min (length bytes) (pos + n + sum_list (map unat cs))) ws (advanced fd (pos + n) w s))"
    "concat (map payload ws) = take (sum_list (map unat cs)) (drop (pos + n) bytes)"
    "sum_list rs = int (min (sum_list (map unat cs)) (length bytes - (pos + n)))" by blast
  let ?S = "sum_list (map unat cs)"
  have "min (length bytes) (pos + n + ?S) = min (length bytes) (pos + (unat c + ?S))" using le by (auto simp: n_def)
  moreover have "take n (drop pos bytes) @ take ?S (drop (pos + n) bytes) = take (unat c + ?S) (drop pos bytes)"
  proof (cases "unat c \<le> length bytes - pos")
    case True
    then show ?thesis by (simp add: n_def take_add add.commute)
  next
    case False
    then show ?thesis by (simp add: n_def)
  qed
  moreover have "n + min S (length bytes - (pos + n)) = min (unat c + S) (length bytes - pos)" for S
    using le by (auto simp: n_def min_def)
  then have "int n + int (min ?S (length bytes - (pos + n))) = int (min (unat c + ?S) (length bytes - pos))"
    by (metis of_nat_add)
  ultimately show ?case using step rs pay advanced_advanced [OF lf] by (intro exI [of _ "int n # rs"] exI [of _ "w @ ws"]) simp
qed

section \<open>Opening\<close>

text \<open>The node's pointer leads to the bytes the file system keeps as its contents.\<close>

definition coupled :: "sys_state \<Rightarrow> bool" where
  "coupled s \<longleftrightarrow> (\<forall>a n d. vnodes (sys_vfs s) a = Some n \<longrightarrow> vdata n = Some d \<longrightarrow> vsize n = length d \<and>
     (\<exists>p block. ndata s a = Some p \<and> bufs s p = Some block \<and> take (length d) block = d))"

lemma free_fd_least:
  assumes "length (fds s) = MAX_FDS" and "first_index (\<lambda>f. \<not> fd_in_use f) (drop 3 (fds s)) = Some k"
  shows "k + 3 < MAX_FDS \<and> \<not> fd_in_use (fds s ! (k + 3)) \<and> (\<forall>i. 3 \<le> i \<and> i < k + 3 \<longrightarrow> fd_in_use (fds s ! i))"
proof -
  note f = first_index_SomeD [OF assms(2)]
  have len: "length (drop 3 (fds s)) = MAX_FDS - 3" using assms(1) by simp
  have at: "drop 3 (fds s) ! j = fds s ! (j + 3)" if "j \<le> k" for j
    using assms(1) by (simp add: MAX_FDS_def add.commute [of j 3])
  show ?thesis
  proof (intro conjI allI impI)
    show "k + 3 < MAX_FDS" using f len by linarith
    show "\<not> fd_in_use (fds s ! (k + 3))" using f at [of k] by simp
    fix i assume "3 \<le> i \<and> i < k + 3"
    then have "i - 3 < k" "i - 3 + 3 = i" by auto
    with f at [of "i - 3"] show "fd_in_use (fds s ! i)" by auto
  qed
qed

definition fd_opened :: "string \<Rightarrow> dptr option \<Rightarrow> nat \<Rightarrow> u32 \<Rightarrow> FileDescriptor" where
  "fd_opened path d sz flags = \<lparr>fd_in_use = True, fd_path = Some path, fd_data = d, fd_size = sz,
     fd_position = 0, fd_flags = flags\<rparr>"

lemma sys_open_loaded:
  assumes ok: "vfs_ok (sys_vfs s)" and cp: "coupled s" and path: "pathname \<noteq> 0" "cstr_at e pathname = path"
    and free: "first_index (\<lambda>f. \<not> fd_in_use f) (drop 3 (fds s)) = Some k"
    and v: "vfs_view (sys_vfs s) (seen_tokens path) = Some n" "vdata n = Some bytes" "\<not> is_directory n"
    and acc: "may_access (sys_vfs s) n (vfs_current_user (sys_vfs s)) R_OK"
  shows "\<exists>p block. bufs s p = Some block \<and> take (length bytes) block = bytes \<and>
    sys_open e pathname flags mode s = Some (int (k + 3),
      s\<lparr>fds := (fds s)[k + 3 := fd_opened path (Some p) (length bytes) flags]\<rparr>)"
proof (cases rule: find_node_cases [OF ok, of path, case_names none found])
  case none
  with v show ?thesis by simp
next
  case (found a m)
  then have m: "vnodes (sys_vfs s) a = Some m" and n: "n = entry_of m" using v by (auto simp: located_def)
  then have d: "vdata m = Some bytes" "\<not> is_directory m" using v by simp_all
  with cp m obtain p block where p: "ndata s a = Some p" "bufs s p = Some block"
    "take (length bytes) block = bytes" "vsize m = length bytes" unfolding coupled_def by blast
  have "vsize n = length bytes" using n p(4) by (simp add: entry_of_def)
  with read_file_loaded [OF ok v, of "on_vfs e"] acc
  have "vfs_read_file (on_vfs e) (Some path) (sys_vfs s)
      = Some (0, Some (Some bytes, length bytes), sys_vfs s)" by simp
  with found(1) m p have rp: "read_file_ptr e path s = Some (0, (Some p, length bytes), s)"
    by (simp add: read_file_ptr_def)
  with found(1) m d path free p show ?thesis
    by (intro exI [of _ p] exI [of _ block]) (simp add: sys_open_def fd_opened_def)
qed

text \<open>
  C18: Reading a file through the system calls: opening a readable file whose contents are
  loaded returns the least free descriptor; the reads that follow, whatever their sizes,
  deliver consecutive pieces whose concatenation is the beginning of the file, as long as
  the sizes asked for or the whole file, and their results add up to its length; the file
  system and the other descriptors are unchanged, and closing frees the descriptor again.
\<close>

theorem fd_read_file:
  assumes ok: "vfs_ok (sys_vfs s)" and cp: "coupled s" and path: "pathname \<noteq> 0" "cstr_at e pathname = path"
    and free: "first_index (\<lambda>f. \<not> fd_in_use f) (drop 3 (fds s)) = Some k" and len: "length (fds s) = MAX_FDS"
    and v: "vfs_view (sys_vfs s) (seen_tokens path) = Some n" "vdata n = Some bytes" "\<not> is_directory n"
    and acc: "may_access (sys_vfs s) n (vfs_current_user (sys_vfs s)) R_OK"
    and rd: "flags AND 3 \<noteq> 1" "length bytes < 2 ^ 31" "buf \<noteq> 0"
  shows "\<exists>s1 rs ws s2. sys_open e pathname flags mode s = Some (int (k + 3), s1) \<and>
    read_seq e (of_nat (k + 3)) buf cs s1 = Some (rs, s2) \<and>
    user_writes s2 = user_writes s @ ws \<and> concat (map payload ws) = take (sum_list (map unat cs)) bytes \<and>
    sum_list rs = int (min (sum_list (map unat cs)) (length bytes)) \<and>
    sys_vfs s2 = sys_vfs s \<and>
    sys_close (of_nat (k + 3)) s2 = (0, s\<lparr>fds := (fds s)[k + 3 := fd_closed], user_writes := user_writes s @ ws\<rparr>)"
proof -
  from sys_open_loaded [OF ok cp path free v acc, of flags mode] obtain p block where
    p: "bufs s p = Some block" "take (length bytes) block = bytes" and
    op: "sys_open e pathname flags mode s = Some (int (k + 3),
      s\<lparr>fds := (fds s)[k + 3 := fd_opened path (Some p) (length bytes) flags]\<rparr>)" by blast
  let ?s1 = "s\<lparr>fds := (fds s)[k + 3 := fd_opened path (Some p) (length bytes) flags]\<rparr>"
  let ?fd = "of_nat (k + 3) :: u32" and ?S = "sum_list (map unat cs)"
  have k: "k + 3 < 256" using free_fd_least [OF len free] by (simp add: MAX_FDS_def)
  then have u: "unat ?fd = k + 3" by (simp add: unsigned_of_nat take_bit_nat_eq_self del: of_nat_add)
  have "reading ?fd bytes 0 ?s1"
    unfolding reading_def fd_valid_def u using p k len rd by (simp add: fd_opened_def MAX_FDS_def)
  from read_seq_reading [OF this rd(3), of e cs] obtain rs ws where
    rs: "read_seq e ?fd buf cs ?s1 = Some (rs, advanced ?fd (min (length bytes) (0 + ?S)) ws ?s1)"
    "concat (map payload ws) = take ?S (drop 0 bytes)" "sum_list rs = int (min ?S (length bytes - 0))" by blast
  let ?s2 = "advanced ?fd (min (length bytes) ?S) ws ?s1"
  have "sys_close ?fd ?s2 = (0, s\<lparr>fds := (fds s)[k + 3 := fd_closed], user_writes := user_writes s @ ws\<rparr>)"
    unfolding sys_close_def advanced_def set_fd_def u using k len by (simp add: fd_opened_def MAX_FDS_def)
  with op rs show ?thesis by (intro exI [of _ ?s1] exI [of _ rs] exI [of _ ws] exI [of _ ?s2]) (simp add: advanced_def)
qed

section \<open>Writing\<close>

lemma find_child_values:
  assumes "\<And>a n. vname (f a n) = vname n"
  shows "find_child (\<lambda>a. map_option (f a) (h a)) nm cs = find_child h nm cs"
proof (rule find_child_cong)
  show "map_option vname (map_option (f a) (h a)) = map_option vname (h a)" for a
    using assms by (cases "h a") simp_all
qed

lemma walk_values:
  assumes "\<And>a n. vname (f a n) = vname n" "\<And>a n. children (f a n) = children n"
  shows "walk (\<lambda>a. map_option (f a) (h a)) r ts = walk h r ts"
proof (induction ts arbitrary: r)
  case Nil
  then show ?case by simp
next
  case (Cons t ts)
  have "find_child (\<lambda>a. map_option (f a) (h a)) t cs = find_child h t cs" for cs
    using find_child_values [OF assms(1)] .
  with Cons assms(2) show ?case by (cases "h r") (simp_all cong: option.case_cong)
qed

lemma node_data_written_simps [simp]:
  "vfs_find_node (sys_vfs (node_data_written p b s)) x = vfs_find_node (sys_vfs s) x"
  "ndata (node_data_written p b s) = ndata s" "fds (node_data_written p b s) = fds s"
  "bufs (node_data_written p b s) = (bufs s)(p \<mapsto> b)"
  by (simp_all add: node_data_written_def vfs_find_node_def walk_values cong: option.case_cong if_cong)

text \<open>The data pointer of a descriptor is the node's own, as \<open>sys_open\<close> leaves it.\<close>

definition fd_of_node :: "u32 \<Rightarrow> sys_state \<Rightarrow> vptr \<Rightarrow> VNode \<Rightarrow> bool" where
  "fd_of_node fd s a n \<longleftrightarrow> fd_valid fd s \<and> length (fds s) = MAX_FDS \<and>
     (\<exists>path. fd_path (fds s ! unat fd) = Some path \<and> vfs_find_node (sys_vfs s) (Some path) = Some (Some a)) \<and>
     vnodes (sys_vfs s) a = Some n \<and> \<not> is_directory n \<and> fd_data (fds s ! unat fd) = ndata s a \<and>
     (\<exists>p block. ndata s a = Some p \<and> bufs s p = Some block)"

lemma write_file_freed_source:
  assumes find: "vfs_find_node (sys_vfs s) (Some path) = Some (Some a)" and n: "vnodes (sys_vfs s) a = Some n"
    and nd: "\<not> is_directory n" and p: "ndata s a = Some p" and src: "0 < sz"
    and gone: "bufs s p = None \<or> src = p"
    and acc: "may_access (sys_vfs s) n (vfs_current_user (sys_vfs s)) W_OK"
    and w: "write_file_ptr e path (Some src) sz s = Some (r, t)"
  shows "r = -1 \<and> \<not> data_malloc (on_vfs e) sz"
proof -
  from check_permission_found [OF find n, of "vfs_current_user (sys_vfs s)" W_OK] acc
  have "vfs_check_permission (sys_vfs s) (Some path) (vfs_current_user (sys_vfs s)) (drop_bit 6 VFS_S_IWUSR) = Some 1"
    by (simp add: perm_bits of_cbool_def)
  with find n nd p src gone w show ?thesis
    by (auto simp: write_file_ptr_def split: if_splits bind_splits)
qed


text \<open>Memory never counts as free, so no mapping is ever made.\<close>

lemma sys_mmap_never: "mem_inv (sys_mem s) \<Longrightarrow> sys_mmap e addr len prot flags fd s = Some (0, s)"
proof -
  assume "mem_inv (sys_mem s)"
  moreover have "len \<noteq> 0 \<Longrightarrow> (0 :: u64) < ucast len" by (simp add: word_less_nat_alt unat_gt_0)
  ultimately show ?thesis by (auto simp: sys_mmap_def memory_free_zero)
qed

section \<open>Rings and refused arguments\<close>

lemma sys_priv_read: "sys_read e fd buf c s = Some (r, t) \<Longrightarrow> sys_priv t = sys_priv s"
  by (auto simp: sys_read_def Let_def set_fd_def user_copy_def split: if_splits bind_splits)

lemma sys_priv_read_ptr: "read_file_ptr e p s = Some (r, x, t) \<Longrightarrow> sys_priv t = sys_priv s"
  by (auto simp: read_file_ptr_def Let_def split: if_splits bind_splits option.splits prod.splits)

lemma sys_priv_write_ptr: "write_file_ptr e p d k s = Some (r, t) \<Longrightarrow> sys_priv t = sys_priv s"
  by (auto simp: write_file_ptr_def Let_def split: if_splits bind_splits option.splits prod.splits)

lemma sys_priv_write: "sys_write e fd buf c s = Some (r, t) \<Longrightarrow> sys_priv t = sys_priv s"
  by (auto simp: sys_write_def Let_def set_fd_def node_data_written_def dest!: sys_priv_write_ptr
      split: if_splits bind_splits option.splits prod.splits)

lemma sys_priv_open: "sys_open e p f m s = Some (r, t) \<Longrightarrow> sys_priv t = sys_priv s"
  by (auto simp: sys_open_def Let_def dest!: sys_priv_read_ptr split: if_splits bind_splits option.splits prod.splits)

lemma sys_priv_mmap: "sys_mmap e a l p f fd s = Some (r, t) \<Longrightarrow> sys_priv t = sys_priv s"
  by (auto simp: sys_mmap_def Let_def split: if_splits bind_splits option.splits prod.splits)

lemma sys_priv_net [simp]: "sys_priv (snd (with_net s r)) = sys_priv s"
  by (simp add: with_net_def)

lemma sys_priv_run:
  assumes "run_syscall e h a1 a2 a3 a4 a5 s = Some (r, t)"
  shows "sys_priv t = sys_priv s"
proof -
  have net: "sys_priv y = sys_priv s" if "with_net s x = (r, y)" for x y
    using that sys_priv_net [of s x] by simp
  show ?thesis
    using assms
    by (cases h) (auto simp: run_syscall_def sys_close_def set_fd_def sys_munmap_def sys_socket_def sys_bind_def
        sys_connect_def sys_listen_def sys_accept_def sys_send_def sys_recv_def sys_sendto_def sys_recvfrom_def
        user_copy_def Let_def dest!: sys_priv_read sys_priv_write sys_priv_open sys_priv_mmap net
        split: if_splits bind_splits option.splits prod.splits)
qed

text \<open>A context in user mode survives the two switches of a call.\<close>

lemma user_switch_back:
  "priv_wf c \<Longrightarrow> current_level c = PRIVILEGE_USER \<Longrightarrow>
    privilege_enter_user_mode (privilege_enter_kernel_mode c) = c"
  by (cases c) (auto simp: priv_wf_def privilege_enter_kernel_mode_def privilege_enter_user_mode_def)

type_synonym call = "u32 \<times> u32 \<times> u32 \<times> u32 \<times> u32 \<times> u32"

fun run_calls :: "sys_env \<Rightarrow> call list \<Rightarrow> sys_state \<Rightarrow> (int list \<times> sys_state) option" where
  "run_calls e [] s = Some ([], s)"
| "run_calls e ((num, a1, a2, a3, a4, a5) # cs) s = do {
     (r, s1) \<leftarrow> syscall_dispatch e num a1 a2 a3 a4 a5 s;
     (rs, s2) \<leftarrow> run_calls e cs s1;
     Some (r # rs, s2) }"

lemma dispatch_cases:
  assumes "syscall_dispatch e num a1 a2 a3 a4 a5 s = Some (r, s')"
  obtains (unknown) "r = -1" "s' = s" "MAX_SYSCALLS \<le> num \<or> map_of syscall_table_init num = None"
  | (called) h t where "map_of syscall_table_init num = Some h"
      "run_syscall e h a1 a2 a3 a4 a5 (s\<lparr>sys_priv := privilege_enter_kernel_mode (sys_priv s)\<rparr>) = Some (r, t)"
      "s' = t\<lparr>sys_priv := privilege_enter_user_mode (privilege_enter_kernel_mode (sys_priv s))\<rparr>"
      "sys_priv t = privilege_enter_kernel_mode (sys_priv s)"
proof (cases "MAX_SYSCALLS \<le> num \<or> map_of syscall_table_init num = None")
  case True
  with assms show thesis by (intro unknown) (auto simp: syscall_dispatch_def split: if_splits)
next
  case False
  then obtain h where h: "map_of syscall_table_init num = Some h" "\<not> MAX_SYSCALLS \<le> num" by auto
  let ?s = "s\<lparr>sys_priv := privilege_enter_kernel_mode (sys_priv s)\<rparr>"
  from assms h obtain t where t: "run_syscall e h a1 a2 a3 a4 a5 ?s = Some (r, t)"
    "s' = t\<lparr>sys_priv := privilege_enter_user_mode (sys_priv t)\<rparr>"
    by (cases "run_syscall e h a1 a2 a3 a4 a5 ?s") (auto simp: syscall_dispatch_def Let_def)
  have "sys_priv t = privilege_enter_kernel_mode (sys_priv s)" using sys_priv_run [OF t(1)] by simp
  with called [OF h(1) t(1)] t(2) show thesis by simp
qed

text \<open>
  C19: System calls do not leak privilege: a program in user mode that makes any sequence of
  system calls, with any numbers and arguments, is back in user mode afterwards with exactly
  the privilege context it had, and each call of a registered number runs its handler in
  kernel mode.
\<close>

theorem syscalls_keep_ring:
  assumes "priv_wf (sys_priv s)" and "current_level (sys_priv s) = PRIVILEGE_USER"
    and "run_calls e cs s = Some (rs, s')"
  shows "sys_priv s' = sys_priv s \<and> length rs = length cs \<and>
    (\<forall>num a1 a2 a3 a4 a5 r t. syscall_dispatch e num a1 a2 a3 a4 a5 s' = Some (r, t) \<longrightarrow>
       t = s' \<or> (\<exists>h u v. current_level (sys_priv u) = PRIVILEGE_KERNEL \<and>
         run_syscall e h a1 a2 a3 a4 a5 u = Some (r, v) \<and> t = v\<lparr>sys_priv := sys_priv s\<rparr>))"
proof -
  have run: "sys_priv s' = sys_priv s \<and> length rs = length cs" using assms
  proof (induction cs arbitrary: s rs)
    case Nil
    then show ?case by simp
  next
    case (Cons c cs)
    obtain num a1 a2 a3 a4 a5 where c: "c = (num, a1, a2, a3, a4, a5)" by (cases c) auto
    from Cons.prems(3) c obtain r s1 rs' where d: "syscall_dispatch e num a1 a2 a3 a4 a5 s = Some (r, s1)"
      and run: "run_calls e cs s1 = Some (rs', s')" and rs: "rs = r # rs'" by (auto split: bind_splits)
    have "sys_priv s1 = sys_priv s"
      using user_switch_back [OF Cons.prems(1,2)] by (cases rule: dispatch_cases [OF d]) simp_all
    with Cons.IH [OF _ _ run] Cons.prems rs show ?case by simp
  qed
  then have wf: "priv_wf (sys_priv s')" "current_level (sys_priv s') = PRIVILEGE_USER" using assms by simp_all
  have "t = s' \<or> (\<exists>h u v. current_level (sys_priv u) = PRIVILEGE_KERNEL \<and>
         run_syscall e h a1 a2 a3 a4 a5 u = Some (r, v) \<and> t = v\<lparr>sys_priv := sys_priv s\<rparr>)"
    if d: "syscall_dispatch e num a1 a2 a3 a4 a5 s' = Some (r, t)" for num a1 a2 a3 a4 a5 r t
  proof (cases rule: dispatch_cases [OF d, case_names unknown called])
    case unknown
    then show ?thesis by simp
  next
    case (called h v)
    then show ?thesis using user_switch_back [OF wf] run
      by (intro disjI2 exI [of _ h] exI [of _ "s'\<lparr>sys_priv := privilege_enter_kernel_mode (sys_priv s')\<rparr>"] exI [of _ v]) simp
  qed
  with run show ?thesis by blast
qed

text \<open>The arguments each handler refuses.\<close>

fun bad_args :: "syscall_handler \<Rightarrow> u32 \<Rightarrow> u32 \<Rightarrow> sys_state \<Rightarrow> bool" where
  "bad_args H_read fd buf s \<longleftrightarrow> buf = 0 \<or> fd \<noteq> 0 \<and> \<not> fd_valid fd s"
| "bad_args H_write fd buf s \<longleftrightarrow> buf = 0 \<or> fd \<noteq> 1 \<and> fd \<noteq> 2 \<and> \<not> fd_valid fd s"
| "bad_args H_open path flags s \<longleftrightarrow> path = 0"
| "bad_args H_close fd x s \<longleftrightarrow> \<not> fd_valid fd s"
| "bad_args H_munmap addr len s \<longleftrightarrow> addr < 0x30000000 \<or> 0x60000000 \<le> addr"
| "bad_args H_socket family ty s \<longleftrightarrow> family \<noteq> 2"
| "bad_args H_listen fd x s \<longleftrightarrow> sock_lookup (sys_net s) (sint fd) = None"
| "bad_args H_accept fd x s \<longleftrightarrow> sock_lookup (sys_net s) (sint fd) = None"
| "bad_args H_exit x y s \<longleftrightarrow> False"
| "bad_args H_fork x y s \<longleftrightarrow> False"
| "bad_args H_getpid x y s \<longleftrightarrow> False"
| "bad_args H_getuid x y s \<longleftrightarrow> False"
| "bad_args H_brk x y s \<longleftrightarrow> False"
| "bad_args H_mmap x y s \<longleftrightarrow> False"
| "bad_args h fd p s \<longleftrightarrow> p = 0 \<or> sock_lookup (sys_net s) (sint fd) = None"

lemma bad_args_refused:
  assumes "bad_args h a1 a2 s"
  shows "run_syscall e h a1 a2 a3 a4 a5 s = Some (-1, s)"
proof -
  have "sint (2 :: u32) = 2" by simp
  then have "sint (a1 :: u32) \<noteq> 2" if "a1 \<noteq> 2" using that signed_word_eqI [of a1 2] by metis
  with assms show ?thesis
    by (cases h) (auto simp: run_syscall_def sys_read_def sys_write_def sys_open_def sys_close_def fd_valid_def
        sys_munmap_def sys_socket_def netstack_socket_def AF_INET_def with_net_def sys_bind_def netstack_bind_def
        sys_connect_def netstack_connect_def sys_listen_def netstack_listen_def sys_accept_def netstack_accept_def
        sys_send_def netstack_send_def sys_recv_def netstack_recv_def sys_sendto_def netstack_sendto_def
        sys_recvfrom_def netstack_recvfrom_def sock_lookup_def Let_def user_copy_def split: option.splits)
qed


section \<open>Witnesses\<close>

definition sys_demo :: sys_state where
  "sys_demo = \<lparr>sys_vfs = demo_vfs\<lparr>vnodes := demo_fs(2 \<mapsto> (demo_node ''f'' False)\<lparr>vdata := Some [104, 105, 33], vsize := 3\<rparr>)\<rparr>,
     ndata = [2 \<mapsto> 9], bufs = [9 \<mapsto> [104, 105, 33, 0]], fds = replicate MAX_FDS fd_closed,
     sys_priv = privilege_enter_user_mode (privilege_init 0x1000 0x20000), sys_net = netstack_init, sys_mem = None,
     mmap_base = 0x40000000, file_mmap_base = 0x30000000, console = [], user_writes = []\<rparr>"

definition sys_demo_env :: sys_env where
  "sys_demo_env = \<lparr>on_vfs = demo_env, new_block = (\<lambda>b. if b 10 = None then 10 else 11),
     move_block = (\<lambda>b d n. Some 12), junk = (\<lambda>n. replicate n 0), cstr_at = (\<lambda>_. ''/f''),
     bytes_at = (\<lambda>a n. replicate n 7), addr_at = (\<lambda>_. zero_addr), on_net = net_demo_mem, random = (\<lambda>_. 0)\<rparr>"

lemma sys_demo_vfs: "vfs_ok (sys_vfs sys_demo)"
proof -
  have "vfs_ok (demo_vfs\<lparr>vnodes := (vnodes demo_vfs)(2 \<mapsto> (\<lambda>n. n\<lparr>vdata := Some [104, 105, 33], vsize := 3\<rparr>) (demo_node ''f'' False))\<rparr>)"
    by (rule update_ok(1) [OF demo_vfs_ok, of "[''f'']"])
      (simp_all add: located_def demo_vfs_def demo_fs_def demo_node_def keeps_links_def)
  then show ?thesis by (simp add: sys_demo_def demo_vfs_def)
qed

lemma sys_demo_facts:
  "coupled sys_demo" "vfs_find_node (sys_vfs sys_demo) (Some ''/f'') = Some (Some 2)"
  "vfs_view (sys_vfs sys_demo) (seen_tokens ''/f'')
     = Some ((demo_node ''f'' False)\<lparr>vparent := None, vdata := Some [104, 105, 33], vsize := 3\<rparr>)"
  by (auto simp: coupled_def sys_demo_def demo_vfs_def demo_fs_def demo_node_def vfs_find_node_def path_tokens_def
      demo_tokens vfs_view_def fs_view_def entry_of_def split: if_splits)

lemma sys_demo_free: "first_index (\<lambda>f. \<not> fd_in_use f) (drop 3 (fds sys_demo)) = Some 0"
  by (rule first_index_SomeI) (simp_all add: sys_demo_def MAX_FDS_def fd_closed_def)

abbreviation demo_file :: VNode where
  "demo_file \<equiv> (demo_node ''f'' False)\<lparr>vparent := None, vdata := Some [104, 105, 33], vsize := 3\<rparr>"

lemma sys_demo_fields:
  "cstr_at sys_demo_env a = ''/f''" "length (fds sys_demo) = MAX_FDS" "user_writes sys_demo = []"
  "vdata demo_file = Some [104, 105, 33]" "\<not> is_directory demo_file"
  "may_access (sys_vfs sys_demo) demo_file (vfs_current_user (sys_vfs sys_demo)) R_OK"
  "may_access (sys_vfs sys_demo) demo_file (vfs_current_user (sys_vfs sys_demo)) W_OK"
  by (simp_all add: sys_demo_env_def sys_demo_def demo_node_def may_access_def demo_vfs_def R_OK_def W_OK_def
      VFS_DEFAULT_FILE_PERMS_def)

lemma fd_read_file_witness:
  "\<exists>s1 rs ws s2. sys_open sys_demo_env 1 0 0 sys_demo = Some (3, s1) \<and>
     read_seq sys_demo_env 3 1 [2, 5, 4] s1 = Some (rs, s2) \<and>
     concat (map payload ws) = [104, 105, 33] \<and> user_writes s2 = ws"
  using fd_read_file [OF sys_demo_vfs sys_demo_facts(1) _ sys_demo_fields(1) sys_demo_free sys_demo_fields(2)
      sys_demo_facts(3) sys_demo_fields(4,5,6), of 1 0 1 0 "[2, 5, 4]"] sys_demo_fields(3)
  by (simp del: read_seq.simps) blast


lemma sys_demo_user:
  "priv_wf (sys_priv sys_demo)" "current_level (sys_priv sys_demo) = PRIVILEGE_USER"
  using priv_wf_user [OF priv_wf_init] by (simp_all add: sys_demo_def)

lemma syscalls_keep_ring_witness:
  "\<exists>rs s'. run_calls sys_demo_env [(20, 0, 0, 0, 0, 0), (300, 0, 0, 0, 0, 0), (6, 9, 0, 0, 0, 0)] sys_demo = Some (rs, s') \<and>
     rs = [1, -1, -1] \<and> sys_priv s' = sys_priv sys_demo"
proof -
  have "run_calls sys_demo_env [(20, 0, 0, 0, 0, 0), (300, 0, 0, 0, 0, 0), (6, 9, 0, 0, 0, 0)] sys_demo
      = Some ([1, -1, -1], sys_demo)"
    using user_switch_back [OF sys_demo_user]
    by (simp add: syscall_dispatch_def MAX_SYSCALLS_def syscall_table_init_def run_syscall_def sys_close_def
        MAX_FDS_def sys_demo_def fd_closed_def)
  from syscalls_keep_ring [OF sys_demo_user this] this show ?thesis by blast
qed


end
