(* ===== verification/ShellScript.thy ===== *)
theory ShellScript
  imports CLib
begin

text \<open>
  The script interpreter of the shell (\<^verbatim>\<open>src/MERL/shell_script.c\<close>): variables with a type
  tag and a union, expansion into a static buffer of 1024 bytes, conditions, loops, lines
  and files. Commands go to the shell's \<^verbatim>\<open>handle_command\<close>, which does not use the script
  context; they are recorded in order. Undefined behaviour (a buffer overrun, reading the
  union by the wrong member, freeing a pointer that \<^verbatim>\<open>malloc\<close> did not return, a number that
  does not fit) is \<open>None\<close>, and so is a loop that does not end.
\<close>

section \<open>Data\<close>

definition MAX_VARIABLES :: nat where "MAX_VARIABLES = 100"
definition MAX_VAR_NAME :: nat where "MAX_VAR_NAME = 64"
definition MAX_VAR_VALUE :: nat where "MAX_VAR_VALUE = 512"
definition MAX_TOKENS :: nat where "MAX_TOKENS = 100"

datatype VarType = VAR_STRING | VAR_INTEGER | VAR_ARRAY | VAR_OBJECT

text \<open>The member of the union written last; nothing writes the array and object members.\<close>

datatype var_union = StringVal string | IntVal int

record Variable =
  var_name :: string
  var_type :: VarType
  var_value :: var_union

record ShellContext =
  variables :: "Variable list"
  func_count :: nat
  last_exit_code :: int
  handled :: "string list"

section \<open>Variables\<close>

definition get_variable :: "string option \<Rightarrow> ShellContext \<Rightarrow> nat option" where
  "get_variable name ctx =
     (case name of None \<Rightarrow> None | Some n \<Rightarrow> first_index (\<lambda>v. var_name v = n) (variables ctx))"

definition stored_value :: "VarType \<Rightarrow> string \<Rightarrow> var_union option" where
  "stored_value ty v =
     (case ty of VAR_INTEGER \<Rightarrow> map_option IntVal (atoi v) | _ \<Rightarrow> Some (StringVal (c_copy MAX_VAR_VALUE v)))"

definition set_variable ::
  "string option \<Rightarrow> string option \<Rightarrow> VarType \<Rightarrow> ShellContext \<Rightarrow> (int \<times> ShellContext) option" where
  "set_variable name v ty ctx =
     (case (name, v) of
        (Some n, Some x) \<Rightarrow>
          (case get_variable (Some n) ctx of
             Some i \<Rightarrow> do {
               u \<leftarrow> stored_value ty x;
               Some (0, ctx\<lparr>variables := (variables ctx)[i := (variables ctx ! i)\<lparr>var_type := ty, var_value := u\<rparr>]\<rparr>) }
           | None \<Rightarrow>
               if MAX_VARIABLES \<le> length (variables ctx) then Some (-1, ctx)
               else do {
                 u \<leftarrow> stored_value ty x;
                 Some (0, ctx\<lparr>variables := variables ctx @
                   [\<lparr>var_name = c_copy MAX_VAR_NAME n, var_type = ty, var_value = u\<rparr>]\<rparr>) })
      | _ \<Rightarrow> Some (-1, ctx))"

fun set_all :: "(string \<times> string) list \<Rightarrow> ShellContext \<Rightarrow> ShellContext option" where
  "set_all [] ctx = Some ctx"
| "set_all ((n, v) # nvs) ctx = do { (r, ctx1) \<leftarrow> set_variable (Some n) (Some v) VAR_STRING ctx; set_all nvs ctx1 }"

definition init_shell_scripting :: "ShellContext option" where
  "init_shell_scripting =
     set_all [(''PWD'', ''/''), (''USER'', ''guest''), (''HOME'', ''/home''), (''PATH'', ''/bin:/usr/bin'')]
       \<lparr>variables = [], func_count = 0, last_exit_code = 0, handled = []\<rparr>"

section \<open>Expansion\<close>

text \<open>The text of a variable, by the member its tag selects.\<close>

fun value_text :: "VarType \<Rightarrow> var_union \<Rightarrow> string option" where
  "value_text VAR_INTEGER (IntVal i) = Some (dec_int i)"
| "value_text VAR_INTEGER (StringVal s) = None"
| "value_text ty (StringVal s) = Some s"
| "value_text ty (IntVal i) = None"

definition EXPANDED_SIZE :: nat where "EXPANDED_SIZE = MAX_VAR_VALUE * 2"

definition append_expanded :: "string \<Rightarrow> string \<Rightarrow> string option" where
  "append_expanded result t = (if length result + length t < EXPANDED_SIZE then Some (result @ t) else None)"

definition name_char :: "char \<Rightarrow> bool" where
  "name_char c \<longleftrightarrow> is_alnum c \<or> c = CHR ''_''"

text \<open>The name after a dollar, and what follows it.\<close>

definition scan_name :: "string \<Rightarrow> string \<times> string" where
  "scan_name s =
     (let brace_mode = (s \<noteq> [] \<and> hd s = CHR ''{'');
          s1 = (if brace_mode then tl s else s);
          name = take (MAX_VAR_NAME - 1) (takeWhile name_char s1);
          s2 = drop (length name) s1
      in (name, if brace_mode \<and> s2 \<noteq> [] \<and> hd s2 = CHR ''}'' then tl s2 else s2))"

lemma scan_name_shorter: "length (snd (scan_name s)) \<le> length s"
  by (auto simp: scan_name_def Let_def)

function expand_loop :: "ShellContext \<Rightarrow> string \<Rightarrow> string \<Rightarrow> string option" where
  "expand_loop ctx [] result = Some result"
| "expand_loop ctx (c # s) result =
     (if c = CHR ''$''
      then (case get_variable (Some (fst (scan_name s))) ctx of
              None \<Rightarrow> expand_loop ctx (snd (scan_name s)) result
            | Some i \<Rightarrow> do {
                t \<leftarrow> value_text (var_type (variables ctx ! i)) (var_value (variables ctx ! i));
                result' \<leftarrow> append_expanded result t;
                expand_loop ctx (snd (scan_name s)) result' })
      else do { result' \<leftarrow> append_expanded result [c]; expand_loop ctx s result' })"
  by pat_completeness auto
termination expand_loop
  by (relation "measure (\<lambda>(ctx, s, r). length s)") (auto simp: le_imp_less_Suc scan_name_shorter)

definition expand_variables :: "string \<Rightarrow> ShellContext \<Rightarrow> string option" where
  "expand_variables input ctx = expand_loop ctx input []"

section \<open>Conditions\<close>

definition tokenize :: "string \<Rightarrow> char set \<Rightarrow> string list" where
  "tokenize input delimiters = take (MAX_TOKENS - 1) (strtok_all delimiters input)"

definition blanks :: "char set" where "blanks = {CHR '' '', CHR 0x09}"

definition is_numeric :: "string \<Rightarrow> bool" where
  "is_numeric s \<longleftrightarrow> s \<noteq> [] \<and> strtol_all s"

definition compare_values :: "string \<Rightarrow> string \<Rightarrow> string \<Rightarrow> int option" where
  "compare_values left op right =
     (if op = ''=='' \<or> op = ''-eq'' then Some (of_cbool (left = right))
      else if op = ''!='' \<or> op = ''-ne'' then Some (of_cbool (left \<noteq> right))
      else do {
        n \<leftarrow> (if is_numeric left \<and> is_numeric right
             then do {
               l \<leftarrow> atoi left; r \<leftarrow> atoi right;
               Some (if op = ''-gt'' \<or> op = ''>'' then Some (of_cbool (l > r))
                     else if op = ''-lt'' \<or> op = ''<'' then Some (of_cbool (l < r))
                     else if op = ''-ge'' \<or> op = ''>='' then Some (of_cbool (l \<ge> r))
                     else if op = ''-le'' \<or> op = ''<='' then Some (of_cbool (l \<le> r))
                     else None) }
             else Some None);
        Some (case n of Some b \<Rightarrow> b
              | None \<Rightarrow> if op = ''-like'' then of_cbool (strstr left right \<noteq> None) else 0) })"

definition evaluate_condition :: "string \<Rightarrow> ShellContext \<Rightarrow> int option" where
  "evaluate_condition condition ctx = do {
     expanded \<leftarrow> expand_variables condition ctx;
     (case tokenize expanded blanks of
        left # op # right # rest \<Rightarrow> compare_values left op right
      | _ \<Rightarrow> Some 0) }"

section \<open>Lines\<close>

definition trim_whitespace :: "string \<Rightarrow> string" where
  "trim_whitespace s = trim_end (dropWhile is_space s)"

definition unquote :: "string \<Rightarrow> string" where
  "unquote v =
     (if v \<noteq> [] \<and> (hd v = CHR 0x22 \<or> hd v = CHR 0x27) \<and> length v > 1 \<and> last v = hd v
      then butlast (tl v) else v)"

text \<open>A line that begins with white space moves the pointer that is freed at the end.\<close>

definition execute_script_line :: "string \<Rightarrow> ShellContext \<Rightarrow> (int \<times> ShellContext) option" where
  "execute_script_line line ctx = do {
     expanded \<leftarrow> expand_variables line ctx;
     (if expanded \<noteq> [] \<and> is_space (hd expanded) then None
      else (let trimmed = trim_whitespace expanded in
        if trimmed = [] \<or> hd trimmed = CHR ''#'' then Some (0, ctx)
        else if starts_with ''if '' trimmed \<or> starts_with ''for '' trimmed \<or> starts_with ''while '' trimmed
        then Some (0, ctx)
        else (case strchr trimmed (CHR ''='') of
                Some (Suc k) \<Rightarrow> do {
                  let var_name = trim_whitespace (take (Suc k) trimmed);
                  let var_value = unquote (trim_whitespace (drop (Suc (Suc k)) trimmed));
                  (r, ctx1) \<leftarrow> set_variable (Some var_name) (Some var_value)
                                (if is_numeric var_value then VAR_INTEGER else VAR_STRING) ctx;
                  Some (0, ctx1) }
              | _ \<Rightarrow>
                  if strchr trimmed (CHR ''|'') \<noteq> None then Some (0, ctx)
                  else Some (0, ctx\<lparr>handled := handled ctx @ [trimmed]\<rparr>)))) }"

section \<open>Control\<close>

definition execute_if_statement ::
  "string \<Rightarrow> string \<Rightarrow> string option \<Rightarrow> ShellContext \<Rightarrow> (int \<times> ShellContext) option" where
  "execute_if_statement condition then_block else_block ctx = do {
     c \<leftarrow> evaluate_condition condition ctx;
     (if c \<noteq> 0 then execute_script_line then_block ctx
      else (case else_block of Some b \<Rightarrow> execute_script_line b ctx | None \<Rightarrow> Some (0, ctx))) }"

text \<open>Incrementing the counter past the largest \<^verbatim>\<open>int\<close> is undefined.\<close>

function for_range :: "string \<Rightarrow> string \<Rightarrow> int \<Rightarrow> int \<Rightarrow> ShellContext \<Rightarrow> ShellContext option" where
  "for_range var body i last_i ctx =
     (if last_i < i then Some ctx
      else do {
        (r, ctx1) \<leftarrow> set_variable (Some var) (Some (dec_int i)) VAR_INTEGER ctx;
        (r, ctx2) \<leftarrow> execute_script_line body ctx1;
        (if i = 2 ^ 31 - 1 then None else for_range var body (i + 1) last_i ctx2) })"
  by auto
termination for_range
  by (relation "measure (\<lambda>(var, body, i, last_i, ctx). nat (last_i + 1 - i))") auto

declare for_range.simps [simp del]

fun for_items :: "string \<Rightarrow> string \<Rightarrow> string list \<Rightarrow> ShellContext \<Rightarrow> ShellContext option" where
  "for_items var body [] ctx = Some ctx"
| "for_items var body (x # xs) ctx = do {
     (r, ctx1) \<leftarrow> set_variable (Some var) (Some x) VAR_STRING ctx;
     (r, ctx2) \<leftarrow> execute_script_line body ctx1;
     for_items var body xs ctx2 }"

definition execute_for_loop :: "string \<Rightarrow> string \<Rightarrow> string \<Rightarrow> ShellContext \<Rightarrow> (int \<times> ShellContext) option" where
  "execute_for_loop var rng body ctx =
     (case strstr rng ''..'' of
        Some k \<Rightarrow> do {
          start \<leftarrow> atoi (take k rng);
          last_i \<leftarrow> atoi (drop (k + 2) rng);
          ctx1 \<leftarrow> for_range var body start last_i ctx;
          Some (0, ctx1) }
      | None \<Rightarrow> do { ctx1 \<leftarrow> for_items var body (tokenize rng blanks) ctx; Some (0, ctx1) })"

partial_function (option) execute_while_loop ::
  "string \<Rightarrow> string \<Rightarrow> ShellContext \<Rightarrow> (int \<times> ShellContext) option" where
  "execute_while_loop condition body ctx =
     Option.bind (evaluate_condition condition ctx) (\<lambda>c.
       if c = 0 then Some (0, ctx)
       else Option.bind (execute_script_line body ctx) (\<lambda>(r, ctx1).
         if r \<noteq> 0 then Some (0, ctx1) else execute_while_loop condition body ctx1))"

section \<open>Files\<close>

text \<open>The buffer of a line holds 1024 bytes.\<close>

function fgets_lines :: "string \<Rightarrow> string list" where
  "fgets_lines s = (if s = [] then [] else fgets 1024 s # fgets_lines (drop (length (fgets 1024 s)) s))"
  by auto
termination fgets_lines
  by (relation "measure length") (auto simp: fgets_progress)

text \<open>The bytes of a line up to a zero or its newline.\<close>

definition c_line :: "string \<Rightarrow> string" where
  "c_line s = takeWhile (\<lambda>c. c \<noteq> CHR 0x0A \<and> c \<noteq> CHR 0x00) s"

fun run_lines :: "string list \<Rightarrow> nat \<Rightarrow> ShellContext \<Rightarrow> (nat \<times> ShellContext) option" where
  "run_lines [] errs ctx = Some (errs, ctx)"
| "run_lines (l # ls) errs ctx =
     (let trimmed = trim_whitespace (c_line l) in
      if trimmed = [] \<or> hd trimmed = CHR ''#'' then run_lines ls errs ctx
      else do {
        (r, ctx1) \<leftarrow> execute_script_line trimmed ctx;
        run_lines ls (if r \<noteq> 0 then errs + 1 else errs) ctx1 })"

definition execute_script_file ::
  "(string \<Rightarrow> string option) \<Rightarrow> string \<Rightarrow> ShellContext \<Rightarrow> (int \<times> ShellContext) option" where
  "execute_script_file host filename ctx =
     (case host filename of None \<Rightarrow> Some (-1, ctx)
      | Some text_of_file \<Rightarrow> do {
          (errs, ctx1) \<leftarrow> run_lines (fgets_lines text_of_file) 0 ctx;
          Some (if errs > 0 then -1 else 0, ctx1) })"

end
