(* ===== verification/ShellScriptProps.thy ===== *)
theory ShellScriptProps
  imports ShellScript
begin

text \<open>
  Properties of the script interpreter: every context a script can reach is well typed,
  expansion equals a reference definition, variables are a map, and what the loops do.
\<close>

section \<open>Typing\<close>

text \<open>The tag selects the member of the union that was written.\<close>

inductive has_type :: "var_union \<Rightarrow> VarType \<Rightarrow> bool" where
  "ty \<noteq> VAR_INTEGER \<Longrightarrow> length s < MAX_VAR_VALUE \<Longrightarrow> has_type (StringVal s) ty"
| "fits_int i \<Longrightarrow> has_type (IntVal i) VAR_INTEGER"

inductive_simps has_type_simps [simp]: "has_type (StringVal s) ty" "has_type (IntVal i) ty"

definition var_ok :: "Variable \<Rightarrow> bool" where
  "var_ok v \<longleftrightarrow> length (var_name v) < MAX_VAR_NAME \<and> has_type (var_value v) (var_type v)"

definition ctx_ok :: "ShellContext \<Rightarrow> bool" where
  "ctx_ok ctx \<longleftrightarrow> length (variables ctx) \<le> MAX_VARIABLES \<and> (\<forall>v \<in> set (variables ctx). var_ok v)"

lemma scan_int_fits: "atoi s = Some i \<Longrightarrow> fits_int i"
  by (auto simp: atoi_def fits_int_def split: option.splits if_splits)

lemma stored_value_type: "stored_value ty v = Some u \<Longrightarrow> has_type u ty"
proof (cases "ty = VAR_INTEGER")
  case True
  moreover assume "stored_value ty v = Some u"
  ultimately obtain i where "atoi v = Some i" "u = IntVal i" by (auto simp: stored_value_def)
  with True scan_int_fits show ?thesis by simp
next
  case False
  moreover assume "stored_value ty v = Some u"
  ultimately have "u = StringVal (c_copy MAX_VAR_VALUE v)" by (cases ty) (simp_all add: stored_value_def)
  with False length_c_copy [of MAX_VAR_VALUE v] show ?thesis by (simp add: MAX_VAR_VALUE_def)
qed

lemma value_text_defined: "has_type u ty \<Longrightarrow> \<exists>t. value_text ty u = Some t"
proof (induction rule: has_type.induct)
  case (1 ty s)
  then show ?case by (cases ty) simp_all
qed simp

lemma get_variable_SomeD:
  "get_variable name ctx = Some i \<Longrightarrow> i < length (variables ctx) \<and> name = Some (var_name (variables ctx ! i))"
  by (cases name) (auto simp: get_variable_def dest: first_index_SomeD)

lemma set_variable_ok [vm_inv]:
  assumes "ctx_ok ctx" and "set_variable name v ty ctx = Some (r, ctx')"
  shows "ctx_ok ctx'"
proof (cases "name = None \<or> v = None")
  case True
  with assms show ?thesis by (auto simp: set_variable_def split: option.splits)
next
  case False
  then obtain n x where nx: "name = Some n" "v = Some x" by auto
  show ?thesis
  proof (cases "get_variable (Some n) ctx")
    case None
    with assms nx show ?thesis
      using stored_value_type [of ty x]
      by (auto simp: set_variable_def ctx_ok_def var_ok_def length_c_copy MAX_VAR_NAME_def split: if_splits bind_splits)
  next
    case (Some i)
    have "i < length (variables ctx)" using get_variable_SomeD [OF Some] by simp
    then have at: "var_ok (variables ctx ! i)" using assms(1) by (simp add: ctx_ok_def)
    from assms(2) nx Some obtain u where u: "stored_value ty x = Some u"
      "ctx' = ctx\<lparr>variables := (variables ctx)[i := (variables ctx ! i)\<lparr>var_type := ty, var_value := u\<rparr>]\<rparr>"
      by (auto simp: set_variable_def split: bind_splits)
    let ?w = "(variables ctx ! i)\<lparr>var_type := ty, var_value := u\<rparr>"
    have "var_ok ?w" using at stored_value_type [OF u(1)] by (simp add: var_ok_def)
    then have "\<forall>v \<in> set ((variables ctx)[i := ?w]). var_ok v"
      using assms(1) set_update_subset_insert [of "variables ctx" i ?w] by (auto simp: ctx_ok_def)
    with u(2) assms(1) show ?thesis by (simp add: ctx_ok_def)
  qed
qed

lemma handled_ok [simp]: "ctx_ok (ctx\<lparr>handled := h\<rparr>) = ctx_ok ctx"
  by (simp add: ctx_ok_def)

lemma set_all_ok: "ctx_ok ctx \<Longrightarrow> set_all nvs ctx = Some ctx' \<Longrightarrow> ctx_ok ctx'"
  by (induction nvs ctx rule: set_all.induct) (auto split: bind_splits dest: set_variable_ok)

lemma init_ok: "init_shell_scripting = Some ctx \<Longrightarrow> ctx_ok ctx"
  unfolding init_shell_scripting_def by (erule set_all_ok [rotated]) (simp add: ctx_ok_def)

lemma script_line_ok [vm_inv]:
  assumes "ctx_ok ctx" and "execute_script_line l ctx = Some (r, ctx')"
  shows "ctx_ok ctx'"
  using assms
  by (auto simp: execute_script_line_def Let_def split: bind_splits if_splits option.splits nat.splits
      dest: set_variable_ok)

lemma for_range_step:
  assumes "for_range var body i l ctx = Some ctx'" and "i \<le> l"
  obtains r1 ctx1 r2 ctx2 where "set_variable (Some var) (Some (dec_int i)) VAR_INTEGER ctx = Some (r1, ctx1)"
    "execute_script_line body ctx1 = Some (r2, ctx2)" "for_range var body (i + 1) l ctx2 = Some ctx'"
  using assms by (subst (asm) for_range.simps) (auto split: if_splits bind_splits)

lemma for_range_ok: "ctx_ok ctx \<Longrightarrow> for_range var body i l ctx = Some ctx' \<Longrightarrow> ctx_ok ctx'"
proof (induction "nat (l + 1 - i)" arbitrary: i ctx)
  case 0
  then show ?case by (subst (asm) for_range.simps) simp
next
  case (Suc n)
  then have le: "i \<le> l" "n = nat (l + 1 - (i + 1))" by auto
  from for_range_step [OF Suc.prems(2) le(1)] obtain r1 ctx1 r2 ctx2 where
    "set_variable (Some var) (Some (dec_int i)) VAR_INTEGER ctx = Some (r1, ctx1)"
    "execute_script_line body ctx1 = Some (r2, ctx2)" "for_range var body (i + 1) l ctx2 = Some ctx'" .
  with Suc.hyps(1) [OF le(2)] Suc.prems(1) show ?case using set_variable_ok script_line_ok by blast
qed

lemma for_items_ok: "ctx_ok ctx \<Longrightarrow> for_items var body xs ctx = Some ctx' \<Longrightarrow> ctx_ok ctx'"
proof (induction xs arbitrary: ctx)
  case Nil
  then show ?case by simp
next
  case (Cons x xs)
  from Cons.prems(2) obtain r1 ctx1 r2 ctx2 where
    "set_variable (Some var) (Some x) VAR_STRING ctx = Some (r1, ctx1)"
    "execute_script_line body ctx1 = Some (r2, ctx2)" "for_items var body xs ctx2 = Some ctx'"
    by (auto split: bind_splits)
  with Cons.IH Cons.prems(1) show ?case using set_variable_ok script_line_ok by blast
qed

lemma for_loop_ok [vm_inv]: "ctx_ok ctx \<Longrightarrow> execute_for_loop var rng body ctx = Some (r, ctx') \<Longrightarrow> ctx_ok ctx'"
  by (auto simp: execute_for_loop_def split: option.splits bind_splits dest: for_range_ok for_items_ok)

lemma if_ok [vm_inv]: "ctx_ok ctx \<Longrightarrow> execute_if_statement c t e ctx = Some (r, ctx') \<Longrightarrow> ctx_ok ctx'"
  by (auto simp: execute_if_statement_def split: option.splits bind_splits if_splits dest: script_line_ok)

lemma while_ok [vm_inv]: "execute_while_loop c b ctx = Some y \<Longrightarrow> ctx_ok ctx \<longrightarrow> ctx_ok (snd y)"
proof (rule execute_while_loop.raw_induct [where P = "\<lambda>c b ctx y. ctx_ok ctx \<longrightarrow> ctx_ok (snd y)"])
  fix loop :: "string \<Rightarrow> string \<Rightarrow> ShellContext \<Rightarrow> (int \<times> ShellContext) option" and c b ctx y
  assume IH: "\<And>c b ctx y. loop c b ctx = Some y \<Longrightarrow> ctx_ok ctx \<longrightarrow> ctx_ok (snd y)"
    and step: "Option.bind (evaluate_condition c ctx) (\<lambda>x. if x = 0 then Some (0, ctx)
      else Option.bind (execute_script_line b ctx) (\<lambda>(r, ctx1). if r \<noteq> 0 then Some (0, ctx1) else loop c b ctx1)) = Some y"
  show "ctx_ok ctx \<longrightarrow> ctx_ok (snd y)"
  proof
    assume ok: "ctx_ok ctx"
    from step show "ctx_ok (snd y)" using ok IH [of c b _ y] script_line_ok [OF ok]
      by (auto split: bind_splits if_splits)
  qed
qed

lemma run_lines_ok: "ctx_ok ctx \<Longrightarrow> run_lines ls n ctx = Some (m, ctx') \<Longrightarrow> ctx_ok ctx'"
  by (induction ls arbitrary: n ctx) (auto simp: Let_def split: bind_splits if_splits dest: script_line_ok)

lemma file_ok [vm_inv]: "ctx_ok ctx \<Longrightarrow> execute_script_file host f ctx = Some (r, ctx') \<Longrightarrow> ctx_ok ctx'"
  by (auto simp: execute_script_file_def split: option.splits bind_splits dest: run_lines_ok)

section \<open>Scripts\<close>

datatype script_op =
  SetVar string string VarType | Line string | IfStmt string string "string option"
| ForLoop string string string | WhileLoop string string | ScriptFile string

fun exec_op :: "(string \<Rightarrow> string option) \<Rightarrow> script_op \<Rightarrow> ShellContext \<Rightarrow> (int \<times> ShellContext) option" where
  "exec_op host (SetVar n v ty) ctx = set_variable (Some n) (Some v) ty ctx"
| "exec_op host (Line l) ctx = execute_script_line l ctx"
| "exec_op host (IfStmt c t e) ctx = execute_if_statement c t e ctx"
| "exec_op host (ForLoop v r b) ctx = execute_for_loop v r b ctx"
| "exec_op host (WhileLoop c b) ctx = execute_while_loop c b ctx"
| "exec_op host (ScriptFile f) ctx = execute_script_file host f ctx"

inductive script_run :: "(string \<Rightarrow> string option) \<Rightarrow> script_op list \<Rightarrow> ShellContext \<Rightarrow> bool" for host where
  script_start: "init_shell_scripting = Some ctx \<Longrightarrow> script_run host [] ctx"
| script_step: "script_run host ops ctx \<Longrightarrow> exec_op host op ctx = Some (r, ctx') \<Longrightarrow> script_run host (ops @ [op]) ctx'"

lemma exec_op_ok: "ctx_ok ctx \<Longrightarrow> exec_op host op ctx = Some (r, ctx') \<Longrightarrow> ctx_ok ctx'"
  using while_ok by (cases op) (auto intro: vm_inv)

lemma script_run_ok: "script_run host ops ctx \<Longrightarrow> ctx_ok ctx"
  by (induction rule: script_run.induct) (auto intro: init_ok exec_op_ok)

lemma init_context: "\<exists>ctx. init_shell_scripting = Some ctx \<and> length (variables ctx) = 4 \<and> handled ctx = []"
  by (simp add: init_shell_scripting_def set_variable_def get_variable_def stored_value_def MAX_VARIABLES_def
      MAX_VAR_NAME_def c_copy_def)

section \<open>Expansion against a reference definition\<close>

text \<open>What a variable stands for.\<close>

definition shell_env :: "ShellContext \<Rightarrow> string \<Rightarrow> string option" where
  "shell_env ctx n =
     (case get_variable (Some n) ctx of None \<Rightarrow> None
      | Some i \<Rightarrow> value_text (var_type (variables ctx ! i)) (var_value (variables ctx ! i)))"

text \<open>The reference: read the input into pieces once, then replace the references.\<close>

datatype piece = Lit char | Ref string

function pieces :: "string \<Rightarrow> piece list" where
  "pieces [] = []"
| "pieces (c # s) = (if c = CHR ''$'' then Ref (fst (scan_name s)) # pieces (snd (scan_name s)) else Lit c # pieces s)"
  by pat_completeness auto
termination pieces
  by (relation "measure length") (auto simp: le_imp_less_Suc scan_name_shorter)

fun piece_text :: "(string \<Rightarrow> string option) \<Rightarrow> piece \<Rightarrow> string" where
  "piece_text env (Lit c) = [c]"
| "piece_text env (Ref n) = (case env n of None \<Rightarrow> [] | Some t \<Rightarrow> t)"

definition expansion :: "(string \<Rightarrow> string option) \<Rightarrow> string \<Rightarrow> string" where
  "expansion env s = concat (map (piece_text env) (pieces s))"

lemma variable_text:
  assumes "ctx_ok ctx" and "get_variable (Some n) ctx = Some i"
  shows "\<exists>t. value_text (var_type (variables ctx ! i)) (var_value (variables ctx ! i)) = Some t \<and> shell_env ctx n = Some t"
proof -
  have "i < length (variables ctx)" using get_variable_SomeD [OF assms(2)] by simp
  then have "var_ok (variables ctx ! i)" using assms(1) by (simp add: ctx_ok_def)
  with value_text_defined assms(2) show ?thesis by (auto simp: var_ok_def shell_env_def)
qed

lemma expand_loop_reference:
  assumes ok: "ctx_ok ctx" and "length result < EXPANDED_SIZE"
  shows "expand_loop ctx s result =
    (if length result + length (expansion (shell_env ctx) s) < EXPANDED_SIZE
     then Some (result @ expansion (shell_env ctx) s) else None)"
  using assms(2)
proof (induction "length s" arbitrary: s result rule: less_induct)
  case less
  show ?case
  proof (cases s)
    case Nil
    with less.prems show ?thesis by (simp add: expansion_def)
  next
    case (Cons c s')
    show ?thesis
    proof (cases "c = CHR ''$''")
      case False
      have e: "expansion (shell_env ctx) s = c # expansion (shell_env ctx) s'"
        using Cons False by (simp add: expansion_def)
      show ?thesis
      proof (cases "length result + 1 < EXPANDED_SIZE")
        case True
        with less.hyps [of s' "result @ [c]"] Cons False e show ?thesis by (simp add: append_expanded_def)
      next
        case f: False
        with Cons False e show ?thesis by (simp add: append_expanded_def)
      qed
    next
      case True
      let ?n = "fst (scan_name s')" and ?r = "snd (scan_name s')"
      have sh: "length ?r < length s" using scan_name_shorter [of s'] Cons by simp
      have e: "expansion (shell_env ctx) s = (case shell_env ctx ?n of None \<Rightarrow> [] | Some t \<Rightarrow> t) @ expansion (shell_env ctx) ?r"
        using Cons True by (simp add: expansion_def)
      show ?thesis
      proof (cases "get_variable (Some ?n) ctx")
        case None
        then have "shell_env ctx ?n = None" by (simp add: shell_env_def)
        with None less.hyps [OF sh less.prems] Cons True e show ?thesis by simp
      next
        case (Some i)
        from variable_text [OF ok Some] obtain t where t:
          "value_text (var_type (variables ctx ! i)) (var_value (variables ctx ! i)) = Some t" "shell_env ctx ?n = Some t"
          by blast
        show ?thesis
        proof (cases "length result + length t < EXPANDED_SIZE")
          case True
          with less.hyps [OF sh, of "result @ t"] Some t Cons \<open>c = _\<close> e show ?thesis
            by (simp add: append_expanded_def add.assoc)
        next
          case False
          with Some t Cons \<open>c = _\<close> e show ?thesis by (simp add: append_expanded_def)
        qed
      qed
    qed
  qed
qed

lemma expand_is_reference_aux:
  assumes "ctx_ok ctx"
  shows "expand_variables s ctx =
    (if length (expansion (shell_env ctx) s) < EXPANDED_SIZE then Some (expansion (shell_env ctx) s) else None)"
  using expand_loop_reference [OF assms, of "[]" s]
  by (simp add: expand_variables_def EXPANDED_SIZE_def MAX_VAR_VALUE_def)

text \<open>
  C24: Expansion is its reference definition: in a well-typed context \<open>expand_variables\<close>
  returns the input with every reference replaced by what the variable stands for, exactly
  when the result with its terminator fits the buffer of 1024 bytes, and overruns the buffer
  otherwise.
\<close>

theorem expand_is_reference:
  assumes "ctx_ok ctx"
  shows "expand_variables s ctx =
    (if length (expansion (shell_env ctx) s) < EXPANDED_SIZE then Some (expansion (shell_env ctx) s) else None)"
  using assms by (rule expand_is_reference_aux)


section \<open>Variables as a map\<close>

lemma value_text_stored:
  assumes "stored_value ty v = Some u"
  shows "value_text ty u = Some (if ty = VAR_INTEGER then dec_int (the (atoi v)) else c_copy MAX_VAR_VALUE v)"
  using assms by (cases ty) (auto simp: stored_value_def)

lemma first_index_update_same:
  assumes "f y = f (xs ! i)" and "i < length xs"
  shows "first_index (\<lambda>v. f v = n) (xs[i := y]) = first_index (\<lambda>v. f v = n) xs"
  using assms
proof (induction xs arbitrary: i)
  case Nil
  then show ?case by simp
next
  case (Cons x xs)
  then show ?case by (cases i) auto
qed

lemma first_index_append:
  "first_index P (xs @ ys) = (case first_index P xs of Some i \<Rightarrow> Some i | None \<Rightarrow> map_option (\<lambda>k. length xs + k) (first_index P ys))"
proof (induction xs)
  case Nil
  then show ?case by (cases "first_index P ys") auto
next
  case (Cons x xs)
  then show ?case by (cases "first_index P ys") (auto split: option.splits)
qed

lemma set_variable_map:
  assumes n: "length n < MAX_VAR_NAME" and sv: "set_variable (Some n) (Some v) ty ctx = Some (r, ctx')"
  shows "if get_variable (Some n) ctx = None \<and> MAX_VARIABLES \<le> length (variables ctx) then r = -1 \<and> ctx' = ctx
    else r = 0 \<and> handled ctx' = handled ctx \<and>
      shell_env ctx' = (shell_env ctx)(n \<mapsto> if ty = VAR_INTEGER then dec_int (the (atoi v)) else c_copy MAX_VAR_VALUE v)"
proof (cases "get_variable (Some n) ctx")
  case None
  show ?thesis
  proof (cases "MAX_VARIABLES \<le> length (variables ctx)")
    case True
    with None sv show ?thesis by (simp add: set_variable_def)
  next
    case False
    let ?w = "\<lambda>u. \<lparr>var_name = n, var_type = ty, var_value = u\<rparr>"
    from None False sv n obtain u where u: "stored_value ty v = Some u" "r = 0"
      "ctx' = ctx\<lparr>variables := variables ctx @ [?w u]\<rparr>"
      by (auto simp: set_variable_def split: bind_splits)
    have g: "get_variable (Some m) ctx' = (if m = n then Some (length (variables ctx)) else get_variable (Some m) ctx)" for m
      using None u(3) by (auto simp: get_variable_def first_index_append split: option.splits)
    have "shell_env ctx' m = ((shell_env ctx)(n \<mapsto> if ty = VAR_INTEGER then dec_int (the (atoi v)) else c_copy MAX_VAR_VALUE v)) m"
      for m
      using g [of m] u value_text_stored [OF u(1)] get_variable_SomeD [of "Some m" ctx]
      by (auto simp: shell_env_def nth_append split: option.splits)
    with False u show ?thesis by auto
  qed
next
  case (Some i)
  let ?w = "\<lambda>u. (variables ctx ! i)\<lparr>var_type := ty, var_value := u\<rparr>"
  note i = get_variable_SomeD [OF Some]
  from Some sv obtain u where u: "stored_value ty v = Some u" "r = 0"
    "ctx' = ctx\<lparr>variables := (variables ctx)[i := ?w u]\<rparr>"
    by (auto simp: set_variable_def split: bind_splits)
  have g: "get_variable (Some m) ctx' = get_variable (Some m) ctx" for m
    using first_index_update_same [of var_name "?w u" "variables ctx" i m] i u(3) by (simp add: get_variable_def)
  have "shell_env ctx' m = ((shell_env ctx)(n \<mapsto> if ty = VAR_INTEGER then dec_int (the (atoi v)) else c_copy MAX_VAR_VALUE v)) m"
    for m
  proof (cases "get_variable (Some m) ctx")
    case None
    with g [of m] Some show ?thesis by (auto simp: shell_env_def)
  next
    case (Some j)
    have lt: "i < length (variables ctx)" using i by simp
    have at: "variables ctx' ! j = (if j = i then ?w u else variables ctx ! j)" using u(3) lt by simp
    show ?thesis
    proof (cases "j = i")
      case True
      then have "m = n" using get_variable_SomeD [OF Some] i by simp
      with g [of m] Some at True value_text_stored [OF u(1)] show ?thesis by (simp add: shell_env_def)
    next
      case False
      then have "m \<noteq> n" using Some \<open>get_variable (Some n) ctx = Some i\<close> by auto
      with g [of m] Some at False show ?thesis by (simp add: shell_env_def)
    qed
  qed
  with Some u show ?thesis by auto
qed

text \<open>A reference to a name that is well formed and ends where the input does.\<close>

lemma expansion_ref:
  assumes "\<forall>c \<in> set n. name_char c" and "length n < MAX_VAR_NAME"
  shows "expansion env (CHR ''$'' # n) = (case env n of None \<Rightarrow> [] | Some t \<Rightarrow> t)"
    and "expansion env (CHR ''$'' # CHR 0x7B # n @ [CHR 0x7D]) = (case env n of None \<Rightarrow> [] | Some t \<Rightarrow> t)"
proof -
  have nb: "n = [] \<or> hd n \<noteq> CHR 0x7B" using assms(1) by (cases n) (auto simp: name_char_def is_alnum_def)
  have cb: "\<not> name_char CHR 0x7D" by (simp add: name_char_def is_alnum_def)
  have all: "takeWhile name_char n = n" "takeWhile name_char (n @ [CHR 0x7D]) = n"
    using assms(1) cb by (simp_all add: takeWhile_append)
  have nbf: "(n \<noteq> [] \<and> hd n = CHR 0x7B) = False" using nb by auto
  have tk: "take (MAX_VAR_NAME - 1) n = n" using assms(2) by (simp add: MAX_VAR_NAME_def)
  have "scan_name n = (n, [])"
    unfolding scan_name_def Let_def nbf if_False all(1) tk by simp
  moreover have "scan_name (CHR 0x7B # n @ [CHR 0x7D]) = (n, [])"
    using assms(2) unfolding scan_name_def Let_def
    by (simp add: all(2) [simplified] MAX_VAR_NAME_def del: takeWhile_append2)
  ultimately show "expansion env (CHR ''$'' # n) = (case env n of None \<Rightarrow> [] | Some t \<Rightarrow> t)"
    and "expansion env (CHR ''$'' # CHR 0x7B # n @ [CHR 0x7D]) = (case env n of None \<Rightarrow> [] | Some t \<Rightarrow> t)"
    by (simp_all add: expansion_def)
qed

text \<open>Text without a dollar stands for itself.\<close>

lemma expansion_plain: "CHR ''$'' \<notin> set s \<Longrightarrow> expansion env (s @ t) = s @ expansion env t"
  by (induction s) (auto simp: expansion_def)

lemma expansion_plain': "CHR ''$'' \<notin> set s \<Longrightarrow> expansion env s = s"
  using expansion_plain [of s env "[]"] by (simp add: expansion_def)

section \<open>Assignments\<close>

text \<open>A line that is a command: nothing the interpreter itself acts on.\<close>

definition plain_command :: "string \<Rightarrow> bool" where
  "plain_command l \<longleftrightarrow> l \<noteq> [] \<and> \<not> is_space (hd l) \<and> \<not> is_space (last l) \<and> hd l \<noteq> CHR ''#'' \<and>
     \<not> starts_with ''if '' l \<and> \<not> starts_with ''for '' l \<and> \<not> starts_with ''while '' l \<and>
     CHR ''='' \<notin> set l \<and> CHR ''|'' \<notin> set l \<and> length l < EXPANDED_SIZE"

lemma trim_plain: "s \<noteq> [] \<Longrightarrow> \<not> is_space (hd s) \<Longrightarrow> \<not> is_space (last s) \<Longrightarrow> trim_whitespace s = s"
  by (cases s) (simp_all add: trim_whitespace_def trim_end_plain)

lemma strchr_absent: "c \<notin> set s \<Longrightarrow> strchr s c = None"
  by (auto simp: strchr_def first_index_None_iff)

lemma plain_command_line:
  assumes ok: "ctx_ok ctx" and pl: "plain_command (expansion (shell_env ctx) body)"
  shows "execute_script_line body ctx = Some (0, ctx\<lparr>handled := handled ctx @ [expansion (shell_env ctx) body]\<rparr>)"
proof -
  let ?l = "expansion (shell_env ctx) body"
  have "trim_whitespace ?l = ?l" using pl by (intro trim_plain) (simp_all add: plain_command_def)
  moreover have "strchr ?l (CHR ''='') = None" "strchr ?l (CHR ''|'') = None"
    using pl by (simp_all add: strchr_absent plain_command_def)
  ultimately show ?thesis
    using pl expand_is_reference_aux [OF ok, of body]
    by (simp add: execute_script_line_def plain_command_def Let_def)
qed

lemma name_char_facts: "name_char c \<Longrightarrow> \<not> is_space c \<and> c \<notin> {CHR ''#'', CHR ''='', CHR ''$'', CHR '' ''}"
  by (auto simp: name_char_def is_alnum_def is_space_def Let_def)

lemma strchr_first: "c \<notin> set s \<Longrightarrow> strchr (s @ c # t) c = Some (length s)"
  by (induction s) (auto simp: strchr_def)

lemma starts_with_space:
  assumes "starts_with (p @ '' '') (n @ CHR ''='' # v)" and "\<forall>c \<in> set n. name_char c"
    and "CHR ''='' \<notin> set p"
  shows False
proof -
  from assms(1) have "\<exists>r. n @ CHR ''='' # v = p @ CHR '' '' # r"
    unfolding starts_with_def by (metis append.assoc append_Cons append_Nil append_take_drop_id)
  then obtain r us where "n = p @ us \<and> us @ CHR ''='' # v = CHR '' '' # r \<or> n @ us = p \<and> CHR ''='' # v = us @ CHR '' '' # r"
    by (auto simp: append_eq_append_conv2)
  with assms(2,3) name_char_facts [of "CHR '' ''"] show False by (auto simp: Cons_eq_append_conv append_eq_Cons_conv)
qed

lemma assignment_line:
  assumes ok: "ctx_ok ctx" and n: "n \<noteq> []" "\<forall>c \<in> set n. name_char c"
    and v: "CHR ''$'' \<notin> set v" "v \<noteq> []" "\<not> is_space (hd v)" "\<not> is_space (last v)" "hd v \<noteq> CHR 0x22" "hd v \<noteq> CHR 0x27"
    and len: "length n + length v + 1 < EXPANDED_SIZE"
  shows "execute_script_line (n @ CHR ''='' # v) ctx =
    map_option (\<lambda>(r, ctx'). (0, ctx')) (set_variable (Some n) (Some v) (if is_numeric v then VAR_INTEGER else VAR_STRING) ctx)"
proof -
  let ?l = "n @ CHR ''='' # v"
  have nd: "CHR ''$'' \<notin> set n" "CHR ''='' \<notin> set n" using n(2) name_char_facts by fastforce+
  have hn: "name_char (hd n)" "name_char (last n)" using n by simp_all
  note h = name_char_facts [OF hn(1)] name_char_facts [OF hn(2)]
  have e: "expand_variables ?l ctx = Some ?l"
    using expand_is_reference_aux [OF ok, of ?l] expansion_plain' [of ?l] nd v(1) len by simp
  have t: "trim_whitespace ?l = ?l" "trim_whitespace n = n" "trim_whitespace v = v"
    using n v h by (simp_all add: trim_plain)
  have sw: "\<not> starts_with ''if '' ?l" "\<not> starts_with ''for '' ?l" "\<not> starts_with ''while '' ?l"
    using starts_with_space [of "''if''" n v] starts_with_space [of "''for''" n v] starts_with_space [of "''while''" n v] n(2)
    by auto
  have c: "strchr ?l (CHR ''='') = Some (length n)" using strchr_first nd(2) by simp
  obtain k where k: "length n = Suc k" using n(1) by (cases "length n") auto
  have u: "unquote v = v" using v by (simp add: unquote_def)
  have p: "take (Suc k) ?l = n" "drop (Suc (Suc k)) ?l = v" using k by (simp_all flip: k)
  from e t sw c k u p n h show ?thesis
    by (cases "set_variable (Some n) (Some v) (if is_numeric v then VAR_INTEGER else VAR_STRING) ctx")
      (auto simp: execute_script_line_def Let_def)
qed

text \<open>The value is stored, and the call succeeds, when it is not an oversized number and there is room.\<close>

lemma set_variable_succeeds:
  assumes n: "length n < MAX_VAR_NAME" and room: "get_variable (Some n) ctx \<noteq> None \<or> length (variables ctx) < MAX_VARIABLES"
    and num: "ty = VAR_INTEGER \<longrightarrow> atoi v \<noteq> None"
  shows "\<exists>ctx'. set_variable (Some n) (Some v) ty ctx = Some (0, ctx') \<and> handled ctx' = handled ctx \<and>
    shell_env ctx' = (shell_env ctx)(n \<mapsto> if ty = VAR_INTEGER then dec_int (the (atoi v)) else c_copy MAX_VAR_VALUE v) \<and>
    get_variable (Some n) ctx' \<noteq> None"
proof -
  from num obtain u where u: "stored_value ty v = Some u" by (cases ty) (auto simp: stored_value_def)
  have "\<exists>r ctx'. set_variable (Some n) (Some v) ty ctx = Some (r, ctx')"
    using room u by (auto simp: set_variable_def split: option.splits)
  then obtain r ctx' where sv: "set_variable (Some n) (Some v) ty ctx = Some (r, ctx')" by blast
  from set_variable_map [OF n sv] room have m: "r = 0" "handled ctx' = handled ctx"
    "shell_env ctx' = (shell_env ctx)(n \<mapsto> if ty = VAR_INTEGER then dec_int (the (atoi v)) else c_copy MAX_VAR_VALUE v)"
    by (auto split: if_splits)
  then have "shell_env ctx' n \<noteq> None" by simp
  then have "get_variable (Some n) ctx' \<noteq> None" by (auto simp: shell_env_def split: option.splits)
  with sv m show ?thesis by auto
qed

lemma expand_short:
  assumes "ctx_ok ctx" and "\<forall>c \<in> set n. name_char c" and "length n < MAX_VAR_NAME" and "shell_env ctx n = Some t"
    and "length t < EXPANDED_SIZE"
  shows "expand_variables (CHR ''$'' # n) ctx = Some t" "expand_variables (CHR ''$'' # CHR 0x7B # n @ [CHR 0x7D]) ctx = Some t"
  using expand_is_reference_aux [OF assms(1)] expansion_ref [OF assms(2,3)] assms(4,5) by simp_all

text \<open>
  An assignment is read back: a line \<open>name=value\<close> with a proper name and a value without
  references, outer blanks or leading quote changes the variable of that name only, and then
  both forms of a reference to it expand to the value (its first 511 characters; for a
  number, its decimal notation).
\<close>

theorem assign_then_expand:
  assumes ok: "ctx_ok ctx" and n: "n \<noteq> []" "\<forall>c \<in> set n. name_char c" "length n < MAX_VAR_NAME"
    and v: "CHR ''$'' \<notin> set v" "v \<noteq> []" "\<not> is_space (hd v)" "\<not> is_space (last v)" "hd v \<noteq> CHR 0x22" "hd v \<noteq> CHR 0x27"
    and len: "length n + length v + 1 < EXPANDED_SIZE"
    and room: "get_variable (Some n) ctx \<noteq> None \<or> length (variables ctx) < MAX_VARIABLES"
    and num: "is_numeric v \<longrightarrow> atoi v \<noteq> None"
  shows "\<exists>ctx' t. t = (if is_numeric v then dec_int (the (atoi v)) else take (MAX_VAR_VALUE - 1) v) \<and>
    execute_script_line (n @ CHR ''='' # v) ctx = Some (0, ctx') \<and> handled ctx' = handled ctx \<and>
    shell_env ctx' = (shell_env ctx)(n \<mapsto> t) \<and>
    expand_variables (CHR ''$'' # n) ctx' = Some t \<and> expand_variables (CHR ''$'' # CHR 0x7B # n @ [CHR 0x7D]) ctx' = Some t"
proof -
  let ?ty = "if is_numeric v then VAR_INTEGER else VAR_STRING"
  let ?t = "if is_numeric v then dec_int (the (atoi v)) else take (MAX_VAR_VALUE - 1) v"
  have "?ty = VAR_INTEGER \<longrightarrow> atoi v \<noteq> None" using num by simp
  from set_variable_succeeds [OF n(3) room this] obtain ctx' where
    sv: "set_variable (Some n) (Some v) ?ty ctx = Some (0, ctx')" "handled ctx' = handled ctx"
    "shell_env ctx' = (shell_env ctx)(n \<mapsto> ?t)" "get_variable (Some n) ctx' \<noteq> None"
    by (auto simp: c_copy_def)
  note ok' = set_variable_ok [OF ok sv(1)]
  have "length ?t < EXPANDED_SIZE"
  proof (cases "is_numeric v")
    case True
    then obtain i where "atoi v = Some i" using num by auto
    then have "length (dec (nat i)) \<le> Suc 9 \<and> length (dec (nat (- i))) \<le> Suc 9"
      using scan_int_fits by (intro conjI dec_length) (fastforce simp: fits_int_def)+
    with True \<open>atoi v = Some i\<close> show ?thesis by (simp add: dec_int_def EXPANDED_SIZE_def MAX_VAR_VALUE_def)
  qed (simp add: EXPANDED_SIZE_def MAX_VAR_VALUE_def)
  from expand_short [OF ok' n(2,3) _ this] sv(3) assignment_line [OF ok n(1,2) v len] sv
  show ?thesis by (intro exI [of _ ctx'] exI [of _ ?t]) simp
qed

section \<open>Loops\<close>

lemma for_range_commands:
  assumes "ctx_ok ctx" and "length var < MAX_VAR_NAME" and "get_variable (Some var) ctx \<noteq> None \<or> length (variables ctx) < MAX_VARIABLES"
    and "fits_int a" and "b < 2 ^ 31 - 1"
    and "\<forall>i \<in> {a..b}. plain_command (expansion (env(var \<mapsto> dec_int i)) body)"
    and "\<And>x. (shell_env ctx)(var := x) = env(var := x)"
  shows "\<exists>ctx'. for_range var body a b ctx = Some ctx' \<and>
    handled ctx' = handled ctx @ map (\<lambda>i. expansion (env(var \<mapsto> dec_int i)) body) [a..b] \<and>
    shell_env ctx' = (if a \<le> b then env(var \<mapsto> dec_int b) else shell_env ctx)"
  using assms
proof (induction "nat (b + 1 - a)" arbitrary: a ctx)
  case 0
  then show ?case by (subst for_range.simps) simp
next
  case (Suc k)
  then have le: "a \<le> b" and k: "k = nat (b + 1 - (a + 1))" by auto
  from set_variable_succeeds [OF Suc.prems(2,3), of VAR_INTEGER "dec_int a"] Suc.prems(4)
  obtain ctx1 where c1: "set_variable (Some var) (Some (dec_int a)) VAR_INTEGER ctx = Some (0, ctx1)"
    "handled ctx1 = handled ctx" "shell_env ctx1 = (shell_env ctx)(var \<mapsto> dec_int a)" "get_variable (Some var) ctx1 \<noteq> None"
    by auto
  note ok1 = set_variable_ok [OF Suc.prems(1) c1(1)]
  let ?x = "\<lambda>i. expansion (env(var \<mapsto> dec_int i)) body"
  have e1: "shell_env ctx1 = env(var \<mapsto> dec_int a)" using c1(3) Suc.prems(7) by simp
  then have "plain_command (expansion (shell_env ctx1) body)" using Suc.prems(6) le by simp
  from plain_command_line [OF ok1 this] e1
  have l: "execute_script_line body ctx1 = Some (0, ctx1\<lparr>handled := handled ctx1 @ [?x a]\<rparr>)" by simp
  let ?c2 = "ctx1\<lparr>handled := handled ctx1 @ [?x a]\<rparr>"
  have se: "shell_env ?c2 = shell_env ctx1" "get_variable (Some var) ?c2 = get_variable (Some var) ctx1"
    by (simp_all add: shell_env_def get_variable_def fun_eq_iff cong: option.case_cong)
  have "\<exists>ctx'. for_range var body (a + 1) b ?c2 = Some ctx' \<and> handled ctx' = handled ?c2 @ map ?x [a + 1..b] \<and>
      shell_env ctx' = (if a + 1 \<le> b then env(var \<mapsto> dec_int b) else shell_env ?c2)"
    by (rule Suc.hyps(1) [OF k]) (use ok1 Suc.prems le c1(4) se e1 in \<open>auto simp: fits_int_def\<close>)
  then obtain ctx' where r: "for_range var body (a + 1) b ?c2 = Some ctx'" "handled ctx' = handled ?c2 @ map ?x [a + 1..b]"
    "shell_env ctx' = (if a + 1 \<le> b then env(var \<mapsto> dec_int b) else shell_env ?c2)" by blast
  have "a \<noteq> 2 ^ 31 - 1" using le Suc.prems(5) by simp
  with r(1) l c1(1) le have "for_range var body a b ctx = Some ctx'" by (subst for_range.simps) simp
  moreover have "[a..b] = a # [a + 1..b]" using le by (rule upto_rec1)
  ultimately show ?case using r c1(2) le se e1 by (auto simp: not_le)
qed

lemma starts_with_append: "starts_with p (p @ s)"
  by (simp add: starts_with_def)

text \<open>The dots of a range follow its first number.\<close>

lemma dec_int_chars: "c \<in> set (dec_int i) \<Longrightarrow> c = CHR ''-'' \<or> is_digit c"
  using dec_digits [of "nat i"] dec_digits [of "nat (- i)"] by (auto simp: dec_int_def split: if_splits)

lemma strstr_dots: "\<forall>c \<in> set s. c \<noteq> CHR ''.'' \<Longrightarrow> strstr (s @ ''..'' @ t) ''..'' = Some (length s)"
  by (induction s) (auto simp: starts_with_def)

text \<open>
  A numeric for loop runs its body once for each number of the range, in order, with the
  variable bound to it, and leaves it bound to the last; when the expanded body is a command,
  exactly these commands are handed to the shell. A range that ends before it starts runs
  nothing.
\<close>

theorem for_loop_commands:
  assumes ok: "ctx_ok ctx" and var: "length var < MAX_VAR_NAME"
    and room: "get_variable (Some var) ctx \<noteq> None \<or> length (variables ctx) < MAX_VARIABLES"
    and a: "fits_int a" "fits_int b" "b \<noteq> 2 ^ 31 - 1"
    and body: "\<forall>i \<in> {a..b}. plain_command (expansion ((shell_env ctx)(var \<mapsto> dec_int i)) body)"
  shows "\<exists>ctx'. execute_for_loop var (dec_int a @ ''..'' @ dec_int b) body ctx = Some (0, ctx') \<and>
    handled ctx' = handled ctx @ map (\<lambda>i. expansion ((shell_env ctx)(var \<mapsto> dec_int i)) body) [a..b] \<and>
    shell_env ctx' = (if a \<le> b then (shell_env ctx)(var \<mapsto> dec_int b) else shell_env ctx)"
proof -
  have "CHR ''.'' \<notin> set (dec_int a)" using dec_int_chars [of "CHR ''.''" a] by (auto simp: is_digit_def)
  then have s: "strstr (dec_int a @ ''..'' @ dec_int b) ''..'' = Some (length (dec_int a))"
    by (intro strstr_dots) auto
  have "b < 2 ^ 31 - 1" using a by (simp add: fits_int_def)
  from for_range_commands [OF ok var room a(1) this body] s a show ?thesis
    by (auto simp: execute_for_loop_def simp del: append_Cons)
qed

text \<open>The states after each run of a loop's body.\<close>

fun body_runs :: "string \<Rightarrow> nat \<Rightarrow> ShellContext \<Rightarrow> ShellContext option" where
  "body_runs b 0 ctx = Some ctx"
| "body_runs b (Suc k) ctx = do { (r, ctx1) \<leftarrow> execute_script_line b ctx; body_runs b k ctx1 }"

lemma script_line_zero: "execute_script_line l ctx = Some (r, ctx') \<Longrightarrow> r = 0"
  by (auto simp: execute_script_line_def Let_def split: bind_splits if_splits option.splits nat.splits)

definition while_stops :: "string \<Rightarrow> string \<Rightarrow> ShellContext \<Rightarrow> nat \<Rightarrow> ShellContext \<Rightarrow> bool" where
  "while_stops c b ctx k ctx' \<longleftrightarrow> body_runs b k ctx = Some ctx' \<and> evaluate_condition c ctx' = Some 0 \<and>
     (\<forall>j < k. \<exists>m x. body_runs b j ctx = Some m \<and> evaluate_condition c m = Some x \<and> x \<noteq> 0)"

lemma while_sound: "execute_while_loop c b ctx = Some y \<Longrightarrow> fst y = 0 \<and> (\<exists>k. while_stops c b ctx k (snd y))"
proof (rule execute_while_loop.raw_induct [where P = "\<lambda>c b ctx y. fst y = 0 \<and> (\<exists>k. while_stops c b ctx k (snd y))"])
  fix loop :: "string \<Rightarrow> string \<Rightarrow> ShellContext \<Rightarrow> (int \<times> ShellContext) option" and c b ctx y
  assume IH: "\<And>c b ctx y. loop c b ctx = Some y \<Longrightarrow> fst y = 0 \<and> (\<exists>k. while_stops c b ctx k (snd y))"
    and step: "Option.bind (evaluate_condition c ctx) (\<lambda>x. if x = 0 then Some (0, ctx)
      else Option.bind (execute_script_line b ctx) (\<lambda>(r, ctx1). if r \<noteq> 0 then Some (0, ctx1) else loop c b ctx1)) = Some y"
  from step obtain x where x: "evaluate_condition c ctx = Some x" by (auto split: bind_splits)
  show "fst y = 0 \<and> (\<exists>k. while_stops c b ctx k (snd y))"
  proof (cases "x = 0")
    case True
    with step x have "y = (0, ctx)" by simp
    with x True have "while_stops c b ctx 0 (snd y)" by (simp add: while_stops_def)
    with \<open>y = _\<close> show ?thesis by auto
  next
    case False
    with step x obtain r ctx1 where l: "execute_script_line b ctx = Some (r, ctx1)" by (auto split: bind_splits)
    with script_line_zero have "r = 0" by blast
    with step x False l have "loop c b ctx1 = Some y" by simp
    from IH [OF this] obtain k where k: "fst y = 0" "while_stops c b ctx1 k (snd y)" by blast
    have "while_stops c b ctx (Suc k) (snd y)"
      using k(2) l x False by (auto simp: while_stops_def less_Suc_eq_0_disj)
    with k show ?thesis by blast
  qed
qed

lemma while_complete: "while_stops c b ctx k ctx' \<Longrightarrow> execute_while_loop c b ctx = Some (0, ctx')"
proof (induction k arbitrary: ctx)
  case 0
  then show ?case by (subst execute_while_loop.simps) (simp add: while_stops_def)
next
  case (Suc k)
  from Suc.prems obtain r ctx1 where l: "execute_script_line b ctx = Some (r, ctx1)"
    by (auto simp: while_stops_def split: bind_splits)
  from Suc.prems obtain x where x: "evaluate_condition c ctx = Some x" "x \<noteq> 0"
    by (fastforce simp: while_stops_def)
  have "while_stops c b ctx1 k ctx'"
    unfolding while_stops_def
  proof (intro conjI allI impI)
    show "body_runs b k ctx1 = Some ctx'" "evaluate_condition c ctx' = Some 0"
      using Suc.prems l by (simp_all add: while_stops_def)
    fix j assume "j < k"
    then have "Suc j < Suc k" by simp
    with Suc.prems show "\<exists>m x. body_runs b j ctx1 = Some m \<and> evaluate_condition c m = Some x \<and> x \<noteq> 0"
      unfolding while_stops_def using l by fastforce
  qed
  from Suc.IH [OF this] l x script_line_zero [OF l] show ?case by (subst execute_while_loop.simps) simp
qed

text \<open>
  C26: A while loop returns exactly when some number of runs of its body, each defined and
  each but the last leaving the condition true, makes the condition false; it then returns 0
  in the state those runs produce. In every other case it does not return.
\<close>

theorem while_loop_returns_iff:
  "execute_while_loop c b ctx = Some (r, ctx') \<longleftrightarrow> r = 0 \<and> (\<exists>k. while_stops c b ctx k ctx')"
  using while_sound [of c b ctx "(r, ctx')"] while_complete [of c b ctx _ ctx'] by auto

section \<open>Where the code departs from what it means\<close>

text \<open>A name of 64 characters or more is stored cut off and not found again: it reads as
  unset, and every assignment to it takes another entry of the table.\<close>

lemma long_name_lost:
  assumes ok: "ctx_ok ctx" and n: "MAX_VAR_NAME \<le> length n" and room: "length (variables ctx) < MAX_VARIABLES"
  shows "\<exists>ctx'. set_variable (Some n) (Some v) VAR_STRING ctx = Some (0, ctx') \<and>
    length (variables ctx') = Suc (length (variables ctx)) \<and> shell_env ctx' n = None"
proof -
  have none: "get_variable (Some n) c = None" if "ctx_ok c" for c
  proof (cases "get_variable (Some n) c")
    case (Some i)
    note i = get_variable_SomeD [OF this]
    then have "var_ok (variables c ! i)" using that by (simp add: ctx_ok_def)
    with i n show ?thesis by (simp add: var_ok_def)
  qed simp
  from none [OF ok] room obtain ctx' where sv: "set_variable (Some n) (Some v) VAR_STRING ctx = Some (0, ctx')"
    "length (variables ctx') = Suc (length (variables ctx))" by (simp add: set_variable_def stored_value_def)
  with none [OF set_variable_ok [OF ok sv(1)]] show ?thesis by (simp add: shell_env_def)
qed

text \<open>A line that begins with a blank after expansion ends in freeing an interior pointer.\<close>

lemma blank_line_start_frees_interior:
  "expand_variables l ctx = Some (CHR '' '' # x) \<Longrightarrow> execute_script_line l ctx = None"
  by (simp add: execute_script_line_def is_space_def)

section \<open>Witnesses\<close>

definition shell_demo :: ShellContext where
  "shell_demo = \<lparr>variables = [\<lparr>var_name = ''USER'', var_type = VAR_STRING, var_value = StringVal ''guest''\<rparr>],
     func_count = 0, last_exit_code = 0, handled = []\<rparr>"

lemma shell_demo_ok: "ctx_ok shell_demo"
  by (simp add: ctx_ok_def shell_demo_def var_ok_def MAX_VARIABLES_def MAX_VAR_NAME_def MAX_VAR_VALUE_def)

lemma shell_demo_env: "shell_env shell_demo = [''USER'' \<mapsto> ''guest'']"
  by (rule ext) (simp add: shell_env_def get_variable_def shell_demo_def)

lemma expand_is_reference_witness: "expand_variables ''hi $USER!'' shell_demo = Some ''hi guest!''"
  using expand_is_reference [OF shell_demo_ok, of "''hi $USER!''"]
  by (simp add: shell_demo_env expansion_def scan_name_def MAX_VAR_NAME_def name_char_def is_alnum_def
      EXPANDED_SIZE_def MAX_VAR_VALUE_def)

lemma demo_number: "scan_int ''42'' = Some (42, [])" "dec_int 42 = ''42''"
proof -
  have "dec 42 = ''42''" by code_simp
  then show "dec_int 42 = ''42''" by (simp add: dec_int_def)
  with scan_dec_int [of "[]" 42] show "scan_int ''42'' = Some (42, [])" by simp
qed

lemma assign_then_expand_witness:
  "\<exists>ctx'. execute_script_line ''n=42'' shell_demo = Some (0, ctx') \<and> expand_variables ''$n'' ctx' = Some ''42''"
proof -
  have num: "is_numeric ''42''" "atoi ''42'' = Some 42"
    using demo_number by (simp_all add: is_numeric_def strtol_all_def atoi_def fits_int_def)
  have "length (variables shell_demo) < MAX_VARIABLES" by (simp add: shell_demo_def MAX_VARIABLES_def)
  then have "\<exists>ctx' t. t = (if is_numeric ''42'' then dec_int (the (atoi ''42'')) else take (MAX_VAR_VALUE - 1) ''42'') \<and>
      execute_script_line (''n'' @ CHR ''='' # ''42'') shell_demo = Some (0, ctx') \<and> handled ctx' = handled shell_demo \<and>
      shell_env ctx' = (shell_env shell_demo)(''n'' \<mapsto> t) \<and> expand_variables (CHR ''$'' # ''n'') ctx' = Some t \<and>
      expand_variables (CHR ''$'' # CHR 0x7B # ''n'' @ [CHR 0x7D]) ctx' = Some t"
    using num
    by (intro assign_then_expand [OF shell_demo_ok]) (simp_all add: name_char_def is_alnum_def MAX_VAR_NAME_def is_space_def
        EXPANDED_SIZE_def MAX_VAR_VALUE_def)
  with num demo_number show ?thesis by auto
qed


lemma for_loop_commands_witness:
  "\<exists>ctx'. execute_for_loop ''i'' ''1..3'' ''echo $i'' shell_demo = Some (0, ctx') \<and>
     handled ctx' = [''echo 1'', ''echo 2'', ''echo 3'']"
proof -
  have d: "dec_int 1 = ''1''" "dec_int 2 = ''2''" "dec_int 3 = ''3''" by code_simp+
  have e: "expansion (env(''i'' \<mapsto> x)) ''echo $i'' = ''echo '' @ x" for env x
    by (simp add: expansion_def scan_name_def MAX_VAR_NAME_def name_char_def is_alnum_def)
  have r: "{1..3} = {1, 2, 3 :: int}" "[1..3] = [1, 2, 3 :: int]" by (auto simp: upto.simps)
  have p: "plain_command ''echo 1''" "plain_command ''echo 2''" "plain_command ''echo 3''"
    by (simp_all add: plain_command_def is_space_def starts_with_def EXPANDED_SIZE_def MAX_VAR_VALUE_def)
  have "\<exists>ctx'. execute_for_loop ''i'' (dec_int 1 @ ''..'' @ dec_int 3) ''echo $i'' shell_demo = Some (0, ctx') \<and>
    handled ctx' = handled shell_demo @ map (\<lambda>i. expansion ((shell_env shell_demo)(''i'' \<mapsto> dec_int i)) ''echo $i'') [1..3] \<and>
    shell_env ctx' = (if 1 \<le> (3 :: int) then (shell_env shell_demo)(''i'' \<mapsto> dec_int 3) else shell_env shell_demo)"
    using d e r p by (intro for_loop_commands [OF shell_demo_ok])
      (simp_all add: MAX_VAR_NAME_def fits_int_def shell_demo_def MAX_VARIABLES_def)
  with d e r show ?thesis by (auto simp: shell_demo_def)
qed

end
