(* ===== verification/Users.thy ===== *)
theory Users
  imports CLib VfsFiles
begin

text \<open>
  User management (\<^verbatim>\<open>src/MERL/user.c\<close>): the user list, the session, the hashing of passwords,
  the commands and the user file, with the identity the file system checks permissions
  against. The keys typed and the lines on standard input are part of the state; a command
  that waits for a key that never comes is \<open>None\<close>. The program is built for Windows, where
  \<^verbatim>\<open>unsigned long\<close> has 32 bits. \<open>fopen\<close>'s success is an argument; the commands print and
  return nothing, so \<open>argv\<close> is all their input.
\<close>

section \<open>State\<close>

definition MAX_USERS :: nat where "MAX_USERS = 100"
definition USERNAME_LEN :: nat where "USERNAME_LEN = 50"
definition PASSWORD_LEN :: nat where "PASSWORD_LEN = 50"
definition HASH_LEN :: nat where "HASH_LEN = 64"

lemmas user_const_defs = MAX_USERS_def USERNAME_LEN_def PASSWORD_LEN_def HASH_LEN_def

record User =
  username :: string
  password_hash :: string

record user_world =
  user_list :: "User list"
  current_user :: string
  is_logged_in :: bool
  um_vfs :: vfs_world
  keys :: "int list"
  stdin_text :: string
  users_txt :: "string option"

section \<open>Passwords\<close>

text \<open>A \<^verbatim>\<open>char\<close> is signed.\<close>

definition char_int :: "char \<Rightarrow> int" where
  "char_int c = (let n = of_char c in if n < 128 then n else n - 256)"

definition hash_loop :: "string \<Rightarrow> u32" where
  "hash_loop s = foldl (\<lambda>h c. (push_bit 5 h + h) + of_int (char_int c)) 5381 s"

definition simple_hash :: "string \<Rightarrow> string" where
  "simple_hash s = take (HASH_LEN - 1) (hex (unat (hash_loop s)) @ ''_'' @ ''salt'' @ ''_zora'')"

text \<open>The loop of \<^verbatim>\<open>secure_password_input\<close> on the keys \<^verbatim>\<open>_getch\<close> returns.\<close>

fun password_loop :: "nat \<Rightarrow> string \<Rightarrow> int list \<Rightarrow> (string \<times> int list) option" where
  "password_loop max_len p [] = (if length p < max_len - 1 then None else Some (p, []))"
| "password_loop max_len p (ch # ks) =
     (if \<not> length p < max_len - 1 then Some (p, ch # ks)
      else if ch = 13 \<or> ch = 10 then Some (p, ks)
      else if ch = 8 \<or> ch = 127 then password_loop max_len (butlast p) ks
      else if 32 \<le> ch \<and> ch \<le> 126 then password_loop max_len (p @ [char_of (nat ch)]) ks
      else password_loop max_len p ks)"

definition secure_password_input :: "nat \<Rightarrow> user_world \<Rightarrow> (string \<times> user_world) option" where
  "secure_password_input max_len w =
     map_option (\<lambda>(p, ks). (p, w\<lparr>keys := ks\<rparr>)) (password_loop max_len [] (keys w))"

section \<open>The user file\<close>

definition save_users :: "bool \<Rightarrow> user_world \<Rightarrow> user_world" where
  "save_users fopen_ok w =
     (if \<not> fopen_ok then w
      else w\<lparr>users_txt := Some (concat (map (\<lambda>u. username u @ '':'' @ password_hash u @ [CHR 0x0A]) (user_list w)))\<rparr>)"

text \<open>\<^verbatim>\<open>fscanf\<close> with \<^verbatim>\<open>"%49[^:]:%63[^\n]\n"\<close>: both fields and what is left, if both were read.\<close>

definition scan_user :: "string \<Rightarrow> (User \<times> string) option" where
  "scan_user s =
     (let name = take 49 (takeWhile (\<lambda>c. c \<noteq> CHR '':'') s); s1 = drop (length name) s in
      if name = [] \<or> s1 = [] \<or> hd s1 \<noteq> CHR '':'' then None
      else (let h = take 63 (takeWhile (\<lambda>c. c \<noteq> CHR 0x0A) (tl s1)); s2 = drop (length h) (tl s1) in
        if h = [] then None else Some (\<lparr>username = name, password_hash = h\<rparr>, dropWhile is_space s2)))"

fun load_loop :: "nat \<Rightarrow> string \<Rightarrow> User list" where
  "load_loop 0 s = []"
| "load_loop (Suc k) s = (case scan_user s of None \<Rightarrow> [] | Some (u, r) \<Rightarrow> u # load_loop k r)"

definition load_users :: "user_world \<Rightarrow> user_world" where
  "load_users w = (case users_txt w of None \<Rightarrow> w | Some s \<Rightarrow> w\<lparr>user_list := load_loop MAX_USERS s\<rparr>)"

section \<open>Commands\<close>

text \<open>The user name from the arguments or a line of input; \<open>None\<close> when there is no line.\<close>

definition read_username :: "string list \<Rightarrow> user_world \<Rightarrow> (string option \<times> user_world)" where
  "read_username argv w =
     (if 2 \<le> length argv then (Some (c_copy USERNAME_LEN (argv ! 1)), w)
      else if stdin_text w = [] then (None, w)
      else (let l = fgets USERNAME_LEN (stdin_text w) in
        (Some (takeWhile (\<lambda>c. c \<noteq> CHR 0x0A) l), w\<lparr>stdin_text := drop (length l) (stdin_text w)\<rparr>)))"

definition add_user :: "bool \<Rightarrow> string \<Rightarrow> string \<Rightarrow> user_world \<Rightarrow> user_world" where
  "add_user fopen_ok name password w =
     save_users fopen_ok (w\<lparr>user_list := user_list w @
       [\<lparr>username = c_copy USERNAME_LEN name, password_hash = c_copy HASH_LEN (simple_hash password)\<rparr>]\<rparr>)"

definition has_user :: "string \<Rightarrow> user_world \<Rightarrow> bool" where
  "has_user name w \<longleftrightarrow> (\<exists>u \<in> set (user_list w). username u = name)"

text \<open>A password typed twice; an empty one or a mismatch gives no password.\<close>

definition new_password :: "user_world \<Rightarrow> (string option \<times> user_world) option" where
  "new_password w = do {
     (p, w1) \<leftarrow> secure_password_input PASSWORD_LEN w;
     (if p = [] then Some (None, w1)
      else do {
        (q, w2) \<leftarrow> secure_password_input PASSWORD_LEN w1;
        Some (if q = [] then None else if p \<noteq> q then None else Some p, w2) }) }"

definition useradd_command :: "bool \<Rightarrow> string list \<Rightarrow> user_world \<Rightarrow> user_world option" where
  "useradd_command fopen_ok argv w =
     (if current_user w \<noteq> ''root'' \<and> user_list w \<noteq> [] then Some w
      else (case read_username argv w of
              (None, w1) \<Rightarrow> Some w1
            | (Some name, w1) \<Rightarrow>
                if has_user name w1 then Some w1
                else if MAX_USERS \<le> length (user_list w1) then Some w1
                else if 3 \<le> length argv then Some (add_user fopen_ok name (c_copy PASSWORD_LEN (argv ! 2)) w1)
                else do {
                  (p, w2) \<leftarrow> new_password w1;
                  Some (case p of None \<Rightarrow> w2 | Some x \<Rightarrow> add_user fopen_ok name x w2) }))"

definition login_command :: "string list \<Rightarrow> user_world \<Rightarrow> user_world option" where
  "login_command argv w =
     (case read_username argv w of
        (None, w1) \<Rightarrow> Some w1
      | (Some name, w1) \<Rightarrow> do {
          (p, w2) \<leftarrow> (if 3 \<le> length argv then Some (Some (c_copy PASSWORD_LEN (argv ! 2)), w1)
                     else do {
                       (p, w2) \<leftarrow> secure_password_input PASSWORD_LEN w1;
                       Some (if p = [] then None else Some p, w2) });
          Some (case p of None \<Rightarrow> w2
                | Some x \<Rightarrow>
                    if \<exists>u \<in> set (user_list w2). username u = name \<and> password_hash u = simple_hash x
                    then w2\<lparr>current_user := c_copy 50 name, is_logged_in := True\<rparr> else w2) })"

definition become :: "string \<Rightarrow> string \<Rightarrow> bool \<Rightarrow> user_world \<Rightarrow> user_world" where
  "become user grp root w = w\<lparr>um_vfs := (um_vfs w)\<lparr>vfs_current_user := c_copy 64 user,
     vfs_current_group := c_copy 64 grp, vfs_is_root := root\<rparr>\<rparr>"

definition logout_command :: "user_world \<Rightarrow> user_world" where
  "logout_command w =
     (if \<not> is_logged_in w then w
      else become ''guest'' ''users'' False (w\<lparr>current_user := c_copy 50 ''guest'', is_logged_in := False\<rparr>))"

text \<open>The search of \<^verbatim>\<open>passwd\<close> and \<^verbatim>\<open>su\<close>: \<^verbatim>\<open>passwd\<close> gives up at the first entry of the name
  with another hash, \<^verbatim>\<open>su\<close> goes on.\<close>

definition passwd_command :: "bool \<Rightarrow> user_world \<Rightarrow> user_world option" where
  "passwd_command fopen_ok w =
     (if \<not> is_logged_in w then Some w
      else do {
        (old, w1) \<leftarrow> secure_password_input PASSWORD_LEN w;
        (if old = [] then Some w1
         else (case first_index (\<lambda>u. username u = current_user w1) (user_list w1) of
                 None \<Rightarrow> Some w1
               | Some i \<Rightarrow>
                   if password_hash (user_list w1 ! i) \<noteq> simple_hash old then Some w1
                   else do {
                     (p, w2) \<leftarrow> new_password w1;
                     Some (case p of None \<Rightarrow> w2
                           | Some x \<Rightarrow> save_users fopen_ok (w2\<lparr>user_list := (user_list w2)[i :=
                               (user_list w2 ! i)\<lparr>password_hash := c_copy HASH_LEN (simple_hash x)\<rparr>]\<rparr>)) })) })"

definition su_command :: "string list \<Rightarrow> user_world \<Rightarrow> user_world option" where
  "su_command argv w =
     (let target = (if 1 < length argv then c_copy USERNAME_LEN (argv ! 1) else ''root'') in
      if target = ''guest''
      then Some (become ''guest'' ''users'' False (w\<lparr>current_user := c_copy 50 ''guest'', is_logged_in := True\<rparr>))
      else do {
        (p, w1) \<leftarrow> secure_password_input PASSWORD_LEN w;
        Some (if p = [] then w1
              else if \<exists>u \<in> set (user_list w1). username u = target \<and> password_hash u = simple_hash p
              then (let w2 = w1\<lparr>current_user := c_copy 50 target, is_logged_in := True\<rparr> in
                if target = ''root'' then become target ''root'' True w2 else become target ''users'' False w2)
              else w1) })"

definition setup_root_command :: "bool \<Rightarrow> user_world \<Rightarrow> user_world option" where
  "setup_root_command fopen_ok w =
     (if has_user ''root'' w then Some w
      else if MAX_USERS \<le> length (user_list w) then Some w
      else do {
        (p, w1) \<leftarrow> new_password w;
        Some (case p of None \<Rightarrow> w1 | Some x \<Rightarrow> add_user fopen_ok ''root'' x w1) })"

end
