(* ===== verification/UserProps.thy ===== *)
theory UserProps
  imports Users VfsDemo
begin

text \<open>
  Properties of user management: the user file keeps the users, root rights need root's
  password, a session acts as its user in the file system, and what the code gets wrong.
\<close>

section \<open>The user file\<close>

lemma simple_hash_form:
  shows simple_hash_eq: "simple_hash s = hex (unat (hash_loop s)) @ ''_salt_zora''" and simple_hash_length: "length (simple_hash s) \<le> 18"
proof -
  have "unat (hash_loop s) < 16 ^ Suc 7" using unsigned_less [where 'a = nat, of "hash_loop s"] by simp
  from hex_length [OF this] show "simple_hash s = hex (unat (hash_loop s)) @ ''_salt_zora''" "length (simple_hash s) \<le> 18"
    by (simp_all add: simple_hash_def HASH_LEN_def)
qed

lemma simple_hash_stored [simp]: "c_copy HASH_LEN (simple_hash s) = simple_hash s"
  using simple_hash_length [of s] by (simp add: HASH_LEN_def)

text \<open>What a user must be like to survive the file.\<close>

definition name_ok :: "string \<Rightarrow> bool" where
  "name_ok n \<longleftrightarrow> n \<noteq> [] \<and> length n < USERNAME_LEN \<and> CHR '':'' \<notin> set n \<and> \<not> is_space (hd n)"

definition user_ok :: "User \<Rightarrow> bool" where
  "user_ok u \<longleftrightarrow> name_ok (username u) \<and> password_hash u \<noteq> [] \<and> length (password_hash u) < HASH_LEN \<and>
     CHR 0x0A \<notin> set (password_hash u)"

lemma hashed_user_ok: "name_ok n \<Longrightarrow> user_ok \<lparr>username = n, password_hash = simple_hash p\<rparr>"
proof -
  have "CHR 0x0A \<notin> set (simple_hash p)" "simple_hash p \<noteq> []"
    using simple_hash_eq [of p] hex_chars [of "unat (hash_loop p)"] by auto
  then show "name_ok n \<Longrightarrow> ?thesis" using simple_hash_length [of p] by (simp add: user_ok_def HASH_LEN_def)
qed

lemma takeWhile_stop: "x \<notin> set s \<Longrightarrow> takeWhile (\<lambda>c. c \<noteq> x) (s @ x # t) = s"
  by (induction s) auto

lemma scan_user_line:
  assumes "user_ok u" and "rest = [] \<or> \<not> is_space (hd rest)"
  shows "scan_user (username u @ '':'' @ password_hash u @ CHR 0x0A # rest) = Some (u, rest)"
proof -
  have "takeWhile (\<lambda>c. c \<noteq> CHR '':'') (username u @ '':'' @ password_hash u @ CHR 0x0A # rest) = username u"
    "takeWhile (\<lambda>c. c \<noteq> CHR 0x0A) (password_hash u @ CHR 0x0A # rest) = password_hash u"
    using assms(1) takeWhile_stop [of "CHR '':''" "username u"] takeWhile_stop [of "CHR 0x0A" "password_hash u"]
    by (simp_all add: user_ok_def name_ok_def)
  moreover have "dropWhile is_space (CHR 0x0A # rest) = rest"
    using assms(2) by (cases rest) (auto simp: is_space_def)
  ultimately show ?thesis
    using assms(1) by (simp add: scan_user_def Let_def user_ok_def name_ok_def user_const_defs)
qed

definition user_line :: "User \<Rightarrow> string" where
  "user_line u = username u @ '':'' @ password_hash u @ [CHR 0x0A]"

lemma load_saved:
  "length us \<le> k \<Longrightarrow> \<forall>u \<in> set us. user_ok u \<Longrightarrow> load_loop k (concat (map user_line us)) = us"
proof (induction us arbitrary: k)
  case Nil
  then show ?case by (cases k) (simp_all add: scan_user_def)
next
  case (Cons u us)
  then obtain k' where k: "k = Suc k'" by (cases k) auto
  let ?r = "concat (map user_line us)"
  have "?r = [] \<or> \<not> is_space (hd ?r)"
  proof (cases us)
    case (Cons v vs)
    with Cons.prems(2) show ?thesis by (simp add: user_line_def user_ok_def name_ok_def)
  qed simp
  with scan_user_line [of u ?r] Cons.prems(2) have "scan_user (user_line u @ ?r) = Some (u, ?r)"
    by (simp add: user_line_def)
  with Cons.prems k Cons.IH [of k'] show ?case by simp
qed


section \<open>Root rights\<close>

datatype user_cmd =
  UserAdd "string list" | Login "string list" | Logout | Passwd | Su "string list" | SetupRoot | LoadUsers

fun exec_cmd :: "bool \<Rightarrow> user_cmd \<Rightarrow> user_world \<Rightarrow> user_world option" where
  "exec_cmd ok (UserAdd argv) w = useradd_command ok argv w"
| "exec_cmd ok (Login argv) w = login_command argv w"
| "exec_cmd ok Logout w = Some (logout_command w)"
| "exec_cmd ok Passwd w = passwd_command ok w"
| "exec_cmd ok (Su argv) w = su_command argv w"
| "exec_cmd ok SetupRoot w = setup_root_command ok w"
| "exec_cmd ok LoadUsers w = Some (load_users w)"

fun run_cmds :: "bool \<Rightarrow> user_cmd list \<Rightarrow> user_world \<Rightarrow> user_world option" where
  "run_cmds ok [] w = Some w"
| "run_cmds ok (c # cs) w = do { w1 \<leftarrow> exec_cmd ok c w; run_cmds ok cs w1 }"

lemma input_keeps:
  "secure_password_input n w = Some (p, w') \<Longrightarrow> um_vfs w' = um_vfs w \<and> user_list w' = user_list w \<and>
     current_user w' = current_user w \<and> is_logged_in w' = is_logged_in w"
  by (auto simp: secure_password_input_def)

lemma new_password_keeps:
  "new_password w = Some (p, w') \<Longrightarrow> um_vfs w' = um_vfs w \<and> user_list w' = user_list w \<and>
     current_user w' = current_user w \<and> is_logged_in w' = is_logged_in w"
  by (auto simp: new_password_def split: bind_splits if_splits dest!: input_keeps)

lemma read_username_keeps:
  "read_username argv w = (n, w') \<Longrightarrow> um_vfs w' = um_vfs w \<and> user_list w' = user_list w \<and>
     current_user w' = current_user w \<and> is_logged_in w' = is_logged_in w"
  by (auto simp: read_username_def Let_def split: if_splits)

lemma add_user_keeps [simp]:
  "um_vfs (add_user ok n p w) = um_vfs w" "current_user (add_user ok n p w) = current_user w"
  "user_list (add_user ok n p w) = user_list w @ [\<lparr>username = c_copy USERNAME_LEN n, password_hash = simple_hash p\<rparr>]"
  "um_vfs (save_users ok w) = um_vfs w" "um_vfs (load_users w) = um_vfs w"
  by (auto simp: add_user_def save_users_def load_users_def split: option.splits)

text \<open>Only \<open>su\<close> and \<open>logout\<close> change the identity the file system sees.\<close>

lemma identity_kept:
  assumes "exec_cmd ok c w = Some w'" and "\<nexists>argv. c = Su argv" and "c \<noteq> Logout"
  shows "um_vfs w' = um_vfs w"
proof (cases c)
  case (UserAdd argv)
  with assms(1) show ?thesis
    by (auto simp: useradd_command_def split: if_splits prod.splits option.splits bind_splits
        dest!: read_username_keeps new_password_keeps)
next
  case (Login argv)
  with assms(1) show ?thesis
    by (auto simp: login_command_def split: if_splits prod.splits option.splits bind_splits
        dest!: read_username_keeps input_keeps)
next
  case Passwd
  with assms(1) show ?thesis
    by (auto simp: passwd_command_def split: if_splits prod.splits option.splits bind_splits
        dest!: new_password_keeps input_keeps)
next
  case SetupRoot
  with assms(1) show ?thesis
    by (auto simp: setup_root_command_def split: if_splits option.splits bind_splits dest!: new_password_keeps)
qed (use assms in auto)

definition su_target :: "string list \<Rightarrow> string" where
  "su_target argv = (if 1 < length argv then c_copy USERNAME_LEN (argv ! 1) else ''root'')"

definition authenticates :: "string \<Rightarrow> string \<Rightarrow> user_world \<Rightarrow> bool" where
  "authenticates name p w \<longleftrightarrow> p \<noteq> [] \<and> (\<exists>u \<in> set (user_list w). username u = name \<and> password_hash u = simple_hash p)"

lemma su_root:
  assumes "su_command argv w = Some w'" and "vfs_is_root (um_vfs w')" and "\<not> vfs_is_root (um_vfs w)"
  shows "su_target argv = ''root'' \<and> (\<exists>p w1. secure_password_input PASSWORD_LEN w = Some (p, w1) \<and> authenticates ''root'' p w)"
  using assms
  by (auto simp: su_command_def su_target_def authenticates_def Let_def become_def split: if_splits bind_splits
      dest!: input_keeps)


section \<open>Sessions\<close>

definition printable :: "string \<Rightarrow> bool" where
  "printable p \<longleftrightarrow> (\<forall>c \<in> set p. 32 \<le> (of_char c :: int) \<and> (of_char c :: int) \<le> 126)"

text \<open>The keys that enter a password.\<close>

definition typed :: "string \<Rightarrow> int list" where
  "typed p = map of_char p @ [13]"

lemma password_loop_typed:
  "printable p \<Longrightarrow> length acc + length p < n - 1 \<Longrightarrow> password_loop n acc (typed p @ ks) = Some (acc @ p, ks)"
proof (induction p arbitrary: acc)
  case Nil
  then show ?case by (simp add: typed_def)
next
  case (Cons c p)
  then have "(of_char c :: int) \<noteq> 13" "(of_char c :: int) \<noteq> 10" "(of_char c :: int) \<noteq> 8" "(of_char c :: int) \<noteq> 127"
    "32 \<le> (of_char c :: int)" "(of_char c :: int) \<le> 126" by (auto simp: printable_def)
  moreover have "char_of (nat (of_char c)) = c" by simp
  ultimately show ?case using Cons.IH [of "acc @ [c]"] Cons.prems by (simp add: typed_def printable_def)
qed

lemma typed_input:
  assumes "printable p" and "length p < PASSWORD_LEN - 1"
  shows "secure_password_input PASSWORD_LEN (w\<lparr>keys := typed p @ ks\<rparr>) = Some (p, w\<lparr>keys := ks\<rparr>)"
  using password_loop_typed [OF assms(1), of "[]" PASSWORD_LEN ks] assms(2)
  by (simp add: secure_password_input_def)

lemma write_refused:
  assumes ok: "vfs_ok v" and f: "vfs_view v (seen_tokens path) = Some f"
    and acc: "\<not> may_access v f (vfs_current_user v) W_OK"
  shows "vfs_write_file e (Some path) d v = Some (-1, v)"
proof (cases rule: find_node_cases [OF ok, of path, case_names none found])
  case none
  with f show ?thesis by simp
next
  case (found a n)
  then have n: "vnodes v a = Some n" "f = entry_of n" using f by (auto simp: located_def)
  from check_permission_found [OF found(1) n(1)] found(1) n acc show ?thesis
    by (simp add: vfs_write_file_def perm_bits)
qed

lemma become_view: "vfs_view (v\<lparr>vfs_current_user := a, vfs_current_group := b, vfs_is_root := c\<rparr>) = vfs_view v"
  "vfs_ok (v\<lparr>vfs_current_user := a, vfs_current_group := b, vfs_is_root := c\<rparr>) = vfs_ok v"
  by (simp_all add: vfs_view_def vfs_ok_def cong: option.case_cong)

text \<open>
  A session acts as its user: \<open>su\<close> to another user than root or guest with a typed
  password succeeds exactly when a stored entry has that name and the hash of the password;
  then permissions in the file system are those of the owner for the user's own files, of
  the group for files of the group users and of the others elsewhere, a write without the
  right is refused without effect, and \<open>logout\<close> leaves only the rights of guest.
\<close>

theorem session_acts_as_user:
  assumes ok: "vfs_ok (um_vfs w)" and n: "length n < USERNAME_LEN" "n \<noteq> ''guest''" "n \<noteq> ''root''"
    and p: "printable p" "p \<noteq> []" "length p < PASSWORD_LEN - 1"
  shows "if authenticates n p w
    then \<exists>w1. su_command [''su'', n] (w\<lparr>keys := typed p @ ks\<rparr>) = Some w1 \<and> current_user w1 = n \<and> keys w1 = ks \<and>
      (\<forall>f r. may_access (um_vfs w1) f (vfs_current_user (um_vfs w1)) r \<longleftrightarrow>
         vmode f AND push_bit (if vowner f = n then 6 else if vgroup f = ''users'' then 3 else 0) r \<noteq> 0) \<and>
      (\<forall>path f d e. vfs_view (um_vfs w1) (seen_tokens path) = Some f \<and>
         \<not> may_access (um_vfs w1) f (vfs_current_user (um_vfs w1)) W_OK \<longrightarrow>
         vfs_write_file e (Some path) d (um_vfs w1) = Some (-1, um_vfs w1)) \<and>
      (\<forall>f r. may_access (um_vfs (logout_command w1)) f (vfs_current_user (um_vfs (logout_command w1))) r \<longleftrightarrow>
         vmode f AND push_bit (if vowner f = ''guest'' then 6 else if vgroup f = ''users'' then 3 else 0) r \<noteq> 0)
    else su_command [''su'', n] (w\<lparr>keys := typed p @ ks\<rparr>) = Some (w\<lparr>keys := ks\<rparr>)"
proof -
  have cc: "c_copy USERNAME_LEN n = n" "c_copy 50 n = n" "c_copy 64 n = n" using n(1) by (simp_all add: USERNAME_LEN_def)
  have un: "user_list (w\<lparr>keys := ks\<rparr>) = user_list w" by simp
  note su = typed_input [OF p(1,3), of ks w]
  show ?thesis
  proof (cases "authenticates n p w")
    case False
    with su n(2) p(2) cc show ?thesis unfolding if_not_P [OF False] by (auto simp: su_command_def authenticates_def Let_def)
  next
    case True
    let ?w1 = "become n ''users'' False (w\<lparr>keys := ks, current_user := n, is_logged_in := True\<rparr>)"
    have s: "su_command [''su'', n] (w\<lparr>keys := typed p @ ks\<rparr>) = Some ?w1"
      using True su n p(2) cc by (simp add: su_command_def authenticates_def Let_def)
    have v: "um_vfs ?w1 = (um_vfs w)\<lparr>vfs_current_user := n, vfs_current_group := ''users'', vfs_is_root := False\<rparr>"
      using cc by (simp add: become_def)
    have l: "um_vfs (logout_command ?w1) = (um_vfs w)\<lparr>vfs_current_user := ''guest'', vfs_current_group := ''users'', vfs_is_root := False\<rparr>"
      by (simp add: logout_command_def become_def)
    have "vfs_ok (um_vfs ?w1)" using ok become_view(2) v by simp
    note wr = write_refused [OF this]
    have "may_access (um_vfs ?w1) f (vfs_current_user (um_vfs ?w1)) r \<longleftrightarrow>
        vmode f AND push_bit (if vowner f = n then 6 else if vgroup f = ''users'' then 3 else 0) r \<noteq> 0" for f r
      unfolding v by (simp add: may_access_def)
    moreover have "may_access (um_vfs (logout_command ?w1)) f (vfs_current_user (um_vfs (logout_command ?w1))) r \<longleftrightarrow>
        vmode f AND push_bit (if vowner f = ''guest'' then 6 else if vgroup f = ''users'' then 3 else 0) r \<noteq> 0" for f r
      unfolding l by (simp add: may_access_def)
    moreover have "current_user ?w1 = n \<and> keys ?w1 = ks" by (simp add: become_def)
    ultimately show ?thesis unfolding if_P [OF True] using s wr by blast
  qed
qed

section \<open>Where the code departs from what it means\<close>

text \<open>\<open>login\<close> keeps the identity the file system uses: after \<open>su\<close> to root, logging in as
  another user keeps root's rights.\<close>

lemma login_keeps_root:
  "login_command argv w = Some w' \<Longrightarrow> vfs_is_root (um_vfs w') = vfs_is_root (um_vfs w)"
  using identity_kept [of True "Login argv" w w'] by simp

text \<open>Different passwords have the same hash, and the same password the same for everybody.\<close>

lemma passwords_collide: "simple_hash ''ab'' = simple_hash ''bA'' \<and> ''ab'' \<noteq> ''bA''"
  by (simp add: simple_hash_def hash_loop_def char_int_def)

text \<open>A name with a colon is accepted and does not survive the file.\<close>

lemma colon_name_lost:
  "user_list (load_users (save_users True (w\<lparr>user_list := [\<lparr>username = ''a:b'', password_hash = ''h''\<rparr>]\<rparr>)))
     = [\<lparr>username = ''a'', password_hash = ''b:h''\<rparr>]"
  by (simp add: save_users_def load_users_def MAX_USERS_def numeral_eq_Suc scan_user_def is_space_def)

section \<open>Witnesses\<close>

definition user_demo :: user_world where
  "user_demo = \<lparr>user_list = [\<lparr>username = ''root'', password_hash = simple_hash ''pw''\<rparr>,
       \<lparr>username = ''ann'', password_hash = simple_hash ''ab''\<rparr>],
     current_user = ''guest'', is_logged_in = False, um_vfs = demo_vfs, keys = [], stdin_text = [], users_txt = None\<rparr>"

lemma user_demo_ok: "\<forall>u \<in> set (user_list user_demo). user_ok u"
  using hashed_user_ok [of "''root''" "''pw''"] hashed_user_ok [of "''ann''" "''ab''"]
  by (simp add: user_demo_def name_ok_def USERNAME_LEN_def is_space_def)


lemma session_acts_as_user_witness:
  "\<exists>w1. su_command [''su'', ''ann''] (user_demo\<lparr>keys := typed ''bA''\<rparr>) = Some w1 \<and> current_user w1 = ''ann'' \<and>
     vfs_write_file demo_env (Some ''/f'') (Some [1]) (um_vfs w1) = Some (-1, um_vfs w1)"
proof -
  have ok: "vfs_ok (um_vfs user_demo)" using demo_vfs_ok by (simp add: user_demo_def)
  have a: "authenticates ''ann'' ''bA'' user_demo"
    using passwords_collide by (simp add: authenticates_def user_demo_def)
  have pr: "printable ''bA''" by (simp add: printable_def)
  from session_acts_as_user [OF ok, of "''ann''" "''bA''" "[]", unfolded if_P [OF a]] pr obtain w1 where
    w1: "su_command [''su'', ''ann''] (user_demo\<lparr>keys := typed ''bA''\<rparr>) = Some w1" "current_user w1 = ''ann''"
    and acc: "\<forall>f r. may_access (um_vfs w1) f (vfs_current_user (um_vfs w1)) r \<longleftrightarrow>
         vmode f AND push_bit (if vowner f = ''ann'' then 6 else if vgroup f = ''users'' then 3 else 0) r \<noteq> 0"
    and wr: "\<forall>path f d e. vfs_view (um_vfs w1) (seen_tokens path) = Some f \<and>
         \<not> may_access (um_vfs w1) f (vfs_current_user (um_vfs w1)) W_OK \<longrightarrow>
         vfs_write_file e (Some path) d (um_vfs w1) = Some (-1, um_vfs w1)"
    by (auto simp: user_const_defs)
  have "su_command [''su'', ''ann''] (user_demo\<lparr>keys := typed ''bA''\<rparr>)
      = Some (become ''ann'' ''users'' False (user_demo\<lparr>keys := [], current_user := ''ann'', is_logged_in := True\<rparr>))"
    using a typed_input [OF pr, of "[]" user_demo] by (simp add: su_command_def authenticates_def user_const_defs Let_def)
  with w1 have v: "vfs_view (um_vfs w1) = vfs_view demo_vfs" by (auto simp: become_def become_view user_demo_def)
  let ?f = "(demo_node ''f'' False)\<lparr>vparent := None\<rparr>"
  have "\<not> may_access (um_vfs w1) ?f (vfs_current_user (um_vfs w1)) W_OK"
    using acc by (simp add: demo_node_def VFS_DEFAULT_FILE_PERMS_def W_OK_def)
  with wr v demo_view(1) have "vfs_write_file demo_env (Some ''/f'') (Some [1]) (um_vfs w1) = Some (-1, um_vfs w1)"
    by (simp add: demo_tokens)
  with w1 show ?thesis by blast
qed


end
