(* ===== verification/Ipc.thy ===== *)
theory Ipc
  imports CLib
begin

text \<open>
  The simulated UNIX interprocess communication (\<^verbatim>\<open>src/unix_core/unix_ipc.c\<close>): message queues
  that count their messages, semaphores and shared memory segments, three tables of 32
  entries of which the first so many are in use. \<open>now\<close> is \<^verbatim>\<open>time(NULL)\<close>; segments get their
  memory from \<open>shm_malloc\<close>, and \<open>blocks\<close> are the blocks not yet freed. \<open>None\<close> is undefined
  behaviour (an overflow of a semaphore's value).
\<close>

section \<open>Data\<close>

definition IPC_MAX :: nat where "IPC_MAX = 32"

datatype IPCType = IPC_MESSAGE_QUEUE | IPC_SEMAPHORE | IPC_SHARED_MEMORY | IPC_PIPE | IPC_SOCKET

record MessageQueue =
  mq_id :: int
  mq_name :: string
  max_messages :: int
  current_messages :: int
  max_message_size :: nat
  mq_created :: int
  mq_owner :: int
  mq_permissions :: int

record Semaphore =
  sem_id :: int
  sem_name :: string
  sem_value :: int
  sem_max :: int
  sem_created :: int
  sem_owner :: int
  sem_permissions :: int

record SharedMemory =
  shm_id :: int
  shm_name :: string
  shm_size :: nat
  shm_data :: nat
  shm_created :: int
  shm_owner :: int
  shm_permissions :: int
  attached_processes :: int

record IPCMessage =
  msg_type :: int
  msg_data :: string
  msg_size :: nat
  msg_timestamp :: int

record ipc_state =
  message_queues :: "MessageQueue list"
  semaphores :: "Semaphore list"
  shared_memory :: "SharedMemory list"
  blocks :: "nat set"
  ipc_initialized :: bool

record ipc_env =
  now :: int
  shm_malloc :: "nat set \<Rightarrow> nat \<Rightarrow> nat option"

section \<open>Message queues\<close>

definition unix_msgget :: "ipc_env \<Rightarrow> string \<Rightarrow> int \<Rightarrow> ipc_state \<Rightarrow> int \<times> ipc_state" where
  "unix_msgget e name flags s =
     (if IPC_MAX \<le> length (message_queues s) then (-1, s)
      else (case find (\<lambda>q. mq_name q = name) (message_queues s) of
              Some q \<Rightarrow> (mq_id q, s)
            | None \<Rightarrow>
                let i = int (length (message_queues s)) + 1 in
                (i, s\<lparr>message_queues := message_queues s @ [\<lparr>mq_id = i, mq_name = c_copy 64 name, max_messages = 10,
                   current_messages = 0, max_message_size = 256, mq_created = now e, mq_owner = 0,
                   mq_permissions = flags\<rparr>]\<rparr>)))"

definition queue_index :: "int \<Rightarrow> ipc_state \<Rightarrow> nat option" where
  "queue_index i s = first_index (\<lambda>q. mq_id q = i) (message_queues s)"

definition upd_queue :: "nat \<Rightarrow> (MessageQueue \<Rightarrow> MessageQueue) \<Rightarrow> ipc_state \<Rightarrow> ipc_state" where
  "upd_queue k f s = s\<lparr>message_queues := (message_queues s)[k := f (message_queues s ! k)]\<rparr>"

definition unix_msgsnd :: "ipc_env \<Rightarrow> int \<Rightarrow> IPCMessage \<Rightarrow> ipc_state \<Rightarrow> int \<times> IPCMessage \<times> ipc_state" where
  "unix_msgsnd e i msg s =
     (case queue_index i s of None \<Rightarrow> (-1, msg, s)
      | Some k \<Rightarrow>
          if max_messages (message_queues s ! k) \<le> current_messages (message_queues s ! k) then (-1, msg, s)
          else (0, msg\<lparr>msg_timestamp := now e\<rparr>,
                upd_queue k (\<lambda>q. q\<lparr>current_messages := current_messages q + 1\<rparr>) s))"

definition unix_msgrcv :: "ipc_env \<Rightarrow> int \<Rightarrow> IPCMessage \<Rightarrow> int \<Rightarrow> ipc_state \<Rightarrow> int \<times> IPCMessage \<times> ipc_state" where
  "unix_msgrcv e i msg ty s =
     (case queue_index i s of None \<Rightarrow> (-1, msg, s)
      | Some k \<Rightarrow>
          if current_messages (message_queues s ! k) \<le> 0 then (-1, msg, s)
          else (0, msg\<lparr>msg_type := ty, msg_data := ''Sample message from queue'',
                   msg_size := length ''Sample message from queue'', msg_timestamp := now e\<rparr>,
                upd_queue k (\<lambda>q. q\<lparr>current_messages := current_messages q - 1\<rparr>) s))"

section \<open>Semaphores\<close>

definition unix_semget :: "ipc_env \<Rightarrow> string \<Rightarrow> int \<Rightarrow> int \<Rightarrow> ipc_state \<Rightarrow> int \<times> ipc_state" where
  "unix_semget e name v flags s =
     (if IPC_MAX \<le> length (semaphores s) then (-1, s)
      else (case find (\<lambda>q. sem_name q = name) (semaphores s) of
              Some q \<Rightarrow> (sem_id q, s)
            | None \<Rightarrow>
                let i = int (length (semaphores s)) + 1 in
                (i, s\<lparr>semaphores := semaphores s @ [\<lparr>sem_id = i, sem_name = c_copy 64 name, sem_value = v,
                   sem_max = v, sem_created = now e, sem_owner = 0, sem_permissions = flags\<rparr>]\<rparr>)))"

definition unix_semop :: "int \<Rightarrow> int \<Rightarrow> ipc_state \<Rightarrow> (int \<times> ipc_state) option" where
  "unix_semop i operation s =
     (case first_index (\<lambda>q. sem_id q = i) (semaphores s) of None \<Rightarrow> Some (-1, s)
      | Some k \<Rightarrow>
          (let q = semaphores s ! k; v = sem_value q + operation;
               v1 = (if v < 0 then 0 else v);
               v2 = (if sem_max q < v1 then sem_max q else v1)
           in if \<not> fits_int v then None
              else Some (0, s\<lparr>semaphores := (semaphores s)[k := q\<lparr>sem_value := v2\<rparr>]\<rparr>)))"

section \<open>Shared memory\<close>

definition unix_shmget :: "ipc_env \<Rightarrow> string \<Rightarrow> nat \<Rightarrow> int \<Rightarrow> ipc_state \<Rightarrow> int \<times> ipc_state" where
  "unix_shmget e name sz flags s =
     (if IPC_MAX \<le> length (shared_memory s) then (-1, s)
      else (case find (\<lambda>q. shm_name q = name) (shared_memory s) of
              Some q \<Rightarrow> (shm_id q, s)
            | None \<Rightarrow>
                (case shm_malloc e (blocks s) sz of None \<Rightarrow> (-1, s)
                 | Some p \<Rightarrow>
                     let i = int (length (shared_memory s)) + 1 in
                     (i, s\<lparr>shared_memory := shared_memory s @ [\<lparr>shm_id = i, shm_name = c_copy 64 name,
                        shm_size = sz, shm_data = p, shm_created = now e, shm_owner = 0,
                        shm_permissions = flags, attached_processes = 0\<rparr>],
                        blocks := insert p (blocks s)\<rparr>))))"

definition unix_shmat :: "int \<Rightarrow> ipc_state \<Rightarrow> nat option \<times> ipc_state" where
  "unix_shmat i s =
     (case first_index (\<lambda>q. shm_id q = i) (shared_memory s) of None \<Rightarrow> (None, s)
      | Some k \<Rightarrow> (let q = shared_memory s ! k in
          (Some (shm_data q), s\<lparr>shared_memory := (shared_memory s)
             [k := q\<lparr>attached_processes := attached_processes q + 1\<rparr>]\<rparr>)))"

section \<open>Removal and start\<close>

definition remove_at :: "nat \<Rightarrow> 'a list \<Rightarrow> 'a list" where
  "remove_at k xs = take k xs @ drop (Suc k) xs"

definition unix_ipcrm :: "IPCType \<Rightarrow> int \<Rightarrow> ipc_state \<Rightarrow> ipc_state" where
  "unix_ipcrm ty i s =
     (case ty of
        IPC_MESSAGE_QUEUE \<Rightarrow>
          (case queue_index i s of None \<Rightarrow> s | Some k \<Rightarrow> s\<lparr>message_queues := remove_at k (message_queues s)\<rparr>)
      | IPC_SEMAPHORE \<Rightarrow>
          (case first_index (\<lambda>q. sem_id q = i) (semaphores s) of None \<Rightarrow> s
           | Some k \<Rightarrow> s\<lparr>semaphores := remove_at k (semaphores s)\<rparr>)
      | IPC_SHARED_MEMORY \<Rightarrow>
          (case first_index (\<lambda>q. shm_id q = i) (shared_memory s) of None \<Rightarrow> s
           | Some k \<Rightarrow> s\<lparr>blocks := blocks s - {shm_data (shared_memory s ! k)},
               shared_memory := remove_at k (shared_memory s)\<rparr>)
      | _ \<Rightarrow> s)"

definition unix_ipc_init :: "ipc_env \<Rightarrow> ipc_state \<Rightarrow> int \<times> ipc_state" where
  "unix_ipc_init e s =
     (if ipc_initialized s then (0, s)
      else (let s0 = s\<lparr>message_queues := [], semaphores := [], shared_memory := []\<rparr>;
                s1 = snd (unix_msgget e ''system.log'' 0x1B6 s0);
                s2 = snd (unix_semget e ''console.lock'' 1 0x1B6 s1);
                s3 = snd (unix_shmget e ''system.stats'' 4096 0x1B6 s2)
            in (0, s3\<lparr>ipc_initialized := True\<rparr>)))"

definition unix_ipc_cleanup :: "ipc_state \<Rightarrow> ipc_state" where
  "unix_ipc_cleanup s = s\<lparr>blocks := blocks s - set (map shm_data (shared_memory s)), message_queues := [],
     semaphores := [], shared_memory := [], ipc_initialized := False\<rparr>"

section \<open>Invariant\<close>

definition queue_ok :: "MessageQueue \<Rightarrow> bool" where
  "queue_ok q \<longleftrightarrow> 0 \<le> current_messages q \<and> current_messages q \<le> max_messages q \<and> max_messages q = 10"

definition sem_ok :: "Semaphore \<Rightarrow> bool" where
  "sem_ok q \<longleftrightarrow> 0 \<le> sem_value q \<and> sem_value q \<le> sem_max q"

text \<open>Counts in their ranges, segments on distinct blocks that have not been freed.\<close>

definition ipc_inv :: "ipc_state \<Rightarrow> bool" where
  "ipc_inv s \<longleftrightarrow> length (message_queues s) \<le> IPC_MAX \<and> length (semaphores s) \<le> IPC_MAX \<and>
     length (shared_memory s) \<le> IPC_MAX \<and> (\<forall>q \<in> set (message_queues s). queue_ok q) \<and>
     (\<forall>q \<in> set (semaphores s). sem_ok q) \<and> distinct (map shm_data (shared_memory s)) \<and>
     shm_data ` set (shared_memory s) \<subseteq> blocks s"

definition ipc_env_ok :: "ipc_env \<Rightarrow> bool" where
  "ipc_env_ok e \<longleftrightarrow> (\<forall>b n p. shm_malloc e b n = Some p \<longrightarrow> p \<notin> b)"

datatype ipc_op =
  MsgGet string int | MsgSnd int IPCMessage | MsgRcv int IPCMessage int
| SemGet string int int | SemOp int int | ShmGet string nat int | ShmAt int | IpcRm IPCType int

fun ipc_exec :: "ipc_env \<Rightarrow> ipc_op \<Rightarrow> ipc_state \<Rightarrow> ipc_state option" where
  "ipc_exec e (MsgGet n f) s = Some (snd (unix_msgget e n f s))"
| "ipc_exec e (MsgSnd i m) s = Some (snd (snd (unix_msgsnd e i m s)))"
| "ipc_exec e (MsgRcv i m t) s = Some (snd (snd (unix_msgrcv e i m t s)))"
| "ipc_exec e (SemGet n v f) s = Some (snd (unix_semget e n v f s))"
| "ipc_exec e (SemOp i x) s = map_option snd (unix_semop i x s)"
| "ipc_exec e (ShmGet n z f) s = Some (snd (unix_shmget e n z f s))"
| "ipc_exec e (ShmAt i) s = Some (snd (unix_shmat i s))"
| "ipc_exec e (IpcRm t i) s = Some (unix_ipcrm t i s)"

fun ipc_run :: "ipc_env \<Rightarrow> ipc_op list \<Rightarrow> ipc_state \<Rightarrow> ipc_state option" where
  "ipc_run e [] s = Some s"
| "ipc_run e (x # xs) s = do { s1 \<leftarrow> ipc_exec e x s; ipc_run e xs s1 }"

text \<open>Semaphores are created with values that are not negative.\<close>

fun op_ok :: "ipc_op \<Rightarrow> bool" where
  "op_ok (SemGet n v f) \<longleftrightarrow> 0 \<le> v"
| "op_ok x \<longleftrightarrow> True"

lemma set_remove_at: "set (remove_at k xs) \<subseteq> set xs"
  using set_take_subset [of k xs] set_drop_subset [of "Suc k" xs] by (auto simp: remove_at_def)

lemma length_remove_at: "length (remove_at k xs) \<le> length xs"
  by (simp add: remove_at_def)

lemma remove_at_keeps:
  "Ball (set xs) P \<Longrightarrow> Ball (set (remove_at k xs)) P"
  "length xs \<le> n \<Longrightarrow> length (remove_at k xs) \<le> n"
  using set_remove_at [of k xs] length_remove_at [of k xs] by auto

lemma distinct_remove_at:
  assumes "distinct (map f xs)" and "k < length xs"
  shows "distinct (map f (remove_at k xs)) \<and> f (xs ! k) \<notin> f ` set (remove_at k xs)"
proof -
  have "map f xs = map f (take k xs) @ f (xs ! k) # map f (drop (Suc k) xs)"
    using id_take_nth_drop [OF assms(2)] by (metis list.simps(9) map_append)
  with assms(1) show ?thesis by (auto simp: remove_at_def)
qed

lemma queue_step:
  assumes inv: "ipc_inv s" and k: "queue_index i s = Some k" and ok: "queue_ok (message_queues s ! k) \<Longrightarrow> queue_ok (f (message_queues s ! k))"
  shows "ipc_inv (upd_queue k f s)"
proof -
  have "k < length (message_queues s)" using first_index_SomeD k unfolding queue_index_def by blast
  then have "queue_ok (message_queues s ! k)" using inv by (simp add: ipc_inv_def)
  with inv ok show ?thesis
    using set_update_subset_insert [of "message_queues s" k "f (message_queues s ! k)"]
    by (auto simp: ipc_inv_def upd_queue_def)
qed

lemma ipc_inv_queues:
  assumes inv: "ipc_inv s"
  shows "ipc_inv (snd (unix_msgget e n f s))" "ipc_inv (snd (snd (unix_msgsnd e i m s)))"
    "ipc_inv (snd (snd (unix_msgrcv e i m t s)))"
proof -
  show "ipc_inv (snd (unix_msgget e n f s))"
    using inv by (auto simp: unix_msgget_def ipc_inv_def queue_ok_def Let_def split: option.splits)
  show "ipc_inv (snd (snd (unix_msgsnd e i m s)))"
    using queue_step [OF inv] inv by (auto simp: unix_msgsnd_def queue_ok_def split: option.splits)
  show "ipc_inv (snd (snd (unix_msgrcv e i m t s)))"
    using queue_step [OF inv] inv by (auto simp: unix_msgrcv_def queue_ok_def split: option.splits)
qed

lemma ipc_inv_semop:
  assumes inv: "ipc_inv s" and op: "unix_semop i x s = Some (r, s')"
  shows "ipc_inv s'"
proof (cases "first_index (\<lambda>q. sem_id q = i) (semaphores s)")
  case None
  with inv op show ?thesis by (simp add: unix_semop_def)
next
  case (Some k)
  then have "k < length (semaphores s)" using first_index_SomeD by blast
  then have ok: "sem_ok (semaphores s ! k)" using inv by (simp add: ipc_inv_def)
  from op Some obtain v where v: "s' = s\<lparr>semaphores := (semaphores s)[k := (semaphores s ! k)\<lparr>sem_value := v\<rparr>]\<rparr>"
    "0 \<le> v" "v \<le> sem_max (semaphores s ! k)"
    using ok by (auto simp: unix_semop_def Let_def sem_ok_def split: if_splits)
  with inv show ?thesis
    using set_update_subset_insert [of "semaphores s" k "(semaphores s ! k)\<lparr>sem_value := v\<rparr>"]
    by (auto simp: ipc_inv_def sem_ok_def)
qed

lemma ipc_inv_semget: "ipc_inv s \<Longrightarrow> 0 \<le> v \<Longrightarrow> ipc_inv (snd (unix_semget e n v f s))"
  by (auto simp: unix_semget_def ipc_inv_def sem_ok_def Let_def split: option.splits)

lemma ipc_inv_shmget: "ipc_inv s \<Longrightarrow> ipc_env_ok e \<Longrightarrow> ipc_inv (snd (unix_shmget e n z f s))"
  by (auto simp: unix_shmget_def ipc_inv_def ipc_env_ok_def Let_def split: option.splits)

lemma ipc_inv_shmat: "ipc_inv s \<Longrightarrow> ipc_inv (snd (unix_shmat i s))"
proof (cases "first_index (\<lambda>q. shm_id q = i) (shared_memory s)")
  case None
  then show "ipc_inv s \<Longrightarrow> ?thesis" by (simp add: unix_shmat_def)
next
  case (Some k)
  let ?q = "shared_memory s ! k"
  let ?q' = "?q\<lparr>attached_processes := attached_processes ?q + 1\<rparr>"
  assume inv: "ipc_inv s"
  have k: "k < length (shared_memory s)" using first_index_SomeD Some by blast
  have "map shm_data ((shared_memory s)[k := ?q']) = map shm_data (shared_memory s)"
    using k by (simp add: map_update list_update_same_conv)
  moreover from this have "shm_data ` set ((shared_memory s)[k := ?q']) = shm_data ` set (shared_memory s)"
    by (metis set_map)
  ultimately show ?thesis using inv Some by (simp add: unix_shmat_def ipc_inv_def Let_def)
qed

lemma ipc_inv_rm: "ipc_inv s \<Longrightarrow> ipc_inv (unix_ipcrm t i s)"
proof (cases t)
  case IPC_MESSAGE_QUEUE
  then show "ipc_inv s \<Longrightarrow> ?thesis"
    using remove_at_keeps(1) [of "message_queues s" queue_ok] remove_at_keeps(2) [of "message_queues s" IPC_MAX]
    by (simp add: unix_ipcrm_def ipc_inv_def split: option.splits)
next
  case IPC_SEMAPHORE
  then show "ipc_inv s \<Longrightarrow> ?thesis"
    using remove_at_keeps(1) [of "semaphores s" sem_ok] remove_at_keeps(2) [of "semaphores s" IPC_MAX]
    by (simp add: unix_ipcrm_def ipc_inv_def split: option.splits)
next
  case IPC_SHARED_MEMORY
  assume inv: "ipc_inv s"
  show ?thesis
  proof (cases "first_index (\<lambda>q. shm_id q = i) (shared_memory s)")
    case None
    with IPC_SHARED_MEMORY inv show ?thesis by (simp add: unix_ipcrm_def)
  next
    case (Some k)
    then have k: "k < length (shared_memory s)" using first_index_SomeD by blast
    have d: "distinct (map shm_data (shared_memory s))" using inv by (simp add: ipc_inv_def)
    have "shm_data ` set (remove_at k (shared_memory s)) \<subseteq> shm_data ` set (shared_memory s)"
      by (rule image_mono [OF set_remove_at])
    with distinct_remove_at [OF d k] inv
    have sub: "shm_data ` set (remove_at k (shared_memory s)) \<subseteq> blocks s - {shm_data (shared_memory s ! k)}"
      unfolding ipc_inv_def by blast
    have len: "length (remove_at k (shared_memory s)) \<le> IPC_MAX"
      using remove_at_keeps(2) inv unfolding ipc_inv_def by blast
    show ?thesis
      using inv sub len distinct_remove_at [OF d k] IPC_SHARED_MEMORY Some unfolding unix_ipcrm_def ipc_inv_def by simp
  qed
qed (simp_all add: unix_ipcrm_def)

lemma ipc_inv_init: "ipc_env_ok e \<Longrightarrow> \<not> ipc_initialized s \<Longrightarrow> ipc_inv (snd (unix_ipc_init e s))"
proof -
  assume e: "ipc_env_ok e" and i: "\<not> ipc_initialized s"
  let ?s0 = "s\<lparr>message_queues := [], semaphores := [], shared_memory := []\<rparr>"
  have "ipc_inv ?s0" by (simp add: ipc_inv_def)
  then have "ipc_inv (snd (unix_shmget e ''system.stats'' 4096 0x1B6 (snd (unix_semget e ''console.lock'' 1 0x1B6
      (snd (unix_msgget e ''system.log'' 0x1B6 ?s0))))))"
    by (intro ipc_inv_shmget ipc_inv_semget ipc_inv_queues e) simp_all
  with i show ?thesis by (simp add: unix_ipc_init_def Let_def ipc_inv_def)
qed

lemma ipc_inv_exec: "ipc_inv s \<Longrightarrow> ipc_env_ok e \<Longrightarrow> op_ok x \<Longrightarrow> ipc_exec e x s = Some s' \<Longrightarrow> ipc_inv s'"
  by (cases x) (auto intro: ipc_inv_queues ipc_inv_semget ipc_inv_semop ipc_inv_shmget ipc_inv_shmat ipc_inv_rm)

lemma ipc_inv_run:
  "ipc_inv s \<Longrightarrow> ipc_env_ok e \<Longrightarrow> \<forall>x \<in> set xs. op_ok x \<Longrightarrow> ipc_run e xs s = Some s' \<Longrightarrow> ipc_inv s'"
  by (induction xs arbitrary: s) (auto split: bind_splits dest: ipc_inv_exec)

lemma shmat_live: "ipc_inv s \<Longrightarrow> fst (unix_shmat i s) = Some p \<Longrightarrow> p \<in> blocks s"
  by (auto simp: unix_shmat_def ipc_inv_def Let_def split: option.splits dest!: first_index_SomeD dest: nth_mem)

text \<open>
  The interprocess objects stay in their bounds: from initialisation, over every
  sequence of calls, a queue holds between 0 and 10 messages, a semaphore's value stays
  between 0 and the value it was created with, no table exceeds 32 entries, and a segment
  that can be attached lies on a block of its own that has not been freed.
\<close>

theorem ipc_bounds:
  assumes e: "ipc_env_ok e" and ops: "\<forall>x \<in> set ops. op_ok x" and start: "\<not> ipc_initialized s0"
    and run: "ipc_run e ops (snd (unix_ipc_init e s0)) = Some s"
  shows "(\<forall>q \<in> set (message_queues s). 0 \<le> current_messages q \<and> current_messages q \<le> 10) \<and>
    (\<forall>q \<in> set (semaphores s). 0 \<le> sem_value q \<and> sem_value q \<le> sem_max q) \<and>
    length (message_queues s) \<le> 32 \<and> length (semaphores s) \<le> 32 \<and> length (shared_memory s) \<le> 32 \<and>
    (\<forall>i p. fst (unix_shmat i s) = Some p \<longrightarrow> p \<in> blocks s) \<and> distinct (map shm_data (shared_memory s))"
proof -
  have "ipc_inv s" using ipc_inv_run [OF ipc_inv_init [OF e start] e ops run] .
  with shmat_live show ?thesis by (auto simp: ipc_inv_def queue_ok_def sem_ok_def IPC_MAX_def)
qed

section \<open>Where the code departs from what it means\<close>

definition ipc_empty :: ipc_state where
  "ipc_empty = \<lparr>message_queues = [], semaphores = [], shared_memory = [], blocks = {}, ipc_initialized = False\<rparr>"

definition ipc_demo_env :: ipc_env where
  "ipc_demo_env = \<lparr>now = 7, shm_malloc = (\<lambda>b n. find (\<lambda>p. p \<notin> b) [1, 2, 3])\<rparr>"

text \<open>An id is the count plus one, so after a removal a new semaphore gets the id of an
  existing one, and can never be operated on.\<close>

lemma ids_repeat_after_removal:
  "map (\<lambda>q. (sem_id q, sem_name q)) (semaphores (the (ipc_run ipc_demo_env
     [SemGet ''a'' 1 0, SemGet ''b'' 1 0, IpcRm IPC_SEMAPHORE 1, SemGet ''c'' 5 0, SemOp 2 (-1)] ipc_empty)))
   = [(2, ''b''), (2, ''c'')]"
  by (simp add: ipc_empty_def unix_semget_def IPC_MAX_def unix_ipcrm_def remove_at_def unix_semop_def fits_int_def)

text \<open>What was sent is not kept: every message received has the same text.\<close>

lemma message_text_lost:
  "unix_msgrcv e i msg t s = (0, m', s') \<Longrightarrow> msg_data m' = ''Sample message from queue''"
  by (auto simp: unix_msgrcv_def split: option.splits if_splits)

text \<open>An existing object is not found when its table is full.\<close>

lemma full_table_hides_existing: "length (semaphores s) = 32 \<Longrightarrow> unix_semget e n v f s = (-1, s)"
  by (simp add: unix_semget_def IPC_MAX_def)

lemma ipc_bounds_witness:
  "\<exists>s. ipc_run ipc_demo_env [SemOp 1 (-5), MsgSnd 1 \<lparr>msg_type = 0, msg_data = [], msg_size = 0, msg_timestamp = 0\<rparr>,
      IpcRm IPC_SHARED_MEMORY 1, ShmGet ''x'' 8 0] (snd (unix_ipc_init ipc_demo_env ipc_empty)) = Some s \<and>
    (\<forall>q \<in> set (semaphores s). 0 \<le> sem_value q)"
proof -
  let ?ops = "[SemOp 1 (-5), MsgSnd 1 \<lparr>msg_type = 0, msg_data = [], msg_size = 0, msg_timestamp = 0\<rparr>,
      IpcRm IPC_SHARED_MEMORY 1, ShmGet ''x'' 8 0]"
  have e: "ipc_env_ok ipc_demo_env" by (auto simp: ipc_env_ok_def ipc_demo_env_def find_Some_iff)
  have "\<exists>s. ipc_run ipc_demo_env ?ops (snd (unix_ipc_init ipc_demo_env ipc_empty)) = Some s"
    by (simp add: unix_ipc_init_def unix_msgget_def unix_semget_def unix_shmget_def ipc_empty_def ipc_demo_env_def
        IPC_MAX_def unix_semop_def fits_int_def Let_def)
  then obtain s where s: "ipc_run ipc_demo_env ?ops (snd (unix_ipc_init ipc_demo_env ipc_empty)) = Some s" by blast
  have "\<not> ipc_initialized ipc_empty" "\<forall>x \<in> set ?ops. op_ok x" by (simp_all add: ipc_empty_def)
  from ipc_bounds [OF e this(2,1) s] s show ?thesis by blast
qed

end
