(* ===== verification/Devices.thy ===== *)
theory Devices
  imports Prelude
begin

text \<open>
  The device manager of \<^verbatim>\<open>src/devices/device.c\<close>: a table of devices, a table of drivers and the
  linked list of the registered devices. A \<^verbatim>\<open>Device*\<close> is an index of the table \<^verbatim>\<open>g_devices\<close>, of
  which the model keeps the first \<^verbatim>\<open>g_device_count\<close> entries; a \<^verbatim>\<open>DeviceDriver*\<close> is an index of
  \<^verbatim>\<open>g_drivers\<close>. The functions of a driver are functions on its device. The result of \<^verbatim>\<open>malloc\<close>
  and the tick count are arguments. Left out: the locks (one thread runs), the printing, and
  the fields that nothing in the file reads after \<^verbatim>\<open>memset\<close>. A loop over the list that does not
  end, or a pointer outside the table, is \<open>None\<close>.
\<close>

section \<open>Data\<close>

definition MAX_DEVICES :: nat where "MAX_DEVICES = 64"
definition MAX_DEVICE_NAME :: nat where "MAX_DEVICE_NAME = 32"
definition DEVICE_BUFFER_SIZE :: nat where "DEVICE_BUFFER_SIZE = 4096"

datatype DeviceClass =
  DEVICE_CLASS_STORAGE | DEVICE_CLASS_NETWORK | DEVICE_CLASS_INPUT | DEVICE_CLASS_OUTPUT
| DEVICE_CLASS_DISPLAY | DEVICE_CLASS_AUDIO | DEVICE_CLASS_SERIAL | DEVICE_CLASS_PARALLEL
| DEVICE_CLASS_USB | DEVICE_CLASS_PCI | DEVICE_CLASS_SYSTEM

datatype DeviceType =
  DEVICE_HDD | DEVICE_SSD | DEVICE_FLOPPY | DEVICE_CDROM | DEVICE_USB_STORAGE
| DEVICE_ETHERNET | DEVICE_WIFI | DEVICE_BLUETOOTH
| DEVICE_KEYBOARD | DEVICE_MOUSE | DEVICE_JOYSTICK | DEVICE_TOUCHPAD
| DEVICE_TERMINAL | DEVICE_PRINTER | DEVICE_VGA | DEVICE_HDMI | DEVICE_DP
| DEVICE_SPEAKERS | DEVICE_MICROPHONE | DEVICE_SOUND_CARD
| DEVICE_TIMER | DEVICE_RTC | DEVICE_PIC | DEVICE_DMA

datatype DeviceState =
  DEVICE_STATE_UNKNOWN | DEVICE_STATE_INITIALIZING | DEVICE_STATE_READY | DEVICE_STATE_BUSY
| DEVICE_STATE_ERROR | DEVICE_STATE_OFFLINE | DEVICE_STATE_SUSPENDED

definition DEVICE_CAP_READ :: u32 where "DEVICE_CAP_READ = 0x0001"
definition DEVICE_CAP_WRITE :: u32 where "DEVICE_CAP_WRITE = 0x0002"
definition DEVICE_CAP_SEEK :: u32 where "DEVICE_CAP_SEEK = 0x0004"
definition DEVICE_CAP_INTERRUPT :: u32 where "DEVICE_CAP_INTERRUPT = 0x0008"

record DeviceStats =
  dev_bytes_read :: u64
  dev_bytes_written :: u64
  operations_completed :: u64

record Device =
  dev_id :: u32
  dev_name :: string
  dev_class :: DeviceClass
  dev_type :: DeviceType
  dev_state :: DeviceState
  dev_memory :: u32
  dev_caps :: u32
  dev_driver :: "nat option"
  dev_data :: "nat option"
  dev_buffer :: "nat option"
  dev_stats :: DeviceStats
  last_access_time :: u64
  dev_next :: "nat option"

text \<open>A read function gets the address, the size and the bytes of the caller's buffer.\<close>

record DeviceDriver =
  drv_name :: string
  drv_version :: u32
  drv_class :: DeviceClass
  drv_init :: "(Device \<Rightarrow> int \<times> Device) option"
  drv_cleanup :: "(Device \<Rightarrow> Device) option"
  drv_read :: "(u32 \<Rightarrow> u64 \<Rightarrow> u8 list \<Rightarrow> Device \<Rightarrow> int \<times> u8 list \<times> Device) option"
  drv_write :: "(u32 \<Rightarrow> u64 \<Rightarrow> u8 list \<Rightarrow> Device \<Rightarrow> int \<times> Device) option"

record dev_world =
  g_devices :: "Device list"
  g_drivers :: "DeviceDriver list"
  device_list :: "nat option"
  device_count :: u32
  next_device_id :: u32
  devices_online :: u32
  devices_error :: u32
  dev_heap :: "nat set"

definition upd_device :: "nat \<Rightarrow> (Device \<Rightarrow> Device) \<Rightarrow> dev_world \<Rightarrow> dev_world" where
  "upd_device k f w = w\<lparr>g_devices := (g_devices w)[k := f (g_devices w ! k)]\<rparr>"

section \<open>Built-in drivers\<close>

definition terminal_driver_init :: "Device \<Rightarrow> int \<times> Device" where
  "terminal_driver_init dev =
     (0, dev\<lparr>dev_state := DEVICE_STATE_READY, dev_caps := DEVICE_CAP_READ OR DEVICE_CAP_WRITE\<rparr>)"

definition disk_driver_init :: "Device \<Rightarrow> int \<times> Device" where
  "disk_driver_init dev =
     (0, dev\<lparr>dev_state := DEVICE_STATE_READY,
            dev_caps := DEVICE_CAP_READ OR DEVICE_CAP_WRITE OR DEVICE_CAP_SEEK,
            dev_memory := 1024 * 1024 * 100\<rparr>)"

definition network_driver_init :: "Device \<Rightarrow> int \<times> Device" where
  "network_driver_init dev =
     (0, dev\<lparr>dev_state := DEVICE_STATE_READY,
            dev_caps := DEVICE_CAP_READ OR DEVICE_CAP_WRITE OR DEVICE_CAP_INTERRUPT\<rparr>)"

definition builtin_driver ::
  "string \<Rightarrow> DeviceClass \<Rightarrow> (Device \<Rightarrow> int \<times> Device) \<Rightarrow> DeviceDriver" where
  "builtin_driver n c f = \<lparr>drv_name = n, drv_version = 0x00010000, drv_class = c, drv_init = Some f,
     drv_cleanup = None, drv_read = None, drv_write = None\<rparr>"

definition g_builtin_drivers :: "DeviceDriver list" where
  "g_builtin_drivers =
     [builtin_driver ''Terminal Driver'' DEVICE_CLASS_OUTPUT terminal_driver_init,
      builtin_driver ''Virtual Disk Driver'' DEVICE_CLASS_STORAGE disk_driver_init,
      builtin_driver ''Virtual Network Driver'' DEVICE_CLASS_NETWORK network_driver_init]"

section \<open>Drivers\<close>

definition device_register_driver :: "DeviceDriver option \<Rightarrow> dev_world \<Rightarrow> int \<times> dev_world" where
  "device_register_driver driver w =
     (case driver of None \<Rightarrow> (-1, w)
      | Some d \<Rightarrow> if MAX_DEVICES \<le> length (g_drivers w) then (-1, w)
                 else (0, w\<lparr>g_drivers := g_drivers w @ [d]\<rparr>))"

definition device_find_driver :: "DeviceClass \<Rightarrow> DeviceType \<Rightarrow> dev_world \<Rightarrow> nat option" where
  "device_find_driver c ty w = first_index (\<lambda>d. drv_class d = c) (g_drivers w)"

definition device_manager_init :: "dev_world \<Rightarrow> int \<times> dev_world" where
  "device_manager_init w =
     (0, fold (\<lambda>d w. snd (device_register_driver (Some d) w)) g_builtin_drivers
          (w\<lparr>device_list := None, device_count := 0, next_device_id := 1,
             devices_online := 0, devices_error := 0\<rparr>))"

section \<open>Devices\<close>

definition device_create ::
  "(nat set \<Rightarrow> nat option) \<Rightarrow> u64 \<Rightarrow> DeviceClass \<Rightarrow> DeviceType \<Rightarrow> string \<Rightarrow> dev_world \<Rightarrow> nat option \<times> dev_world" where
  "device_create malloc now c ty name w =
     (if MAX_DEVICES \<le> length (g_devices w) then (None, w)
      else (let w1 = w\<lparr>next_device_id := next_device_id w + 1\<rparr> in
        (case malloc (dev_heap w) of
           None \<Rightarrow> (None, w1)
         | Some b \<Rightarrow>
             (Some (length (g_devices w)),
              w1\<lparr>dev_heap := insert b (dev_heap w),
                 g_devices := g_devices w @
                   [\<lparr>dev_id = next_device_id w, dev_name = c_copy MAX_DEVICE_NAME name, dev_class = c,
                     dev_type = ty, dev_state = DEVICE_STATE_INITIALIZING, dev_memory = 0, dev_caps = 0,
                     dev_driver = None, dev_data = None, dev_buffer = Some b,
                     dev_stats = \<lparr>dev_bytes_read = 0, dev_bytes_written = 0, operations_completed = 0\<rparr>,
                     last_access_time = now, dev_next = None\<rparr>]\<rparr>))))"

definition device_register :: "nat option \<Rightarrow> nat option \<Rightarrow> dev_world \<Rightarrow> (int \<times> dev_world) option" where
  "device_register device driver w =
     (case (device, driver) of
        (Some k, Some i) \<Rightarrow>
          if length (g_devices w) \<le> k \<or> length (g_drivers w) \<le> i then None
          else (let w1 = upd_device k (\<lambda>d. d\<lparr>dev_driver := Some i\<rparr>) w;
                    (r, d) = (case drv_init (g_drivers w ! i) of
                                None \<Rightarrow> (0, g_devices w1 ! k) | Some f \<Rightarrow> f (g_devices w1 ! k));
                    w2 = upd_device k (\<lambda>_. d) w1
                in if r \<noteq> 0 then Some (-1, w2)
                   else (let w3 = (upd_device k (\<lambda>d. d\<lparr>dev_next := device_list w2\<rparr>) w2)
                                    \<lparr>device_list := Some k, device_count := device_count w2 + 1\<rparr>
                         in Some (0, if dev_state (g_devices w3 ! k) = DEVICE_STATE_READY
                                     then w3\<lparr>devices_online := devices_online w3 + 1\<rparr> else w3)))
      | _ \<Rightarrow> Some (-1, w))"

text \<open>\<^verbatim>\<open>free(NULL)\<close> is nothing; freeing what is not allocated is undefined.\<close>

definition free_block :: "nat option \<Rightarrow> dev_world \<Rightarrow> dev_world option" where
  "free_block p w =
     (case p of None \<Rightarrow> Some w
      | Some b \<Rightarrow> if b \<in> dev_heap w then Some (w\<lparr>dev_heap := dev_heap w - {b}\<rparr>) else None)"

definition device_destroy :: "nat option \<Rightarrow> dev_world \<Rightarrow> dev_world option" where
  "device_destroy device w =
     (case device of None \<Rightarrow> Some w
      | Some k \<Rightarrow>
          if length (g_devices w) \<le> k then None
          else do {
            let w1 = (case dev_driver (g_devices w ! k) of None \<Rightarrow> w
                      | Some i \<Rightarrow> (case drv_cleanup (g_drivers w ! i) of None \<Rightarrow> w | Some f \<Rightarrow> upd_device k f w));
            w2 \<leftarrow> free_block (dev_buffer (g_devices w1 ! k)) w1;
            let w3 = upd_device k (\<lambda>d. d\<lparr>dev_buffer := None\<rparr>) w2;
            w4 \<leftarrow> free_block (dev_data (g_devices w3 ! k)) w3;
            Some (upd_device k (\<lambda>d. d\<lparr>dev_data := None\<rparr>) w4) })"

partial_function (option) destroy_from :: "nat option \<Rightarrow> dev_world \<Rightarrow> dev_world option" where
  "destroy_from current w =
     (case current of None \<Rightarrow> Some w
      | Some k \<Rightarrow>
          if length (g_devices w) \<le> k then None
          else Option.bind (device_destroy current w) (\<lambda>w1. destroy_from (dev_next (g_devices w ! k)) w1))"

definition device_manager_cleanup :: "dev_world \<Rightarrow> dev_world option" where
  "device_manager_cleanup w = destroy_from (device_list w) w"

section \<open>The list of devices\<close>

partial_function (option) find_from :: "(Device \<Rightarrow> bool) \<Rightarrow> Device list \<Rightarrow> nat option \<Rightarrow> nat option option" where
  "find_from test ds current =
     (case current of None \<Rightarrow> Some None
      | Some k \<Rightarrow>
          if length ds \<le> k then None
          else if test (ds ! k) then Some (Some k)
          else find_from test ds (dev_next (ds ! k)))"

declare find_from.simps [code] destroy_from.simps [code]

definition device_find_by_id :: "u32 \<Rightarrow> dev_world \<Rightarrow> nat option option" where
  "device_find_by_id i w = find_from (\<lambda>d. dev_id d = i) (g_devices w) (device_list w)"

definition device_find_by_type :: "DeviceType \<Rightarrow> dev_world \<Rightarrow> nat option option" where
  "device_find_by_type ty w = find_from (\<lambda>d. dev_type d = ty) (g_devices w) (device_list w)"

definition device_get :: "int \<Rightarrow> dev_world \<Rightarrow> nat option option" where
  "device_get i w = device_find_by_id (of_int i) w"

partial_function (option) io_from :: "nat option \<Rightarrow> dev_world \<Rightarrow> dev_world option" where
  "io_from current w =
     (case current of None \<Rightarrow> Some w
      | Some k \<Rightarrow>
          if length (g_devices w) \<le> k then None
          else io_from (dev_next (g_devices w ! k))
            (if dev_state (g_devices w ! k) = DEVICE_STATE_BUSY
             then upd_device k (\<lambda>d. d\<lparr>dev_state := DEVICE_STATE_READY\<rparr>) w else w))"

definition process_io_operations :: "dev_world \<Rightarrow> dev_world option" where
  "process_io_operations w = io_from (device_list w) w"

partial_function (option) count_from :: "Device list \<Rightarrow> nat option \<Rightarrow> u32 \<Rightarrow> u32 \<Rightarrow> (u32 \<times> u32) option" where
  "count_from ds current online err =
     (case current of None \<Rightarrow> Some (online, err)
      | Some k \<Rightarrow>
          if length ds \<le> k then None
          else if dev_state (ds ! k) = DEVICE_STATE_READY then count_from ds (dev_next (ds ! k)) (online + 1) err
          else if dev_state (ds ! k) = DEVICE_STATE_ERROR then count_from ds (dev_next (ds ! k)) online (err + 1)
          else count_from ds (dev_next (ds ! k)) online err)"

declare io_from.simps [code] count_from.simps [code]

definition manage_device_state :: "dev_world \<Rightarrow> dev_world option" where
  "manage_device_state w = do {
     (online, err) \<leftarrow> count_from (g_devices w) (device_list w) 0 0;
     Some (w\<lparr>devices_online := online, devices_error := err\<rparr>) }"

section \<open>Reading and writing\<close>

definition device_read ::
  "int \<Rightarrow> u32 \<Rightarrow> u64 \<Rightarrow> u8 list \<Rightarrow> u64 \<Rightarrow> dev_world \<Rightarrow> (int \<times> u8 list \<times> dev_world) option" where
  "device_read i a sz buf now w = do {
     dev \<leftarrow> device_find_by_id (of_int i) w;
     (case dev of None \<Rightarrow> Some (-1, buf, w)
      | Some k \<Rightarrow>
          if dev_state (g_devices w ! k) \<noteq> DEVICE_STATE_READY then Some (-1, buf, w)
          else (let w1 = upd_device k (\<lambda>d. d\<lparr>dev_stats := (dev_stats d)
                           \<lparr>dev_bytes_read := dev_bytes_read (dev_stats d) + sz,
                            operations_completed := operations_completed (dev_stats d) + 1\<rparr>,
                         last_access_time := now\<rparr>) w
                in (case Option.bind (dev_driver (g_devices w1 ! k)) (\<lambda>d. drv_read (g_drivers w1 ! d)) of
                      None \<Rightarrow> Some (0, buf, w1)
                    | Some f \<Rightarrow> (case f a sz buf (g_devices w1 ! k) of
                                  (r, buf1, d1) \<Rightarrow> Some (r, buf1, upd_device k (\<lambda>_. d1) w1))))) }"

definition device_write ::
  "int \<Rightarrow> u32 \<Rightarrow> u64 \<Rightarrow> u8 list \<Rightarrow> u64 \<Rightarrow> dev_world \<Rightarrow> (int \<times> dev_world) option" where
  "device_write i a sz buf now w = do {
     dev \<leftarrow> device_find_by_id (of_int i) w;
     (case dev of None \<Rightarrow> Some (-1, w)
      | Some k \<Rightarrow>
          if dev_state (g_devices w ! k) \<noteq> DEVICE_STATE_READY then Some (-1, w)
          else (let w1 = upd_device k (\<lambda>d. d\<lparr>dev_stats := (dev_stats d)
                           \<lparr>dev_bytes_written := dev_bytes_written (dev_stats d) + sz,
                            operations_completed := operations_completed (dev_stats d) + 1\<rparr>,
                         last_access_time := now\<rparr>) w
                in (case Option.bind (dev_driver (g_devices w1 ! k)) (\<lambda>d. drv_write (g_drivers w1 ! d)) of
                      None \<Rightarrow> Some (0, w1)
                    | Some f \<Rightarrow> (case f a sz buf (g_devices w1 ! k) of
                                  (r, d1) \<Rightarrow> Some (r, upd_device k (\<lambda>_. d1) w1))))) }"

section \<open>Initialisation of the subsystem\<close>

definition create_and_register ::
  "(nat set \<Rightarrow> nat option) \<Rightarrow> u64 \<Rightarrow> DeviceClass \<Rightarrow> DeviceType \<Rightarrow> string \<Rightarrow> dev_world \<Rightarrow> dev_world option" where
  "create_and_register malloc now c ty name w =
     (case device_create malloc now c ty name w of
        (None, w1) \<Rightarrow> Some w1
      | (Some k, w1) \<Rightarrow>
          (case device_find_driver c ty w1 of None \<Rightarrow> Some w1
           | Some d \<Rightarrow> map_option snd (device_register (Some k) (Some d) w1)))"

definition device_init :: "(nat set \<Rightarrow> nat option) \<Rightarrow> u64 \<Rightarrow> dev_world \<Rightarrow> (int \<times> dev_world) option" where
  "device_init malloc now w = do {
     let w0 = snd (device_manager_init w);
     w1 \<leftarrow> create_and_register malloc now DEVICE_CLASS_OUTPUT DEVICE_TERMINAL ''Virtual Terminal'' w0;
     w2 \<leftarrow> create_and_register malloc now DEVICE_CLASS_STORAGE DEVICE_HDD ''Virtual Disk'' w1;
     w3 \<leftarrow> create_and_register malloc now DEVICE_CLASS_NETWORK DEVICE_ETHERNET ''Virtual Network'' w2;
     Some (0, w3) }"

definition device_cleanup :: "dev_world \<Rightarrow> dev_world option" where
  "device_cleanup w = device_manager_cleanup w"

end
