(* ===== verification/DeviceProps.thy ===== *)
theory DeviceProps
  imports Devices
begin

text \<open>
  The device manager's list: its shape as a list of table indices, the machine's runs as an
  inductive set of reachable states, and what the loops over the list compute on them.
\<close>

section \<open>The shape of the list\<close>

fun dev_chain :: "Device list \<Rightarrow> nat option \<Rightarrow> nat list \<Rightarrow> bool" where
  "dev_chain ds cur [] = (cur = None)"
| "dev_chain ds cur (k # ks) = (cur = Some k \<and> k < length ds \<and> dev_chain ds (dev_next (ds ! k)) ks)"

lemma dev_chain_links:
  "map dev_next ds = map dev_next ds' \<Longrightarrow> dev_chain ds cur ks = dev_chain ds' cur ks"
proof (induction ks arbitrary: cur)
  case (Cons k ks)
  have l: "length ds = length ds'" using Cons.prems by (metis length_map)
  have "k < length ds \<Longrightarrow> dev_next (ds ! k) = dev_next (ds' ! k)"
    using Cons.prems l by (metis nth_map)
  with l Cons.IH [OF Cons.prems, of "dev_next (ds' ! k)"] show ?case
    by (simp only: dev_chain.simps) metis
qed simp

lemma dev_chain_update: "k \<notin> set ks \<Longrightarrow> dev_chain (ds[k := d]) cur ks = dev_chain ds cur ks"
  by (induction ks arbitrary: cur) auto

lemma dev_chain_append: "dev_chain ds cur ks \<Longrightarrow> dev_chain (ds @ [d]) cur ks"
  by (induction ks arbitrary: cur) (auto simp: nth_append)

lemma dev_chain_bound: "dev_chain ds cur ks \<Longrightarrow> k \<in> set ks \<Longrightarrow> k < length ds"
  by (induction ks arbitrary: cur) auto

section \<open>The loops on a chain\<close>

lemma find_from_chain:
  "dev_chain ds cur ks \<Longrightarrow> find_from P ds cur = Some (find (\<lambda>k. P (ds ! k)) ks)"
  by (induction ks arbitrary: cur) (simp_all add: find_from.simps)

lemma count_from_chain:
  "dev_chain ds cur ks \<Longrightarrow> count_from ds cur online err =
     Some (online + of_nat (count_if (\<lambda>k. dev_state (ds ! k) = DEVICE_STATE_READY) ks),
           err + of_nat (count_if (\<lambda>k. dev_state (ds ! k) = DEVICE_STATE_ERROR) ks))"
  by (induction ks arbitrary: cur online err) (auto simp: count_from.simps)

text \<open>Completing the pending operation of a device.\<close>

definition io_done :: "Device \<Rightarrow> Device" where
  "io_done d = (if dev_state d = DEVICE_STATE_BUSY then d\<lparr>dev_state := DEVICE_STATE_READY\<rparr> else d)"

lemma io_done_keeps [simp]: "dev_next (io_done d) = dev_next d" "dev_id (io_done d) = dev_id d" "dev_driver (io_done d) = dev_driver d"
  by (simp_all add: io_done_def)

lemma io_done_not_busy: "dev_state (io_done d) \<noteq> DEVICE_STATE_BUSY"
  by (simp add: io_done_def)

lemma upd_device_keep:
  assumes "\<And>d. g (f d) = g d"
  shows "map g (g_devices (upd_device k f w)) = map g (g_devices w)"
proof (cases "k < length (g_devices w)")
  case True
  then show ?thesis using assms by (simp add: upd_device_def map_update list_update_same_conv)
qed (simp add: upd_device_def list_update_beyond)

lemmas upd_device_map [simp] =
  upd_device_keep [where g = dev_next] upd_device_keep [where g = dev_id] upd_device_keep [where g = dev_driver]

lemma upd_device_simps [simp]:
  "device_list (upd_device k f w) = device_list w" "device_count (upd_device k f w) = device_count w"
  "next_device_id (upd_device k f w) = next_device_id w" "g_drivers (upd_device k f w) = g_drivers w"
  "length (g_devices (upd_device k f w)) = length (g_devices w)"
  "devices_online (upd_device k f w) = devices_online w" "devices_error (upd_device k f w) = devices_error w"
  "dev_heap (upd_device k f w) = dev_heap w"
  by (simp_all add: upd_device_def)

lemma io_from_chain:
  "dev_chain (g_devices w) cur ks \<Longrightarrow> distinct ks \<Longrightarrow>
     io_from cur w = Some (fold (\<lambda>k. upd_device k io_done) ks w)"
proof (induction ks arbitrary: cur w)
  case Nil
  then show ?case by (simp add: io_from.simps)
next
  case (Cons k ks)
  have same: "(if dev_state (g_devices w ! k) = DEVICE_STATE_BUSY
      then upd_device k (\<lambda>d. d\<lparr>dev_state := DEVICE_STATE_READY\<rparr>) w else w) = upd_device k io_done w"
    by (simp add: upd_device_def io_done_def)
  have "dev_chain (g_devices (upd_device k io_done w)) (dev_next (g_devices w ! k)) ks"
    using Cons.prems dev_chain_links [OF upd_device_map(1) [of io_done k w]] by simp
  with Cons show ?case by (subst io_from.simps) (auto simp: same [simplified])
qed

lemma fold_io_done:
  "distinct ks \<Longrightarrow> \<forall>k \<in> set ks. k < length (g_devices w) \<Longrightarrow>
   g_devices (fold (\<lambda>k. upd_device k io_done) ks w) ! i = (if i \<in> set ks then io_done (g_devices w ! i) else g_devices w ! i)"
  by (induction ks arbitrary: w) (auto simp: upd_device_def nth_list_update)

lemma fold_io_fields:
  "map dev_next (g_devices (fold (\<lambda>k. upd_device k io_done) ks w)) = map dev_next (g_devices w)"
  "map dev_id (g_devices (fold (\<lambda>k. upd_device k io_done) ks w)) = map dev_id (g_devices w)"
  "map dev_driver (g_devices (fold (\<lambda>k. upd_device k io_done) ks w)) = map dev_driver (g_devices w)"
  "device_list (fold (\<lambda>k. upd_device k io_done) ks w) = device_list w"
  "device_count (fold (\<lambda>k. upd_device k io_done) ks w) = device_count w"
  "next_device_id (fold (\<lambda>k. upd_device k io_done) ks w) = next_device_id w"
  "g_drivers (fold (\<lambda>k. upd_device k io_done) ks w) = g_drivers w"
  by (induction ks arbitrary: w) simp_all

section \<open>Reachable states\<close>

text \<open>A driver's functions leave the id, the link and the driver of their device alone.\<close>

definition keeps_links :: "(Device \<Rightarrow> Device) \<Rightarrow> bool" where
  "keeps_links f \<longleftrightarrow> (\<forall>d. dev_id (f d) = dev_id d \<and> dev_next (f d) = dev_next d \<and> dev_driver (f d) = dev_driver d)"

definition driver_ok :: "DeviceDriver \<Rightarrow> bool" where
  "driver_ok v \<longleftrightarrow> (\<forall>f. drv_init v = Some f \<longrightarrow> keeps_links (\<lambda>d. snd (f d))) \<and>
     (\<forall>f a s b. drv_read v = Some f \<longrightarrow> keeps_links (\<lambda>d. snd (snd (f a s b d)))) \<and>
     (\<forall>f a s b. drv_write v = Some f \<longrightarrow> keeps_links (\<lambda>d. snd (f a s b d)))"

lemma builtin_drivers_ok: "v \<in> set g_builtin_drivers \<Longrightarrow> driver_ok v"
  by (auto simp: g_builtin_drivers_def builtin_driver_def driver_ok_def keeps_links_def
      terminal_driver_init_def disk_driver_init_def network_driver_init_def)

text \<open>
  \<open>dev_reach n ks w\<close>: from the initialisation of the manager, with no device created before,
  \<open>n\<close> calls lead to \<open>w\<close>, and \<open>ks\<close> are the devices registered, the last one first. No device
  is registered twice.
\<close>

inductive dev_reach :: "nat \<Rightarrow> nat list \<Rightarrow> dev_world \<Rightarrow> bool" where
  reach_boot: "g_devices w = [] \<Longrightarrow> \<forall>v \<in> set (g_drivers w). driver_ok v \<Longrightarrow> dev_reach 0 [] (snd (device_manager_init w))"
| reach_create: "dev_reach n ks w \<Longrightarrow> dev_reach (Suc n) ks (snd (device_create malloc now c ty name w))"
| reach_driver: "dev_reach n ks w \<Longrightarrow> driver_ok v \<Longrightarrow> dev_reach (Suc n) ks (snd (device_register_driver (Some v) w))"
| reach_register: "dev_reach n ks w \<Longrightarrow> k \<notin> set ks \<Longrightarrow> device_register (Some k) (Some i) w = Some (r, w') \<Longrightarrow>
     dev_reach (Suc n) (if r = 0 then k # ks else ks) w'"
| reach_read: "dev_reach n ks w \<Longrightarrow> device_read i a s b now w = Some (r, b', w') \<Longrightarrow> dev_reach (Suc n) ks w'"
| reach_write: "dev_reach n ks w \<Longrightarrow> device_write i a s b now w = Some (r, w') \<Longrightarrow> dev_reach (Suc n) ks w'"
| reach_io: "dev_reach n ks w \<Longrightarrow> process_io_operations w = Some w' \<Longrightarrow> dev_reach (Suc n) ks w'"
| reach_manage: "dev_reach n ks w \<Longrightarrow> manage_device_state w = Some w' \<Longrightarrow> dev_reach (Suc n) ks w'"

definition dev_inv :: "nat \<Rightarrow> nat list \<Rightarrow> dev_world \<Rightarrow> bool" where
  "dev_inv n ks w \<longleftrightarrow> dev_chain (g_devices w) (device_list w) ks \<and> distinct ks \<and>
     device_count w = of_nat (length ks) \<and> distinct (map dev_id (g_devices w)) \<and>
     (\<forall>i \<in> set (map dev_id (g_devices w)). 0 < i \<and> i < next_device_id w) \<and>
     0 < next_device_id w \<and> unat (next_device_id w) \<le> Suc n \<and>
     length (g_devices w) \<le> 64 \<and> (\<forall>v \<in> set (g_drivers w). driver_ok v) \<and>
     (\<forall>i. Some i \<in> set (map dev_driver (g_devices w)) \<longrightarrow> i < length (g_drivers w))"

lemma dev_inv_links:
  assumes "dev_inv n ks w" and "map dev_next (g_devices w') = map dev_next (g_devices w)"
    and "map dev_id (g_devices w') = map dev_id (g_devices w)"
    and "map dev_driver (g_devices w') = map dev_driver (g_devices w)" and "device_list w' = device_list w"
    and "device_count w' = device_count w" and "next_device_id w' = next_device_id w" and "g_drivers w' = g_drivers w"
  shows "dev_inv (Suc n) ks w'"
proof -
  have l: "length (g_devices w') = length (g_devices w)" using assms(2) by (metis length_map)
  show ?thesis
    using assms(1) unfolding dev_inv_def assms(3-8) l dev_chain_links [OF assms(2)] by simp
qed

lemma keeps_linksD:
  "keeps_links f \<Longrightarrow> dev_id (f d) = dev_id d" "keeps_links f \<Longrightarrow> dev_next (f d) = dev_next d"
  "keeps_links f \<Longrightarrow> dev_driver (f d) = dev_driver d"
  by (auto simp: keeps_links_def)

lemma dev_inv_upd [vm_inv]: "dev_inv n ks w \<Longrightarrow> keeps_links f \<Longrightarrow> dev_inv (Suc n) ks (upd_device k f w)"
  by (rule dev_inv_links) (simp_all add: keeps_linksD)

lemma dev_inv_Suc: "dev_inv n ks w \<Longrightarrow> dev_inv (Suc n) ks w"
  by (rule dev_inv_links) simp_all

lemma dev_inv_boot:
  assumes "g_devices w = []" and "\<forall>v \<in> set (g_drivers w). driver_ok v"
  shows "dev_inv 0 [] (snd (device_manager_init w))"
proof -
  let ?f = "\<lambda>d w. snd (device_register_driver (Some d) w)"
  have step: "g_devices (?f v u) = g_devices u \<and> device_list (?f v u) = device_list u \<and>
      device_count (?f v u) = device_count u \<and> next_device_id (?f v u) = next_device_id u \<and>
      set (g_drivers (?f v u)) \<subseteq> insert v (set (g_drivers u))" for v u
    by (auto simp: device_register_driver_def)
  have "g_devices (fold ?f vs u) = g_devices u \<and> device_list (fold ?f vs u) = device_list u \<and>
      device_count (fold ?f vs u) = device_count u \<and> next_device_id (fold ?f vs u) = next_device_id u \<and>
      set (g_drivers (fold ?f vs u)) \<subseteq> set vs \<union> set (g_drivers u)" for vs u
    by (induction vs arbitrary: u) (use step in fastforce)+
  from this [of g_builtin_drivers "w\<lparr>device_list := None, device_count := 0, next_device_id := 1,
             devices_online := 0, devices_error := 0\<rparr>"] assms builtin_drivers_ok
  show ?thesis by (fastforce simp: device_manager_init_def dev_inv_def)
qed

lemma dev_inv_create:
  assumes inv: "dev_inv n ks w" and n: "Suc (Suc n) < 2 ^ 32"
  shows "dev_inv (Suc n) ks (snd (device_create malloc now c ty name w))"
proof -
  have nx: "unat (next_device_id w) \<le> Suc n" "0 < next_device_id w" using inv by (simp_all add: dev_inv_def)
  with n have s: "unat (next_device_id w + 1) = Suc (unat (next_device_id w))"
    by (simp add: unat_plus_if_size word_size)
  then have lt: "next_device_id w < next_device_id w + 1" "0 < next_device_id w + 1"
    by (simp_all add: word_less_nat_alt)
  then have mono: "i < next_device_id w \<Longrightarrow> i < next_device_id w + 1" for i using less_trans [OF _ lt(1)] by blast
  show ?thesis
    using inv lt mono nx s by (auto simp: device_create_def dev_inv_def Let_def MAX_DEVICES_def dev_chain_append split: option.splits)
qed

lemma dev_inv_register:
  assumes inv: "dev_inv n ks w" and k: "k \<notin> set ks" and n: "Suc n < 2 ^ 32"
    and r: "device_register (Some k) (Some i) w = Some (r, w')"
  shows "dev_inv (Suc n) (if r = 0 then k # ks else ks) w'"
proof -
  have b: "k < length (g_devices w)" "i < length (g_drivers w)"
    using r by (auto simp: device_register_def split: if_splits)
  let ?w1 = "upd_device k (\<lambda>d. d\<lparr>dev_driver := Some i\<rparr>) w"
  define f where "f = (case drv_init (g_drivers w ! i) of None \<Rightarrow> (\<lambda>d. (0, d)) | Some f \<Rightarrow> f)"
  have f: "(case drv_init (g_drivers w ! i) of None \<Rightarrow> (0, g_devices ?w1 ! k) | Some f \<Rightarrow> f (g_devices ?w1 ! k))
      = f (g_devices ?w1 ! k)" by (simp add: f_def split: option.splits)
  have "driver_ok (g_drivers w ! i)" using inv b by (simp add: dev_inv_def)
  then have kf: "keeps_links (\<lambda>d. snd (f d))" by (auto simp: f_def driver_ok_def keeps_links_def split: option.splits)
  let ?w2 = "upd_device k (\<lambda>d. snd (f d)) ?w1"
  have w2: "upd_device k (\<lambda>_. snd (f (g_devices ?w1 ! k))) ?w1 = ?w2" by (simp add: upd_device_def)
  have m: "map dev_next (g_devices ?w1) = map dev_next (g_devices w)" "map dev_id (g_devices ?w1) = map dev_id (g_devices w)"
    by simp_all
  have "set (map dev_driver (g_devices ?w1)) \<subseteq> insert (Some i) (set (map dev_driver (g_devices w)))"
    using set_update_subset_insert [of "map dev_driver (g_devices w)" k "Some i"] by (simp add: upd_device_def map_update)
  then have d: "\<forall>j. Some j \<in> set (map dev_driver (g_devices ?w1)) \<longrightarrow> j < length (g_drivers w)"
    using inv b unfolding dev_inv_def by blast
  have "dev_inv n ks ?w1"
    using inv d unfolding dev_inv_def m(2) dev_chain_links [OF m(1)] by simp
  from dev_inv_upd [OF this kf] have inv2: "dev_inv n ks ?w2" using inv by (simp add: dev_inv_def)
  show ?thesis
  proof (cases "fst (f (g_devices ?w1 ! k)) = 0")
    case False
    then have "r \<noteq> 0" "w' = ?w2" using r b by (auto simp: device_register_def f w2 Let_def case_prod_beta)
    with dev_inv_Suc [OF inv2] show ?thesis by simp
  next
    case True
    let ?w3 = "(upd_device k (\<lambda>d. d\<lparr>dev_next := device_list ?w2\<rparr>) ?w2)\<lparr>device_list := Some k, device_count := device_count ?w2 + 1\<rparr>"
    have w': "r = 0" "w' = (if dev_state (g_devices ?w3 ! k) = DEVICE_STATE_READY
        then ?w3\<lparr>devices_online := devices_online ?w3 + 1\<rparr> else ?w3)"
      using r b True by (auto simp: device_register_def f w2 Let_def case_prod_beta)
    have "dev_chain (g_devices ?w2) (device_list ?w2) ks" using inv2 by (simp add: dev_inv_def)
    then have "dev_chain (g_devices ?w3) (Some k) (k # ks)" using k b
      by (simp add: upd_device_def dev_chain_update)
    moreover have "map dev_id (g_devices ?w3) = map dev_id (g_devices ?w2)" by simp
    ultimately have "dev_inv (Suc n) (k # ks) ?w3" using inv2 k
      unfolding dev_inv_def by simp
    moreover have "dev_inv (Suc n) (k # ks) (?w3\<lparr>devices_online := devices_online ?w3 + 1\<rparr>)"
      using calculation by (simp add: dev_inv_def)
    ultimately show ?thesis using w' by simp
  qed
qed

text \<open>Reading and writing change only fields that are no links.\<close>

definition same_links :: "dev_world \<Rightarrow> dev_world \<Rightarrow> bool" where
  "same_links w w' \<longleftrightarrow> map dev_next (g_devices w') = map dev_next (g_devices w) \<and>
     map dev_id (g_devices w') = map dev_id (g_devices w) \<and>
     map dev_driver (g_devices w') = map dev_driver (g_devices w) \<and> device_list w' = device_list w \<and>
     device_count w' = device_count w \<and> next_device_id w' = next_device_id w \<and> g_drivers w' = g_drivers w"

lemma dev_inv_same: "dev_inv n ks w \<Longrightarrow> same_links w w' \<Longrightarrow> dev_inv (Suc n) ks w'"
  unfolding same_links_def by (rule dev_inv_links) blast+

lemma same_links_refl [simp]: "same_links w w" by (simp add: same_links_def)

lemma same_links_upd: "same_links w w1 \<Longrightarrow> keeps_links f \<Longrightarrow> same_links w (upd_device k f w1)"
  by (simp add: same_links_def keeps_linksD)

lemma upd_const: "upd_device k (\<lambda>_. f (g_devices w ! k)) w = upd_device k f w"
  by (simp add: upd_device_def)

lemma driver_ok_nth:
  assumes "dev_inv n ks w" and "i < length (g_drivers w)"
  shows "driver_ok (g_drivers w ! i)"
  using assms by (simp add: dev_inv_def)

lemma driver_of_ok:
  assumes "dev_inv n ks w" and "k < length (g_devices w)" and "dev_driver (g_devices w ! k) = Some i"
  shows "driver_ok (g_drivers w ! i)"
proof -
  have "Some i \<in> set (map dev_driver (g_devices w))" using assms(2,3) by (force simp: in_set_conv_nth)
  with assms(1) show ?thesis by (simp add: dev_inv_def)
qed

lemma keeps_links_stats: "keeps_links (\<lambda>d. d\<lparr>dev_stats := g d, last_access_time := now\<rparr>)"
  by (simp add: keeps_links_def)

text \<open>Calling a function of the device's driver.\<close>

lemma driver_call_links:
  assumes inv: "dev_inv n ks w" and w1: "same_links w w1"
    and f: "Option.bind (dev_driver (g_devices w1 ! k)) (\<lambda>d. h (g_drivers w1 ! d)) = Some f"
    and ok: "\<And>v. driver_ok v \<Longrightarrow> h v = Some f \<Longrightarrow> keeps_links g"
  shows "same_links w (upd_device k g w1)"
proof (cases "k < length (g_devices w1)")
  case True
  from f obtain d where "dev_driver (g_devices w1 ! k) = Some d" "h (g_drivers w1 ! d) = Some f"
    by (auto simp: bind_eq_Some_conv)
  with driver_of_ok [OF dev_inv_same [OF inv w1] True] ok w1 show ?thesis by (simp add: same_links_upd)
next
  case False
  with w1 show ?thesis by (simp add: upd_device_def list_update_beyond)
qed

lemma device_read_links:
  assumes inv: "dev_inv n ks w" and r: "device_read i a s b now w = Some (r, b', w')"
  shows "same_links w w'"
proof -
  from r obtain dev where dev: "device_find_by_id (of_int i) w = Some dev" by (auto simp: device_read_def bind_eq_Some_conv)
  let ?u = "\<lambda>d. d\<lparr>dev_stats := (dev_stats d)\<lparr>dev_bytes_read := dev_bytes_read (dev_stats d) + s,
      operations_completed := operations_completed (dev_stats d) + 1\<rparr>, last_access_time := now\<rparr>"
  show ?thesis
  proof (cases "\<exists>k. dev = Some k \<and> dev_state (g_devices w ! k) = DEVICE_STATE_READY")
    case False
    with r dev show ?thesis by (auto simp: device_read_def split: option.splits if_splits)
  next
    case True
    then obtain k where k: "dev = Some k" "dev_state (g_devices w ! k) = DEVICE_STATE_READY" by blast
    let ?w1 = "upd_device k ?u w"
    have w1: "same_links w ?w1" by (rule same_links_upd [OF _ keeps_links_stats]) simp
    show ?thesis
    proof (cases "Option.bind (dev_driver (g_devices ?w1 ! k)) (\<lambda>d. drv_read (g_drivers ?w1 ! d))")
      case None
      with r dev k have "w' = ?w1" by (simp add: device_read_def Let_def)
      with w1 show ?thesis by simp
    next
      case (Some f)
      from r dev k Some have w': "w' = upd_device k (\<lambda>x. snd (snd (f a s b x))) ?w1"
        by (auto simp: device_read_def Let_def upd_device_def split: prod.splits)
      have "same_links w (upd_device k (\<lambda>x. snd (snd (f a s b x))) ?w1)"
        by (rule driver_call_links [where h = drv_read, OF inv w1 Some]) (simp add: driver_ok_def)
      with w' show ?thesis by simp
    qed
  qed
qed

lemma device_write_links:
  assumes inv: "dev_inv n ks w" and r: "device_write i a s b now w = Some (r, w')"
  shows "same_links w w'"
proof -
  from r obtain dev where dev: "device_find_by_id (of_int i) w = Some dev" by (auto simp: device_write_def bind_eq_Some_conv)
  let ?u = "\<lambda>d. d\<lparr>dev_stats := (dev_stats d)\<lparr>dev_bytes_written := dev_bytes_written (dev_stats d) + s,
      operations_completed := operations_completed (dev_stats d) + 1\<rparr>, last_access_time := now\<rparr>"
  show ?thesis
  proof (cases "\<exists>k. dev = Some k \<and> dev_state (g_devices w ! k) = DEVICE_STATE_READY")
    case False
    with r dev show ?thesis by (auto simp: device_write_def split: option.splits if_splits)
  next
    case True
    then obtain k where k: "dev = Some k" "dev_state (g_devices w ! k) = DEVICE_STATE_READY" by blast
    let ?w1 = "upd_device k ?u w"
    have w1: "same_links w ?w1" by (rule same_links_upd [OF _ keeps_links_stats]) simp
    show ?thesis
    proof (cases "Option.bind (dev_driver (g_devices ?w1 ! k)) (\<lambda>d. drv_write (g_drivers ?w1 ! d))")
      case None
      with r dev k have "w' = ?w1" by (simp add: device_write_def Let_def)
      with w1 show ?thesis by simp
    next
      case (Some f)
      from r dev k Some have w': "w' = upd_device k (\<lambda>x. snd (f a s b x)) ?w1"
        by (auto simp: device_write_def Let_def upd_device_def split: prod.splits)
      have "same_links w (upd_device k (\<lambda>x. snd (f a s b x)) ?w1)"
        by (rule driver_call_links [where h = drv_write, OF inv w1 Some]) (simp add: driver_ok_def)
      with w' show ?thesis by simp
    qed
  qed
qed

lemma dev_inv_chain: "dev_inv n ks w \<Longrightarrow> dev_chain (g_devices w) (device_list w) ks" "dev_inv n ks w \<Longrightarrow> distinct ks"
  by (simp_all add: dev_inv_def)

lemma process_io_run: "dev_inv n ks w \<Longrightarrow> process_io_operations w = Some (fold (\<lambda>k. upd_device k io_done) ks w)"
  unfolding process_io_operations_def by (rule io_from_chain) (simp_all add: dev_inv_chain)

lemma manage_run:
  "dev_inv n ks w \<Longrightarrow> manage_device_state w =
     Some (w\<lparr>devices_online := of_nat (count_if (\<lambda>k. dev_state (g_devices w ! k) = DEVICE_STATE_READY) ks),
             devices_error := of_nat (count_if (\<lambda>k. dev_state (g_devices w ! k) = DEVICE_STATE_ERROR) ks)\<rparr>)"
  using count_from_chain [OF dev_inv_chain(1)] by (simp add: manage_device_state_def)

lemma dev_inv_reach: "dev_reach n ks w \<Longrightarrow> Suc n < 2 ^ 32 \<Longrightarrow> dev_inv n ks w"
proof (induction rule: dev_reach.induct)
  case (reach_driver n ks w v)
  then show ?case by (auto simp: device_register_driver_def dev_inv_def)
next
  case (reach_io n ks w w')
  then have "w' = fold (\<lambda>k. upd_device k io_done) ks w" using process_io_run by simp
  with reach_io dev_inv_same fold_io_fields show ?case by (simp add: same_links_def)
next
  case (reach_manage n ks w w')
  then show ?case using manage_run by (auto intro: dev_inv_same simp: same_links_def)
qed (use dev_inv_boot dev_inv_create dev_inv_register device_read_links device_write_links dev_inv_same in \<open>force+\<close>)

section \<open>Properties\<close>

text \<open>
  C28: The registered devices are found: after any calls on an initialised manager in which no
  device is registered twice (fewer than 2^32 - 2 of them), every search of the list ends, a
  registered device is found under its id, no other id is found, the count is the number of
  registered devices and at most 64, completing the pending operations leaves no registered
  device busy, and the online statistics counts the ready ones.
\<close>

theorem devices_found:
  assumes reach: "dev_reach n ks w" and n: "n < 2 ^ 32 - 2"
  shows "(\<forall>k \<in> set ks. device_find_by_id (dev_id (g_devices w ! k)) w = Some (Some k)) \<and>
    (\<forall>i. i \<notin> (\<lambda>k. dev_id (g_devices w ! k)) ` set ks \<longrightarrow> device_find_by_id i w = Some None) \<and>
    device_count w = of_nat (length ks) \<and> length ks \<le> 64 \<and>
    (\<exists>w'. process_io_operations w = Some w' \<and> (\<forall>k \<in> set ks. dev_state (g_devices w' ! k) \<noteq> DEVICE_STATE_BUSY)) \<and>
    (\<exists>w'. manage_device_state w = Some w' \<and>
       devices_online w' = of_nat (count_if (\<lambda>k. dev_state (g_devices w ! k) = DEVICE_STATE_READY) ks))"
proof -
  have inv: "dev_inv n ks w" using dev_inv_reach [OF reach] n by simp
  note ch = dev_inv_chain [OF inv]
  have bound: "\<forall>k \<in> set ks. k < length (g_devices w)" using dev_chain_bound [OF ch(1)] by blast
  have look: "device_find_by_id i w = Some (find (\<lambda>k. dev_id (g_devices w ! k) = i) ks)" for i
    unfolding device_find_by_id_def by (rule find_from_chain [OF ch(1)])
  have one: "k = j" if "k \<in> set ks" "j \<in> set ks" "dev_id (g_devices w ! k) = dev_id (g_devices w ! j)" for k j
    using that bound inv nth_eq_iff_index_eq [of "map dev_id (g_devices w)" k j] by (simp add: dev_inv_def)
  have "find (\<lambda>j. dev_id (g_devices w ! j) = dev_id (g_devices w ! k)) ks = Some k" if "k \<in> set ks" for k
  proof (cases "find (\<lambda>j. dev_id (g_devices w ! j) = dev_id (g_devices w ! k)) ks")
    case None
    with that show ?thesis by (auto simp: find_None_iff)
  next
    case (Some j)
    then have "j \<in> set ks" "dev_id (g_devices w ! j) = dev_id (g_devices w ! k)"
      by (auto simp: find_Some_iff)
    with one [OF _ that] Some show ?thesis by simp
  qed
  moreover have "find (\<lambda>k. dev_id (g_devices w ! k) = i) ks = None"
    if "i \<notin> (\<lambda>k. dev_id (g_devices w ! k)) ` set ks" for i using that by (auto simp: find_None_iff)
  moreover have "length ks \<le> 64"
  proof -
    have "set ks \<subseteq> {..< length (g_devices w)}" using bound by auto
    from card_mono [OF _ this] distinct_card [OF ch(2)] inv show ?thesis by (simp add: dev_inv_def)
  qed
  moreover have "\<forall>k \<in> set ks. dev_state (g_devices (fold (\<lambda>k. upd_device k io_done) ks w) ! k) \<noteq> DEVICE_STATE_BUSY"
    using fold_io_done [OF ch(2) bound] io_done_not_busy by simp
  ultimately show ?thesis using look process_io_run [OF inv] manage_run [OF inv] inv by (simp add: dev_inv_def)
qed

definition dev_blank :: dev_world where
  "dev_blank = \<lparr>g_devices = [], g_drivers = [], device_list = None, device_count = 0, next_device_id = 0,
     devices_online = 0, devices_error = 0, dev_heap = {}\<rparr>"

definition demo_malloc :: "nat set \<Rightarrow> nat option" where
  "demo_malloc h = find (\<lambda>b. b \<notin> h) [1, 2, 3, 4]"

text \<open>A device registered twice is its own successor: the search for an unknown id does not end.\<close>

lemma find_from_self:
  assumes "k < length ds" and "dev_next (ds ! k) = Some k" and "\<not> test (ds ! k)"
  shows "find_from test ds (Some k) = None"
proof -
  have "find_from g es c = Some r \<Longrightarrow> \<not> (g = test \<and> es = ds \<and> c = Some k)" for g es c r
  proof (rule find_from.raw_induct [where P = "\<lambda>g es c r. \<not> (g = test \<and> es = ds \<and> c = Some k)"])
    fix loop :: "(Device \<Rightarrow> bool) \<Rightarrow> Device list \<Rightarrow> nat option \<Rightarrow> nat option option" and g es c r
    assume IH: "\<And>g es c r. loop g es c = Some r \<Longrightarrow> \<not> (g = test \<and> es = ds \<and> c = Some k)"
      and "(case c of None \<Rightarrow> Some None | Some k \<Rightarrow> if length es \<le> k then None else
             if g (es ! k) then Some (Some k) else loop g es (dev_next (es ! k))) = Some r"
    with assms IH [of test ds "Some k" r] show "\<not> (g = test \<and> es = ds \<and> c = Some k)"
      by (auto split: if_splits)
  qed
  then show ?thesis by (cases "find_from test ds (Some k)") auto
qed

text \<open>Registering a device a second time, first in the list, links it to itself; every later
  search for an id that is not its own runs forever.\<close>

lemma registered_twice_hangs:
  assumes "device_list w = Some k" and "device_register (Some k) (Some i) w = Some (0, w')"
    and "dev_id (g_devices w' ! k) \<noteq> j"
  shows "device_find_by_id j w' = None"
proof -
  obtain d where "k < length (g_devices w)" "g_devices w' ! k = d\<lparr>dev_next := Some k\<rparr>" "device_list w' = Some k"
    "length (g_devices w') = length (g_devices w)"
    using assms(1,2) by (auto simp: device_register_def upd_device_def Let_def case_prod_beta split: if_splits)
  with assms(3) show ?thesis unfolding device_find_by_id_def by (simp add: find_from_self)
qed

text \<open>Initialisation on a machine without devices: one call of \<open>malloc\<close> per device.\<close>

lemmas boot_defs = device_init_def device_manager_init_def create_and_register_def device_create_def
  device_register_def device_register_driver_def device_find_driver_def g_builtin_drivers_def builtin_driver_def
  MAX_DEVICES_def MAX_DEVICE_NAME_def upd_device_def terminal_driver_init_def disk_driver_init_def network_driver_init_def

definition booted_device :: "u64 \<Rightarrow> u32 \<Rightarrow> string \<Rightarrow> DeviceClass \<Rightarrow> DeviceType \<Rightarrow> u32 \<Rightarrow> u32 \<Rightarrow> nat \<Rightarrow> nat \<Rightarrow> nat option \<Rightarrow> Device" where
  "booted_device now i n c ty m caps d b nx =
     \<lparr>dev_id = i, dev_name = n, dev_class = c, dev_type = ty, dev_state = DEVICE_STATE_READY, dev_memory = m,
      dev_caps = caps, dev_driver = Some d, dev_data = None, dev_buffer = Some b,
      dev_stats = \<lparr>dev_bytes_read = 0, dev_bytes_written = 0, operations_completed = 0\<rparr>,
      last_access_time = now, dev_next = nx\<rparr>"

definition booted :: "u64 \<Rightarrow> nat \<Rightarrow> nat \<Rightarrow> nat \<Rightarrow> nat set \<Rightarrow> dev_world" where
  "booted now b1 b2 b3 h =
     \<lparr>g_devices =
        [booted_device now 1 ''Virtual Terminal'' DEVICE_CLASS_OUTPUT DEVICE_TERMINAL 0
           (DEVICE_CAP_READ OR DEVICE_CAP_WRITE) 0 b1 None,
         booted_device now 2 ''Virtual Disk'' DEVICE_CLASS_STORAGE DEVICE_HDD (1024 * 1024 * 100)
           (DEVICE_CAP_READ OR DEVICE_CAP_WRITE OR DEVICE_CAP_SEEK) 1 b2 (Some 0),
         booted_device now 3 ''Virtual Network'' DEVICE_CLASS_NETWORK DEVICE_ETHERNET 0
           (DEVICE_CAP_READ OR DEVICE_CAP_WRITE OR DEVICE_CAP_INTERRUPT) 2 b3 (Some 1)],
      g_drivers = g_builtin_drivers, device_list = Some 2, device_count = 3, next_device_id = 4,
      devices_online = 3, devices_error = 0, dev_heap = insert b3 (insert b2 (insert b1 h))\<rparr>"

lemma device_init_run:
  assumes "g_devices w = []" "g_drivers w = []"
    and "malloc (dev_heap w) = Some b1" "malloc (insert b1 (dev_heap w)) = Some b2"
      "malloc (insert b2 (insert b1 (dev_heap w))) = Some b3"
  shows "device_init malloc now w = Some (0, booted now b1 b2 b3 (dev_heap w))"
  using assms by (simp add: boot_defs booted_def booted_device_def)

lemma booted_find:
  "i \<in> {0, 1, 2} \<Longrightarrow> device_find_by_id (of_int (int i + 1)) (booted now b1 b2 b3 h) = Some (Some i)"
  by (auto simp: device_find_by_id_def booted_def booted_device_def find_from.simps)

lemma booted_read:
  "i \<in> {0, 1, 2} \<Longrightarrow> \<exists>w2. device_read (int i + 1) a s buf t (booted now b1 b2 b3 h) = Some (0, buf, w2)"
  using booted_find [of i now b1 b2 b3 h]
  by (auto simp: device_read_def booted_def booted_device_def g_builtin_drivers_def builtin_driver_def upd_device_def)

lemma booted_cleanup:
  "b1 \<notin> h \<Longrightarrow> b2 \<notin> insert b1 h \<Longrightarrow> b3 \<notin> insert b2 (insert b1 h) \<Longrightarrow>
   \<exists>w3. device_cleanup (booted now b1 b2 b3 h) = Some w3 \<and> dev_heap w3 = h"
  by (auto simp: device_cleanup_def device_manager_cleanup_def destroy_from.simps device_destroy_def free_block_def
      booted_def booted_device_def g_builtin_drivers_def builtin_driver_def upd_device_def)

text \<open>
  Booting the device subsystem on a machine with no devices and memory for three buffers
  registers the terminal, the disk and the network card under the ids 1, 2 and 3, all ready
  and found; a read from any of them reports success and leaves the caller's buffer as it
  was (no built-in driver has a read function); and the clean-up frees exactly the three
  buffers, each once.
\<close>

theorem device_boot:
  assumes fresh: "g_devices w = []" "g_drivers w = []"
    and m: "malloc (dev_heap w) = Some b1" "malloc (insert b1 (dev_heap w)) = Some b2"
      "malloc (insert b2 (insert b1 (dev_heap w))) = Some b3"
    and new: "b1 \<notin> dev_heap w" "b2 \<notin> insert b1 (dev_heap w)" "b3 \<notin> insert b2 (insert b1 (dev_heap w))"
  shows "\<exists>w'. device_init malloc now w = Some (0, w') \<and>
    (\<forall>i \<in> {0, 1, 2}. device_get (int i + 1) w' = Some (Some i) \<and> dev_state (g_devices w' ! i) = DEVICE_STATE_READY) \<and>
    map dev_name (g_devices w') = [''Virtual Terminal'', ''Virtual Disk'', ''Virtual Network''] \<and>
    (\<forall>i \<in> {0, 1, 2}. \<exists>w2. device_read (int i + 1) a s buf t w' = Some (0, buf, w2)) \<and>
    (\<exists>w3. device_cleanup w' = Some w3 \<and> dev_heap w3 = dev_heap w)"
proof -
  let ?w = "booted now b1 b2 b3 (dev_heap w)"
  have "dev_state (g_devices ?w ! i) = DEVICE_STATE_READY" if "i \<in> {0, 1, 2}" for i
    using that by (auto simp: booted_def booted_device_def)
  moreover have "map dev_name (g_devices ?w) = [''Virtual Terminal'', ''Virtual Disk'', ''Virtual Network'']"
    by (simp add: booted_def booted_device_def)
  ultimately show ?thesis
    by (intro exI [of _ ?w] conjI ballI device_init_run [OF fresh m] booted_read booted_cleanup [OF new])
      (simp_all only: device_get_def booted_find)
qed

lemma device_boot_witness:
  "\<exists>w'. device_init demo_malloc 9 dev_blank = Some (0, w') \<and> device_get 2 w' = Some (Some 1)"
proof -
  have "\<exists>w'. device_init demo_malloc 9 dev_blank = Some (0, w') \<and>
    (\<forall>i \<in> {0, 1, 2}. device_get (int i + 1) w' = Some (Some i) \<and> dev_state (g_devices w' ! i) = DEVICE_STATE_READY) \<and>
    map dev_name (g_devices w') = [''Virtual Terminal'', ''Virtual Disk'', ''Virtual Network''] \<and>
    (\<forall>i \<in> {0, 1, 2}. \<exists>w2. device_read (int i + 1) 0 4 [7] 10 w' = Some (0, [7], w2)) \<and>
    (\<exists>w3. device_cleanup w' = Some w3 \<and> dev_heap w3 = dev_heap dev_blank)"
    by (rule device_boot [where ?b1.0 = 1 and ?b2.0 = 2 and ?b3.0 = 3]) (simp_all add: dev_blank_def demo_malloc_def)
  then show ?thesis by force
qed

lemma devices_found_witness:
  "\<exists>n w. dev_reach n [0] w \<and> device_find_by_id (dev_id (g_devices w ! 0)) w = Some (Some 0) \<and> device_find_by_id 9 w = Some None"
proof -
  let ?w0 = "snd (device_create demo_malloc 5 DEVICE_CLASS_STORAGE DEVICE_SSD ''a'' (snd (device_manager_init dev_blank)))"
  have "dev_reach 0 [] (snd (device_manager_init dev_blank))" by (rule reach_boot) (simp_all add: dev_blank_def)
  then have r: "dev_reach 1 [] ?w0" using reach_create by fastforce
  have "\<exists>w. device_register (Some 0) (Some 1) ?w0 = Some (0, w) \<and> dev_id (g_devices w ! 0) = 1"
    by (simp add: boot_defs dev_blank_def demo_malloc_def)
  then obtain w where w: "device_register (Some 0) (Some 1) ?w0 = Some (0, w)" "dev_id (g_devices w ! 0) = 1" by blast
  have "dev_reach 2 [0] w" using reach_register [OF r _ w(1)] by (simp add: numeral_2_eq_2)
  with devices_found [OF this] w(2) show ?thesis by (intro exI [of _ 2] exI [of _ w]) simp
qed

end
