(* ===== verification/Cpu.thy ===== *)
theory Cpu
  imports Memory Interrupts
begin

text \<open>
  The processor loop (\<^verbatim>\<open>src/cpu/cpu.c\<close>): fetch from the machine's memory, the instructions
  with their privilege checks, and interrupts. Exceptions are reported and nothing more, so
  they are recorded; of the state structure only the fields the code uses are kept.
\<close>

section \<open>State and operations\<close>

record CPUState =
  registers :: "u32 list"
  pc :: u32
  sp :: u32
  cpu_flags :: u32
  running :: bool
  cpu_level :: u32
  raised :: "u32 list"

definition cpu_init :: "CPUState \<Rightarrow> CPUState" where
  "cpu_init cpu = cpu\<lparr>registers := replicate 8 0 @ drop 8 (registers cpu), pc := 0, sp := 0x1000,
     cpu_flags := 0, running := True, cpu_level := PRIVILEGE_KERNEL\<rparr>"

definition cpu_cleanup :: "CPUState \<Rightarrow> CPUState" where
  "cpu_cleanup cpu = cpu\<lparr>running := False\<rparr>"

definition cpu_raise :: "u32 \<Rightarrow> CPUState \<Rightarrow> CPUState" where
  "cpu_raise e cpu = cpu\<lparr>raised := raised cpu @ [e]\<rparr>"

text \<open>A privileged instruction in the ring the privilege context is in.\<close>

definition privileged_op :: "unit priv_result \<Rightarrow> CPUState \<Rightarrow> CPUState" where
  "privileged_op r cpu = (case r of Completed u \<Rightarrow> cpu | Raised e u \<Rightarrow> cpu_raise e cpu)"

definition cpu_execute_instruction :: "PrivilegeContext \<Rightarrow> u32 \<Rightarrow> CPUState \<Rightarrow> CPUState" where
  "cpu_execute_instruction c instruction cpu =
     (let fault = cpu_raise EXCEPTION_GENERAL_PROTECTION cpu; user = (cpu_level cpu \<noteq> PRIVILEGE_KERNEL) in
      if instruction = 0x00 then cpu
      else if instruction = 0x01 then (if user then fault else cpu\<lparr>running := False\<rparr>)
      else if instruction = 0xFA then (if user then fault else privileged_op (privilege_cli c) cpu)
      else if instruction = 0xFB then (if user then fault else privileged_op (privilege_sti c) cpu)
      else if instruction = 0xF4 then (if user then fault else privileged_op (privilege_hlt c) cpu)
      else cpu_raise EXCEPTION_INVALID_OPCODE cpu)"

text \<open>No handler changes the registers of the context it is given.\<close>

definition cpu_handle_interrupt ::
  "allocator \<Rightarrow> u32 \<Rightarrow> CPUState \<Rightarrow> int_world \<Rightarrow> (CPUState \<times> int_world) option" where
  "cpu_handle_interrupt al interrupt cpu w = do {
     let ctx = \<lparr>int_no = interrupt, err_code = 0, eip = pc cpu, eax = registers cpu ! 0\<rparr>;
     w1 \<leftarrow> interrupt_dispatch al (Some ctx) w;
     Some (cpu\<lparr>registers := (registers cpu)[0 := eax ctx, 1 := registers cpu ! 1, 2 := registers cpu ! 2,
                             3 := registers cpu ! 3]\<rparr>, w1) }"

text \<open>One round of the loop, and the loop; a loop that does not end is \<open>None\<close>.\<close>

definition cpu_round :: "Memory option \<Rightarrow> PrivilegeContext \<Rightarrow> CPUState \<Rightarrow> CPUState" where
  "cpu_round m c cpu =
     (let cpu1 = cpu_execute_instruction c (ucast (memory_read m (pc cpu))) cpu in cpu1\<lparr>pc := pc cpu1 + 1\<rparr>)"

partial_function (option) cpu_run :: "Memory option \<Rightarrow> PrivilegeContext \<Rightarrow> CPUState \<Rightarrow> CPUState option" where
  "cpu_run m c cpu = (if running cpu then cpu_run m c (cpu_round m c cpu) else Some cpu)"

section \<open>When the loop ends\<close>

lemma byte_cases: "(ucast (b :: u8) :: u32) = 0x01 \<longleftrightarrow> b = 1"
  by transfer (simp add: take_bit_take_bit min_def)

lemma privileged_op_simps [simp]:
  "pc (privileged_op r cpu) = pc cpu" "registers (privileged_op r cpu) = registers cpu"
  "running (privileged_op r cpu) = running cpu" "cpu_level (privileged_op r cpu) = cpu_level cpu"
  by (auto simp: privileged_op_def cpu_raise_def split: priv_result.splits)

lemma cpu_round_simps:
  "pc (cpu_round m c cpu) = pc cpu + 1" "registers (cpu_round m c cpu) = registers cpu"
  "cpu_level (cpu_round m c cpu) = cpu_level cpu"
  "running (cpu_round m c cpu) \<longleftrightarrow> running cpu \<and> \<not> (cpu_level cpu = PRIVILEGE_KERNEL \<and> memory_read m (pc cpu) = 1)"
  by (auto simp: cpu_round_def cpu_execute_instruction_def Let_def cpu_raise_def byte_cases)

lemma cpu_run_halts:
  assumes "running cpu" and "cpu_level cpu = PRIVILEGE_KERNEL" and "memory_read m (pc cpu + of_nat k) = 1"
    and "\<forall>j < k. memory_read m (pc cpu + of_nat j) \<noteq> 1"
  shows "\<exists>cpu'. cpu_run m c cpu = Some cpu' \<and> pc cpu' = pc cpu + of_nat k + 1 \<and>
    registers cpu' = registers cpu \<and> \<not> running cpu'"
  using assms
proof (induction k arbitrary: cpu)
  case 0
  then show ?case by (subst cpu_run.simps, subst cpu_run.simps) (simp add: cpu_round_simps)
next
  case (Suc k)
  let ?r = "cpu_round m c cpu"
  have "memory_read m (pc cpu) \<noteq> 1" using Suc.prems(4) by force
  then have run: "running ?r" using Suc.prems by (simp add: cpu_round_simps)
  have "memory_read m (pc ?r + of_nat j) \<noteq> 1" if "j < k" for j
    using Suc.prems(4) that by (auto simp: cpu_round_simps dest!: spec [of _ "Suc j"] simp: algebra_simps)
  with Suc.IH [OF run] Suc.prems obtain cpu' where "cpu_run m c ?r = Some cpu'" "pc cpu' = pc ?r + of_nat k + 1"
    "registers cpu' = registers ?r" "\<not> running cpu'" by (auto simp: cpu_round_simps algebra_simps)
  with Suc.prems(1) show ?case by (subst cpu_run.simps) (simp add: cpu_round_simps algebra_simps)
qed

lemma cpu_run_needs_halt:
  "cpu_run m c cpu = Some cpu' \<Longrightarrow> running cpu \<longrightarrow> cpu_level cpu = PRIVILEGE_KERNEL \<and> (\<exists>k. memory_read m (pc cpu + of_nat k) = 1)"
proof (rule cpu_run.raw_induct [where P = "\<lambda>m c cpu cpu'. running cpu \<longrightarrow>
      cpu_level cpu = PRIVILEGE_KERNEL \<and> (\<exists>k. memory_read m (pc cpu + of_nat k) = 1)"])
  fix run :: "Memory option \<Rightarrow> PrivilegeContext \<Rightarrow> CPUState \<Rightarrow> CPUState option" and m c cpu cpu'
  assume IH: "\<And>m c cpu cpu'. run m c cpu = Some cpu' \<Longrightarrow>
      running cpu \<longrightarrow> cpu_level cpu = PRIVILEGE_KERNEL \<and> (\<exists>k. memory_read m (pc cpu + of_nat k) = 1)"
    and step: "(if running cpu then run m c (cpu_round m c cpu) else Some cpu) = Some cpu'"
  show "running cpu \<longrightarrow> cpu_level cpu = PRIVILEGE_KERNEL \<and> (\<exists>k. memory_read m (pc cpu + of_nat k) = 1)"
  proof
    assume r: "running cpu"
    with step have "run m c (cpu_round m c cpu) = Some cpu'" by simp
    note ih = IH [OF this]
    show "cpu_level cpu = PRIVILEGE_KERNEL \<and> (\<exists>k. memory_read m (pc cpu + of_nat k) = 1)"
    proof (cases "cpu_level cpu = PRIVILEGE_KERNEL \<and> memory_read m (pc cpu) = 1")
      case True
      then show ?thesis by (intro conjI exI [of _ 0]) simp_all
    next
      case False
      with ih r obtain k where "cpu_level cpu = PRIVILEGE_KERNEL" "memory_read m (pc cpu + 1 + of_nat k) = 1"
        by (auto simp: cpu_round_simps)
      then show ?thesis by (intro conjI exI [of _ "Suc k"]) (simp_all add: algebra_simps)
    qed
  qed
qed

text \<open>
  C27: The processor stops exactly when it should be able to: a running processor's loop ends
  if and only if it is in kernel mode and some byte of the address space reads as HALT (the
  program counter wraps around, so every address is reached); it then stands behind the
  first HALT at or after its start, with its registers unchanged. In user mode the loop
  never ends.
\<close>

theorem cpu_run_terminates_iff:
  assumes "running cpu"
  shows "((\<exists>cpu'. cpu_run m c cpu = Some cpu') \<longleftrightarrow> cpu_level cpu = PRIVILEGE_KERNEL \<and> (\<exists>a. memory_read m a = 1)) \<and>
    (\<forall>cpu'. cpu_run m c cpu = Some cpu' \<longrightarrow> registers cpu' = registers cpu \<and> \<not> running cpu' \<and>
       (\<exists>k. pc cpu' = pc cpu + of_nat k + 1 \<and> memory_read m (pc cpu + of_nat k) = 1 \<and>
          (\<forall>j < k. memory_read m (pc cpu + of_nat j) \<noteq> 1)))"
proof -
  have reach: "\<exists>k. pc cpu + of_nat k = a" for a
    by (rule exI [of _ "unat (a - pc cpu)"]) simp
  have first: "\<exists>cpu'. cpu_run m c cpu = Some cpu' \<and> registers cpu' = registers cpu \<and> \<not> running cpu' \<and>
       (\<exists>k. pc cpu' = pc cpu + of_nat k + 1 \<and> memory_read m (pc cpu + of_nat k) = 1 \<and>
          (\<forall>j < k. memory_read m (pc cpu + of_nat j) \<noteq> 1))"
    if lv: "cpu_level cpu = PRIVILEGE_KERNEL" and h: "memory_read m (pc cpu + of_nat n) = 1" for n
  proof -
    obtain k where "memory_read m (pc cpu + of_nat k) = 1" "\<forall>j < k. memory_read m (pc cpu + of_nat j) \<noteq> 1"
      using h LeastI_ex [of "\<lambda>k. memory_read m (pc cpu + of_nat k) = 1"] not_less_Least by blast
    with cpu_run_halts [OF assms lv, of m k c] show ?thesis by blast
  qed
  show ?thesis
  proof (intro conjI iffI)
    assume "\<exists>cpu'. cpu_run m c cpu = Some cpu'"
    with cpu_run_needs_halt assms show "cpu_level cpu = PRIVILEGE_KERNEL" "\<exists>a. memory_read m a = 1" by blast+
  next
    assume "cpu_level cpu = PRIVILEGE_KERNEL \<and> (\<exists>a. memory_read m a = 1)"
    then obtain a where a: "cpu_level cpu = PRIVILEGE_KERNEL" "memory_read m a = 1" by blast
    obtain n where "pc cpu + of_nat n = a" using reach by blast
    with first [OF a(1), of n] a(2) show "\<exists>cpu'. cpu_run m c cpu = Some cpu'" by auto
  next
    show "\<forall>cpu'. cpu_run m c cpu = Some cpu' \<longrightarrow> registers cpu' = registers cpu \<and> \<not> running cpu' \<and>
       (\<exists>k. pc cpu' = pc cpu + of_nat k + 1 \<and> memory_read m (pc cpu + of_nat k) = 1 \<and>
          (\<forall>j < k. memory_read m (pc cpu + of_nat j) \<noteq> 1))"
    proof (intro allI impI)
      fix cpu' assume r: "cpu_run m c cpu = Some cpu'"
      with cpu_run_needs_halt assms obtain n where "cpu_level cpu = PRIVILEGE_KERNEL" "memory_read m (pc cpu + of_nat n) = 1"
        by blast
      from first [OF this] r show "registers cpu' = registers cpu \<and> \<not> running cpu' \<and>
         (\<exists>k. pc cpu' = pc cpu + of_nat k + 1 \<and> memory_read m (pc cpu + of_nat k) = 1 \<and>
            (\<forall>j < k. memory_read m (pc cpu + of_nat j) \<noteq> 1))" by auto
    qed
  qed
qed

text \<open>HLT does not stop the processor.\<close>

lemma hlt_keeps_running: "running (cpu_execute_instruction c 0xF4 cpu) = running cpu"
  by (simp add: cpu_execute_instruction_def Let_def cpu_raise_def)

definition cpu_demo :: CPUState where
  "cpu_demo = cpu_init \<lparr>registers = replicate 16 5, pc = 9, sp = 0, cpu_flags = 1, running = False, cpu_level = 3, raised = []\<rparr>"

lemma cpu_run_terminates_iff_witness:
  "\<forall>c. \<exists>cpu'. cpu_run (memory_write 2 1 (memory_init (\<lambda>_. True) 8 None)) c cpu_demo = Some cpu' \<and> \<not> running cpu'"
proof -
  let ?m = "memory_write 2 1 (memory_init (\<lambda>_. True) 8 None)"
  have "running cpu_demo" "cpu_level cpu_demo = PRIVILEGE_KERNEL" by (simp_all add: cpu_demo_def cpu_init_def)
  moreover have "memory_read ?m 2 = 1" by (simp add: memory_init_def memory_write_def memory_read_def)
  ultimately show ?thesis using cpu_run_terminates_iff [of cpu_demo ?m] by blast
qed

end
