(* ===== verification/Kernel.thy ===== *)
theory Kernel
  imports Interrupts Memory DeviceProps NetStack Cpu
begin

text \<open>
  The kernel of \<^verbatim>\<open>src/kernel/kernel.c\<close>: the order in which it brings up the components, its
  own state and statistics, the timer tick that drives the scheduler, panic and shutdown. The
  state holds the states of the components. What the host answers (memory statistics, clock,
  addresses, allocations, the Java detector) is the environment. Left out: locks, delays, the
  log, and the version strings. A panic does not return; it is an outcome of its own.
\<close>

section \<open>State\<close>

datatype KernelState =
  KERNEL_STATE_INITIALIZING | KERNEL_STATE_RUNNING | KERNEL_STATE_SHUTTING_DOWN
| KERNEL_STATE_HALTED | KERNEL_STATE_PANIC

definition BOOT_FLAG_DEBUG_MODE :: u32 where "BOOT_FLAG_DEBUG_MODE = 0x02"
definition BOOT_FLAG_VERBOSE :: u32 where "BOOT_FLAG_VERBOSE = 0x04"
definition BOOT_FLAG_NO_NETWORK :: u32 where "BOOT_FLAG_NO_NETWORK = 0x08"
definition MEMORY_SIZE :: u64 where "MEMORY_SIZE = 0x4000000"

record KernelStats =
  uptime_ticks :: u64
  process_count :: u32
  thread_count :: u32
  context_switches :: u32
  memory_allocated :: u64
  memory_free :: u64

record PanicInfo =
  error_code :: u32
  fault_address :: u32
  panic_message :: string

record kernel_world =
  g_kernel_state :: KernelState
  g_kernel_stats :: KernelStats
  g_panic_info :: PanicInfo
  g_boot_flags :: u32
  g_boot_time :: u64
  g_tick_counter :: u64
  k_int :: int_world
  k_mem :: "Memory option"
  k_dev :: dev_world
  k_net :: "net_state option"
  k_cpu :: CPUState

record kernel_env =
  verbose_boot :: bool
  phys_total :: u64
  phys_avail :: u64
  tick_count :: u64
  handler_addr :: "InterruptHandler \<Rightarrow> u32"
  kstack_buf :: u32
  ustack_buf :: u32
  sched_malloc_ok :: "nat \<Rightarrow> bool"
  memory_malloc_ok :: "u64 \<Rightarrow> bool"
  dev_malloc :: "nat set \<Rightarrow> nat option"
  java_init_ok :: bool
  java_found :: "string \<Rightarrow> bool"

text \<open>A call returns a value or never returns.\<close>

datatype kernel_outcome = Returned int kernel_world | Panicked kernel_world

definition upd_kstats :: "(KernelStats \<Rightarrow> KernelStats) \<Rightarrow> kernel_world \<Rightarrow> kernel_world" where
  "upd_kstats f w = w\<lparr>g_kernel_stats := f (g_kernel_stats w)\<rparr>"

definition upd_sched :: "(sched_world \<Rightarrow> sched_world) \<Rightarrow> kernel_world \<Rightarrow> kernel_world" where
  "upd_sched f w = w\<lparr>k_int := (k_int w)\<lparr>int_sched := f (int_sched (k_int w))\<rparr>\<rparr>"

section \<open>Initialisation of the parts\<close>

definition kernel_check_hardware :: "kernel_env \<Rightarrow> kernel_world \<Rightarrow> int \<times> kernel_world" where
  "kernel_check_hardware e w =
     (0, upd_kstats (\<lambda>s. s\<lparr>memory_allocated := phys_total e - phys_avail e, memory_free := phys_avail e\<rparr>) w)"

definition kernel_init_memory_manager :: "kernel_env \<Rightarrow> kernel_world \<Rightarrow> int \<times> kernel_world" where
  "kernel_init_memory_manager e w =
     (let m = memory_init (memory_malloc_ok e) MEMORY_SIZE (k_mem w)
      in (if m = None then -1 else 0, w\<lparr>k_mem := m\<rparr>))"

definition kernel_init_scheduler :: "kernel_env \<Rightarrow> kernel_world \<Rightarrow> int \<times> kernel_world" where
  "kernel_init_scheduler e w =
     (let (r, s) = scheduler_init (sched_malloc_ok e) (int_sched (k_int w)); w1 = upd_sched (\<lambda>_. s) w
      in if r \<noteq> 0 then (-1, w1)
         else (0, upd_kstats (\<lambda>st. st\<lparr>process_count := 1, thread_count := 1\<rparr>) w1))"

definition kernel_init_device_manager :: "kernel_env \<Rightarrow> kernel_world \<Rightarrow> (int \<times> kernel_world) option" where
  "kernel_init_device_manager e w = do {
     (r, d) \<leftarrow> device_init (dev_malloc e) (tick_count e) (k_dev w);
     Some (if r \<noteq> 0 then -1 else 0, w\<lparr>k_dev := d\<rparr>) }"

definition kernel_init_filesystem :: "kernel_world \<Rightarrow> int \<times> kernel_world" where
  "kernel_init_filesystem w = (0, w)"

definition kernel_init_network_stack :: "kernel_world \<Rightarrow> int \<times> kernel_world" where
  "kernel_init_network_stack w =
     (if g_boot_flags w AND BOOT_FLAG_NO_NETWORK \<noteq> 0 then (0, w) else (0, w\<lparr>k_net := Some netstack_init\<rparr>))"

definition kernel_early_init :: "kernel_env \<Rightarrow> u32 \<Rightarrow> kernel_world \<Rightarrow> int \<times> kernel_world" where
  "kernel_early_init e flags w =
     kernel_check_hardware e (w\<lparr>g_boot_flags := flags, g_boot_time := tick_count e\<rparr>)"

section \<open>Late initialisation\<close>

definition kernel_late_init :: "kernel_env \<Rightarrow> kernel_world \<Rightarrow> (int \<times> kernel_world) option" where
  "kernel_late_init e w =
     (let w1 = upd_sched (\<lambda>s. s\<lparr>priv := privilege_init (kstack_buf e) (ustack_buf e)\<rparr>) w;
          (ri, iw) = interrupts_init (handler_addr e) (k_int w1);
          w2 = w1\<lparr>k_int := iw\<rparr>
      in if ri \<noteq> 0 then Some (-1, w2)
      else (let (rm, w3) = kernel_init_memory_manager e w2
      in if rm \<noteq> 0 then Some (-1, w3)
      else (let (rs, w4) = kernel_init_scheduler e w3
      in if rs \<noteq> 0 then Some (-1, w4)
      else do {
        (rd, w5) \<leftarrow> kernel_init_device_manager e w4;
        (if rd \<noteq> 0 then Some (-1, w5)
         else (let (rf, w6) = kernel_init_filesystem w5
         in if rf \<noteq> 0 then Some (-1, w6)
         else (let (rn, w7) = kernel_init_network_stack w6
         in if rn \<noteq> 0 then Some (-1, w7)
         else (let w8 = w7\<lparr>k_cpu := cpu_init (k_cpu w7)\<rparr>;
                   w9 = upd_sched scheduler_start w8
               in Some (0, w9\<lparr>k_int := snd (interrupts_enable (k_int w9))\<rparr>))))) })))"

definition kernel_panic :: "u32 \<Rightarrow> string \<Rightarrow> kernel_world \<Rightarrow> kernel_outcome" where
  "kernel_panic code msg w =
     Panicked (w\<lparr>g_kernel_state := KERNEL_STATE_PANIC,
       g_panic_info := \<lparr>error_code = code, fault_address = 0, panic_message = msg\<rparr>\<rparr>)"

definition boot_flags :: "kernel_env \<Rightarrow> u32" where
  "boot_flags e = (if verbose_boot e then BOOT_FLAG_VERBOSE OR BOOT_FLAG_DEBUG_MODE else 0)"

definition kernel_init :: "kernel_env \<Rightarrow> kernel_world \<Rightarrow> kernel_outcome option" where
  "kernel_init e w =
     (let (r, w1) = kernel_early_init e (boot_flags e) w
      in if r \<noteq> 0 then Some (Returned (-1) w1)
         else do {
           (rl, w2) \<leftarrow> kernel_late_init e (w1\<lparr>g_kernel_state := KERNEL_STATE_INITIALIZING\<rparr>);
           Some (if rl \<noteq> 0 then kernel_panic 2 ''Late initialization failed'' w2
                 else Returned 0 (w2\<lparr>g_kernel_state := KERNEL_STATE_RUNNING\<rparr>)) })"

section \<open>Running\<close>

definition kernel_timer_tick :: "allocator \<Rightarrow> kernel_world \<Rightarrow> kernel_world option" where
  "kernel_timer_tick al w = do {
     let w1 = w\<lparr>g_tick_counter := g_tick_counter w + 1\<rparr>;
     let w2 = upd_kstats (\<lambda>s. s\<lparr>uptime_ticks := g_tick_counter w1\<rparr>) w1;
     s \<leftarrow> scheduler_tick al (int_sched (k_int w2));
     Some (upd_sched (\<lambda>_. s) w2) }"

definition kernel_schedule :: "allocator \<Rightarrow> kernel_world \<Rightarrow> kernel_world option" where
  "kernel_schedule al w = do {
     let w1 = upd_kstats (\<lambda>s. s\<lparr>context_switches := context_switches s + 1\<rparr>) w;
     s \<leftarrow> scheduler_schedule al (int_sched (k_int w1));
     Some (upd_sched (\<lambda>_. s) w1) }"

definition kernel_get_uptime :: "kernel_env \<Rightarrow> kernel_world \<Rightarrow> u64" where
  "kernel_get_uptime e w = tick_count e - g_boot_time w"

partial_function (option) kernel_loop :: "allocator \<Rightarrow> kernel_world \<Rightarrow> kernel_world option" where
  "kernel_loop al w =
     (if g_kernel_state w \<noteq> KERNEL_STATE_RUNNING then Some w
      else Option.bind (kernel_timer_tick al w) (kernel_loop al))"

definition scan_paths :: "string list" where
  "scan_paths = [''.'', ''..'', ''src'', ''build'', ''include'', ''/'', ''/bin'', ''/home'', ''/tmp'']"

definition kernel_main :: "kernel_env \<Rightarrow> allocator \<Rightarrow> kernel_world \<Rightarrow> kernel_outcome option" where
  "kernel_main e al w = do {
     out \<leftarrow> kernel_init e w;
     (case out of
        Panicked w1 \<Rightarrow> Some (Panicked w1)
      | Returned r w1 \<Rightarrow>
          if r \<noteq> 0 then Some (Returned (-1) w1)
          else if \<not> java_init_ok e
          then Some (kernel_panic 0x420
                 ''Java detector initialization failed - system vulnerable to Enterprise patterns!'' w1)
          else if \<exists>p \<in> set scan_paths. java_found e p
          then Some (kernel_panic 0xDEADBEEF
                 ''JAVA CONTAMINATION DETECTED - SYSTEM COMPROMISED BY ENTERPRISE PATTERNS'' w1)
          else map_option (Returned 0) (kernel_loop al w1)) }"

definition kernel_shutdown :: "kernel_world \<Rightarrow> kernel_world option" where
  "kernel_shutdown w = do {
     let w1 = w\<lparr>g_kernel_state := KERNEL_STATE_SHUTTING_DOWN, k_cpu := cpu_cleanup (k_cpu w)\<rparr>;
     d \<leftarrow> device_cleanup (k_dev w1);
     Some (w1\<lparr>k_dev := d, g_kernel_state := KERNEL_STATE_HALTED\<rparr>) }"

end
