(* ===== verification/KernelProps.thy ===== *)
theory KernelProps
  imports Kernel
begin

text \<open>
  The booted kernel: when \<open>kernel_init\<close> returns and when it panics, the state it leaves the
  components in, and processes made ready after boot getting the processor from the kernel's
  timer.
\<close>

section \<open>Boot\<close>

text \<open>A machine on which nothing has been initialised.\<close>

definition power_on :: "kernel_world \<Rightarrow> bool" where
  "power_on w \<longleftrightarrow> \<not> interrupts_initialized (k_int w) \<and> \<not> sched_initialized (int_sched (k_int w)) \<and>
     k_mem w = None \<and> g_devices (k_dev w) = [] \<and> g_drivers (k_dev w) = []"

text \<open>\<open>malloc\<close> gives the device manager its three buffers.\<close>

definition three_buffers :: "kernel_env \<Rightarrow> kernel_world \<Rightarrow> nat \<Rightarrow> nat \<Rightarrow> nat \<Rightarrow> bool" where
  "three_buffers e w b1 b2 b3 \<longleftrightarrow>
     (let h = dev_heap (k_dev w) in
      dev_malloc e h = Some b1 \<and> dev_malloc e (insert b1 h) = Some b2 \<and>
      dev_malloc e (insert b2 (insert b1 h)) = Some b3)"

definition memory_granted :: "kernel_env \<Rightarrow> bool" where
  "memory_granted e \<longleftrightarrow> memory_malloc_ok e 32 \<and> memory_malloc_ok e MEMORY_SIZE"

text \<open>The state after a boot.\<close>

definition booted_kernel :: "kernel_env \<Rightarrow> kernel_world \<Rightarrow> nat \<Rightarrow> nat \<Rightarrow> nat \<Rightarrow> kernel_world" where
  "booted_kernel e w b1 b2 b3 =
     (let s = (int_sched (k_int w))\<lparr>priv := privilege_init (kstack_buf e) (ustack_buf e)\<rparr>;
          iw = snd (interrupts_init (handler_addr e) ((k_int w)\<lparr>int_sched := s\<rparr>))
      in w\<lparr>g_kernel_state := KERNEL_STATE_RUNNING,
           g_kernel_stats := (g_kernel_stats w)\<lparr>memory_allocated := phys_total e - phys_avail e,
             memory_free := phys_avail e, process_count := 1, thread_count := 1\<rparr>,
           g_boot_flags := boot_flags e, g_boot_time := tick_count e,
           k_int := iw\<lparr>int_sched := scheduler_start (snd (scheduler_init (sched_malloc_ok e) s))\<rparr>,
           k_mem := memory_init (\<lambda>_. True) MEMORY_SIZE None,
           k_dev := booted (tick_count e) b1 b2 b3 (dev_heap (k_dev w)),
           k_net := Some netstack_init,
           k_cpu := cpu_init (k_cpu w)\<rparr>)"

lemma boot_flags_network: "boot_flags e AND BOOT_FLAG_NO_NETWORK = 0"
  by (simp add: boot_flags_def BOOT_FLAG_VERBOSE_def BOOT_FLAG_DEBUG_MODE_def BOOT_FLAG_NO_NETWORK_def)

lemmas boot_steps = kernel_init_def kernel_early_init_def kernel_check_hardware_def kernel_late_init_def
  kernel_init_scheduler_def kernel_init_device_manager_def kernel_init_filesystem_def kernel_init_network_stack_def

lemma memory_init_granted: "memory_granted e \<Longrightarrow> memory_init (memory_malloc_ok e) MEMORY_SIZE None = memory_init (\<lambda>_. True) MEMORY_SIZE None"
  by (simp add: memory_init_def memory_granted_def)

lemma memory_init_refused: "\<not> memory_granted e \<Longrightarrow> memory_init (memory_malloc_ok e) MEMORY_SIZE None = None"
  by (auto simp: memory_init_def memory_granted_def)

lemma interrupts_init_fresh:
  "\<not> interrupts_initialized w \<Longrightarrow> interrupts_init fn w =
     (0, w\<lparr>int_controller := (fold (\<lambda>(n, h). interrupt_register_handler fn n h) boot_handlers zero_controller)
            \<lparr>interrupts_enabled := True\<rparr>, interrupts_initialized := True\<rparr>)"
  by (simp add: interrupts_init_def Let_def)

lemma kernel_init_boots:
  assumes on: "power_on w" and b: "three_buffers e w b1 b2 b3" and m: "memory_granted e"
  shows "kernel_init e w = Some (Returned 0 (booted_kernel e w b1 b2 b3))"
proof -
  have dev: "device_init (dev_malloc e) (tick_count e) (k_dev w) = Some (0, booted (tick_count e) b1 b2 b3 (dev_heap (k_dev w)))"
    using on b by (intro device_init_run) (simp_all add: power_on_def three_buffers_def Let_def)
  have mem: "kernel_init_memory_manager e v = (0, v\<lparr>k_mem := memory_init (\<lambda>_. True) MEMORY_SIZE None\<rparr>)"
    if "k_mem v = None" for v
    using that by (simp add: kernel_init_memory_manager_def memory_init_granted [OF m] Let_def) (simp add: memory_init_def)
  define s where "s = (int_sched (k_int w))\<lparr>priv := privilege_init (kstack_buf e) (ustack_buf e)\<rparr>"
  define c where "c = (fold (\<lambda>(n, h). interrupt_register_handler (handler_addr e) n h) boot_handlers zero_controller)
            \<lparr>interrupts_enabled := True\<rparr>"
  have ii: "interrupts_init (handler_addr e) ((k_int w)\<lparr>int_sched := s\<rparr>) =
      (0, (k_int w)\<lparr>int_sched := s, int_controller := c, interrupts_initialized := True\<rparr>)"
    using on by (simp add: interrupts_init_fresh power_on_def c_def)
  define s1 where "s1 = snd (scheduler_init (sched_malloc_ok e) s)"
  have si: "scheduler_init (sched_malloc_ok e) s = (0, s1)"
    using on by (simp add: power_on_def s_def s1_def scheduler_init_def)
  have ce: "c\<lparr>interrupts_enabled := True\<rparr> = c" by (simp add: c_def)
  have km: "k_mem w = None" using on by (simp add: power_on_def)
  show ?thesis
    by (simp add: boot_steps booted_kernel_def Let_def upd_sched_def upd_kstats_def s_def [symmetric] ii mem km dev
        boot_flags_network interrupts_enable_def ce si)
qed

text \<open>Without memory the boot ends in a panic, before scheduler, devices and network.\<close>

lemma kernel_init_panics:
  assumes on: "power_on w" and m: "\<not> memory_granted e"
  shows "\<exists>w'. kernel_init e w = Some (Panicked w') \<and> g_kernel_state w' = KERNEL_STATE_PANIC \<and>
    error_code (g_panic_info w') = 2 \<and> \<not> sched_initialized (int_sched (k_int w')) \<and>
    k_dev w' = k_dev w \<and> k_net w' = k_net w \<and> k_cpu w' = k_cpu w"
proof -
  define s where "s = (int_sched (k_int w))\<lparr>priv := privilege_init (kstack_buf e) (ustack_buf e)\<rparr>"
  define c where "c = (fold (\<lambda>(n, h). interrupt_register_handler (handler_addr e) n h) boot_handlers zero_controller)
            \<lparr>interrupts_enabled := True\<rparr>"
  have ii: "interrupts_init (handler_addr e) ((k_int w)\<lparr>int_sched := s\<rparr>) =
      (0, (k_int w)\<lparr>int_sched := s, int_controller := c, interrupts_initialized := True\<rparr>)"
    using on by (simp add: interrupts_init_fresh power_on_def c_def)
  have mem: "kernel_init_memory_manager e v = (-1, v\<lparr>k_mem := None\<rparr>)" if "k_mem v = None" for v
    using that by (simp add: kernel_init_memory_manager_def memory_init_refused [OF m] Let_def)
  have km: "k_mem w = None" and si: "\<not> sched_initialized s" using on by (simp_all add: power_on_def s_def)
  show ?thesis
    by (simp add: boot_steps Let_def upd_sched_def upd_kstats_def s_def [symmetric] ii mem km kernel_panic_def si)
qed

lemma memory_fresh:
  "memory_read (memory_init (\<lambda>_. True) sz None) a = 0"
  "unat a < unat sz \<Longrightarrow> memory_read (memory_write a x (memory_init (\<lambda>_. True) sz None)) a = x"
  by (simp_all add: memory_init_def memory_read_def memory_write_def word_le_nat_alt)

lemma booted_handlers:
  assumes on: "power_on w" and nh: "(n, h) \<in> set boot_handlers"
  shows "handlers (int_controller (k_int (booted_kernel e w b1 b2 b3))) ! unat n = Some h"
proof -
  define iw where "iw = (k_int w)\<lparr>int_sched := (int_sched (k_int w))\<lparr>priv := privilege_init (kstack_buf e) (ustack_buf e)\<rparr>\<rparr>"
  have "\<not> interrupts_initialized iw" using on by (simp add: power_on_def iw_def)
  from interrupts_init_tables [OF this, of "handler_addr e" n]
  have "handlers (int_controller (snd (interrupts_init (handler_addr e) iw))) ! unat n = map_of boot_handlers n"
    by (simp only: Let_def)
  moreover have "distinct (map fst boot_handlers)"
    by (simp add: boot_handlers_def INT_TIMER_def INT_KEYBOARD_def INT_SYSCALL_def)
  with nh have "map_of boot_handlers n = Some h" by simp
  ultimately show ?thesis by (simp add: booted_kernel_def Let_def iw_def)
qed

lemma booted_kernel_simps:
  "g_kernel_state (booted_kernel e w b1 b2 b3) = KERNEL_STATE_RUNNING"
  "k_mem (booted_kernel e w b1 b2 b3) = memory_init (\<lambda>_. True) MEMORY_SIZE None"
  "k_dev (booted_kernel e w b1 b2 b3) = booted (tick_count e) b1 b2 b3 (dev_heap (k_dev w))"
  "k_net (booted_kernel e w b1 b2 b3) = Some netstack_init"
  "k_cpu (booted_kernel e w b1 b2 b3) = cpu_init (k_cpu w)"
  "int_sched (k_int (booted_kernel e w b1 b2 b3)) = scheduler_start (snd (scheduler_init (sched_malloc_ok e)
     ((int_sched (k_int w))\<lparr>priv := privilege_init (kstack_buf e) (ustack_buf e)\<rparr>)))"
  by (simp_all add: booted_kernel_def Let_def)

lemma booted_ring: "current_level (priv (int_sched (k_int (booted_kernel e w b1 b2 b3)))) = PRIVILEGE_KERNEL"
  by (simp add: booted_kernel_simps scheduler_start_def scheduler_init_def privilege_init_def)

text \<open>
  C30: Booting either works or panics, by the memory alone: on a machine where nothing has been
  initialised, with buffers for the three devices, \<open>kernel_init\<close> returns 0 exactly when the
  64 MB are granted. The kernel is then running in the kernel ring, every interrupt vector of
  the boot list has its handler, all of memory reads 0 and keeps what is written, the devices
  1 to 3 are ready, two network interfaces exist and the processor stands at address 0.
  Otherwise it panics with code 2 and has touched neither scheduler, devices, network nor
  processor. It never returns another value.
\<close>

theorem kernel_boot_outcome:
  assumes on: "power_on w" and b: "three_buffers e w b1 b2 b3"
  shows "if memory_granted e
    then (\<exists>w'. kernel_init e w = Some (Returned 0 w') \<and> g_kernel_state w' = KERNEL_STATE_RUNNING \<and>
       current_level (priv (int_sched (k_int w'))) = PRIVILEGE_KERNEL \<and>
       (\<forall>n h. (n, h) \<in> set boot_handlers \<longrightarrow> handlers (int_controller (k_int w')) ! unat n = Some h) \<and>
       (\<forall>a. memory_read (k_mem w') a = 0) \<and>
       (\<forall>a x. unat a < 0x4000000 \<longrightarrow> memory_read (memory_write a x (k_mem w')) a = x) \<and>
       (\<forall>i \<in> {0, 1, 2}. device_get (int i + 1) (k_dev w') = Some (Some i)) \<and>
       map_option (\<lambda>n. length (interfaces n)) (k_net w') = Some 2 \<and>
       pc (k_cpu w') = 0 \<and> running (k_cpu w'))
    else (\<exists>w'. kernel_init e w = Some (Panicked w') \<and> g_kernel_state w' = KERNEL_STATE_PANIC \<and>
       error_code (g_panic_info w') = 2 \<and> \<not> sched_initialized (int_sched (k_int w')) \<and>
       k_dev w' = k_dev w \<and> k_net w' = k_net w \<and> k_cpu w' = k_cpu w)"
proof (cases "memory_granted e")
  case False
  with kernel_init_panics [OF on] show ?thesis by simp
next
  case True
  have sz: "unat MEMORY_SIZE = 0x4000000" by (simp add: MEMORY_SIZE_def)
  let ?w = "booted_kernel e w b1 b2 b3"
  note run = kernel_init_boots [OF on b True]
  have "\<forall>a. memory_read (k_mem ?w) a = 0"
    "\<forall>a x. unat a < 0x4000000 \<longrightarrow> memory_read (memory_write a x (k_mem ?w)) a = x"
    unfolding booted_kernel_simps using memory_fresh [where sz = MEMORY_SIZE, unfolded sz] by blast+
  moreover have "\<forall>i \<in> {0, 1, 2}. device_get (int i + 1) (k_dev ?w) = Some (Some i)"
    unfolding booted_kernel_simps device_get_def using booted_find by blast
  moreover have "map_option (\<lambda>n. length (interfaces n)) (k_net ?w) = Some 2" "pc (k_cpu ?w) = 0" "running (k_cpu ?w)"
    by (simp_all add: booted_kernel_simps netstack_init_def cpu_init_def)
  moreover have "\<forall>n h. (n, h) \<in> set boot_handlers \<longrightarrow> handlers (int_controller (k_int ?w)) ! unat n = Some h"
    using booted_handlers [OF on] by blast
  moreover have "g_kernel_state ?w = KERNEL_STATE_RUNNING" by (rule booted_kernel_simps)
  ultimately show ?thesis using run True booted_ring [of e w b1 b2 b3]
    unfolding if_P [OF True] by blast
qed

section \<open>Processes after boot\<close>

fun enqueue_all :: "allocator \<Rightarrow> addr list \<Rightarrow> sched_world \<Rightarrow> sched_world option" where
  "enqueue_all al [] w = Some w"
| "enqueue_all al (p # ps) w = do { w1 \<leftarrow> scheduler_enqueue_ready al (Some p) w; enqueue_all al ps w1 }"

fun timer_ticks :: "allocator \<Rightarrow> nat \<Rightarrow> kernel_world \<Rightarrow> kernel_world option" where
  "timer_ticks al 0 w = Some w"
| "timer_ticks al (Suc n) w = do { w1 \<leftarrow> kernel_timer_tick al w; timer_ticks al n w1 }"

lemma timer_ticks_run:
  "ticks al n (int_sched (k_int w)) = Some s \<Longrightarrow>
     \<exists>w'. timer_ticks al n w = Some w' \<and> int_sched (k_int w') = s \<and>
       g_tick_counter w' = g_tick_counter w + of_nat n \<and> g_kernel_state w' = g_kernel_state w"
proof (induction n arbitrary: w)
  case 0
  then show ?case by simp
next
  case (Suc n)
  then obtain s1 where s1: "scheduler_tick al (int_sched (k_int w)) = Some s1" "ticks al n s1 = Some s"
    by (auto split: bind_splits)
  let ?w1 = "upd_sched (\<lambda>_. s1) (upd_kstats (\<lambda>s. s\<lparr>uptime_ticks := g_tick_counter w + 1\<rparr>)
      (w\<lparr>g_tick_counter := g_tick_counter w + 1\<rparr>))"
  have k: "kernel_timer_tick al w = Some ?w1"
    using s1(1) by (simp add: kernel_timer_tick_def upd_kstats_def Let_def)
  have "int_sched (k_int ?w1) = s1" "g_tick_counter ?w1 = g_tick_counter w + 1" "g_kernel_state ?w1 = g_kernel_state w"
    by (simp_all add: upd_sched_def upd_kstats_def)
  with Suc.IH [of ?w1] s1(2) k show ?case by (auto simp: algebra_simps)
qed

lemma enqueue_all_fair:
  "sched_holds w rps [] \<Longrightarrow> alloc_ok al \<Longrightarrow> distinct (rps @ ps) \<Longrightarrow> set ps \<subseteq> dom (procs w) \<Longrightarrow>
     \<exists>w'. enqueue_all al ps w = Some w' \<and> sched_holds w' (rps @ ps) [] \<and>
       sched_config w' = sched_config w \<and> current_process (sched w') = current_process (sched w) \<and>
       current_quantum_remaining (sched w') = current_quantum_remaining (sched w)"
proof (induction ps arbitrary: w rps)
  case Nil
  then show ?case by simp
next
  case (Cons p ps)
  obtain pr where "procs w p = Some pr" using Cons.prems(4) by auto
  from enqueue_ready_holds [OF Cons.prems(1) this Cons.prems(2)] obtain w1 q nh
    where w1: "scheduler_enqueue_ready al (Some p) w = Some w1" "sched_holds w1 (rps @ [p]) []"
      "w1 = w\<lparr>procs := (procs w)(p \<mapsto> pr\<lparr>pstate := PROC_STATE_RUNNING\<rparr>),
             sched := (sched w)\<lparr>ready_queue := q\<rparr>, nodes := nh, mallocs := mallocs w + 1\<rparr>"
    unfolding Let_def by blast
  have "set ps \<subseteq> dom (procs w1)" using Cons.prems(4) w1(3) by auto
  moreover have "distinct ((rps @ [p]) @ ps)" using Cons.prems(3) by simp
  ultimately obtain w' where w': "enqueue_all al ps w1 = Some w'" "sched_holds w' (rps @ p # ps) []"
    "sched_config w' = sched_config w1" "current_process (sched w') = current_process (sched w1)"
    "current_quantum_remaining (sched w') = current_quantum_remaining (sched w1)"
    using Cons.IH [OF w1(2) Cons.prems(2)] by auto
  have "sched_config w1 = sched_config w" "current_process (sched w1) = current_process (sched w)"
    "current_quantum_remaining (sched w1) = current_quantum_remaining (sched w)"
    by (simp_all add: w1(3) sched_config_def)
  with w' w1(1) show ?case by simp
qed

text \<open>The first tick after boot finds no quantum left and schedules at once.\<close>

lemma first_tick_fair:
  assumes f: "fair_state w (p # rps) bps" and al: "alloc_ok al" and pre: "preemption_enabled (sched w)"
    and q: "current_quantum_remaining (sched w) = 0" and c: "current_process (sched w) = None"
  shows "\<exists>w'. scheduler_tick al w = Some w' \<and> fair_state w' rps bps \<and> current_process (sched w') = Some p \<and>
    sched_config w' = sched_config w \<and> current_quantum_remaining (sched w') = ucast (quantum_ms (sched w))"
proof -
  let ?w = "w\<lparr>sched := (sched w)\<lparr>total_preemptions := total_preemptions (sched w) + 1\<rparr>\<rparr>"
  have run: "sched_running w" using f by (simp add: fair_state_def)
  have f': "fair_state ?w (p # rps) bps" and same: "requeued ?w = []" "sched_config ?w = sched_config w"
    using f c by (simp_all add: fair_state_def sched_running_def requeued_def sched_config_def sched_holds_def)
  have "scheduler_tick al w = scheduler_schedule al ?w"
    using run pre q by (simp add: scheduler_tick_def scheduler_preempt_def sched_running_def)
  with fair_step [OF f' al] same show ?thesis by simp
qed

lemma ticks_from_rest:
  assumes f: "fair_state w ps bps" and al: "alloc_ok al" and pre: "preemption_enabled (sched w)"
    and q: "current_quantum_remaining (sched w) = 0" "0 < quantum_ms (sched w)"
    and c: "current_process (sched w) = None" and k: "k < length ps"
  shows "\<exists>w'. ticks al (1 + k * unat (quantum_ms (sched w))) w = Some w' \<and> current_process (sched w') = Some (ps ! k)"
proof -
  obtain p rps where ps: "ps = p # rps" using k by (cases ps) auto
  from first_tick_fair [OF f [unfolded ps] al pre q(1) c] obtain w1
    where w1: "scheduler_tick al w = Some w1" "fair_state w1 rps bps" "current_process (sched w1) = Some p"
      "sched_config w1 = sched_config w" "current_quantum_remaining (sched w1) = ucast (quantum_ms (sched w))" by blast
  have cfg: "quantum_ms (sched w1) = quantum_ms (sched w)" "preemption_enabled (sched w1)"
    using w1(4) pre by (auto simp: sched_config_def)
  show ?thesis
  proof (cases k)
    case 0
    with w1(1,3) ps show ?thesis by simp
  next
    case (Suc j)
    with k ps have "j < length rps" by simp
    from ticks_fair [OF w1(2) al cfg(2) _ _ this] cfg(1) w1(5) q(2) obtain w2
      where "ticks al (Suc j * unat (quantum_ms (sched w))) w1 = Some w2" "current_process (sched w2) = Some (rps ! j)"
      by auto
    with w1(1) Suc ps show ?thesis by simp
  qed
qed

text \<open>
  C31: Processes made ready after boot get the processor: after a successful boot, processes
  put into the ready queue in some order run one after the other, the one at position \<open>k\<close>
  after \<open>1 + 10 k\<close> ticks of the kernel's timer (the first tick schedules at once, then each
  has a quantum of 10), while the kernel stays in its running state and counts the ticks.
\<close>

theorem boot_then_schedule:
  assumes on: "power_on w" and b: "three_buffers e w b1 b2 b3" and m: "memory_granted e"
    and heap: "finite (dom (nodes (int_sched (k_int w))))" and al: "alloc_ok al"
    and ps: "distinct ps" "set ps \<subseteq> dom (procs (int_sched (k_int w)))" and k: "k < length ps"
  shows "\<exists>w1 s w2. kernel_init e w = Some (Returned 0 w1) \<and>
    enqueue_all al ps (int_sched (k_int w1)) = Some s \<and>
    timer_ticks al (1 + k * 10) (upd_sched (\<lambda>_. s) w1) = Some w2 \<and>
    current_process (sched (int_sched (k_int w2))) = Some (ps ! k) \<and>
    g_tick_counter w2 = g_tick_counter w1 + of_nat (1 + k * 10) \<and> g_kernel_state w2 = KERNEL_STATE_RUNNING"
proof -
  let ?w = "booted_kernel e w b1 b2 b3"
  define s0 where "s0 = int_sched (k_int ?w)"
  have s0: "sched_running s0" "preemption_enabled (sched s0)" "quantum_ms (sched s0) = 10"
    "current_quantum_remaining (sched s0) = 0" "current_process (sched s0) = None" "set ps \<subseteq> dom (procs s0)"
    using on ps(2) by (simp_all add: s0_def booted_kernel_simps scheduler_start_def scheduler_init_def sched_running_def
        power_on_def SCHEDULER_QUANTUM_MS_def)
  have "queue_rep (nodes s0) queue_init []" by (simp add: queue_rep_def queue_init_def)
  then have "sched_holds s0 [] []"
    using on heap by (simp add: sched_holds_def s0_def booted_kernel_simps scheduler_start_def scheduler_init_def power_on_def)
  from enqueue_all_fair [OF this al, of ps] ps(1) s0(6) obtain s
    where s: "enqueue_all al ps s0 = Some s" "sched_holds s ps []" "sched_config s = sched_config s0"
      "current_process (sched s) = None" "current_quantum_remaining (sched s) = 0" using s0(4,5) by auto
  have cfg: "quantum_ms (sched s) = 10" "preemption_enabled (sched s)"
    using s(3) s0(2,3) by (simp_all add: sched_config_def)
  have "fair_state s ps []" using s(2,4) ps(1) sched_running_config [OF s(3)] s0(1) by (simp add: fair_state_def)
  from ticks_from_rest [OF this al cfg(2) s(5) _ s(4) k] cfg(1) obtain s'
    where s': "ticks al (1 + k * 10) s = Some s'" "current_process (sched s') = Some (ps ! k)" by auto
  let ?w1 = "upd_sched (\<lambda>_. s) ?w"
  have "int_sched (k_int ?w1) = s" "g_tick_counter ?w1 = g_tick_counter ?w" "g_kernel_state ?w1 = KERNEL_STATE_RUNNING"
    by (simp_all add: upd_sched_def booted_kernel_simps)
  with timer_ticks_run [of al "1 + k * 10" ?w1 s'] s' obtain w2 where "timer_ticks al (1 + k * 10) ?w1 = Some w2"
    "int_sched (k_int w2) = s'" "g_tick_counter w2 = g_tick_counter ?w + of_nat (1 + k * 10)"
    "g_kernel_state w2 = KERNEL_STATE_RUNNING" by auto
  with kernel_init_boots [OF on b m] s(1) s'(2) show ?thesis unfolding s0_def by blast
qed

text \<open>The loop of a running kernel does not return: a tick never changes the kernel's state.\<close>

lemma kernel_loop_forever: "g_kernel_state w = KERNEL_STATE_RUNNING \<Longrightarrow> kernel_loop al w = None"
proof -
  have "kernel_loop al w = Some r \<Longrightarrow> g_kernel_state w \<noteq> KERNEL_STATE_RUNNING" for r
  proof (rule kernel_loop.raw_induct [where P = "\<lambda>al w r. g_kernel_state w \<noteq> KERNEL_STATE_RUNNING"])
    fix loop :: "allocator \<Rightarrow> kernel_world \<Rightarrow> kernel_world option" and al w r
    assume IH: "\<And>al w r. loop al w = Some r \<Longrightarrow> g_kernel_state w \<noteq> KERNEL_STATE_RUNNING"
      and step: "(if g_kernel_state w \<noteq> KERNEL_STATE_RUNNING then Some w else Option.bind (kernel_timer_tick al w) (loop al)) = Some r"
    show "g_kernel_state w \<noteq> KERNEL_STATE_RUNNING"
    proof
      assume run: "g_kernel_state w = KERNEL_STATE_RUNNING"
      with step obtain w1 where "kernel_timer_tick al w = Some w1" "loop al w1 = Some r" by (auto split: bind_splits)
      with run IH [of al w1 r] show False
        by (auto simp: kernel_timer_tick_def upd_sched_def upd_kstats_def Let_def split: bind_splits)
    qed
  qed
  then show "g_kernel_state w = KERNEL_STATE_RUNNING \<Longrightarrow> ?thesis" by (cases "kernel_loop al w") auto
qed

section \<open>A machine to boot\<close>

definition demo_kernel :: kernel_world where
  "demo_kernel =
     \<lparr>g_kernel_state = KERNEL_STATE_INITIALIZING,
      g_kernel_stats = \<lparr>uptime_ticks = 0, process_count = 0, thread_count = 0, context_switches = 0,
        memory_allocated = 0, memory_free = 0\<rparr>,
      g_panic_info = \<lparr>error_code = 0, fault_address = 0, panic_message = []\<rparr>,
      g_boot_flags = 0, g_boot_time = 0, g_tick_counter = 0,
      k_int = int_blank\<lparr>interrupts_initialized := False,
        int_sched := demo_world\<lparr>sched_initialized := False, nodes := Map.empty\<rparr>\<rparr>,
      k_mem = None, k_dev = dev_blank, k_net = None, k_cpu = cpu_demo\<rparr>"

definition demo_kernel_env :: "bool \<Rightarrow> kernel_env" where
  "demo_kernel_env ok =
     \<lparr>verbose_boot = False, phys_total = 8, phys_avail = 5, tick_count = 1000, handler_addr = (\<lambda>_. 0x1000),
      kstack_buf = 0x10000, ustack_buf = 0x40000, sched_malloc_ok = (\<lambda>_. True), memory_malloc_ok = (\<lambda>_. ok),
      dev_malloc = demo_malloc, java_init_ok = True, java_found = (\<lambda>_. False)\<rparr>"

lemma demo_kernel_on: "power_on demo_kernel" "three_buffers (demo_kernel_env ok) demo_kernel 1 2 3"
  "memory_granted (demo_kernel_env ok) = ok"
  by (simp_all add: power_on_def demo_kernel_def dev_blank_def three_buffers_def demo_kernel_env_def demo_malloc_def
      memory_granted_def)

lemma kernel_boot_outcome_witness:
  "(\<exists>w'. kernel_init (demo_kernel_env True) demo_kernel = Some (Returned 0 w') \<and> g_kernel_state w' = KERNEL_STATE_RUNNING) \<and>
   (\<exists>w'. kernel_init (demo_kernel_env False) demo_kernel = Some (Panicked w') \<and> error_code (g_panic_info w') = 2)"
  using kernel_boot_outcome [OF demo_kernel_on(1) demo_kernel_on(2) [of True]]
    kernel_boot_outcome [OF demo_kernel_on(1) demo_kernel_on(2) [of False]]
  unfolding demo_kernel_on(3) if_True if_False by blast

lemma boot_then_schedule_witness:
  "\<exists>w1 s w2. kernel_init (demo_kernel_env True) demo_kernel = Some (Returned 0 w1) \<and>
    enqueue_all demo_al [70, 60, 80] (int_sched (k_int w1)) = Some s \<and>
    timer_ticks demo_al 21 (upd_sched (\<lambda>_. s) w1) = Some w2 \<and>
    current_process (sched (int_sched (k_int w2))) = Some 80"
proof -
  have h: "finite (dom (nodes (int_sched (k_int demo_kernel))))"
    "set [70, 60, 80] \<subseteq> dom (procs (int_sched (k_int demo_kernel)))"
    by (simp_all add: demo_kernel_def int_blank_def demo_world_def)
  have m: "memory_granted (demo_kernel_env True)" by (simp add: demo_kernel_on)
  from boot_then_schedule [OF demo_kernel_on(1,2) m h(1) demo_al_ok _ h(2), of 2] show ?thesis by force
qed

end
