(* ===== verification/Silicon.thy ===== *)
theory Silicon
  imports Prelude
begin

text \<open>
  The virtual silicon of \<^verbatim>\<open>src/meisei/virtual_silicon.c\<close>: memory pools from which blocks are
  taken in a circle, and the script accelerator on top of them. Addresses are natural numbers
  (NULL is 0); the heap is the list of the blocks allocated, each with its size and whether it
  came from \<^verbatim>\<open>VirtualAlloc\<close>. The allocators, the sizes of the two structures and the number of
  processors are the environment. Left out: the locks, the printing, the clock and the
  floating-point average.
\<close>

section \<open>State\<close>

type_synonym sil_heap = "(nat \<times> nat \<times> bool) list"

record sil_env =
  sil_malloc :: "sil_heap \<Rightarrow> nat \<Rightarrow> nat option"
  sil_valloc :: "sil_heap \<Rightarrow> nat \<Rightarrow> nat option"
  sizeof_silicon :: nat
  sizeof_pool :: nat
  cpu_count :: int

record MeiseiMemoryPool =
  pool_start :: nat
  pool_current :: nat
  pool_size :: nat
  block_size :: nat
  allocations :: u64

record MeiseiVirtualSilicon =
  bytecode_cache :: nat
  jit_cache_size :: nat
  worker_threads :: int
  memory_pools :: "(nat \<times> MeiseiMemoryPool) option list"
  pool_stats :: "u64 list"
  exec_count :: u64
  cache_hits :: u64
  cache_misses :: u64
  virtual_registers :: "u64 list"
  register_flags :: u32
  sil_initialized :: bool
  sil_enabled :: bool

record sil_world =
  g_silicon :: "(nat \<times> MeiseiVirtualSilicon) option"
  sheap :: sil_heap

definition new_block :: "bool \<Rightarrow> (sil_heap \<Rightarrow> nat \<Rightarrow> nat option) \<Rightarrow> nat \<Rightarrow> sil_world \<Rightarrow> nat option \<times> sil_world" where
  "new_block virt f n w =
     (case f (sheap w) n of None \<Rightarrow> (None, w) | Some p \<Rightarrow> (Some p, w\<lparr>sheap := (p, n, virt) # sheap w\<rparr>))"

definition c_malloc :: "sil_env \<Rightarrow> nat \<Rightarrow> sil_world \<Rightarrow> nat option \<times> sil_world" where
  "c_malloc e = new_block False (sil_malloc e)"

definition c_free :: "nat \<Rightarrow> sil_world \<Rightarrow> sil_world" where
  "c_free p w = w\<lparr>sheap := filter (\<lambda>(q, n, virt). q \<noteq> p) (sheap w)\<rparr>"

definition meisei_alloc_pool :: "sil_env \<Rightarrow> nat \<Rightarrow> sil_world \<Rightarrow> nat option \<times> sil_world" where
  "meisei_alloc_pool e = new_block True (sil_valloc e)"

text \<open>\<^verbatim>\<open>VirtualFree\<close> fails on a block that \<^verbatim>\<open>VirtualAlloc\<close> did not return.\<close>

definition meisei_free_pool :: "nat \<Rightarrow> sil_world \<Rightarrow> sil_world" where
  "meisei_free_pool p w = w\<lparr>sheap := filter (\<lambda>(q, n, virt). \<not> (q = p \<and> virt)) (sheap w)\<rparr>"

section \<open>Initialisation\<close>

definition pool_sizes :: "nat list" where
  "pool_sizes = [64, 256, 1024, 4096, 16384, 65536, 262144, 1048576]"

definition null_or :: "nat option \<Rightarrow> nat" where
  "null_or p = (case p of None \<Rightarrow> 0 | Some a \<Rightarrow> a)"

text \<open>One pool of the loop of \<^verbatim>\<open>meisei_silicon_init\<close>; \<open>None\<close> when its structure cannot be allocated.\<close>

definition init_pool :: "sil_env \<Rightarrow> nat \<Rightarrow> sil_world \<Rightarrow> (nat \<times> MeiseiMemoryPool) option \<times> sil_world" where
  "init_pool e bs w =
     (case c_malloc e (sizeof_pool e) w of
        (None, w1) \<Rightarrow> (None, w1)
      | (Some a, w1) \<Rightarrow>
          (let n = bs * 1000;
               (p, w2) = meisei_alloc_pool e n w1;
               (p, w3) = (if p = None \<or> p = Some 0 then c_malloc e n w2 else (p, w2));
               s = null_or p
           in (Some (a, \<lparr>pool_start = s, pool_current = s, pool_size = n, block_size = bs, allocations = 0\<rparr>), w3)))"

fun init_pools :: "sil_env \<Rightarrow> nat list \<Rightarrow> sil_world \<Rightarrow> (nat \<times> MeiseiMemoryPool) option list \<times> sil_world" where
  "init_pools e [] w = ([], w)"
| "init_pools e (bs # bss) w =
     (let (p, w1) = init_pool e bs w; (ps, w2) = init_pools e bss w1 in (p # ps, w2))"

definition meisei_silicon_init :: "sil_env \<Rightarrow> sil_world \<Rightarrow> int \<times> sil_world" where
  "meisei_silicon_init e w =
     (if g_silicon w \<noteq> None then (0, w)
      else (case c_malloc e (sizeof_silicon e) w of
              (None, w1) \<Rightarrow> (-1, w1)
            | (Some a, w1) \<Rightarrow>
                (case c_malloc e (64 * 1024 * 1024) w1 of
                   (None, w2) \<Rightarrow> (-1, c_free a w2)
                 | (Some b, w2) \<Rightarrow>
                     (let (ps, w3) = init_pools e pool_sizes w2 in
                      (0, w3\<lparr>g_silicon := Some (a,
                        \<lparr>bytecode_cache = b, jit_cache_size = 64 * 1024 * 1024, worker_threads = cpu_count e * 2,
                         memory_pools = ps @ replicate 8 None, pool_stats = replicate 16 0,
                         exec_count = 0, cache_hits = 0, cache_misses = 0,
                         virtual_registers = replicate 32 0, register_flags = 0,
                         sil_initialized = True, sil_enabled = True\<rparr>)\<rparr>)))))"

section \<open>Blocks\<close>

definition active :: "sil_world \<Rightarrow> (nat \<times> MeiseiVirtualSilicon) option" where
  "active w = (case g_silicon w of None \<Rightarrow> None | Some (a, s) \<Rightarrow> if sil_enabled s then Some (a, s) else None)"

text \<open>The first pool whose blocks are large enough.\<close>

definition pool_for :: "nat \<Rightarrow> MeiseiVirtualSilicon \<Rightarrow> nat option" where
  "pool_for sz s =
     first_index (\<lambda>p. case p of None \<Rightarrow> False | Some (a, v) \<Rightarrow> sz \<le> block_size v) (take 8 (memory_pools s))"

text \<open>The next block of a pool: past the end the pool starts again.\<close>

definition pool_take :: "MeiseiMemoryPool \<Rightarrow> nat \<times> MeiseiMemoryPool" where
  "pool_take p =
     (let cur = (if pool_start p + pool_size p < pool_current p + block_size p then pool_start p else pool_current p)
      in (cur, p\<lparr>pool_current := cur + block_size p, allocations := allocations p + 1\<rparr>))"

definition meisei_fast_malloc :: "sil_env \<Rightarrow> nat \<Rightarrow> sil_world \<Rightarrow> nat option \<times> sil_world" where
  "meisei_fast_malloc e sz w =
     (case active w of None \<Rightarrow> c_malloc e sz w
      | Some (a, s) \<Rightarrow>
          (case pool_for sz s of None \<Rightarrow> c_malloc e sz w
           | Some i \<Rightarrow>
               (case memory_pools s ! i of None \<Rightarrow> (None, w)
                | Some (q, p) \<Rightarrow>
                    (let (r, p1) = pool_take p in
                     (if r = 0 then None else Some r,
                      w\<lparr>g_silicon := Some (a, s\<lparr>memory_pools := (memory_pools s)[i := Some (q, p1)],
                          pool_stats := (pool_stats s)[i := pool_stats s ! i + 1]\<rparr>)\<rparr>)))))"

section \<open>Scripts\<close>

text \<open>A \<^verbatim>\<open>char\<close> is signed and extended to 64 bits.\<close>

definition meisei_hash_script :: "string \<Rightarrow> u64" where
  "meisei_hash_script script =
     foldl (\<lambda>h c. (h XOR of_int (let n = of_char c in if n < 128 then n else n - 256)) * 1099511628211)
       14695981039346656037 script"

definition meisei_jit_cache_store :: "u64 \<Rightarrow> nat \<Rightarrow> sil_world \<Rightarrow> sil_world" where
  "meisei_jit_cache_store h compiled w = w"

definition meisei_jit_cache_get :: "u64 \<Rightarrow> nat option" where
  "meisei_jit_cache_get h = None"

definition upd_silicon :: "(MeiseiVirtualSilicon \<Rightarrow> MeiseiVirtualSilicon) \<Rightarrow> sil_world \<Rightarrow> sil_world" where
  "upd_silicon f w = w\<lparr>g_silicon := map_option (\<lambda>(a, s). (a, f s)) (g_silicon w)\<rparr>"

text \<open>The result code and the value stored through \<^verbatim>\<open>compiled\<close>, if any.\<close>

definition meisei_jit_compile :: "sil_env \<Rightarrow> string \<Rightarrow> string \<Rightarrow> sil_world \<Rightarrow> int \<times> nat option \<times> sil_world" where
  "meisei_jit_compile e script language w =
     (if active w = None then (-1, None, w)
      else (let h = meisei_hash_script script in
        (case meisei_jit_cache_get h of
           Some c \<Rightarrow> (0, Some c, upd_silicon (\<lambda>s. s\<lparr>cache_hits := cache_hits s + 1\<rparr>) w)
         | None \<Rightarrow>
             (let (code, w1) =
                    (if language = ''lua'' then meisei_fast_malloc e 4096 w
                     else if language = ''python'' then meisei_fast_malloc e 8192 w
                     else if language = ''perl'' then meisei_fast_malloc e 6144 w
                     else (None, w))
              in (case code of None \<Rightarrow> (-1, None, w1)
                  | Some c \<Rightarrow> (0, Some c, upd_silicon (\<lambda>s. s\<lparr>cache_misses := cache_misses s + 1\<rparr>)
                                            (meisei_jit_cache_store h c w1)))))))"

definition cache_ratio :: "sil_world \<Rightarrow> u64" where
  "cache_ratio w =
     (case g_silicon w of None \<Rightarrow> 0
      | Some (a, s) \<Rightarrow> (let total = cache_hits s + cache_misses s in
                       if total > 0 then (cache_hits s * 100) div total else 0))"

definition meisei_silicon_execute_optimized :: "u64 \<Rightarrow> sil_world \<Rightarrow> int \<times> sil_world" where
  "meisei_silicon_execute_optimized start w =
     (if active w = None then (-1, w)
      else (0, upd_silicon (\<lambda>s. s\<lparr>virtual_registers :=
                  (virtual_registers s)[0 := start, 1 := virtual_registers s ! 1 + 1],
                exec_count := exec_count s + 1\<rparr>) w))"

text \<open>A run of block requests; the results array of \<^verbatim>\<open>meisei_parallel_execute\<close> is filled by one.\<close>

fun fast_run :: "sil_env \<Rightarrow> nat list \<Rightarrow> sil_world \<Rightarrow> nat option list \<times> sil_world" where
  "fast_run e [] w = ([], w)"
| "fast_run e (n # ns) w =
     (let (p, w1) = meisei_fast_malloc e n w; (ps, w2) = fast_run e ns w1 in (p # ps, w2))"

text \<open>The results array and its contents; writing through a null array is undefined.\<close>

definition meisei_parallel_execute ::
  "sil_env \<Rightarrow> int \<Rightarrow> sil_world \<Rightarrow> (int \<times> (nat \<times> nat option list) option \<times> sil_world) option" where
  "meisei_parallel_execute e count w =
     (if active w = None \<or> count \<le> 0 then Some (-1, None, w)
      else (let (arr, w1) = meisei_fast_malloc e (8 * nat count) w;
                (ps, w2) = fast_run e (replicate (nat count) 256) w1
            in (case arr of None \<Rightarrow> None | Some p \<Rightarrow> Some (0, Some (p, ps), w2))))"

definition free_one_pool :: "(nat \<times> MeiseiMemoryPool) option \<Rightarrow> sil_world \<Rightarrow> sil_world" where
  "free_one_pool q w =
     (case q of None \<Rightarrow> w
      | Some (a, p) \<Rightarrow> c_free a (if pool_start p \<noteq> 0 then meisei_free_pool (pool_start p) w else w))"

definition meisei_silicon_cleanup :: "sil_world \<Rightarrow> sil_world" where
  "meisei_silicon_cleanup w =
     (case g_silicon w of None \<Rightarrow> w
      | Some (a, s) \<Rightarrow>
          (let w1 = fold free_one_pool (take 8 (memory_pools s)) w;
               w2 = (if bytecode_cache s \<noteq> 0 then c_free (bytecode_cache s) w1 else w1)
           in (c_free a w2)\<lparr>g_silicon := None\<rparr>))"

end
