(* ===== verification/SiliconProps.thy ===== *)
theory SiliconProps
  imports Silicon
begin

text \<open>
  The circular pools: where the block of each request lies, and when two requests share their
  storage.
\<close>

section \<open>One pool\<close>

text \<open>How many blocks lie before the current pointer after \<open>r\<close> requests.\<close>

definition pos :: "nat \<Rightarrow> nat" where
  "pos r = (if r = 0 then 0 else Suc ((r - 1) mod 1000))"

lemma pos_Suc: "pos (Suc r) = Suc (r mod 1000)"
  by (simp add: pos_def)

lemma pos_le: "pos r \<le> 1000"
  using mod_less_divisor [of 1000 "r - 1"] by (simp add: pos_def del: mod_less_divisor)

lemma pos_mod: "pos r mod 1000 = r mod 1000"
  by (cases r) (simp_all add: pos_def mod_Suc_eq)

definition pool_at :: "nat \<Rightarrow> nat \<Rightarrow> nat \<Rightarrow> MeiseiMemoryPool \<Rightarrow> bool" where
  "pool_at b bs r p \<longleftrightarrow> pool_start p = b \<and> block_size p = bs \<and> pool_size p = bs * 1000 \<and>
     pool_current p = b + pos r * bs"

lemma pool_take_at:
  assumes "pool_at b bs r p" and "0 < bs"
  shows "fst (pool_take p) = b + (r mod 1000) * bs" and "pool_at b bs (Suc r) (snd (pool_take p))"
proof -
  have cur: "(if b + bs * 1000 < b + pos r * bs + bs then b else b + pos r * bs) = b + (r mod 1000) * bs"
  proof (cases "pos r = 1000")
    case True
    with pos_mod [of r] assms(2) show ?thesis by simp
  next
    case False
    with pos_le [of r] have l: "pos r < 1000" by simp
    then have "Suc (pos r) * bs \<le> 1000 * bs" by (intro mult_le_mono1) simp
    moreover have "pos r = r mod 1000" using l pos_mod [of r] by simp
    ultimately have "pos r * bs + bs \<le> bs * 1000" "pos r = r mod 1000"
      by (metis add.commute mult.commute mult_Suc, blast)
    then have "\<not> b + bs * 1000 < b + pos r * bs + bs" by linarith
    with \<open>pos r = r mod 1000\<close> show ?thesis by simp
  qed
  have f: "pool_start p = b" "block_size p = bs" "pool_size p = bs * 1000" "pool_current p = b + pos r * bs"
    using assms(1) by (simp_all add: pool_at_def)
  show fst: "fst (pool_take p) = b + (r mod 1000) * bs"
    unfolding pool_take_def Let_def fst_conv f by (rule cur)
  have "pool_current (snd (pool_take p)) = fst (pool_take p) + bs" "pool_start (snd (pool_take p)) = b"
    "block_size (snd (pool_take p)) = bs" "pool_size (snd (pool_take p)) = bs * 1000"
    by (simp_all add: pool_take_def Let_def f)
  with fst show "pool_at b bs (Suc r) (snd (pool_take p))" by (simp add: pool_at_def pos_Suc)
qed

section \<open>All pools\<close>

text \<open>The pool a size is served from.\<close>

definition size_class :: "nat \<Rightarrow> nat option" where
  "size_class n = first_index (\<lambda>b. n \<le> b) pool_sizes"

lemma size_classD: "size_class n = Some i \<Longrightarrow> i < 8 \<and> n \<le> pool_sizes ! i"
  using first_index_SomeD [of "\<lambda>b. n \<le> b" pool_sizes i] by (simp add: size_class_def pool_sizes_def)

lemma size_class_served: "n \<le> 1048576 \<Longrightarrow> \<exists>i. size_class n = Some i"
  unfolding size_class_def by (rule first_index_exists [of 1048576]) (simp_all add: pool_sizes_def)

lemma pool_sizes_pos: "i < 8 \<Longrightarrow> 0 < pool_sizes ! i"
  using nth_mem [of i pool_sizes] by (auto simp: pool_sizes_def)

text \<open>The pools start at \<open>B\<close> and have served \<open>c\<close> requests.\<close>

definition pools_at :: "(nat \<Rightarrow> nat) \<Rightarrow> (nat \<Rightarrow> nat) \<Rightarrow> sil_world \<Rightarrow> bool" where
  "pools_at B c w \<longleftrightarrow> (\<exists>a s. active w = Some (a, s) \<and> length (memory_pools s) = 16 \<and>
     (\<forall>i < 8. B i \<noteq> 0 \<and> (\<exists>q p. memory_pools s ! i = Some (q, p) \<and> pool_at (B i) (pool_sizes ! i) (c i) p)))"

lemma first_index_cong_nth:
  "length xs = length ys \<Longrightarrow> (\<And>i. i < length xs \<Longrightarrow> P (xs ! i) = Q (ys ! i)) \<Longrightarrow> first_index P xs = first_index Q ys"
proof (induction xs ys rule: list_induct2)
  case (Cons x xs y ys)
  from Cons.prems [of 0] have "P x = Q y" by simp
  moreover have "first_index P xs = first_index Q ys"
    using Cons.prems [of "Suc _"] by (intro Cons.IH) force
  ultimately show ?case by simp
qed simp

lemma pool_for_class:
  assumes "length (memory_pools s) = 16"
    and "\<forall>i < 8. \<exists>q p. memory_pools s ! i = Some (q, p) \<and> block_size p = pool_sizes ! i"
  shows "pool_for n s = size_class n"
  unfolding pool_for_def size_class_def
  by (rule first_index_cong_nth) (use assms in \<open>force simp: pool_sizes_def\<close>)+

lemma fast_malloc_at:
  assumes at: "pools_at B c w" and i: "size_class n = Some i"
  shows "\<exists>w'. meisei_fast_malloc e n w = (Some (B i + (c i mod 1000) * pool_sizes ! i), w') \<and>
    pools_at B (c(i := Suc (c i))) w' \<and> sheap w' = sheap w"
proof -
  have i8: "i < 8" "0 < pool_sizes ! i" using size_classD [OF i] pool_sizes_pos by blast+
  obtain a s where s: "active w = Some (a, s)" "length (memory_pools s) = 16" and
    pl: "\<forall>i < 8. B i \<noteq> 0 \<and> (\<exists>q p. memory_pools s ! i = Some (q, p) \<and> pool_at (B i) (pool_sizes ! i) (c i) p)"
    using at unfolding pools_at_def by blast
  obtain q p where p: "memory_pools s ! i = Some (q, p)" "pool_at (B i) (pool_sizes ! i) (c i) p" "B i \<noteq> 0"
    using pl i8 by blast
  have pf: "pool_for n s = Some i"
  proof -
    have "\<forall>i < 8. \<exists>q p. memory_pools s ! i = Some (q, p) \<and> block_size p = pool_sizes ! i"
      using pl unfolding pool_at_def by blast
    from pool_for_class [OF s(2) this, of n] i show ?thesis by simp
  qed
  note t = pool_take_at [OF p(2) i8(2)]
  let ?s' = "s\<lparr>memory_pools := (memory_pools s)[i := Some (q, snd (pool_take p))],
      pool_stats := (pool_stats s)[i := pool_stats s ! i + 1]\<rparr>"
  let ?w' = "w\<lparr>g_silicon := Some (a, ?s')\<rparr>"
  have m: "meisei_fast_malloc e n w = (Some (B i + (c i mod 1000) * pool_sizes ! i), ?w')"
    using s(1) pf p(1,3) t(1) by (simp add: meisei_fast_malloc_def case_prod_beta Let_def)
  have act: "active ?w' = Some (a, ?s')" using s(1)
    by (auto simp: active_def split: option.splits if_splits)
  have "B j \<noteq> 0 \<and> (\<exists>q p. memory_pools ?s' ! j = Some (q, p) \<and>
      pool_at (B j) (pool_sizes ! j) ((c(i := Suc (c i))) j) p)" if "j < 8" for j
    using that pl t(2) s(2) p(3) by (cases "j = i") auto
  with act s(2) have "pools_at B (c(i := Suc (c i))) ?w'" unfolding pools_at_def by force
  with m show ?thesis by auto
qed

text \<open>Requests of one class.\<close>

definition class_count :: "nat \<Rightarrow> nat list \<Rightarrow> nat" where
  "class_count i ns = count_if (\<lambda>n. size_class n = Some i) ns"

lemma fast_run_at:
  assumes "pools_at B c w" and "\<forall>n \<in> set ns. n \<le> 1048576" and "fast_run e ns w = (ps, w')"
  shows "length ps = length ns \<and> sheap w' = sheap w \<and>
    (\<forall>j < length ns. \<exists>i. size_class (ns ! j) = Some i \<and>
       ps ! j = Some (B i + ((c i + class_count i (take j ns)) mod 1000) * pool_sizes ! i))"
  using assms
proof (induction ns arbitrary: c w ps w')
  case Nil
  then show ?case by simp
next
  case (Cons n ns)
  obtain i where i: "size_class n = Some i" using Cons.prems(2) size_class_served by auto
  from fast_malloc_at [OF Cons.prems(1) i, of e] obtain w1
    where w1: "meisei_fast_malloc e n w = (Some (B i + (c i mod 1000) * pool_sizes ! i), w1)"
      "pools_at B (c(i := Suc (c i))) w1" "sheap w1 = sheap w" by blast
  obtain qs where qs: "fast_run e ns w1 = (qs, w')"
      "ps = Some (B i + (c i mod 1000) * pool_sizes ! i) # qs"
    using Cons.prems(3) w1(1) by (auto split: prod.splits)
  note IH = Cons.IH [OF w1(2) _ qs(1)]
  have "\<exists>k. size_class ((n # ns) ! j) = Some k \<and>
      ps ! j = Some (B k + ((c k + class_count k (take j (n # ns))) mod 1000) * pool_sizes ! k)"
    if "j < length (n # ns)" for j
  proof (cases j)
    case 0
    with i qs(2) show ?thesis by (auto simp: class_count_def)
  next
    case (Suc l)
    with that IH Cons.prems(2) obtain k where k: "size_class (ns ! l) = Some k"
      "qs ! l = Some (B k + (((c(i := Suc (c i))) k + class_count k (take l ns)) mod 1000) * pool_sizes ! k)" by auto
    moreover have "(c(i := Suc (c i))) k + class_count k (take l ns) = c k + class_count k (take j (n # ns))"
      using i Suc by (auto simp: class_count_def)
    ultimately show ?thesis using Suc qs(2) by auto
  qed
  with IH Cons.prems(2) w1(3) qs(2) show ?case by simp
qed

section \<open>The initial pools\<close>

definition apart :: "nat \<Rightarrow> nat \<Rightarrow> nat \<Rightarrow> nat \<Rightarrow> bool" where
  "apart p n q m \<longleftrightarrow> {p ..< p + n} \<inter> {q ..< q + m} = {}"

text \<open>What an allocator returns is not NULL and apart from every block in use.\<close>

definition alloc_fresh :: "(sil_heap \<Rightarrow> nat \<Rightarrow> nat option) \<Rightarrow> bool" where
  "alloc_fresh f \<longleftrightarrow> (\<forall>h n p. f h n = Some p \<longrightarrow> p \<noteq> 0 \<and> (\<forall>(q, m, v) \<in> set h. apart p n q m))"

definition sil_env_ok :: "sil_env \<Rightarrow> bool" where
  "sil_env_ok e \<longleftrightarrow> alloc_fresh (sil_malloc e) \<and> alloc_fresh (sil_valloc e)"

lemma new_block_fresh:
  assumes "alloc_fresh f" and "new_block v f n w = (r, w')"
  shows "set (sheap w) \<subseteq> set (sheap w') \<and> (\<forall>p. r = Some p \<longrightarrow> p \<noteq> 0 \<and> (p, n, v) \<in> set (sheap w') \<and>
    (\<forall>(q, m, u) \<in> set (sheap w). apart p n q m))"
  using assms by (auto simp: new_block_def alloc_fresh_def split: option.splits) blast+

lemma init_pool_fresh:
  assumes ok: "sil_env_ok e" and r: "init_pool e bs w = (r, w')"
  shows "set (sheap w) \<subseteq> set (sheap w') \<and> (\<forall>a p. r = Some (a, p) \<longrightarrow> pool_start p \<noteq> 0 \<longrightarrow>
    pool_at (pool_start p) bs 0 p \<and> (\<exists>v. (pool_start p, bs * 1000, v) \<in> set (sheap w')) \<and>
    (\<forall>(q, m, u) \<in> set (sheap w). apart (pool_start p) (bs * 1000) q m))"
proof -
  have fr: "alloc_fresh (sil_malloc e)" "alloc_fresh (sil_valloc e)" using ok by (simp_all add: sil_env_ok_def)
  obtain r1 w1 where 1: "c_malloc e (sizeof_pool e) w = (r1, w1)" by fastforce
  obtain r2 w2 where 2: "meisei_alloc_pool e (bs * 1000) w1 = (r2, w2)" by fastforce
  obtain r3 w3 where 3: "c_malloc e (bs * 1000) w2 = (r3, w3)" by fastforce
  note f1 = new_block_fresh [OF fr(1) 1 [unfolded c_malloc_def]]
  note f2 = new_block_fresh [OF fr(2) 2 [unfolded meisei_alloc_pool_def]]
  note f3 = new_block_fresh [OF fr(1) 3 [unfolded c_malloc_def]]
  show ?thesis
  proof (cases r1)
    case None
    with r 1 f1 show ?thesis by (auto simp: init_pool_def)
  next
    case (Some a)
    show ?thesis
    proof (cases r2)
      case None
      with r 1 2 3 Some have "w' = w3" "r = Some (a, \<lparr>pool_start = null_or r3, pool_current = null_or r3,
          pool_size = bs * 1000, block_size = bs, allocations = 0\<rparr>)" by (simp_all add: init_pool_def Let_def)
      with f1 f2 f3 show ?thesis by (cases r3) (fastforce simp: null_or_def pool_at_def pos_def)+
    next
      case (Some b)
      with f2 have "b \<noteq> 0" by simp
      with r 1 2 \<open>r1 = _\<close> Some have "w' = w2" "r = Some (a, \<lparr>pool_start = b, pool_current = b,
          pool_size = bs * 1000, block_size = bs, allocations = 0\<rparr>)" by (simp_all add: init_pool_def Let_def null_or_def)
      with f1 f2 Some show ?thesis by (fastforce simp: pool_at_def pos_def)
    qed
  qed
qed

text \<open>The region of a pool, as an address and a length; a pool without memory has none.\<close>

definition pool_region :: "(nat \<times> MeiseiMemoryPool) option \<Rightarrow> nat \<times> nat" where
  "pool_region q = (case q of None \<Rightarrow> (0, 0) | Some (a, p) \<Rightarrow> (pool_start p, pool_size p))"

definition has_memory :: "(nat \<times> MeiseiMemoryPool) option \<Rightarrow> bool" where
  "has_memory q \<longleftrightarrow> (case q of None \<Rightarrow> False | Some (a, p) \<Rightarrow> pool_start p \<noteq> 0)"

lemma init_pools_fresh:
  assumes "sil_env_ok e" and "init_pools e bss w = (ps, w')"
  shows "length ps = length bss \<and> set (sheap w) \<subseteq> set (sheap w') \<and>
    (\<forall>i < length bss. has_memory (ps ! i) \<longrightarrow>
      (\<exists>a p. ps ! i = Some (a, p) \<and> pool_at (pool_start p) (bss ! i) 0 p \<and> (\<exists>v. (pool_start p, bss ! i * 1000, v) \<in> set (sheap w')) \<and>
        (\<forall>(q, m, u) \<in> set (sheap w). apart (pool_start p) (bss ! i * 1000) q m) \<and>
        (\<forall>j < i. \<forall>b q. ps ! j = Some (b, q) \<longrightarrow> pool_start q \<noteq> 0 \<longrightarrow>
           apart (pool_start p) (bss ! i * 1000) (pool_start q) (bss ! j * 1000))))"
  using assms(2)
proof (induction bss arbitrary: w ps)
  case Nil
  then show ?case by simp
next
  case (Cons bs bss)
  obtain r w1 where 1: "init_pool e bs w = (r, w1)" by fastforce
  obtain qs where 2: "init_pools e bss w1 = (qs, w')" "ps = r # qs"
    using Cons.prems 1 by (auto split: prod.splits)
  note f1 = init_pool_fresh [OF assms(1) 1]
  note IH = Cons.IH [OF 2(1)]
  show ?case
  proof (intro conjI allI impI)
    show "length ps = length (bs # bss)" using IH 2 by simp
    show "set (sheap w) \<subseteq> set (sheap w')" using f1 IH by blast
    fix i assume i: "i < length (bs # bss)" "has_memory (ps ! i)"
    show "\<exists>a p. ps ! i = Some (a, p) \<and> pool_at (pool_start p) ((bs # bss) ! i) 0 p \<and>
        (\<exists>v. (pool_start p, (bs # bss) ! i * 1000, v) \<in> set (sheap w')) \<and>
        (\<forall>(q, m, u) \<in> set (sheap w). apart (pool_start p) ((bs # bss) ! i * 1000) q m) \<and>
        (\<forall>j < i. \<forall>b q. ps ! j = Some (b, q) \<longrightarrow> pool_start q \<noteq> 0 \<longrightarrow>
           apart (pool_start p) ((bs # bss) ! i * 1000) (pool_start q) ((bs # bss) ! j * 1000))"
    proof (cases i)
      case 0
      with i 2 obtain a p where "r = Some (a, p)" "pool_start p \<noteq> 0"
        by (auto simp: has_memory_def split: option.splits)
      with f1 IH 0 2 show ?thesis by fastforce
    next
      case (Suc k)
      with i 2 have "k < length bss" "has_memory (qs ! k)" by simp_all
      with IH obtain a p where p: "qs ! k = Some (a, p)" "pool_at (pool_start p) (bss ! k) 0 p"
        "\<exists>v. (pool_start p, bss ! k * 1000, v) \<in> set (sheap w')"
        and h1: "\<forall>(q, m, u) \<in> set (sheap w1). apart (pool_start p) (bss ! k * 1000) q m"
        and lt: "\<forall>j < k. \<forall>b q. qs ! j = Some (b, q) \<longrightarrow> pool_start q \<noteq> 0 \<longrightarrow>
           apart (pool_start p) (bss ! k * 1000) (pool_start q) (bss ! j * 1000)" by blast
      have "apart (pool_start p) (bss ! k * 1000) (pool_start q) ((bs # bss) ! j * 1000)"
        if "j < i" "ps ! j = Some (b, q)" "pool_start q \<noteq> 0" for j b q
      proof (cases j)
        case 0
        with that 2 f1 obtain v where "(pool_start q, bs * 1000, v) \<in> set (sheap w1)" by auto
        with h1 0 show ?thesis by auto
      next
        case (Suc l)
        with that lt 2 \<open>i = Suc k\<close> show ?thesis by auto
      qed
      moreover have "\<forall>(q, m, u) \<in> set (sheap w). apart (pool_start p) (bss ! k * 1000) q m" using h1 f1 by blast
      ultimately show ?thesis using p Suc 2 by auto
    qed
  qed
qed

text \<open>Every pool got its memory.\<close>

definition all_pools :: "sil_world \<Rightarrow> bool" where
  "all_pools w \<longleftrightarrow> (case g_silicon w of None \<Rightarrow> False | Some (a, s) \<Rightarrow> \<forall>i < 8. has_memory (memory_pools s ! i))"

lemma silicon_init_pools:
  assumes ok: "sil_env_ok e" and new: "g_silicon w0 = None" and r: "meisei_silicon_init e w0 = (0, w)"
    and all: "all_pools w"
  shows "\<exists>B. pools_at B (\<lambda>_. 0) w \<and> (\<forall>i < 8. \<exists>v. (B i, pool_sizes ! i * 1000, v) \<in> set (sheap w)) \<and>
    (\<forall>i < 8. \<forall>j < i. apart (B i) (pool_sizes ! i * 1000) (B j) (pool_sizes ! j * 1000))"
proof -
  from r new obtain a w1 b w2 where "c_malloc e (sizeof_silicon e) w0 = (Some a, w1)"
      "c_malloc e (64 * 1024 * 1024) w1 = (Some b, w2)"
    by (auto simp: meisei_silicon_init_def split: prod.splits option.splits)
  moreover obtain ps w3 where ps: "init_pools e pool_sizes w2 = (ps, w3)" by fastforce
  ultimately obtain s where s: "w = w3\<lparr>g_silicon := Some (a, s)\<rparr>" "memory_pools s = ps @ replicate 8 None" "sil_enabled s"
    using r new by (auto simp: meisei_silicon_init_def)
  have len: "length pool_sizes = 8" by (simp add: pool_sizes_def)
  note f = init_pools_fresh [OF ok ps, unfolded len]
  have hm: "\<forall>i < 8. has_memory (ps ! i)" using all s f by (auto simp: all_pools_def nth_append)
  define B where "B i = (case ps ! i of None \<Rightarrow> 0 | Some (a, p) \<Rightarrow> pool_start p)" for i
  have at: "\<exists>a p. ps ! i = Some (a, p) \<and> B i = pool_start p \<and> B i \<noteq> 0 \<and> pool_at (B i) (pool_sizes ! i) 0 p \<and>
      (\<exists>v. (B i, pool_sizes ! i * 1000, v) \<in> set (sheap w3))" if "i < 8" for i
    using f hm that by (fastforce simp: B_def has_memory_def split: option.splits)
  have "pools_at B (\<lambda>_. 0) w"
    unfolding pools_at_def using s f at by (intro exI [of _ a] exI [of _ s]) (force simp: active_def nth_append)
  moreover have "\<forall>i < 8. \<forall>j < i. apart (B i) (pool_sizes ! i * 1000) (B j) (pool_sizes ! j * 1000)"
  proof (intro allI impI)
    fix i j :: nat assume ij: "i < 8" "j < i"
    from at [of i] at [of j] ij obtain a p b q where "ps ! i = Some (a, p)" "B i = pool_start p" "ps ! j = Some (b, q)"
      "B j = pool_start q" "B j \<noteq> 0" by auto
    with f hm ij show "apart (B i) (pool_sizes ! i * 1000) (B j) (pool_sizes ! j * 1000)" by auto
  qed
  ultimately show ?thesis using at s(1) by (intro exI [of _ B]) auto
qed

section \<open>Properties\<close>

lemma block_in_region: "r < 1000 \<Longrightarrow> n \<le> bs \<Longrightarrow> {b + r * bs ..< b + r * bs + n} \<subseteq> {b ..< b + bs * 1000}"
  for b bs n r :: nat
proof -
  assume "r < 1000" "n \<le> bs"
  then have "Suc r * bs \<le> 1000 * bs" by (intro mult_le_mono1) simp
  then have "bs + r * bs \<le> 1000 * bs" by (metis mult_Suc)
  with \<open>n \<le> bs\<close> have "r * bs + n \<le> bs * 1000" by linarith
  then show ?thesis by auto
qed

lemma blocks_apart: "r < r' \<Longrightarrow> n \<le> bs \<Longrightarrow> {b + r * bs ..< b + r * bs + n} \<inter> {b + r' * bs ..< b + r' * bs + m} = {}"
  for b bs n m r r' :: nat
proof -
  assume "r < r'" "n \<le> bs"
  then have "Suc r * bs \<le> r' * bs" by (intro mult_le_mono1) simp
  with \<open>n \<le> bs\<close> have "r * bs + n \<le> r' * bs" by simp
  then show ?thesis by auto
qed

lemma class_count_split:
  "j \<le> k \<Longrightarrow> k \<le> length ns \<Longrightarrow>
    class_count i (take k ns) = class_count i (take j ns) + class_count i (take (k - j) (drop j ns))"
  using take_add [of j "k - j" ns] by (simp add: class_count_def count_if_def flip: filter_append length_append)

text \<open>
  C29: The blocks of the accelerator lie inside the memory obtained for the pools, and are
  handed out again: after a successful initialisation in which every pool got memory, every
  request of at most 1 MB returns a block of at least that size inside a block of the heap;
  two requests of a run return the same address if they are served by the same pool and the
  requests of that pool from the first up to the second are a multiple of 1000, and blocks
  without a common byte otherwise. Nothing is ever given back, so with the 1001st request of
  a pool two blocks in use coincide.
\<close>

theorem fast_malloc_circle:
  assumes env: "sil_env_ok e" and new: "g_silicon w0 = None" and r: "meisei_silicon_init e w0 = (0, w)"
    and all: "all_pools w" and sizes: "\<forall>n \<in> set ns. n \<le> 1048576" and run: "fast_run e ns w = (ps, w')"
    and jk: "j < k" "k < length ns"
  shows "\<exists>pj pk. ps ! j = Some pj \<and> ps ! k = Some pk \<and>
    (\<exists>q n v. (q, n, v) \<in> set (sheap w') \<and> {pj ..< pj + ns ! j} \<subseteq> {q ..< q + n}) \<and>
    (if \<exists>i. size_class (ns ! j) = Some i \<and> size_class (ns ! k) = Some i \<and>
           1000 dvd class_count i (take (k - j) (drop j ns))
     then pj = pk else {pj ..< pj + ns ! j} \<inter> {pk ..< pk + ns ! k} = {})"
proof -
  from silicon_init_pools [OF env new r all] obtain B where B: "pools_at B (\<lambda>_. 0) w"
    and reg: "\<forall>i < 8. \<exists>v. (B i, pool_sizes ! i * 1000, v) \<in> set (sheap w)"
    and ap: "\<forall>i < 8. \<forall>j < i. apart (B i) (pool_sizes ! i * 1000) (B j) (pool_sizes ! j * 1000)" by blast
  note f = fast_run_at [OF B sizes run]
  have jl: "j < length ns" using jk by simp
  obtain a where a: "size_class (ns ! j) = Some a"
    "ps ! j = Some (B a + (class_count a (take j ns) mod 1000) * pool_sizes ! a)" using f jl by (metis add_0)
  obtain b where b: "size_class (ns ! k) = Some b"
    "ps ! k = Some (B b + (class_count b (take k ns) mod 1000) * pool_sizes ! b)" using f jk(2) by (metis add_0)
  note ca = size_classD [OF a(1)] and cb = size_classD [OF b(1)]
  let ?ra = "class_count a (take j ns) mod 1000" and ?rb = "class_count b (take k ns) mod 1000"
  let ?pa = "B a + ?ra * pool_sizes ! a" and ?pb = "B b + ?rb * pool_sizes ! b"
  have in_a: "{?pa ..< ?pa + ns ! j} \<subseteq> {B a ..< B a + pool_sizes ! a * 1000}"
    and in_b: "{?pb ..< ?pb + ns ! k} \<subseteq> {B b ..< B b + pool_sizes ! b * 1000}"
    using block_in_region [of ?ra "ns ! j" "pool_sizes ! a" "B a"]
      block_in_region [of ?rb "ns ! k" "pool_sizes ! b" "B b"] ca cb by (simp_all only: mod_less_divisor zero_less_numeral)
  have heap: "\<exists>q n v. (q, n, v) \<in> set (sheap w') \<and> {?pa ..< ?pa + ns ! j} \<subseteq> {q ..< q + n}"
  proof -
    obtain v where "(B a, pool_sizes ! a * 1000, v) \<in> set (sheap w')" using reg ca f by metis
    with in_a show ?thesis by blast
  qed
  have sep: "{?pa ..< ?pa + ns ! j} \<inter> {?pb ..< ?pb + ns ! k} = {}" if "a \<noteq> b"
  proof -
    have "apart (B a) (pool_sizes ! a * 1000) (B b) (pool_sizes ! b * 1000)"
      using that ap ca cb by (cases "a < b") (auto simp: apart_def)
    with in_a in_b show ?thesis unfolding apart_def by blast
  qed
  have split: "?rb = (class_count a (take j ns) + class_count a (take (k - j) (drop j ns))) mod 1000" if "a = b"
    using that class_count_split [of j k ns a] jk by simp
  have same: "?ra = ?rb \<longleftrightarrow> 1000 dvd class_count a (take (k - j) (drop j ns))" if "a = b"
    unfolding split [OF that]
    using mod_eq_dvd_iff_nat [of "class_count a (take j ns)" "class_count a (take j ns) + class_count a (take (k - j) (drop j ns))" 1000]
    by auto
  have diff: "{?pa ..< ?pa + ns ! j} \<inter> {?pb ..< ?pb + ns ! k} = {}" if ab: "a = b" and n: "?ra \<noteq> ?rb"
  proof (cases "?ra < ?rb")
    case True
    from blocks_apart [OF this, of "ns ! j" "pool_sizes ! a" "B a" "ns ! k"] ca ab show ?thesis by (simp only:)
  next
    case False
    with n have "?rb < ?ra" by simp
    from blocks_apart [OF this, of "ns ! k" "pool_sizes ! b" "B b" "ns ! j"] cb ab show ?thesis by auto
  qed
  have "if \<exists>i. size_class (ns ! j) = Some i \<and> size_class (ns ! k) = Some i \<and>
           1000 dvd class_count i (take (k - j) (drop j ns))
     then ?pa = ?pb else {?pa ..< ?pa + ns ! j} \<inter> {?pb ..< ?pb + ns ! k} = {}"
  proof (cases "a = b")
    case True
    with same [OF True] diff [OF True] a(1) b(1) show ?thesis by auto
  next
    case False
    with sep a(1) b(1) show ?thesis by auto
  qed
  with a(2) b(2) heap show ?thesis by blast
qed

text \<open>Nothing is cached: every compilation is a miss and the ratio of hits stays 0.\<close>

lemma jit_never_hits:
  "meisei_jit_compile e script language w = (r, c, w') \<Longrightarrow> cache_ratio w = 0 \<Longrightarrow>
     (case g_silicon w of None \<Rightarrow> True | Some (a, s) \<Rightarrow> cache_hits s = 0) \<Longrightarrow>
     (case g_silicon w' of None \<Rightarrow> True | Some (a, s) \<Rightarrow> cache_hits s = 0) \<and> cache_ratio w' = 0"
  by (auto simp: meisei_jit_compile_def meisei_jit_cache_get_def meisei_jit_cache_store_def cache_ratio_def
      upd_silicon_def meisei_fast_malloc_def active_def c_malloc_def new_block_def Let_def
      split: option.splits if_splits prod.splits)

text \<open>An allocator that takes the address behind all blocks.\<close>

definition bump :: "sil_heap \<Rightarrow> nat \<Rightarrow> nat option" where
  "bump h n = Some (Suc (foldr (\<lambda>(q, m, v) t. q + m + t) h 0))"

definition bump_env :: sil_env where
  "bump_env = \<lparr>sil_malloc = bump, sil_valloc = bump, sizeof_silicon = 600, sizeof_pool = 88, cpu_count = 4\<rparr>"

lemma bump_fresh: "alloc_fresh bump"
proof -
  have "(q, m, v) \<in> set h \<Longrightarrow> q + m \<le> foldr (\<lambda>(q, m, v) t. q + m + t) h 0" for q m v and h :: sil_heap
    by (induction h) auto
  then show ?thesis by (fastforce simp: alloc_fresh_def bump_def apart_def)
qed

lemma bump_env_ok: "sil_env_ok bump_env"
  by (simp add: sil_env_ok_def bump_env_def bump_fresh)

lemma init_pool_bump:
  "\<exists>p w'. init_pool bump_env bs w = (p, w') \<and> has_memory p"
  by (simp add: init_pool_def c_malloc_def meisei_alloc_pool_def new_block_def bump_env_def bump_def has_memory_def
      null_or_def Let_def)

lemma init_pools_bump:
  "\<exists>ps w'. init_pools bump_env bss w = (ps, w') \<and> length ps = length bss \<and> (\<forall>p \<in> set ps. has_memory p)"
proof (induction bss arbitrary: w)
  case (Cons bs bss)
  obtain p w1 where "init_pool bump_env bs w = (p, w1)" "has_memory p" using init_pool_bump by blast
  with Cons [of w1] show ?case by auto
qed simp

lemma fast_malloc_circle_witness:
  "\<exists>w ps w' p q. meisei_silicon_init bump_env \<lparr>g_silicon = None, sheap = []\<rparr> = (0, w) \<and>
     fast_run bump_env (replicate 1001 64) w = (ps, w') \<and> ps ! 0 = Some p \<and> ps ! 1000 = Some p \<and>
     ps ! 1 = Some q \<and> {p ..< p + 64} \<inter> {q ..< q + 64} = {}"
proof -
  let ?w0 = "\<lparr>g_silicon = None, sheap = []\<rparr> :: sil_world"
  let ?ns = "replicate 1001 (64 :: nat)"
  obtain w where w: "meisei_silicon_init bump_env ?w0 = (0, w)" "all_pools w"
  proof -
    obtain a w1 where 1: "c_malloc bump_env (sizeof_silicon bump_env) ?w0 = (Some a, w1)"
      by (simp add: c_malloc_def new_block_def bump_env_def bump_def)
    obtain b w2 where 2: "c_malloc bump_env 67108864 w1 = (Some b, w2)"
      by (simp add: c_malloc_def new_block_def bump_env_def bump_def)
    obtain ps w3 where 3: "init_pools bump_env pool_sizes w2 = (ps, w3)" "length ps = 8" "\<forall>p \<in> set ps. has_memory p"
      using init_pools_bump [of pool_sizes w2] by (auto simp: pool_sizes_def)
    from 1 2 3 show ?thesis
      by (intro that) (auto simp: meisei_silicon_init_def all_pools_def nth_append)
  qed
  obtain ps w' where run: "fast_run bump_env ?ns w = (ps, w')" by fastforce
  have sz: "\<forall>n \<in> set ?ns. n \<le> 1048576" by simp
  have c: "size_class 64 = Some 0" by (simp add: size_class_def pool_sizes_def)
  have n: "g_silicon ?w0 = None" by simp
  note T = fast_malloc_circle [OF bump_env_ok n w sz run]
  have cnt: "class_count 0 (take (k - j) (drop j ?ns)) = k - j" if "k < 1001" for j k
    using that c by (simp add: class_count_def)
  from T [of 0 1000] cnt [of 1000 0] c obtain p where p: "ps ! 0 = Some p" "ps ! 1000 = Some p" by auto
  from T [of 0 1] cnt [of 1 0] c p(1) obtain q where q: "ps ! 1 = Some q" "{p ..< p + 64} \<inter> {q ..< q + 64} = {}" by auto
  from w(1) run p q show ?thesis by blast
qed

end
