(* ===== verification/Disk.thy ===== *)
theory Disk
  imports VfsDemo
begin

text \<open>
  Disk statistics over the tree of the virtual file system (\<^verbatim>\<open>src/system/disk.c\<close>). The two
  recursive functions take the number of nested calls the stack allows; running out of it is
  \<open>None\<close>, like a dangling pointer. A \<^verbatim>\<open>size_t\<close> of a node is read as 64 bits. The \<^verbatim>\<open>int\<close> count
  of nodes is not bounded: it overflows only with 2^31 nodes. Left out: the formatting of sizes,
  which is floating point, and the mount list, which is one call of \<open>disk_get_info\<close>.
\<close>

section \<open>Data\<close>

record DiskInfo =
  mount_point :: string
  filesystem_type :: string
  total_size :: u64
  used_size :: u64
  available_size :: u64
  total_inodes :: u64
  used_inodes :: u64
  available_inodes :: u64
  usage_percent :: int
  disk_readonly :: bool

record DiskEntry =
  de_name :: string
  de_size :: u64
  de_is_directory :: bool
  de_modified_time :: int
  de_permissions :: string

definition zero_info :: DiskInfo where
  "zero_info = \<lparr>mount_point = [], filesystem_type = [], total_size = 0, used_size = 0, available_size = 0,
     total_inodes = 0, used_inodes = 0, available_inodes = 0, usage_percent = 0, disk_readonly = False\<rparr>"

definition zero_entry :: DiskEntry where
  "zero_entry = \<lparr>de_name = [], de_size = 0, de_is_directory = False, de_modified_time = 0, de_permissions = []\<rparr>"

section \<open>Sums over a subtree\<close>

fun count_inodes_recursive :: "nat \<Rightarrow> node_store \<Rightarrow> vptr \<Rightarrow> int option" where
  "count_inodes_recursive 0 h node = None"
| "count_inodes_recursive (Suc depth) h node = do {
     n \<leftarrow> h node;
     cs \<leftarrow> those (map (count_inodes_recursive depth h) (if is_directory n then children n else []));
     Some (1 + sum_list cs) }"

fun calculate_size_recursive :: "nat \<Rightarrow> node_store \<Rightarrow> vptr \<Rightarrow> u64 option" where
  "calculate_size_recursive 0 h node = None"
| "calculate_size_recursive (Suc depth) h node = do {
     n \<leftarrow> h node;
     cs \<leftarrow> those (map (calculate_size_recursive depth h) (if is_directory n then children n else []));
     Some (of_nat (vsize n) + sum_list cs) }"

section \<open>Information about the disk\<close>

text \<open>The fields set after the path is found.\<close>

definition fill_info :: "u64 \<Rightarrow> int \<Rightarrow> DiskInfo \<Rightarrow> DiskInfo" where
  "fill_info used inodes i =
     (let tot = 1024 * 1024 * 1024 * 10 in
      i\<lparr>total_size := tot, used_size := used, available_size := tot - used,
        usage_percent := sint (ucast (used * 100 div tot) :: u32), total_inodes := 100000,
        used_inodes := of_int inodes, available_inodes := 100000 - of_int inodes, disk_readonly := False\<rparr>)"

definition disk_get_info :: "nat \<Rightarrow> string option \<Rightarrow> vfs_world \<Rightarrow> (int \<times> DiskInfo) option" where
  "disk_get_info depth path w =
     (case path of None \<Rightarrow> Some (-1, zero_info)
      | Some p \<Rightarrow> do {
          let i = zero_info\<lparr>mount_point := take 255 p, filesystem_type := ''ZoraVFS''\<rparr>;
          node \<leftarrow> vfs_find_node w path;
          (case node of None \<Rightarrow> Some (-1, i)
           | Some a \<Rightarrow>
               (case vm_fs w of
                  None \<Rightarrow> Some (0, fill_info 0 0 i)
                | Some fs \<Rightarrow> do {
                    used \<leftarrow> calculate_size_recursive depth (vnodes w) (vfs_root fs);
                    inodes \<leftarrow> count_inodes_recursive depth (vnodes w) (vfs_root fs);
                    Some (0, fill_info used inodes i) })) })"

definition disk_get_free_space :: "nat \<Rightarrow> string option \<Rightarrow> vfs_world \<Rightarrow> u64 option" where
  "disk_get_free_space depth path w =
     map_option (\<lambda>(r, i). if r = 0 then available_size i else 0) (disk_get_info depth path w)"

definition disk_get_total_space :: "nat \<Rightarrow> string option \<Rightarrow> vfs_world \<Rightarrow> u64 option" where
  "disk_get_total_space depth path w =
     map_option (\<lambda>(r, i). if r = 0 then total_size i else 0) (disk_get_info depth path w)"

definition disk_get_usage_percent :: "nat \<Rightarrow> string option \<Rightarrow> vfs_world \<Rightarrow> int option" where
  "disk_get_usage_percent depth path w =
     map_option (\<lambda>(r, i). if r = 0 then usage_percent i else -1) (disk_get_info depth path w)"

section \<open>Entries\<close>

definition permission_chars :: "VNode \<Rightarrow> string" where
  "permission_chars n =
     (let bit = (\<lambda>m c. if vmode n AND m \<noteq> 0 then c else CHR ''-'') in
      [if is_directory n then CHR ''d'' else CHR ''-'',
       bit 0x100 (CHR ''r''), bit 0x080 (CHR ''w''), bit 0x040 (CHR ''x''),
       bit 0x020 (CHR ''r''), bit 0x010 (CHR ''w''), bit 0x008 (CHR ''x''),
       bit 0x004 (CHR ''r''), bit 0x002 (CHR ''w''), bit 0x001 (CHR ''x'')])"

definition entry_for :: "VNode \<Rightarrow> DiskEntry" where
  "entry_for n = \<lparr>de_name = take 255 (vname n), de_size = of_nat (vsize n), de_is_directory = is_directory n,
     de_modified_time = modified_time n, de_permissions = permission_chars n\<rparr>"

text \<open>The nodes of a list of children.\<close>

definition nodes_of :: "node_store \<Rightarrow> vptr list \<Rightarrow> VNode list option" where
  "nodes_of h cs = those (map h cs)"

definition disk_list_directory ::
  "(nat \<Rightarrow> bool) \<Rightarrow> string option \<Rightarrow> vfs_world \<Rightarrow> (int \<times> DiskEntry list) option" where
  "disk_list_directory calloc_ok path w =
     (if path = None then Some (-1, [])
      else do {
        dir \<leftarrow> vfs_find_node w path;
        (case dir of None \<Rightarrow> Some (-1, [])
         | Some d \<Rightarrow> do {
             n \<leftarrow> vnodes w d;
             (if \<not> is_directory n then Some (-1, [])
              else do {
                cs \<leftarrow> nodes_of (vnodes w) (children n);
                Some (if calloc_ok (length cs) then (0, map entry_for cs) else (-1, [])) }) }) })"

definition disk_get_file_size :: "string option \<Rightarrow> vfs_world \<Rightarrow> u64 option" where
  "disk_get_file_size path w = do {
     node \<leftarrow> vfs_find_node w path;
     (case node of None \<Rightarrow> Some 0
      | Some a \<Rightarrow> do { n \<leftarrow> vnodes w a; Some (if is_directory n then 0 else of_nat (vsize n)) }) }"

definition disk_get_file_mtime :: "string option \<Rightarrow> vfs_world \<Rightarrow> int option" where
  "disk_get_file_mtime path w = do {
     node \<leftarrow> vfs_find_node w path;
     (case node of None \<Rightarrow> Some 0 | Some a \<Rightarrow> do { n \<leftarrow> vnodes w a; Some (modified_time n) }) }"

text \<open>The result and the entry after the call.\<close>

definition disk_get_file_info :: "string option \<Rightarrow> DiskEntry \<Rightarrow> vfs_world \<Rightarrow> (int \<times> DiskEntry) option" where
  "disk_get_file_info path entry w =
     (if path = None then Some (-1, entry)
      else do {
        node \<leftarrow> vfs_find_node w path;
        (case node of None \<Rightarrow> Some (-1, entry) | Some a \<Rightarrow> do { n \<leftarrow> vnodes w a; Some (0, entry_for n) }) })"

definition disk_calculate_directory_size :: "nat \<Rightarrow> string option \<Rightarrow> bool \<Rightarrow> vfs_world \<Rightarrow> u64 option" where
  "disk_calculate_directory_size depth path recursive w = do {
     node \<leftarrow> vfs_find_node w path;
     (case node of None \<Rightarrow> Some 0
      | Some a \<Rightarrow> do {
          n \<leftarrow> vnodes w a;
          (if \<not> is_directory n then Some (of_nat (vsize n))
           else if recursive then calculate_size_recursive depth (vnodes w) a
           else do {
             cs \<leftarrow> nodes_of (vnodes w) (children n);
             Some (sum_list (map (\<lambda>c. of_nat (vsize c)) (filter (\<lambda>c. \<not> is_directory c) cs))) }) }) }"

definition disk_path_exists :: "string option \<Rightarrow> vfs_world \<Rightarrow> bool option" where
  "disk_path_exists path w = map_option (\<lambda>r. r \<noteq> None) (vfs_find_node w path)"

definition disk_is_directory :: "string option \<Rightarrow> vfs_world \<Rightarrow> bool option" where
  "disk_is_directory path w = do {
     node \<leftarrow> vfs_find_node w path;
     (case node of None \<Rightarrow> Some False | Some a \<Rightarrow> do { n \<leftarrow> vnodes w a; Some (is_directory n) }) }"

definition disk_is_file :: "string option \<Rightarrow> vfs_world \<Rightarrow> bool option" where
  "disk_is_file path w = do {
     node \<leftarrow> vfs_find_node w path;
     (case node of None \<Rightarrow> Some False | Some a \<Rightarrow> do { n \<leftarrow> vnodes w a; Some (\<not> is_directory n) }) }"

definition disk_find_large_files ::
  "(nat \<Rightarrow> bool) \<Rightarrow> string option \<Rightarrow> u64 \<Rightarrow> vfs_world \<Rightarrow> (int \<times> DiskEntry list) option" where
  "disk_find_large_files calloc_ok path min_size w =
     (if path = None then Some (-1, [])
      else do {
        dir \<leftarrow> vfs_find_node w path;
        (case dir of None \<Rightarrow> Some (-1, [])
         | Some d \<Rightarrow> do {
             n \<leftarrow> vnodes w d;
             (if \<not> is_directory n then Some (-1, [])
              else do {
                cs \<leftarrow> nodes_of (vnodes w) (children n);
                let big = filter (\<lambda>c. \<not> is_directory c \<and> min_size \<le> of_nat (vsize c)) cs;
                (if big = [] then Some (0, [])
                 else if \<not> calloc_ok (length big) then Some (-1, [])
                 else do {
                   es \<leftarrow> those (map (\<lambda>c. map_option snd (disk_get_file_info (Some (vname c)) zero_entry w)) big);
                   Some (0, es) }) }) }) })"

section \<open>Quotas\<close>

definition disk_get_quota :: "string option \<Rightarrow> (u64 \<times> u64) option" where
  "disk_get_quota user = (if user = None then None else Some (1024 * 1024 * 1024, 0))"

definition disk_check_quota :: "string option \<Rightarrow> int" where
  "disk_check_quota user = (case disk_get_quota user of None \<Rightarrow> -1 | Some (q, u) \<Rightarrow> if u < q then 0 else -1)"

end
