(* ===== verification/DiskProps.thy ===== *)
theory DiskProps
  imports Disk
begin

text \<open>
  The recursive statistics of the disk agree with the set of nodes below the root, and the
  listing of a directory with its children.
\<close>

section \<open>The tree below a node\<close>

definition kid :: "node_store \<Rightarrow> (vptr \<times> vptr) set" where
  "kid h = {(a, b). \<exists>n. h a = Some n \<and> b \<in> set (children n)}"

definition below :: "node_store \<Rightarrow> vptr \<Rightarrow> vptr set" where
  "below h a = {b. (a, b) \<in> (kid h)\<^sup>*}"

lemma kid_unique: "vfs_wf h root \<Longrightarrow> (a, c) \<in> kid h \<Longrightarrow> (b, c) \<in> kid h \<Longrightarrow> a = b"
proof -
  assume wf: "vfs_wf h root" and "(a, c) \<in> kid h" "(b, c) \<in> kid h"
  then obtain n m where "h a = Some n" "c \<in> set (children n)" "h b = Some m" "c \<in> set (children m)"
    by (auto simp: kid_def)
  with wf_child [OF wf, of a n c] wf_child [OF wf, of b m c] show "a = b" by auto
qed

lemma kid_root: "vfs_wf h root \<Longrightarrow> (a, root) \<notin> kid h"
  using wf_root_no_child by (force simp: kid_def)

lemma kid_dom: "vfs_wf h root \<Longrightarrow> (a, b) \<in> kid h \<Longrightarrow> b \<in> dom h"
  by (force simp: kid_def dest: wf_child)

lemma level_dom: "vfs_wf h root \<Longrightarrow> (root, b) \<in> kid h ^^ k \<Longrightarrow> b \<in> dom h"
  using wf_root [of h root] kid_dom [of h root _ b] by (cases k) auto

lemma level_unique: "vfs_wf h root \<Longrightarrow> (root, b) \<in> kid h ^^ j \<Longrightarrow> (root, b) \<in> kid h ^^ k \<Longrightarrow> j = k"
proof (induction j arbitrary: b k)
  case 0
  then show ?case using kid_root [of h root] by (cases k) auto
next
  case (Suc j)
  then obtain a where a: "(root, a) \<in> kid h ^^ j" "(a, b) \<in> kid h" by auto
  show ?case
  proof (cases k)
    case 0
    with Suc.prems a(2) kid_root [of h root] show ?thesis by auto
  next
    case (Suc l)
    with Suc.prems(3) obtain a' where "(root, a') \<in> kid h ^^ l" "(a', b) \<in> kid h" by auto
    with a kid_unique [OF Suc.prems(1)] Suc.IH [OF Suc.prems(1)] Suc show ?thesis by blast
  qed
qed

lemma back_unique: "vfs_wf h root \<Longrightarrow> (c, b) \<in> kid h ^^ i \<Longrightarrow> (c', b) \<in> kid h ^^ i \<Longrightarrow> c = c'"
proof (induction i arbitrary: b)
  case 0
  then show ?case by simp
next
  case (Suc i)
  then obtain x y where "(c, x) \<in> kid h ^^ i" "(x, b) \<in> kid h" "(c', y) \<in> kid h ^^ i" "(y, b) \<in> kid h" by auto
  with kid_unique [OF Suc.prems(1)] Suc.IH [OF Suc.prems(1)] show ?case by blast
qed

lemma level_bound:
  assumes wf: "vfs_wf h root" and fin: "finite (dom h)" and k: "(root, b) \<in> kid h ^^ k"
  shows "k < card (dom h)"
proof -
  have ex: "\<exists>a. (root, a) \<in> kid h ^^ j" if "j \<le> k" for j
    using k that relpow_add [of j "k - j" "kid h"] by (auto simp: relcomp_unfold)
  define f where "f j = (SOME a. (root, a) \<in> kid h ^^ j)" for j
  have f: "(root, f j) \<in> kid h ^^ j" if "j \<le> k" for j
    using ex [OF that] unfolding f_def by (rule someI_ex)
  have "inj_on f {..k}"
    using f level_unique [OF wf] by (auto intro!: inj_onI) (metis f)
  moreover have "f ` {..k} \<subseteq> dom h" using f level_dom [OF wf] by blast
  ultimately have "card {..k} \<le> card (dom h)" using fin by (rule card_inj_on_le)
  then show ?thesis by simp
qed

lemma below_unfold: "h a = Some n \<Longrightarrow> below h a = insert a (\<Union>c \<in> set (children n). below h c)"
proof -
  assume n: "h a = Some n"
  have "(a, b) \<in> (kid h)\<^sup>* \<longleftrightarrow> b = a \<or> (\<exists>c \<in> set (children n). (c, b) \<in> (kid h)\<^sup>*)" for b
  proof
    assume "(a, b) \<in> (kid h)\<^sup>*"
    then show "b = a \<or> (\<exists>c \<in> set (children n). (c, b) \<in> (kid h)\<^sup>*)"
      using n by (cases rule: converse_rtranclE) (auto simp: kid_def)
  next
    assume "b = a \<or> (\<exists>c \<in> set (children n). (c, b) \<in> (kid h)\<^sup>*)"
    then show "(a, b) \<in> (kid h)\<^sup>*"
      using n by (auto simp: kid_def intro: converse_rtrancl_into_rtrancl)
  qed
  then show "below h a = insert a (\<Union>c \<in> set (children n). below h c)" by (auto simp: below_def)
qed

lemma below_finite:
  assumes "vfs_wf h root" and "finite (dom h)"
  shows "finite (below h a)"
proof -
  have "b \<in> insert a (dom h)" if "(a, b) \<in> (kid h)\<^sup>*" for b
    using that by (cases rule: rtranclE) (use kid_dom [OF assms(1)] in auto)
  then have "below h a \<subseteq> insert a (dom h)" by (auto simp: below_def)
  with assms(2) show ?thesis by (meson finite_insert rev_finite_subset)
qed

text \<open>A sum over a subtree is the node's share and the sums over its children.\<close>

lemma below_sum:
  fixes g :: "vptr \<Rightarrow> 'a :: comm_monoid_add"
  assumes wf: "vfs_wf h root" and fin: "finite (dom h)" and a: "(root, a) \<in> kid h ^^ k" and n: "h a = Some n"
  shows "(\<Sum>b \<in> below h a. g b) = g a + sum_list (map (\<lambda>c. \<Sum>b \<in> below h c. g b) (children n))"
proof -
  have lev: "(root, b) \<in> kid h ^^ (Suc k + i)" if "c \<in> set (children n)" "(c, b) \<in> kid h ^^ i" for b c i
  proof -
    have "(a, c) \<in> kid h" using that n by (auto simp: kid_def)
    with a have "(root, c) \<in> kid h ^^ Suc k" by auto
    with that(2) show ?thesis by (auto simp only: relpow_add relcomp_unfold)
  qed
  have notin: "a \<notin> (\<Union>c \<in> set (children n). below h c)"
  proof
    assume "a \<in> (\<Union>c \<in> set (children n). below h c)"
    then obtain c i where "c \<in> set (children n)" "(c, a) \<in> kid h ^^ i" by (auto simp: below_def rtrancl_power)
    from level_unique [OF wf lev [OF this] a] show False by simp
  qed
  have dis: "below h c \<inter> below h c' = {}" if "c \<in> set (children n)" "c' \<in> set (children n)" "c \<noteq> c'" for c c'
  proof (rule ccontr)
    assume "below h c \<inter> below h c' \<noteq> {}"
    then obtain b i j where b: "(c, b) \<in> kid h ^^ i" "(c', b) \<in> kid h ^^ j" by (auto simp: below_def rtrancl_power)
    from level_unique [OF wf lev [OF that(1) b(1)] lev [OF that(2) b(2)]] have "i = j" by simp
    with b back_unique [OF wf] that(3) show False by blast
  qed
  have "(\<Sum>b \<in> below h a. g b) = g a + (\<Sum>b \<in> (\<Union>c \<in> set (children n). below h c). g b)"
    unfolding below_unfold [where h = h and a = a, OF n] using notin below_finite [OF wf fin] by (subst sum.insert) auto
  also have "(\<Sum>b \<in> (\<Union>c \<in> set (children n). below h c). g b) = (\<Sum>c \<in> set (children n). \<Sum>b \<in> below h c. g b)"
    by (rule sum.UNION_disjoint) (use dis below_finite [OF wf fin] in auto)
  also have "\<dots> = sum_list (map (\<lambda>c. \<Sum>b \<in> below h c. g b) (children n))"
    using wf_distinct [OF wf n] by (simp add: sum_list_distinct_conv_sum_set)
  finally show ?thesis .
qed

lemma those_map_Some: "\<forall>c \<in> set cs. f c = Some (g c) \<Longrightarrow> those (map f cs) = Some (map g cs)"
  by (induction cs) auto

text \<open>Both recursive functions, with a stack as deep as there are nodes.\<close>

lemma subtree_sums:
  assumes wf: "vfs_wf h root" and fin: "finite (dom h)"
  shows "(root, a) \<in> kid h ^^ k \<Longrightarrow> card (dom h) \<le> d + k \<Longrightarrow>
    count_inodes_recursive d h a = Some (int (card (below h a))) \<and>
    calculate_size_recursive d h a = Some (\<Sum>b \<in> below h a. of_nat (vsize (the (h b))))"
proof (induction d arbitrary: a k)
  case 0
  with level_bound [OF wf fin] show ?case by fastforce
next
  case (Suc d)
  obtain n where n: "h a = Some n" using level_dom [OF wf Suc.prems(1)] by auto
  have ch: "(if is_directory n then children n else []) = children n" using wf_leaf [OF wf n] by simp
  have IH: "count_inodes_recursive d h c = Some (int (card (below h c))) \<and>
      calculate_size_recursive d h c = Some (\<Sum>b \<in> below h c. of_nat (vsize (the (h b))))"
    if "c \<in> set (children n)" for c
  proof (rule Suc.IH)
    show "(root, c) \<in> kid h ^^ Suc k" using Suc.prems(1) that n by (auto simp: kid_def)
    show "card (dom h) \<le> d + Suc k" using Suc.prems(2) by simp
  qed
  have c: "int (card (below h x)) = (\<Sum>b \<in> below h x. 1)" for x by simp
  show ?case
    unfolding c below_sum [OF wf fin Suc.prems(1) n]
    using IH n ch those_map_Some [of "children n" "count_inodes_recursive d h" "\<lambda>c. int (card (below h c))"]
      those_map_Some [of "children n" "calculate_size_recursive d h" "\<lambda>c. \<Sum>b \<in> below h c. of_nat (vsize (the (h b)))"]
    by simp
qed

lemma nodes_of_defined:
  assumes wf: "vfs_wf h root" and n: "h a = Some n"
  shows "nodes_of h (children n) = Some (map (\<lambda>c. the (h c)) (children n))"
  unfolding nodes_of_def by (rule those_map_Some) (use wf_child [OF wf n] in fastforce)

lemma walk_level:
  assumes wf: "vfs_wf h root"
  shows "walk h root ts = Some (Some a) \<Longrightarrow> (root, a) \<in> kid h ^^ length ts"
proof (induction ts arbitrary: a rule: rev_induct)
  case Nil
  then show ?case by simp
next
  case (snoc t ts)
  from walk_snocD [OF wf snoc.prems] obtain p m where "walk h root ts = Some (Some p)" "h p = Some m" "a \<in> set (children m)"
    by blast
  with snoc.IH show ?case by (auto simp: kid_def)
qed

lemma find_node_level:
  assumes "vfs_wf (vnodes w) (vfs_root fs)" and "vm_fs w = Some fs" and "vfs_find_node w (Some p) = Some (Some a)"
  shows "\<exists>k. (vfs_root fs, a) \<in> kid (vnodes w) ^^ k"
proof (cases "p = ''/''")
  case True
  with assms show ?thesis by (intro exI [of _ 0]) (simp add: vfs_find_node_def)
next
  case False
  with assms(2,3) walk_level [OF assms(1)] show ?thesis by (auto simp: vfs_find_node_def)
qed

section \<open>Properties\<close>

text \<open>
  C32: The disk statistics are exact: on a well-formed tree, with a stack at least as deep as
  there are nodes, \<open>disk_get_info\<close> succeeds for every path that exists; the nodes it counts
  are those reachable from the root, the bytes used are the sum of their sizes, and used and
  available bytes add up to the 10 GB of the virtual disk (modulo 2^64). The size of a
  directory with everything below it is the sum over the nodes reachable from it.
\<close>

theorem disk_usage_exact:
  assumes ok: "vfs_ok w" and fs: "vm_fs w = Some fs" and fin: "finite (dom (vnodes w))"
    and depth: "card (dom (vnodes w)) \<le> depth" and p: "vfs_find_node w (Some path) = Some (Some a)"
  shows "(\<exists>i. disk_get_info depth (Some path) w = Some (0, i) \<and>
      used_inodes i = of_nat (card (below (vnodes w) (vfs_root fs))) \<and>
      used_size i = (\<Sum>b \<in> below (vnodes w) (vfs_root fs). of_nat (vsize (the (vnodes w b)))) \<and>
      used_size i + available_size i = 10 * 2 ^ 30 \<and> used_inodes i + available_inodes i = 100000) \<and>
    (\<forall>n. vnodes w a = Some n \<and> is_directory n \<longrightarrow>
      disk_calculate_directory_size depth (Some path) True w
        = Some (\<Sum>b \<in> below (vnodes w) a. of_nat (vsize (the (vnodes w b)))))"
proof -
  have wf: "vfs_wf (vnodes w) (vfs_root fs)" using ok fs by (simp add: vfs_ok_def)
  have root: "(vfs_root fs, vfs_root fs) \<in> kid (vnodes w) ^^ 0" by simp
  note s = subtree_sums [OF wf fin root, of depth]
  obtain k where "(vfs_root fs, a) \<in> kid (vnodes w) ^^ k" using find_node_level [OF wf fs p] by blast
  then have sub: "calculate_size_recursive depth (vnodes w) a = Some (\<Sum>b \<in> below (vnodes w) a. of_nat (vsize (the (vnodes w b))))"
    using subtree_sums [OF wf fin, of a k depth] depth by simp
  show ?thesis using s depth p fs sub
    by (auto simp: disk_get_info_def fill_info_def Let_def disk_calculate_directory_size_def)
qed

text \<open>The entries of a listing are the children, in order.\<close>

lemma disk_list_exact:
  assumes ok: "vfs_ok w" and p: "vfs_find_node w (Some path) = Some (Some a)" and n: "vnodes w a = Some n" "is_directory n"
    and c: "calloc_ok (length (children n))"
  shows "disk_list_directory calloc_ok (Some path) w = Some (0, map (\<lambda>c. entry_for (the (vnodes w c))) (children n))"
proof -
  obtain r where wf: "vfs_wf (vnodes w) r" using ok unfolding vfs_ok_def by blast
  from nodes_of_defined [OF wf n(1)] p n c show ?thesis by (simp add: disk_list_directory_def o_def)
qed

section \<open>Where the code departs from what it means\<close>

text \<open>The large files of a directory other than the root are looked up by their bare names,
  from the root: their entries stay empty (here, a file of 100 bytes in \<open>/d\<close>).\<close>

lemma large_files_empty_entry:
  "disk_find_large_files (\<lambda>_. True) (Some ''/d'') 50
     (demo_vfs\<lparr>vnodes := demo_fs(3 \<mapsto> (demo_node ''d'' True)\<lparr>children := [5]\<rparr>,
        5 \<mapsto> (demo_node ''b'' False)\<lparr>vsize := 100, vparent := Some 3\<rparr>)\<rparr>) = Some (0, [zero_entry])"
  by (simp add: disk_find_large_files_def vfs_find_node_def demo_vfs_def demo_fs_def path_tokens_def nodes_of_def
      disk_get_file_info_def demo_node_def)

text \<open>No user is ever over quota: the bytes used are always 0.\<close>

lemma quota_never_exceeded: "disk_check_quota (Some u) = 0"
  by (simp add: disk_check_quota_def disk_get_quota_def)

lemma disk_usage_exact_witness:
  "\<exists>i. disk_get_info 4 (Some ''/d'') demo_vfs = Some (0, i) \<and> used_inodes i + available_inodes i = 100000 \<and>
     used_inodes i = of_nat (card (below demo_fs 1))"
proof -
  let ?fs = "\<lparr>vfs_root = 1, current_dir = 1\<rparr> :: VirtualFS"
  have fs: "vm_fs demo_vfs = Some ?fs" and nodes: "vnodes demo_vfs = demo_fs" by (simp_all add: demo_vfs_def)
  have dom: "dom demo_fs = {1, 2, 3, 4}" by (auto simp: demo_fs_def split: if_splits)
  have "vfs_find_node demo_vfs (Some ''/d'') = Some (Some 3)"
    by (simp add: vfs_find_node_def demo_vfs_def demo_fs_def path_tokens_def demo_node_def)
  from disk_usage_exact [OF demo_vfs_ok fs _ _ this, of 4] show ?thesis
    by (auto simp: nodes dom)
qed

end
