(* ===== verification/Editor.thy ===== *)
theory Editor
  imports SyscallProps CLib
begin

text \<open>
  The text editor (\<^verbatim>\<open>src/editors/zora_editor.c\<close>): the array of line buffers of 1024 bytes, its
  operations, loading from and saving to the virtual file system, and the command loop. A
  line is the buffer's bytes, \<open>None\<close> where \<^verbatim>\<open>calloc\<close> failed (the code does not test it). The
  pointers into the file system's data are those of \<open>Syscalls\<close>: \<^verbatim>\<open>editor_load_file\<close> frees
  the block it was handed, which is the node's own. Every operation first refuses a NULL
  editor; the model has the editor itself. Saving under the editor's own name copies that
  name onto itself, which leaves it as it is. Cursors and line numbers are integers.
\<close>

section \<open>State\<close>

definition EDITOR_MAX_LINE_LENGTH :: nat where "EDITOR_MAX_LINE_LENGTH = 1024"
definition EDITOR_DEFAULT_MAX_LINES :: int where "EDITOR_DEFAULT_MAX_LINES = 10000"

type_synonym line_buf = "u8 list option"

record EditorState =
  ed_lines :: "line_buf list"
  ed_max_lines :: int
  cursor_x :: int
  cursor_y :: int
  scroll_offset :: int
  ed_modified :: bool
  ed_filename :: string

text \<open>\<open>line_calloc i\<close>: the allocation of the buffer for line \<open>i\<close> succeeds.\<close>

record editor_env =
  on_sys :: sys_env
  state_calloc :: bool
  array_calloc :: bool
  line_calloc :: "nat \<Rightarrow> bool"
  content_malloc :: "nat \<Rightarrow> bool"

definition new_line :: "editor_env \<Rightarrow> nat \<Rightarrow> line_buf" where
  "new_line e i = (if line_calloc e i then Some (replicate EDITOR_MAX_LINE_LENGTH 0) else None)"

definition line_count :: "EditorState \<Rightarrow> int" where
  "line_count ed = int (length (ed_lines ed))"

text \<open>Following the pointer of a line, and \<^verbatim>\<open>strlen\<close>.\<close>

definition line_at :: "EditorState \<Rightarrow> int \<Rightarrow> u8 list option" where
  "line_at ed i = (if 0 \<le> i \<and> i < line_count ed then ed_lines ed ! nat i else None)"

definition buf_len :: "u8 list \<Rightarrow> nat option" where
  "buf_len b = first_index (\<lambda>c. c = 0) b"

definition set_line :: "int \<Rightarrow> u8 list \<Rightarrow> EditorState \<Rightarrow> EditorState" where
  "set_line i b ed = ed\<lparr>ed_lines := (ed_lines ed)[nat i := Some b]\<rparr>"

text \<open>Bytes stored from the start of a buffer on.\<close>

definition put_bytes :: "u8 list \<Rightarrow> u8 list \<Rightarrow> u8 list" where
  "put_bytes bs b = bs @ drop (length bs) b"

definition editor_create :: "editor_env \<Rightarrow> int \<Rightarrow> EditorState option" where
  "editor_create e max_lines =
     (if \<not> state_calloc e \<or> \<not> array_calloc e then None
      else Some \<lparr>ed_lines = [new_line e 0],
             ed_max_lines = (if max_lines > 0 then max_lines else EDITOR_DEFAULT_MAX_LINES),
             cursor_x = 0, cursor_y = 0, scroll_offset = 0, ed_modified = False, ed_filename = []\<rparr>)"

section \<open>Lines\<close>

definition editor_insert_line :: "editor_env \<Rightarrow> int \<Rightarrow> EditorState \<Rightarrow> int \<times> EditorState" where
  "editor_insert_line e n ed =
     (if n < 0 \<or> n > line_count ed then (-1, ed)
      else if line_count ed \<ge> ed_max_lines ed then (-1, ed)
      else (0, ed\<lparr>ed_lines := take (nat n) (ed_lines ed) @ [new_line e (nat n)] @ drop (nat n) (ed_lines ed),
                 ed_modified := True\<rparr>))"

definition editor_delete_line :: "int \<Rightarrow> EditorState \<Rightarrow> (int \<times> EditorState) option" where
  "editor_delete_line n ed =
     (if n < 0 \<or> n \<ge> line_count ed then Some (-1, ed)
      else if line_count ed \<le> 1 then do {
        b \<leftarrow> line_at ed 0;
        Some (0, (set_line 0 (b[0 := 0]) ed)\<lparr>ed_modified := True\<rparr>) }
      else Some (0, ed\<lparr>ed_lines := take (nat n) (ed_lines ed) @ drop (Suc (nat n)) (ed_lines ed),
                     ed_modified := True\<rparr>))"

definition editor_split_line :: "editor_env \<Rightarrow> int \<Rightarrow> int \<Rightarrow> EditorState \<Rightarrow> (int \<times> EditorState) option" where
  "editor_split_line e n pos ed =
     (if n < 0 \<or> n \<ge> line_count ed then Some (-1, ed)
      else do {
        b \<leftarrow> line_at ed n;
        len \<leftarrow> buf_len b;
        (if pos < 0 \<or> pos > int len then Some (-1, ed)
         else if line_count ed \<ge> ed_max_lines ed then Some (-1, ed)
         else (let (r, ed1) = editor_insert_line e (n + 1) ed in
           if r \<noteq> 0 then Some (-1, ed1)
           else do {
             b1 \<leftarrow> line_at ed1 (n + 1);
             let ed2 = set_line (n + 1) (put_bytes (take (len - nat pos) (drop (nat pos) b) @ [0]) b1) ed1;
             Some (0, (set_line n (b[nat pos := 0]) ed2)\<lparr>ed_modified := True\<rparr>) })) })"

section \<open>Characters\<close>

text \<open>\<^verbatim>\<open>for (i = len; i >= position; i--) line[i + 1] = line[i]\<close>\<close>

fun shift_right :: "nat \<Rightarrow> nat \<Rightarrow> u8 list \<Rightarrow> u8 list" where
  "shift_right pos 0 line = (if pos \<le> 0 then line[1 := line ! 0] else line)"
| "shift_right pos (Suc i) line =
     (if pos \<le> Suc i then shift_right pos i (line[Suc (Suc i) := line ! Suc i]) else line)"

text \<open>\<^verbatim>\<open>for (i = position; i < len; i++) line[i] = line[i + 1]\<close>, \<open>k\<close> steps left.\<close>

fun shift_left :: "nat \<Rightarrow> nat \<Rightarrow> u8 list \<Rightarrow> u8 list" where
  "shift_left i 0 line = line"
| "shift_left i (Suc k) line = shift_left (Suc i) k (line[i := line ! Suc i])"

definition editor_insert_char :: "int \<Rightarrow> int \<Rightarrow> u8 \<Rightarrow> EditorState \<Rightarrow> (int \<times> EditorState) option" where
  "editor_insert_char n pos ch ed =
     (if n < 0 \<or> n \<ge> line_count ed then Some (-1, ed)
      else if pos < 0 \<or> pos > int EDITOR_MAX_LINE_LENGTH - 2 then Some (-1, ed)
      else do {
        b \<leftarrow> line_at ed n;
        len \<leftarrow> buf_len b;
        (if len \<ge> EDITOR_MAX_LINE_LENGTH - 1 then Some (-1, ed)
         else Some (0, (set_line n ((shift_right (nat pos) len b)[nat pos := ch]) ed)\<lparr>ed_modified := True\<rparr>)) })"

definition editor_delete_char :: "int \<Rightarrow> int \<Rightarrow> EditorState \<Rightarrow> (int \<times> EditorState) option" where
  "editor_delete_char n pos ed =
     (if n < 0 \<or> n \<ge> line_count ed then Some (-1, ed)
      else if pos < 0 then Some (-1, ed)
      else do {
        b \<leftarrow> line_at ed n;
        len \<leftarrow> buf_len b;
        (if pos \<ge> int len then Some (-1, ed)
         else Some (0, (set_line n (shift_left (nat pos) (len - nat pos) b) ed)\<lparr>ed_modified := True\<rparr>)) })"

section \<open>The cursor\<close>

definition editor_move_cursor :: "int \<Rightarrow> int \<Rightarrow> EditorState \<Rightarrow> (int \<times> EditorState) option" where
  "editor_move_cursor dx dy ed = do {
     let y0 = cursor_y ed + dy;
     let y1 = (if y0 < 0 then 0 else y0);
     let y = (if y1 \<ge> line_count ed then line_count ed - 1 else y1);
     b \<leftarrow> line_at ed y;
     len \<leftarrow> buf_len b;
     let x0 = cursor_x ed + dx;
     let x1 = (if x0 < 0 then 0 else x0);
     let x = (if x1 > int len then int len else x1);
     let sc = (if y < scroll_offset ed then y
               else if y \<ge> scroll_offset ed + 20 then y - 20 + 1 else scroll_offset ed);
     Some (0, ed\<lparr>cursor_x := x, cursor_y := y, scroll_offset := sc\<rparr>) }"

text \<open>The lines the screen shows are read.\<close>

definition editor_draw_screen :: "EditorState \<Rightarrow> int \<Rightarrow> unit option" where
  "editor_draw_screen ed screen_height =
     (let end1 = scroll_offset ed + screen_height - 4;
          end_line = (if end1 > line_count ed then line_count ed else end1)
      in if \<forall>i \<in> set [scroll_offset ed..end_line - 1]. line_at ed i \<noteq> None then Some () else None)"

section \<open>Files\<close>

text \<open>\<^verbatim>\<open>strchr\<close> for a newline: running past the block is undefined.\<close>

fun find_newline :: "u8 list \<Rightarrow> nat option option" where
  "find_newline [] = None"
| "find_newline (c # cs) =
     (if c = 10 then Some (Some 0) else if c = 0 then Some None
      else map_option (map_option Suc) (find_newline cs))"

definition store_line :: "editor_env \<Rightarrow> nat \<Rightarrow> u8 list \<Rightarrow> line_buf option" where
  "store_line e i bs =
     (case new_line e i of None \<Rightarrow> None | Some b \<Rightarrow> Some (Some (put_bytes bs b)))"

lemma find_newline_in: "find_newline bs = Some (Some k) \<Longrightarrow> k < length bs"
  by (induction bs arbitrary: k rule: find_newline.induct) (auto split: if_splits)

text \<open>The loop over the lines and the last line, over the bytes from \<^verbatim>\<open>line_start\<close> on.\<close>

function parse_lines :: "editor_env \<Rightarrow> int \<Rightarrow> u8 list \<Rightarrow> line_buf list \<Rightarrow> line_buf list option" where
  "parse_lines e m bs acc =
     (case find_newline bs of
        None \<Rightarrow> None
      | Some (Some k) \<Rightarrow>
          if int (length acc) \<ge> m then Some acc
          else do {
            l \<leftarrow> store_line e (length acc) (take (min k (EDITOR_MAX_LINE_LENGTH - 1)) bs);
            parse_lines e m (drop (Suc k) bs) (acc @ [l]) }
      | Some None \<Rightarrow>
          if hd bs \<noteq> 0 \<and> int (length acc) < m
          then do {
            l \<leftarrow> store_line e (length acc)
                  (take (EDITOR_MAX_LINE_LENGTH - 1) (takeWhile (\<lambda>c. c \<noteq> 0) bs));
            Some (acc @ [l]) }
          else Some acc)"
  by pat_completeness auto
termination
  by (relation "measure (\<lambda>(e, m, bs, acc). length bs)") (auto dest: find_newline_in)

declare parse_lines.simps [simp del]

definition editor_load_file ::
  "editor_env \<Rightarrow> string \<Rightarrow> EditorState \<Rightarrow> sys_state \<Rightarrow> (int \<times> EditorState \<times> sys_state) option" where
  "editor_load_file e filename ed s = do {
     (r, (ptr, sz), s1) \<leftarrow> read_file_ptr (on_sys e) filename s;
     let named = ed\<lparr>ed_filename := c_copy 256 filename, ed_modified := False\<rparr>;
     (case ptr of
        None \<Rightarrow> Some (0, named\<lparr>ed_lines := (if ed_lines ed = [] then [new_line e 0] else ed_lines ed)\<rparr>, s1)
      | Some p \<Rightarrow>
          if r \<noteq> 0 then Some (0, named\<lparr>ed_lines := (if ed_lines ed = [] then [new_line e 0] else ed_lines ed)\<rparr>, s1)
          else do {
            block \<leftarrow> bufs s1 p;
            ls \<leftarrow> parse_lines e (ed_max_lines ed) block [];
            Some (0, named\<lparr>ed_lines := (if ls = [] then [new_line e 0] else ls)\<rparr>,
                  s1\<lparr>bufs := (bufs s1)(p := None)\<rparr>) }) }"

definition line_bytes :: "line_buf \<Rightarrow> u8 list option" where
  "line_bytes l = do { b \<leftarrow> l; len \<leftarrow> buf_len b; Some (take len b) }"

definition editor_save_file ::
  "editor_env \<Rightarrow> string option \<Rightarrow> EditorState \<Rightarrow> sys_state \<Rightarrow> (int \<times> EditorState \<times> sys_state) option" where
  "editor_save_file e filename ed s =
     (let save_path = (case filename of Some f \<Rightarrow> f | None \<Rightarrow> ed_filename ed) in
      if save_path = [] then Some (-1, ed, s)
      else do {
        texts \<leftarrow> those (map line_bytes (ed_lines ed));
        let content = concat (map (\<lambda>t. t @ [10]) texts);
        (if \<not> content_malloc e (length content + 1) then Some (-1, ed, s)
         else do {
           let p = new_block (on_sys e) (bufs s);
           (r, s1) \<leftarrow> write_file_ptr (on_sys e) save_path (Some p) (length content)
                         (s\<lparr>bufs := (bufs s)(p \<mapsto> content @ [0])\<rparr>);
           let s2 = s1\<lparr>bufs := (bufs s1)(p := None)\<rparr>;
           Some (if r = 0 then (0, ed\<lparr>ed_filename := c_copy 256 save_path, ed_modified := False\<rparr>, s2)
                 else (-1, ed, s2)) }) })"

section \<open>Commands\<close>

fun editor_type :: "string \<Rightarrow> EditorState \<Rightarrow> EditorState option" where
  "editor_type [] ed = Some ed"
| "editor_type (c # cs) ed = do {
     (r, ed1) \<leftarrow> editor_insert_char (cursor_y ed) (cursor_x ed) (of_char c) ed;
     editor_type cs (ed1\<lparr>cursor_x := cursor_x ed1 + 1\<rparr>) }"

text \<open>
  The commands that neither save nor quit. The code tests for \<^verbatim>\<open>s\<close> again, for moving down,
  after \<^verbatim>\<open>s\<close> has already been taken for saving.
\<close>

definition editor_command :: "editor_env \<Rightarrow> string \<Rightarrow> EditorState \<Rightarrow> EditorState option" where
  "editor_command e cmd ed =
     (if cmd = ''w'' then map_option snd (editor_move_cursor 0 (-1) ed)
      else if cmd = ''s'' then map_option snd (editor_move_cursor 0 1 ed)
      else if cmd = ''a'' then map_option snd (editor_move_cursor (-1) 0 ed)
      else if cmd = ''d'' then map_option snd (editor_move_cursor 1 0 ed)
      else if starts_with ''i '' cmd then editor_type (drop 2 cmd) ed
      else if cmd = ''newline'' \<or> cmd = ''n'' then do {
        (r, ed1) \<leftarrow> editor_split_line e (cursor_y ed) (cursor_x ed) ed;
        Some (ed1\<lparr>cursor_y := cursor_y ed1 + 1, cursor_x := 0\<rparr>) }
      else if cmd = ''backspace'' \<or> cmd = ''b'' then
        (if cursor_x ed > 0 then do {
           (r, ed1) \<leftarrow> editor_delete_char (cursor_y ed) (cursor_x ed - 1) ed;
           Some (ed1\<lparr>cursor_x := cursor_x ed1 - 1\<rparr>) }
         else Some ed)
      else Some ed)"

definition cut_line :: "string \<Rightarrow> string" where
  "cut_line l = takeWhile (\<lambda>c. c \<noteq> CHR 0x0A \<and> c \<noteq> CHR 0x00) l"

lemma fgets_rest: "inp \<noteq> [] \<Longrightarrow> 1 < n \<Longrightarrow> length (drop (length (fgets n inp)) inp) < length inp"
  using fgets_progress [of inp n] by (cases inp; cases "fgets n inp") auto

text \<open>The loop over the lines of the standard input; \<^verbatim>\<open>getchar\<close> takes one character.\<close>

function editor_run :: "editor_env \<Rightarrow> string \<Rightarrow> EditorState \<Rightarrow> sys_state \<Rightarrow> (EditorState \<times> sys_state) option" where
  "editor_run e inp ed s =
     (if editor_draw_screen ed 24 = None then None
      else if inp = [] then Some (ed, s)
      else (let cmd = cut_line (fgets 100 inp); rest = drop (length (fgets 100 inp)) inp in
        if cmd = ''q'' \<or> cmd = ''quit'' then
          (if ed_modified ed \<and> rest \<noteq> [] \<and> hd rest \<in> {CHR ''y'', CHR ''Y''}
           then (case editor_save_file e None ed s of
                   None \<Rightarrow> None
                 | Some (r, ed1, s1) \<Rightarrow>
                     if r = 0 then Some (ed1, s1)
                     else editor_run e (drop (length (fgets 10 rest)) rest) ed1 s1)
           else Some (ed, s))
        else if cmd = ''s'' \<or> cmd = ''save'' then
          (case editor_save_file e None ed s of
             None \<Rightarrow> None
           | Some (r, ed1, s1) \<Rightarrow> editor_run e (drop 1 rest) ed1 s1)
        else (case editor_command e cmd ed of
                None \<Rightarrow> None
              | Some ed1 \<Rightarrow> editor_run e (if cmd = ''h'' \<or> cmd = ''help'' then drop 1 rest else rest) ed1 s)))"
  by pat_completeness auto

termination
proof (relation "measure (\<lambda>(e, inp, ed, s). length inp)", goal_cases)
  case 1
  show ?case by simp
next
  case (2 e inp ed s x xa)
  then show ?case using fgets_rest [of inp 100] by simp
next
  case (3 e inp ed s x xa)
  then show ?case using fgets_rest [of inp 100] by simp
next
  case (4 e inp ed s x xa)
  then show ?case using fgets_rest [of inp 100] by simp
qed

declare editor_run.simps [simp del]

definition editor_nano :: "editor_env \<Rightarrow> string option \<Rightarrow> string \<Rightarrow> sys_state \<Rightarrow> (int \<times> sys_state) option" where
  "editor_nano e filename inp s =
     (case editor_create e 10000 of
        None \<Rightarrow> Some (-1, s)
      | Some ed0 \<Rightarrow> do {
          (ed1, s1) \<leftarrow> (case filename of
             None \<Rightarrow> Some (ed0, s)
           | Some f \<Rightarrow> map_option snd (editor_load_file e f ed0 s));
          (ed2, s2) \<leftarrow> editor_run e inp ed1 s1;
          Some (0, s2) })"

end
