(* ===== verification/EditorProps.thy ===== *)
theory EditorProps
  imports Editor
begin

text \<open>
  Properties of the editor: the operations on line buffers are operations on a text (a list
  of strings), what is saved is what a later session shows, and a file cannot be used
  twice in one session.
\<close>

section \<open>Line buffers as strings\<close>

definition ctext :: "u8 list \<Rightarrow> u8 list" where
  "ctext b = takeWhile (\<lambda>c. c \<noteq> 0) b"

definition buf_ok :: "u8 list \<Rightarrow> bool" where
  "buf_ok b \<longleftrightarrow> length b = EDITOR_MAX_LINE_LENGTH \<and> 0 \<in> set b"

lemma buf_len_ctext: "0 \<in> set b \<Longrightarrow> buf_len b = Some (length (ctext b))"
  unfolding buf_len_def ctext_def by (induction b) auto

lemma buf_split:
  assumes "buf_ok b"
  obtains rest where "b = ctext b @ 0 # rest" "length (ctext b) + Suc (length rest) = 1024"
proof -
  have "dropWhile (\<lambda>c. c \<noteq> 0) b \<noteq> []" using assms by (simp add: buf_ok_def)
  then obtain c rest where d: "dropWhile (\<lambda>c. c \<noteq> 0) b = c # rest" by (cases "dropWhile (\<lambda>c. c \<noteq> 0) b") auto
  then have "c = 0" using hd_dropWhile [of "\<lambda>c. c \<noteq> 0" b] by simp
  then have "b = ctext b @ 0 # rest" using d takeWhile_dropWhile_id [of "\<lambda>c. c \<noteq> 0" b] by (simp add: ctext_def)
  moreover from arg_cong [OF this, of length] assms have "length (ctext b) + Suc (length rest) = 1024"
    by (simp add: buf_ok_def EDITOR_MAX_LINE_LENGTH_def)
  ultimately show thesis by (rule that)
qed

lemma ctext_no_null: "0 \<notin> set (ctext b)"
  by (auto simp: ctext_def dest: set_takeWhileD)

lemma ctext_app: "0 \<notin> set t \<Longrightarrow> ctext (t @ 0 # rest) = t"
  by (simp add: ctext_def) (metis (mono_tags, lifting) append_Nil2 takeWhile.simps(2) takeWhile_append2)

lemma ctext_tail: "ctext (t @ 0 # rest) = ctext t"
  by (induction t) (simp_all add: ctext_def)

lemma ctext_short: "buf_ok b \<Longrightarrow> length (ctext b) < 1024"
  by (erule buf_split) linarith

lemma buf_okI: "length b = 1024 \<Longrightarrow> 0 \<in> set b \<Longrightarrow> buf_ok b"
  by (simp add: buf_ok_def EDITOR_MAX_LINE_LENGTH_def)

lemma zero_buf: "buf_ok (replicate EDITOR_MAX_LINE_LENGTH 0)" "ctext (replicate EDITOR_MAX_LINE_LENGTH 0) = []"
  by (simp_all add: buf_ok_def ctext_def EDITOR_MAX_LINE_LENGTH_def)

text \<open>What the two loops do to a buffer.\<close>

lemma shift_right_nth:
  "Suc i < length b \<Longrightarrow> length (shift_right pos i b) = length b \<and>
    (\<forall>j < length b. shift_right pos i b ! j = (if pos < j \<and> j \<le> Suc i then b ! (j - 1) else b ! j))"
proof (induction i arbitrary: b)
  case 0
  then show ?case by (auto simp: nth_list_update)
next
  case (Suc i)
  show ?case
  proof (cases "pos \<le> Suc i")
    case True
    have "Suc i < length (b[Suc (Suc i) := b ! Suc i])" using Suc.prems by simp
    from Suc.IH [OF this] True Suc.prems show ?thesis
      by (auto simp: nth_list_update le_Suc_eq)
  next
    case False
    then show ?thesis by auto
  qed
qed

lemma shift_left_nth:
  "i + k < length b \<Longrightarrow> length (shift_left i k b) = length b \<and>
    (\<forall>j < length b. shift_left i k b ! j = (if i \<le> j \<and> j < i + k then b ! Suc j else b ! j))"
proof (induction k arbitrary: i b)
  case 0
  then show ?case by auto
next
  case (Suc k)
  then have "Suc i + k < length (b[i := b ! Suc i])" by simp
  from Suc.IH [OF this] Suc.prems show ?case
    by (auto simp: nth_list_update) (metis le_antisym not_less_eq_eq)
qed

lemma inserted_buf:
  assumes b: "buf_ok b" and pos: "pos \<le> length (ctext b)" and len: "length (ctext b) < 1023"
  shows "buf_ok ((shift_right pos (length (ctext b)) b)[pos := c]) \<and>
    ctext ((shift_right pos (length (ctext b)) b)[pos := c]) = ctext (take pos (ctext b) @ c # drop pos (ctext b))"
proof -
  let ?t = "ctext b"
  obtain rest where r: "b = ?t @ 0 # rest" "length ?t + Suc (length rest) = 1024" by (rule buf_split [OF b])
  then obtain x rest' where x: "rest = x # rest'" using len by (cases rest) auto
  have l: "length b = 1024" using b by (simp add: buf_ok_def EDITOR_MAX_LINE_LENGTH_def)
  have n: "Suc (length ?t) < length b" using l len by simp
  have "(shift_right pos (length ?t) b)[pos := c] = (take pos ?t @ c # drop pos ?t) @ 0 # rest'" (is "?b' = ?v")
  proof (rule nth_equalityI)
    show len': "length ?b' = length ?v" using shift_right_nth [OF n, of pos] r(2) l x pos by simp
    fix j assume "j < length ?b'"
    then have j: "j < 1024" using shift_right_nth [OF n, of pos] l by simp
    have s: "shift_right pos (length ?t) b ! j = (if pos < j \<and> j \<le> Suc (length ?t) then b ! (j - 1) else b ! j)"
      using shift_right_nth [OF n, of pos] l j by simp
    have at: "b ! i = (if i < length ?t then ?t ! i else if i = length ?t then 0 else if i = Suc (length ?t) then x else rest' ! (i - length ?t - 2))" for i
      by (subst r(1)) (auto simp: nth_append nth_Cons' x)
    consider "j < pos" | "j = pos" | "pos < j" "j \<le> length ?t" | "j = Suc (length ?t)" | "Suc (length ?t) < j" using pos by linarith
    then show "?b' ! j = ?v ! j"
    proof cases
      case 1
      then show ?thesis using s at pos by (simp add: nth_append)
    next
      case 2
      then show ?thesis using shift_right_nth [OF n, of pos] l j pos by (simp add: nth_append)
    next
      case 3
      then obtain k where k: "j = Suc (pos + k)" using less_imp_Suc_add by blast
      moreover have "k < length ?t - pos" using 3 k by linarith
      ultimately have "?v ! j = ?t ! (pos + k)" using pos by (simp add: nth_append)
      then show ?thesis using 3 s at k by simp
    next
      case 4
      then show ?thesis using s at pos by (simp add: nth_append nth_Cons')
    next
      case 5
      moreover from this have "\<not> j - Suc pos < length ?t - pos" using pos by linarith
      ultimately show ?thesis using s at pos by (simp add: nth_append nth_Cons')
    qed
  qed
  moreover have "ctext ((take pos ?t @ c # drop pos ?t) @ 0 # rest') = ctext (take pos ?t @ c # drop pos ?t)"
    by (rule ctext_tail)
  ultimately show ?thesis using r(2) x pos by (simp add: buf_okI)
qed

lemma inserted_behind:
  assumes b: "buf_ok b" and pos: "length (ctext b) < pos" "pos < 1024"
  shows "buf_ok ((shift_right pos (length (ctext b)) b)[pos := c]) \<and>
    ctext ((shift_right pos (length (ctext b)) b)[pos := c]) = ctext b"
proof -
  obtain rest where r: "b = ctext b @ 0 # rest" "length (ctext b) + Suc (length rest) = 1024" by (rule buf_split [OF b])
  have "shift_right pos (length (ctext b)) b = b" using pos(1) by (cases "length (ctext b)") auto
  moreover obtain k where k: "pos = Suc (length (ctext b) + k)" using less_imp_Suc_add [OF pos(1)] by blast
  have "b[pos := c] = ctext b @ 0 # rest[k := c]"
    by (subst r(1)) (simp add: k list_update_append)
  moreover have "length b = 1024" using b by (simp add: buf_ok_def EDITOR_MAX_LINE_LENGTH_def)
  ultimately show ?thesis
    using ctext_app [OF ctext_no_null, of b "rest[k := c]"]
    by (metis buf_okI in_set_conv_decomp length_list_update)
qed

lemma deleted_buf:
  assumes b: "buf_ok b" and pos: "pos < length (ctext b)"
  shows "buf_ok (shift_left pos (length (ctext b) - pos) b) \<and>
    ctext (shift_left pos (length (ctext b) - pos) b) = take pos (ctext b) @ drop (Suc pos) (ctext b)"
proof -
  let ?t = "ctext b"
  obtain rest where r: "b = ?t @ 0 # rest" "length ?t + Suc (length rest) = 1024" by (rule buf_split [OF b])
  have l: "length b = 1024" using b by (simp add: buf_ok_def EDITOR_MAX_LINE_LENGTH_def)
  have n: "pos + (length ?t - pos) < length b" using l r(2) pos by simp
  note sl = shift_left_nth [OF n]
  have "shift_left pos (length ?t - pos) b = (take pos ?t @ drop (Suc pos) ?t) @ 0 # 0 # rest" (is "?b' = ?v")
  proof (rule nth_equalityI)
    show "length ?b' = length ?v" using sl r(2) l pos by simp
    fix j assume "j < length ?b'"
    then have j: "j < 1024" using sl l by simp
    have s: "?b' ! j = (if pos \<le> j \<and> j < length ?t then b ! Suc j else b ! j)" using sl l j pos by simp
    have at: "b ! i = (if i < length ?t then ?t ! i else if i = length ?t then 0 else rest ! (i - length ?t - 1))" for i
      by (subst r(1)) (auto simp: nth_append nth_Cons')
    consider "j < pos" | "pos \<le> j" "Suc j < length ?t" | "Suc j = length ?t" | "j = length ?t" | "length ?t < j" using pos by linarith
    then show "?b' ! j = ?v ! j"
    proof cases
      case 1
      then show ?thesis using s at pos by (simp add: nth_append)
    next
      case 2
      then obtain k where k: "j = pos + k" using le_Suc_ex by blast
      moreover have "k < length ?t - Suc pos" using 2 k by linarith
      ultimately have "?v ! j = ?t ! Suc (pos + k)" using pos by (simp add: nth_append)
      then show ?thesis using 2 s at k by simp
    next
      case 3
      moreover from this have "\<not> j - pos < length ?t - Suc pos" using pos by linarith
      ultimately show ?thesis using s at pos by (simp add: nth_append nth_Cons')
    next
      case 4
      moreover have "\<not> length ?t - pos < length ?t - Suc pos" by linarith
      ultimately show ?thesis using s at pos by (simp add: nth_append nth_Cons')
    next
      case 5
      moreover from this have "\<not> j - pos < length ?t - Suc pos" by linarith
      ultimately show ?thesis using s at pos by (simp add: nth_append nth_Cons')
    qed
  qed
  moreover have "0 \<notin> set (take pos ?t @ drop (Suc pos) ?t)"
    using ctext_no_null [of b] by (auto dest: in_set_takeD in_set_dropD)
  ultimately show ?thesis using r(2) pos by (simp add: buf_okI ctext_app del: append_assoc)
qed

lemma cut_buf:
  assumes b: "buf_ok b" and pos: "pos \<le> length (ctext b)"
  shows "buf_ok (b[pos := 0]) \<and> ctext (b[pos := 0]) = take pos (ctext b)"
proof -
  have l: "length b = 1024" "pos < 1024" using b ctext_short [OF b] pos by (simp_all add: buf_ok_def EDITOR_MAX_LINE_LENGTH_def)
  have t: "take pos b = take pos (ctext b)" using buf_split [OF b] pos by (metis append_eq_conv_conj take_append take_all_iff append.right_neutral diff_is_0_eq' take_0)
  have "b[pos := 0] = take pos (ctext b) @ 0 # drop (Suc pos) b" using l t by (simp add: upd_conv_take_nth_drop)
  moreover have "0 \<notin> set (take pos (ctext b))" using ctext_no_null [of b] by (auto dest: in_set_takeD)
  ultimately show ?thesis using l by (metis buf_okI ctext_app in_set_conv_decomp length_list_update)
qed

lemma put_buf:
  assumes t: "0 \<notin> set t" "length t < 1024"
  shows "buf_ok (put_bytes (t @ [0]) (replicate EDITOR_MAX_LINE_LENGTH 0)) \<and>
    ctext (put_bytes (t @ [0]) (replicate EDITOR_MAX_LINE_LENGTH 0)) = t" and
    "buf_ok (put_bytes t (replicate EDITOR_MAX_LINE_LENGTH 0)) \<and>
    ctext (put_bytes t (replicate EDITOR_MAX_LINE_LENGTH 0)) = t"
proof -
  obtain k where k: "1024 - length t = Suc k" using t(2) by (metis Suc_diff_Suc)
  show "buf_ok (put_bytes (t @ [0]) (replicate EDITOR_MAX_LINE_LENGTH 0)) \<and>
    ctext (put_bytes (t @ [0]) (replicate EDITOR_MAX_LINE_LENGTH 0)) = t"
    using t ctext_app [OF t(1)] by (auto simp: put_bytes_def EDITOR_MAX_LINE_LENGTH_def intro!: buf_okI)
  show "buf_ok (put_bytes t (replicate EDITOR_MAX_LINE_LENGTH 0)) \<and>
    ctext (put_bytes t (replicate EDITOR_MAX_LINE_LENGTH 0)) = t"
    using t ctext_app [OF t(1)] k by (auto simp: put_bytes_def EDITOR_MAX_LINE_LENGTH_def intro!: buf_okI)
qed

section \<open>The text of an editor\<close>

definition line_ok :: "line_buf \<Rightarrow> bool" where
  "line_ok l \<longleftrightarrow> (case l of None \<Rightarrow> False | Some b \<Rightarrow> buf_ok b)"

definition line_text :: "line_buf \<Rightarrow> u8 list" where
  "line_text l = (case l of None \<Rightarrow> [] | Some b \<Rightarrow> ctext b)"

definition ed_ok :: "EditorState \<Rightarrow> bool" where
  "ed_ok ed \<longleftrightarrow> ed_lines ed \<noteq> [] \<and> line_count ed \<le> ed_max_lines ed \<and> (\<forall>l \<in> set (ed_lines ed). line_ok l)"

definition ed_text :: "EditorState \<Rightarrow> u8 list list" where
  "ed_text ed = map line_text (ed_lines ed)"

lemma length_ed_text: "int (length (ed_text ed)) = line_count ed"
  by (simp add: ed_text_def line_count_def)

lemma new_line_ok: "line_calloc e i \<Longrightarrow> line_ok (new_line e i) \<and> line_text (new_line e i) = []"
  by (simp add: new_line_def line_ok_def line_text_def zero_buf)

lemma line_cases:
  assumes ok: "ed_ok ed" and n: "0 \<le> n" "n < line_count ed"
  obtains b where "line_at ed n = Some b" "buf_ok b" "ctext b = ed_text ed ! nat n" "ed_lines ed ! nat n = Some b"
    "buf_len b = Some (length (ctext b))"
proof -
  have l: "nat n < length (ed_lines ed)" using n by (simp add: line_count_def)
  then have "line_ok (ed_lines ed ! nat n)" using ok by (simp add: ed_ok_def)
  then obtain b where b: "ed_lines ed ! nat n = Some b" "buf_ok b" by (auto simp: line_ok_def split: option.splits)
  show thesis
    by (rule that [of b]) (use b n l in \<open>simp_all add: line_at_def ed_text_def line_text_def buf_len_ctext buf_ok_def\<close>)
qed

lemma set_line_ok:
  assumes "ed_ok ed" "buf_ok b"
  shows "ed_ok (set_line n b ed)" "ed_text (set_line n b ed) = (ed_text ed)[nat n := ctext b]"
    "ed_max_lines (set_line n b ed) = ed_max_lines ed"
  using assms set_update_subset_insert [of "ed_lines ed" "nat n" "Some b"]
  by (auto simp: ed_ok_def set_line_def line_ok_def line_count_def ed_text_def map_update line_text_def)

lemma modified_irrelevant [simp]:
  "ed_ok (ed\<lparr>ed_modified := m\<rparr>) = ed_ok ed" "ed_text (ed\<lparr>ed_modified := m\<rparr>) = ed_text ed"
  by (simp_all add: ed_ok_def ed_text_def line_count_def)

lemma cursor_irrelevant [simp]:
  "ed_ok (ed\<lparr>cursor_x := x\<rparr>) = ed_ok ed" "ed_text (ed\<lparr>cursor_x := x\<rparr>) = ed_text ed"
  "ed_ok (ed\<lparr>cursor_y := x\<rparr>) = ed_ok ed" "ed_text (ed\<lparr>cursor_y := x\<rparr>) = ed_text ed"
  "ed_ok (ed\<lparr>scroll_offset := x\<rparr>) = ed_ok ed" "ed_text (ed\<lparr>scroll_offset := x\<rparr>) = ed_text ed"
  by (simp_all add: ed_ok_def ed_text_def line_count_def)

section \<open>Editing a text\<close>

datatype edit =
  InsertLine int
| DeleteLine int
| SplitLine int int
| InsertChar int int u8
| DeleteChar int int
| MoveCursor int int

text \<open>What each call does to the lines of a text, \<open>None\<close> where it is refused.\<close>

fun text_edit :: "int \<Rightarrow> edit \<Rightarrow> u8 list list \<Rightarrow> u8 list list option" where
  "text_edit m (InsertLine n) t =
     (if 0 \<le> n \<and> n \<le> int (length t) \<and> int (length t) < m
      then Some (take (nat n) t @ [] # drop (nat n) t) else None)"
| "text_edit m (DeleteLine n) t =
     (if 0 \<le> n \<and> n < int (length t)
      then Some (if length t = 1 then [[]] else take (nat n) t @ drop (Suc (nat n)) t) else None)"
| "text_edit m (SplitLine n pos) t =
     (if 0 \<le> n \<and> n < int (length t) \<and> 0 \<le> pos \<and> pos \<le> int (length (t ! nat n)) \<and> int (length t) < m
      then Some (take (nat n) t @ take (nat pos) (t ! nat n) # drop (nat pos) (t ! nat n) # drop (Suc (nat n)) t)
      else None)"
| "text_edit m (InsertChar n pos c) t =
     (if 0 \<le> n \<and> n < int (length t) \<and> 0 \<le> pos \<and> pos \<le> 1022 \<and> length (t ! nat n) < 1023
      then Some (if nat pos \<le> length (t ! nat n)
                 then t[nat n := ctext (take (nat pos) (t ! nat n) @ c # drop (nat pos) (t ! nat n))] else t)
      else None)"
| "text_edit m (DeleteChar n pos) t =
     (if 0 \<le> n \<and> n < int (length t) \<and> 0 \<le> pos \<and> pos < int (length (t ! nat n))
      then Some (t[nat n := take (nat pos) (t ! nat n) @ drop (Suc (nat pos)) (t ! nat n)]) else None)"
| "text_edit m (MoveCursor dx dy) t = Some t"

fun editor_do :: "editor_env \<Rightarrow> edit \<Rightarrow> EditorState \<Rightarrow> (int \<times> EditorState) option" where
  "editor_do e (InsertLine n) ed = Some (editor_insert_line e n ed)"
| "editor_do e (DeleteLine n) ed = editor_delete_line n ed"
| "editor_do e (SplitLine n pos) ed = editor_split_line e n pos ed"
| "editor_do e (InsertChar n pos c) ed = editor_insert_char n pos c ed"
| "editor_do e (DeleteChar n pos) ed = editor_delete_char n pos ed"
| "editor_do e (MoveCursor dx dy) ed = editor_move_cursor dx dy ed"

definition refines_edit :: "edit \<Rightarrow> EditorState \<Rightarrow> (int \<times> EditorState) option \<Rightarrow> bool" where
  "refines_edit x ed res \<longleftrightarrow> (\<exists>r ed'. res = Some (r, ed') \<and> ed_ok ed' \<and> ed_max_lines ed' = ed_max_lines ed \<and>
     (case text_edit (ed_max_lines ed) x (ed_text ed) of
        None \<Rightarrow> r = -1 \<and> ed' = ed | Some t \<Rightarrow> r = 0 \<and> ed_text ed' = t))"

lemma insert_line_refines:
  assumes ok: "ed_ok ed" and al: "\<And>i. line_calloc e i"
  shows "refines_edit (InsertLine n) ed (Some (editor_insert_line e n ed))"
proof (cases "0 \<le> n \<and> n \<le> line_count ed \<and> line_count ed < ed_max_lines ed")
  case True
  then have "editor_insert_line e n ed = (0, ed\<lparr>ed_lines := take (nat n) (ed_lines ed) @ [new_line e (nat n)] @ drop (nat n) (ed_lines ed),
                 ed_modified := True\<rparr>)" by (simp add: editor_insert_line_def)
  moreover have "int (length (ed_lines ed)) + 1 \<le> ed_max_lines ed" using True by (simp add: line_count_def)
  ultimately show ?thesis
    using True ok new_line_ok [OF al, of "nat n"] length_ed_text [of ed]
    by (auto simp: refines_edit_def ed_ok_def ed_text_def line_count_def take_map drop_map
        dest: in_set_takeD in_set_dropD)
next
  case False
  then have "editor_insert_line e n ed = (-1, ed)" by (auto simp: editor_insert_line_def)
  with False ok length_ed_text [of ed] show ?thesis by (auto simp: refines_edit_def)
qed

lemma delete_line_refines:
  assumes ok: "ed_ok ed"
  shows "refines_edit (DeleteLine n) ed (editor_delete_line n ed)"
proof (cases "0 \<le> n \<and> n < line_count ed")
  case False
  then have "editor_delete_line n ed = Some (-1, ed)" by (auto simp: editor_delete_line_def)
  with False ok length_ed_text [of ed] show ?thesis by (auto simp: refines_edit_def)
next
  case True
  show ?thesis
  proof (cases "line_count ed \<le> 1")
    case one: True
    then have n: "n = 0" "length (ed_text ed) = 1" "line_count ed = 1" using True length_ed_text [of ed] by linarith+
    then obtain b where b: "line_at ed 0 = Some b" "buf_ok b" using line_cases [OF ok, of 0] by (metis zero_less_one order_refl)
    have d: "editor_delete_line n ed = Some (0, (set_line 0 (b[0 := 0]) ed)\<lparr>ed_modified := True\<rparr>)"
      using n b by (simp add: editor_delete_line_def)
    have "ctext (b[0 := 0]) = []" "buf_ok (b[0 := 0])" using cut_buf [OF b(2), of 0] by simp_all
    with n set_line_ok [OF ok, of "b[0 := 0]" 0] show ?thesis
      unfolding d by (cases "ed_text ed") (auto simp: refines_edit_def)
  next
    case False
    then have d: "editor_delete_line n ed = Some (0, ed\<lparr>ed_lines := take (nat n) (ed_lines ed) @ drop (Suc (nat n)) (ed_lines ed),
                     ed_modified := True\<rparr>)" using True by (simp add: editor_delete_line_def)
    have "take (nat n) (ed_lines ed) @ drop (Suc (nat n)) (ed_lines ed) \<noteq> []"
      using True False by (auto simp: line_count_def)
    moreover have "int (length (take (nat n) (ed_lines ed) @ drop (Suc (nat n)) (ed_lines ed))) \<le> line_count ed"
      by (simp add: line_count_def)
    ultimately show ?thesis using ok True False length_ed_text [of ed]
      unfolding d
      by (auto simp: refines_edit_def ed_ok_def ed_text_def line_count_def take_map drop_map
          dest: in_set_takeD in_set_dropD)
  qed
qed

lemma split_line_refines:
  assumes ok: "ed_ok ed" and al: "\<And>i. line_calloc e i"
  shows "refines_edit (SplitLine n pos) ed (editor_split_line e n pos ed)"
proof (cases "0 \<le> n \<and> n < line_count ed")
  case False
  then have "editor_split_line e n pos ed = Some (-1, ed)" by (auto simp: editor_split_line_def)
  with False ok length_ed_text [of ed] show ?thesis by (auto simp: refines_edit_def)
next
  case True
  then obtain b where b: "line_at ed n = Some b" "buf_ok b" "ctext b = ed_text ed ! nat n" "ed_lines ed ! nat n = Some b"
    "buf_len b = Some (length (ctext b))" using line_cases [OF ok] by blast
  show ?thesis
  proof (cases "0 \<le> pos \<and> pos \<le> int (length (ctext b)) \<and> line_count ed < ed_max_lines ed")
    case False
    then have "editor_split_line e n pos ed = Some (-1, ed)" using True b by (auto simp: editor_split_line_def)
    with False True b(3) ok length_ed_text [of ed] show ?thesis by (auto simp: refines_edit_def)
  next
    case in_range: True
    let ?new = "new_line e (nat (n + 1))" and ?k = "nat (n + 1)"
    let ?ed1 = "ed\<lparr>ed_lines := take ?k (ed_lines ed) @ [?new] @ drop ?k (ed_lines ed), ed_modified := True\<rparr>"
    have ins: "editor_insert_line e (n + 1) ed = (0, ?ed1)"
      using True in_range by (simp add: editor_insert_line_def)
    from insert_line_refines [OF ok al, of "n + 1"] True in_range length_ed_text [of ed]
    have ok1: "ed_ok ?ed1" "ed_text ?ed1 = take ?k (ed_text ed) @ [] # drop ?k (ed_text ed)"
      "ed_max_lines ?ed1 = ed_max_lines ed"
      by (simp_all add: refines_edit_def ins)
    have k: "?k = Suc (nat n)" "?k \<le> length (ed_text ed)" "nat n < length (ed_text ed)"
      using True length_ed_text [of ed] by linarith+
    have len_lines: "length (ed_lines ed) = length (ed_text ed)" by (simp add: ed_text_def)
    have at1: "line_at ?ed1 (n + 1) = Some (replicate EDITOR_MAX_LINE_LENGTH 0)"
      using al [of ?k] k len_lines True by (simp add: line_at_def line_count_def nth_append new_line_def)
    let ?t = "drop (nat pos) (ctext b)"
    have tk: "take (length (ctext b) - nat pos) (drop (nat pos) b) = ?t"
      using buf_split [OF b(2)] by (metis append_eq_conv_conj drop_take)
    have "0 \<notin> set ?t" using ctext_no_null [of b] by (auto dest: in_set_dropD)
    moreover have "length ?t < 1024" using ctext_short [OF b(2)] by simp
    ultimately have pb: "buf_ok (put_bytes (?t @ [0]) (replicate EDITOR_MAX_LINE_LENGTH 0))"
      "ctext (put_bytes (?t @ [0]) (replicate EDITOR_MAX_LINE_LENGTH 0)) = ?t" using put_buf(1) by blast+
    have cb: "buf_ok (b[nat pos := 0])" "ctext (b[nat pos := 0]) = take (nat pos) (ctext b)"
      using cut_buf [OF b(2), of "nat pos"] in_range by (simp_all add: nat_le_iff)
    let ?ed2 = "set_line (n + 1) (put_bytes (?t @ [0]) (replicate EDITOR_MAX_LINE_LENGTH 0)) ?ed1"
    have sp: "editor_split_line e n pos ed = Some (0, (set_line n (b[nat pos := 0]) ?ed2)\<lparr>ed_modified := True\<rparr>)"
      using True in_range b at1 by (simp add: editor_split_line_def ins tk [unfolded b(3)])
    note s2 = set_line_ok [OF ok1(1) pb(1), of "n + 1"]
    note s3 = set_line_ok [OF s2(1) cb(1), of n]
    let ?ed3 = "(set_line n (b[nat pos := 0]) ?ed2)\<lparr>ed_modified := True\<rparr>"
    have eq: "(take ?k (ed_text ed) @ [] # drop ?k (ed_text ed))[?k := ?t, nat n := take (nat pos) (ctext b)]
       = take (nat n) (ed_text ed) @ take (nat pos) (ctext b) # ?t # drop (Suc (nat n)) (ed_text ed)"
      using k by (simp add: list_update_append take_Suc_conv_app_nth)
    have "ed_text ?ed3 = (ed_text ?ed1)[?k := ?t, nat n := take (nat pos) (ctext b)]"
      by (simp only: modified_irrelevant s3(2) s2(2) pb(2) cb(2))
    note tx = this [unfolded ok1(2) eq]
    have "text_edit (ed_max_lines ed) (SplitLine n pos) (ed_text ed)
       = Some (take (nat n) (ed_text ed) @ take (nat pos) (ctext b) # ?t # drop (Suc (nat n)) (ed_text ed))"
      using True in_range length_ed_text [of ed] unfolding b(3) by simp
    moreover have "ed_ok ?ed3" "ed_max_lines ?ed3 = ed_max_lines ed" using s3(1,3) s2(3) ok1(3) by simp_all
    ultimately show ?thesis unfolding refines_edit_def using sp tx by (intro exI [of _ 0] exI [of _ ?ed3]) simp
  qed
qed

lemma insert_char_refines:
  assumes ok: "ed_ok ed"
  shows "refines_edit (InsertChar n pos c) ed (editor_insert_char n pos c ed)"
proof (cases "0 \<le> n \<and> n < line_count ed \<and> 0 \<le> pos \<and> pos \<le> 1022")
  case False
  then have "editor_insert_char n pos c ed = Some (-1, ed)"
    by (auto simp: editor_insert_char_def EDITOR_MAX_LINE_LENGTH_def)
  with False ok length_ed_text [of ed] show ?thesis by (auto simp: refines_edit_def)
next
  case True
  then obtain b where b: "line_at ed n = Some b" "buf_ok b" "ctext b = ed_text ed ! nat n"
    "buf_len b = Some (length (ctext b))" using line_cases [OF ok] by blast
  show ?thesis
  proof (cases "length (ctext b) < 1023")
    case False
    then have "editor_insert_char n pos c ed = Some (-1, ed)"
      using True b by (simp add: editor_insert_char_def EDITOR_MAX_LINE_LENGTH_def)
    with False b(3) ok show ?thesis by (auto simp: refines_edit_def)
  next
    case short: True
    let ?b = "(shift_right (nat pos) (length (ctext b)) b)[nat pos := c]"
    have i: "editor_insert_char n pos c ed = Some (0, (set_line n ?b ed)\<lparr>ed_modified := True\<rparr>)"
      using True b short by (simp add: editor_insert_char_def EDITOR_MAX_LINE_LENGTH_def)
    show ?thesis
    proof (cases "nat pos \<le> length (ctext b)")
      case le: True
      from inserted_buf [OF b(2) le short, of c] set_line_ok [OF ok, of ?b n] True short le b(3) length_ed_text [of ed]
      show ?thesis unfolding i by (simp add: refines_edit_def)
    next
      case False
      with True have "length (ctext b) < nat pos" "nat pos < 1024" by linarith+
      from inserted_behind [OF b(2) this, of c] set_line_ok [OF ok, of ?b n] True short False b(3) length_ed_text [of ed]
      show ?thesis unfolding i by (simp add: refines_edit_def)
    qed
  qed
qed

lemma delete_char_refines:
  assumes ok: "ed_ok ed"
  shows "refines_edit (DeleteChar n pos) ed (editor_delete_char n pos ed)"
proof (cases "0 \<le> n \<and> n < line_count ed \<and> 0 \<le> pos")
  case False
  then have "editor_delete_char n pos ed = Some (-1, ed)" by (auto simp: editor_delete_char_def)
  with False ok length_ed_text [of ed] show ?thesis by (auto simp: refines_edit_def)
next
  case True
  then obtain b where b: "line_at ed n = Some b" "buf_ok b" "ctext b = ed_text ed ! nat n"
    "buf_len b = Some (length (ctext b))" using line_cases [OF ok] by blast
  show ?thesis
  proof (cases "pos < int (length (ctext b))")
    case False
    then have "editor_delete_char n pos ed = Some (-1, ed)" using True b by (simp add: editor_delete_char_def)
    with False b(3) ok show ?thesis by (auto simp: refines_edit_def)
  next
    case lt: True
    let ?b = "shift_left (nat pos) (length (ctext b) - nat pos) b"
    have d: "editor_delete_char n pos ed = Some (0, (set_line n ?b ed)\<lparr>ed_modified := True\<rparr>)"
      using True b lt by (simp add: editor_delete_char_def)
    have "nat pos < length (ctext b)" using lt True by linarith
    from deleted_buf [OF b(2) this] set_line_ok [OF ok, of ?b n] True lt b(3) length_ed_text [of ed]
    show ?thesis unfolding d by (simp add: refines_edit_def)
  qed
qed

definition cursor_in :: "EditorState \<Rightarrow> bool" where
  "cursor_in ed \<longleftrightarrow> 0 \<le> cursor_y ed \<and> cursor_y ed < line_count ed \<and> 0 \<le> cursor_x ed \<and>
     cursor_x ed \<le> int (length (ed_text ed ! nat (cursor_y ed)))"

lemma move_cursor_refines:
  assumes ok: "ed_ok ed"
  shows "refines_edit (MoveCursor dx dy) ed (editor_move_cursor dx dy ed)"
    and "editor_move_cursor dx dy ed = Some (r, ed') \<Longrightarrow> cursor_in ed'"
proof -
  let ?y1 = "if cursor_y ed + dy < 0 then 0 else cursor_y ed + dy"
  let ?y = "if ?y1 \<ge> line_count ed then line_count ed - 1 else ?y1"
  have "line_count ed \<ge> 1" using ok by (cases "ed_lines ed") (simp_all add: ed_ok_def line_count_def)
  then have y: "0 \<le> ?y" "?y < line_count ed" by simp_all
  then obtain b where b: "line_at ed ?y = Some b" "ctext b = ed_text ed ! nat ?y" "buf_len b = Some (length (ctext b))"
    using line_cases [OF ok] by blast
  show "refines_edit (MoveCursor dx dy) ed (editor_move_cursor dx dy ed)"
    using b ok by (simp add: refines_edit_def editor_move_cursor_def Let_def)
  have lc: "line_count (ed\<lparr>cursor_x := x, cursor_y := y, scroll_offset := z\<rparr>) = line_count ed" for x y z
    by (simp add: line_count_def)
  show "cursor_in ed'" if "editor_move_cursor dx dy ed = Some (r, ed')"
    using that b y unfolding cursor_in_def editor_move_cursor_def Let_def by (auto simp: lc simp del: nat_le_iff)
qed

lemma edit_refines:
  assumes "ed_ok ed" and "\<And>i. line_calloc e i"
  shows "refines_edit x ed (editor_do e x ed)"
  using assms by (cases x) (simp_all add: insert_line_refines delete_line_refines split_line_refines insert_char_refines
      delete_char_refines move_cursor_refines)

text \<open>Runs of calls, with their results.\<close>

fun editor_do_all :: "editor_env \<Rightarrow> edit list \<Rightarrow> EditorState \<Rightarrow> (int list \<times> EditorState) option" where
  "editor_do_all e [] ed = Some ([], ed)"
| "editor_do_all e (x # xs) ed = do {
     (r, ed1) \<leftarrow> editor_do e x ed;
     (rs, ed2) \<leftarrow> editor_do_all e xs ed1;
     Some (r # rs, ed2) }"

fun text_edit_all :: "int \<Rightarrow> edit list \<Rightarrow> u8 list list \<Rightarrow> int list \<times> u8 list list" where
  "text_edit_all m [] t = ([], t)"
| "text_edit_all m (x # xs) t =
     (case text_edit m x t of
        None \<Rightarrow> (let (rs, t') = text_edit_all m xs t in (-1 # rs, t'))
      | Some t1 \<Rightarrow> (let (rs, t') = text_edit_all m xs t1 in (0 # rs, t')))"

text \<open>
  C33: The editor edits a text: on a state whose buffers are allocated and terminated, with at
  least one line and no more than the maximum, and as long as allocations succeed, every
  sequence of the editor's calls is free of undefined behaviour and keeps that shape; their
  results and the lines shown are those of the same edits on a list of strings (insert,
  delete and split a line, insert and delete a character, move), a refused call returning -1
  without effect.
\<close>

theorem editor_edits_text:
  assumes ok: "ed_ok ed" and al: "\<And>i. line_calloc e i"
  shows "\<exists>rs ed'. editor_do_all e xs ed = Some (rs, ed') \<and> ed_ok ed' \<and>
    (rs, ed_text ed') = text_edit_all (ed_max_lines ed) xs (ed_text ed)"
  using ok
proof (induction xs arbitrary: ed)
  case Nil
  then show ?case by simp
next
  case (Cons x xs)
  from edit_refines [OF Cons.prems al, of x] obtain r ed1 where d: "editor_do e x ed = Some (r, ed1)" "ed_ok ed1"
    "ed_max_lines ed1 = ed_max_lines ed" and
    sp: "case text_edit (ed_max_lines ed) x (ed_text ed) of None \<Rightarrow> r = -1 \<and> ed1 = ed | Some t \<Rightarrow> r = 0 \<and> ed_text ed1 = t"
    unfolding refines_edit_def by blast
  from Cons.IH [OF d(2)] obtain rs ed' where i: "editor_do_all e xs ed1 = Some (rs, ed')" "ed_ok ed'"
    "(rs, ed_text ed') = text_edit_all (ed_max_lines ed1) xs (ed_text ed1)" by blast
  from i(3) have i3: "text_edit_all (ed_max_lines ed) xs (ed_text ed1) = (rs, ed_text ed')" by (simp add: d(3))
  show ?case
  proof (cases "text_edit (ed_max_lines ed) x (ed_text ed)")
    case None
    with sp d i(1,2) i3 show ?thesis by simp
  next
    case (Some t)
    with sp d i(1,2) i3 show ?thesis by simp
  qed
qed

section \<open>Files\<close>

definition unlines :: "u8 list list \<Rightarrow> u8 list" where
  "unlines ts = concat (map (\<lambda>t. t @ [10]) ts)"

lemma unlines_simps [simp]: "unlines [] = []" "unlines (t # ts) = t @ 10 # unlines ts"
  by (simp_all add: unlines_def)

definition plain_line :: "u8 list \<Rightarrow> bool" where
  "plain_line t \<longleftrightarrow> 0 \<notin> set t \<and> 10 \<notin> set t \<and> length t < 1024"

lemma find_newline_plain:
  "0 \<notin> set t \<Longrightarrow> 10 \<notin> set t \<Longrightarrow> find_newline (t @ 10 # r) = Some (Some (length t))"
  by (induction t) auto

text \<open>Reading the lines that were written, whatever follows them.\<close>

lemma parse_unlines:
  assumes "\<And>i. line_calloc e i" and "\<forall>t \<in> set ts. plain_line t" and "int (length acc + length ts) \<le> m"
  shows "\<exists>ls. parse_lines e m (unlines ts @ r) acc = parse_lines e m r (acc @ ls) \<and>
    (\<forall>l \<in> set ls. line_ok l) \<and> map line_text ls = ts"
  using assms(2,3)
proof (induction ts arbitrary: acc)
  case Nil
  show ?case by (intro exI [of _ "[]"]) simp
next
  case (Cons t ts)
  then have t: "plain_line t" by simp
  let ?l = "Some (put_bytes t (replicate EDITOR_MAX_LINE_LENGTH 0))"
  have l: "line_ok ?l" "line_text ?l = t"
    using put_buf(2) [of t] t by (simp_all add: plain_line_def line_ok_def line_text_def)
  have "take (min (length t) (EDITOR_MAX_LINE_LENGTH - 1)) (unlines (t # ts) @ r) = t"
    using t by (simp add: plain_line_def EDITOR_MAX_LINE_LENGTH_def)
  then have st: "store_line e (length acc) (take (min (length t) (EDITOR_MAX_LINE_LENGTH - 1)) (unlines (t # ts) @ r)) = Some ?l"
    using assms(1) by (simp add: store_line_def new_line_def)
  have "find_newline (unlines (t # ts) @ r) = Some (Some (length t))"
    using t find_newline_plain [of t "unlines ts @ r"] by (simp add: plain_line_def)
  with st Cons.prems(2) have "parse_lines e m (unlines (t # ts) @ r) acc = parse_lines e m (unlines ts @ r) (acc @ [?l])"
    by (subst parse_lines.simps) simp
  moreover from Cons.IH [of "acc @ [?l]"] Cons.prems obtain ls where
    "parse_lines e m (unlines ts @ r) (acc @ [?l]) = parse_lines e m r ((acc @ [?l]) @ ls)"
    "\<forall>l \<in> set ls. line_ok l" "map line_text ls = ts" by auto
  ultimately show ?case using l by (intro exI [of _ "?l # ls"]) simp
qed

text \<open>A terminator after the last newline, or the end of the block.\<close>

lemma parse_end: "parse_lines e m [0] acc = Some acc" "parse_lines e m [] acc = None"
  by (subst parse_lines.simps; simp)+

lemma those_line_bytes: "\<forall>l \<in> set ls. line_ok l \<Longrightarrow> those (map line_bytes ls) = Some (map line_text ls)"
proof (induction ls)
  case Nil
  then show ?case by simp
next
  case (Cons l ls)
  then obtain b where b: "l = Some b" "buf_ok b" by (auto simp: line_ok_def split: option.splits)
  then have "buf_len b = Some (length (ctext b))" by (simp add: buf_len_ctext buf_ok_def)
  moreover have "take (length (ctext b)) b = ctext b" by (simp add: ctext_def takeWhile_eq_take [symmetric])
  ultimately show ?case using Cons b by (simp add: line_bytes_def line_text_def)
qed

definition saved :: "EditorState \<Rightarrow> string \<Rightarrow> EditorState" where
  "saved ed path = ed\<lparr>ed_filename := c_copy 256 path, ed_modified := False\<rparr>"

text \<open>The allocations of a save, and the node's own block not freed before.\<close>

definition save_room :: "editor_env \<Rightarrow> EditorState \<Rightarrow> sys_state \<Rightarrow> bool" where
  "save_room e ed s \<longleftrightarrow> content_malloc e (length (unlines (ed_text ed)) + 1) \<and>
     data_malloc (on_vfs (on_sys e)) (length (unlines (ed_text ed))) \<and>
     (\<forall>b. dom b \<subseteq> insert (new_block (on_sys e) (bufs s)) (dom (bufs s)) \<longrightarrow> b (new_block (on_sys e) b) = None)"

definition block_live :: "sys_state \<Rightarrow> vptr \<Rightarrow> bool" where
  "block_live s a \<longleftrightarrow> (case ndata s a of None \<Rightarrow> True | Some p \<Rightarrow> bufs s p \<noteq> None)"

lemma save_file_found:
  assumes ok: "ed_ok ed" and vfs: "vfs_ok (sys_vfs s)" and path: "path \<noteq> []"
    and found: "vfs_find_node (sys_vfs s) (Some path) = Some (Some a)" "located (sys_vfs s) (seen_tokens path) a n"
    and nd: "\<not> is_directory n" and acc: "may_access (sys_vfs s) n (vfs_current_user (sys_vfs s)) W_OK"
    and room: "save_room e ed s" and live: "block_live s a"
  shows "\<exists>s1 q. editor_save_file e (Some path) ed s = Some (0, saved ed path, s1) \<and>
    ndata s1 a = Some q \<and> bufs s1 q = Some (unlines (ed_text ed)) \<and>
    vfs_ok (sys_vfs s1) \<and> located (sys_vfs s1) (seen_tokens path) a (set_content (on_vfs (on_sys e)) (unlines (ed_text ed)) n) \<and>
    same_globals (sys_vfs s) (sys_vfs s1) \<and>
    vfs_view (sys_vfs s1) = (vfs_view (sys_vfs s))
      (seen_tokens path \<mapsto> set_content (on_vfs (on_sys e)) (unlines (ed_text ed)) (entry_of n))"
proof -
  let ?c = "unlines (ed_text ed)" and ?e = "on_sys e"
  have fresh: "dom b \<subseteq> insert (new_block ?e (bufs s)) (dom (bufs s)) \<Longrightarrow> b (new_block ?e b) = None" for b
    using room by (simp add: save_room_def)
  have texts: "those (map line_bytes (ed_lines ed)) = Some (ed_text ed)"
    using ok those_line_bytes by (simp add: ed_ok_def ed_text_def)
  have c: "?c \<noteq> []" using ok by (cases "ed_text ed") (simp_all add: ed_ok_def ed_text_def)
  have n: "vnodes (sys_vfs s) a = Some n" using found(2) by (auto simp: located_def)
  have perm: "vfs_check_permission (sys_vfs s) (Some path) (vfs_current_user (sys_vfs s)) (drop_bit 6 VFS_S_IWUSR) = Some 1"
    using check_permission_found [OF found(1) n, of "vfs_current_user (sys_vfs s)" W_OK] acc by (simp add: perm_bits of_cbool_def)
  define p where "p = new_block ?e (bufs s)"
  let ?s0 = "s\<lparr>bufs := (bufs s)(p \<mapsto> ?c @ [0])\<rparr>"
  define freed where "freed = (case ndata s a of None \<Rightarrow> bufs ?s0 | Some o' \<Rightarrow> (bufs ?s0)(o' := None))"
  have p: "bufs s p = None" "freed p = Some (?c @ [0])"
    using fresh [OF subset_insertI] live by (auto simp: p_def freed_def block_live_def split: option.splits)
  have "dom freed \<subseteq> insert p (dom (bufs s))" by (auto simp: freed_def split: option.splits if_splits)
  have fr: "(case ndata ?s0 a of None \<Rightarrow> Some (bufs ?s0)
       | Some x \<Rightarrow> if bufs ?s0 x = None then None else Some ((bufs ?s0)(x := None))) = Some freed"
    using live by (auto simp: freed_def block_live_def split: option.splits)
  let ?q = "new_block ?e freed"
  have q: "?q \<noteq> p" using fresh [of freed] p \<open>dom freed \<subseteq> _\<close> by (auto simp: p_def)
  from write_file_located [OF vfs found nd acc, of ?c "on_vfs ?e"] room obtain w2 where
    w2: "vfs_write_file (on_vfs ?e) (Some path) (Some ?c) (sys_vfs s) = Some (0, w2)" "vfs_ok w2"
      "located w2 (seen_tokens path) a (set_content (on_vfs ?e) ?c n)" "same_globals (sys_vfs s) w2"
      "vfs_view w2 = (vfs_view (sys_vfs s))(seen_tokens path \<mapsto> set_content (on_vfs ?e) ?c (entry_of n))"
    by (auto simp: save_room_def)
  let ?s1 = "?s0\<lparr>bufs := freed(?q \<mapsto> ?c), ndata := (ndata ?s0)(a := Some ?q), sys_vfs := w2\<rparr>"
  have "write_file_ptr ?e path (Some p) (length ?c) ?s0 = Some (0, ?s1)"
    using found(1) n perm nd c room fr p(2) w2(1)
    by (simp add: write_file_ptr_def save_room_def Let_def del: fun_upd_apply)
  then have "editor_save_file e (Some path) ed s = Some (0, saved ed path, ?s1\<lparr>bufs := (bufs ?s1)(p := None)\<rparr>)"
    using path texts room
    by (simp add: editor_save_file_def saved_def save_room_def unlines_def [symmetric] p_def [symmetric] Let_def)
  then show ?thesis using w2 q by (intro exI [of _ "?s1\<lparr>bufs := (bufs ?s1)(p := None)\<rparr>"] exI [of _ ?q]) simp
qed

lemma ed_plain:
  assumes "ed_ok ed" and "\<forall>t \<in> set (ed_text ed). 10 \<notin> set t"
  shows "\<forall>t \<in> set (ed_text ed). plain_line t"
proof
  fix t assume t: "t \<in> set (ed_text ed)"
  then obtain l where l: "l \<in> set (ed_lines ed)" "t = line_text l" by (auto simp: ed_text_def)
  then obtain b where "l = Some b" "buf_ok b" using assms(1) by (auto simp: ed_ok_def line_ok_def split: option.splits)
  with l t assms(2) ctext_short [of b] ctext_no_null [of b] show "plain_line t" by (simp add: plain_line_def line_text_def)
qed

lemma same_globals_user:
  assumes "same_globals w w'"
  shows "vfs_is_root w' = vfs_is_root w" "vfs_current_user w' = vfs_current_user w"
    "vfs_current_group w' = vfs_current_group w"
  using assms unfolding same_globals_def
  by (metis (no_types) vfs_world.select_convs vfs_world.surjective vfs_world.update_convs)+

lemma found_again:
  assumes "vfs_ok w" "located w (seen_tokens p) a n"
  shows "vfs_find_node w (Some p) = Some (Some a)"
proof (cases rule: find_node_cases [OF assms(1), of p, case_names none found])
  case none
  with assms show ?thesis by (auto simp: located_def vfs_view_def fs_view_def)
next
  case (found b m)
  with assms(2) show ?thesis by (auto simp: located_def)
qed


text \<open>
  C35: A file cannot be opened and saved in one session: when the editor has loaded a file whose
  contents are in the file system, it has freed the file's own block, and a save to that file,
  after whatever edits, is undefined (the block is freed again); and a file that has just
  been saved cannot be opened, since its contents have no terminator and the search for the
  end of the last line runs past the block.
\<close>

theorem editor_file_once:
  assumes vfs: "vfs_ok (sys_vfs s)" and cp: "coupled s" and path: "path \<noteq> []"
    and found: "vfs_find_node (sys_vfs s) (Some path) = Some (Some a)" "vnodes (sys_vfs s) a = Some n"
    and nd: "\<not> is_directory n" and data: "vdata n = Some bytes"
    and acc: "may_access (sys_vfs s) n (vfs_current_user (sys_vfs s)) W_OK"
      "may_access (sys_vfs s) n (vfs_current_user (sys_vfs s)) R_OK"
    and ok: "ed_ok ed" and room: "save_room e ed s"
  shows "(editor_load_file e path ed0 s = Some (r, ed1, s1) \<longrightarrow> editor_save_file e (Some path) ed s1 = None) \<and>
    (editor_save_file e (Some path) ed s = Some (r, ed1, s1) \<and> line_count ed \<le> ed_max_lines ed0 \<and>
      (\<forall>t \<in> set (ed_text ed). 10 \<notin> set t) \<and> (\<forall>i. line_calloc e i) \<longrightarrow>
      editor_load_file e path ed0 s1 = None)"
proof -
  have loc: "located (sys_vfs s) (seen_tokens path) a n"
    using find_node_cases [OF vfs, of path] found by (metis located_def option.inject option.simps(3))
  obtain q block where q: "ndata s a = Some q" "bufs s q = Some block" "vsize n = length bytes"
    using cp found(2) data unfolding coupled_def by blast
  have view: "vfs_view (sys_vfs s) (seen_tokens path) = Some (entry_of n)" using loc by (simp add: located_view)
  have entry: "may_access w (entry_of k) u pm = may_access w k u pm" "vsize (entry_of k) = vsize k" for w k u pm
    by (simp_all add: may_access_def entry_of_def)
  note [simp] = entry
  have rd: "read_file_ptr (on_sys e) path s = Some (0, (Some q, length bytes), s)"
    using read_file_loaded [OF vfs view, of bytes "on_vfs (on_sys e)"] data nd acc(2) found q
    by (simp add: read_file_ptr_def)
  have first: "editor_save_file e (Some path) ed s1 = None" if l: "editor_load_file e path ed0 s = Some (r, ed1, s1)"
  proof -
    from l rd have s1: "s1 = s\<lparr>bufs := (bufs s)(q := None)\<rparr>"
      by (auto simp: editor_load_file_def Let_def split: bind_splits)
    let ?p = "new_block (on_sys e) (bufs s1)" and ?c = "unlines (ed_text ed)"
    let ?s0 = "s1\<lparr>bufs := (bufs s1)(?p \<mapsto> ?c @ [0])\<rparr>"
    have "?c \<noteq> []" using ok by (cases "ed_text ed") (simp_all add: ed_ok_def ed_text_def)
    then have pos: "0 < length ?c" by simp
    have gone: "bufs ?s0 q = None \<or> ?p = q" by (simp add: s1)
    have st: "vfs_find_node (sys_vfs ?s0) (Some path) = Some (Some a)" "vnodes (sys_vfs ?s0) a = Some n"
      "ndata ?s0 a = Some q" "may_access (sys_vfs ?s0) n (vfs_current_user (sys_vfs ?s0)) W_OK"
      using found q acc(1) by (simp_all add: s1)
    have "write_file_ptr (on_sys e) path (Some ?p) (length ?c) ?s0 = None"
    proof (rule ccontr)
      assume "\<not> ?thesis"
      then obtain x t where "write_file_ptr (on_sys e) path (Some ?p) (length ?c) ?s0 = Some (x, t)" by auto
      from write_file_freed_source [OF st(1,2) nd st(3) pos gone st(4) this] room show False by (simp add: save_room_def)
    qed
    then show ?thesis
      using path ok room those_line_bytes [of "ed_lines ed"]
      by (simp add: editor_save_file_def save_room_def unlines_def ed_ok_def ed_text_def Let_def)
  qed
  have second: "editor_load_file e path ed0 s1 = None"
    if sv: "editor_save_file e (Some path) ed s = Some (r, ed1, s1)" and m: "line_count ed \<le> ed_max_lines ed0"
      and plain: "\<forall>t \<in> set (ed_text ed). 10 \<notin> set t" and al: "\<forall>i. line_calloc e i"
  proof -
    let ?c = "unlines (ed_text ed)" and ?ve = "on_vfs (on_sys e)"
    have c: "?c \<noteq> []" using ok by (cases "ed_text ed") (simp_all add: ed_ok_def ed_text_def)
    from save_file_found [OF ok vfs path found(1) loc nd acc(1) room] q sv obtain q' where
      s1: "ndata s1 a = Some q'" "bufs s1 q' = Some ?c" "vfs_ok (sys_vfs s1)"
        "located (sys_vfs s1) (seen_tokens path) a (set_content ?ve ?c n)" "same_globals (sys_vfs s) (sys_vfs s1)"
      by (auto simp: block_live_def)
    from s1(5) have g: "vfs_is_root (sys_vfs s1) = vfs_is_root (sys_vfs s)"
      "vfs_current_user (sys_vfs s1) = vfs_current_user (sys_vfs s)"
      "vfs_current_group (sys_vfs s1) = vfs_current_group (sys_vfs s)" by (rule same_globals_user)+
    have "may_access (sys_vfs s1) (entry_of (set_content ?ve ?c n)) (vfs_current_user (sys_vfs s1)) R_OK"
      using acc(2) g by (auto simp: may_access_def split: if_splits)
    from read_file_loaded [OF s1(3) located_view [OF s1(4)], of ?c ?ve] this c nd found_again [OF s1(3,4)] s1(1,4)
    have "read_file_ptr (on_sys e) path s1 = Some (0, (Some q', length ?c), s1)"
      by (simp add: read_file_ptr_def)
    moreover have "parse_lines e (ed_max_lines ed0) (?c @ []) [] = None"
    proof -
      have "int (length [] + length (ed_text ed)) \<le> ed_max_lines ed0" using m length_ed_text [of ed] by simp
      from parse_unlines [OF _ ed_plain [OF ok plain] this, of e "[]"] al show ?thesis by (auto simp: parse_end)
    qed
    ultimately show ?thesis using s1(2) by (simp add: editor_load_file_def Let_def)
  qed
  from first second show ?thesis by blast
qed

section \<open>Witnesses\<close>

definition ed_demo_env :: editor_env where
  "ed_demo_env = \<lparr>on_sys = sys_demo_env, state_calloc = True, array_calloc = True, line_calloc = (\<lambda>_. True),
     content_malloc = (\<lambda>_. True)\<rparr>"

definition ed_demo :: EditorState where
  "ed_demo = the (editor_create ed_demo_env 5)"

lemma ed_demo_ok: "ed_ok ed_demo" "ed_text ed_demo = [[]]" "ed_max_lines ed_demo = 5" "line_count ed_demo = 1"
  by (simp_all add: ed_demo_def editor_create_def ed_demo_env_def ed_ok_def ed_text_def line_count_def line_ok_def
      line_text_def new_line_def zero_buf)

lemma ed_demo_al: "line_calloc ed_demo_env i" by (simp add: ed_demo_env_def)

lemma editor_edits_text_witness:
  "\<exists>ed'. editor_do_all ed_demo_env [InsertChar 0 0 104, InsertChar 0 1 105, SplitLine 0 1, DeleteChar 7 0] ed_demo
      = Some ([0, 0, 0, -1], ed') \<and> ed_text ed' = [[104], [105]]"
proof -
  from editor_edits_text [OF ed_demo_ok(1) ed_demo_al,
      of "[InsertChar 0 0 104, InsertChar 0 1 105, SplitLine 0 1, DeleteChar 7 0]"]
  obtain rs ed' where
    "editor_do_all ed_demo_env [InsertChar 0 0 104, InsertChar 0 1 105, SplitLine 0 1, DeleteChar 7 0] ed_demo = Some (rs, ed')"
    "(rs, ed_text ed') = text_edit_all 5 [InsertChar 0 0 104, InsertChar 0 1 105, SplitLine 0 1, DeleteChar 7 0] [[]]"
    unfolding ed_demo_ok(2,3) by blast
  then show ?thesis by (simp add: ctext_def)
qed

lemma sys_demo_room: "save_room ed_demo_env ed_demo sys_demo" "block_live sys_demo 2"
  "may_access (sys_vfs sys_demo) (the (vnodes (sys_vfs sys_demo) 2)) (vfs_current_user (sys_vfs sys_demo)) W_OK"
  "may_access (sys_vfs sys_demo) (the (vnodes (sys_vfs sys_demo) 2)) (vfs_current_user (sys_vfs sys_demo)) R_OK"
  "vnodes (sys_vfs sys_demo) 2 = Some (the (vnodes (sys_vfs sys_demo) 2))"
  "\<not> is_directory (the (vnodes (sys_vfs sys_demo) 2))" "vdata (the (vnodes (sys_vfs sys_demo) 2)) = Some [104, 105, 33]"
  by (auto simp: save_room_def block_live_def ed_demo_env_def sys_demo_env_def sys_demo_def demo_env_def demo_node_def
      may_access_def demo_vfs_def R_OK_def W_OK_def VFS_DEFAULT_FILE_PERMS_def split: if_splits)


lemma editor_file_once_witness:
  "\<exists>s1. editor_save_file ed_demo_env (Some ''/f'') ed_demo sys_demo = Some (0, saved ed_demo ''/f'', s1) \<and>
     editor_load_file ed_demo_env ''/f'' ed_demo s1 = None"
proof -
  have "located (sys_vfs sys_demo) (seen_tokens ''/f'') 2 (the (vnodes (sys_vfs sys_demo) 2))"
    using find_node_cases [OF sys_demo_vfs, of "''/f''"] sys_demo_facts(2) sys_demo_room(5)
    by (metis located_def option.inject option.simps(3))
  from save_file_found [OF ed_demo_ok(1) sys_demo_vfs _ sys_demo_facts(2) this sys_demo_room(6,3,1,2)]
  obtain s1 where s1: "editor_save_file ed_demo_env (Some ''/f'') ed_demo sys_demo = Some (0, saved ed_demo ''/f'', s1)" by auto
  with editor_file_once [OF sys_demo_vfs sys_demo_facts(1) _ sys_demo_facts(2) sys_demo_room(5,6,7,3,4) ed_demo_ok(1)
      sys_demo_room(1), of ed_demo 0 "saved ed_demo ''/f''" s1] ed_demo_ok ed_demo_al
  have "editor_load_file ed_demo_env ''/f'' ed_demo s1 = None" by simp
  with s1 show ?thesis by blast
qed

end
