(* ===== verification/TextProc.thy ===== *)
theory TextProc
  imports SyscallProps CLib
begin

text \<open>
  The text processing tools (\<^verbatim>\<open>src/unix_core/unix_textproc.c\<close>): \<^verbatim>\<open>sed\<close>, \<^verbatim>\<open>awk\<close>, \<^verbatim>\<open>nroff\<close>, \<^verbatim>\<open>grep\<close>
  and the word count. A tool gets the pointer to a file's data block from the file system
  (\<open>Syscalls\<close>), reads it as a C string, cuts it into lines with \<^verbatim>\<open>strtok\<close> and frees it. What
  the tools print is their output and is returned, line by line. Writing past an output
  buffer, reading a block without a terminator or a freed one is undefined (\<open>None\<close>); the
  copies made by \<^verbatim>\<open>strdup\<close> are granted. \<^verbatim>\<open>tolower\<close> and \<^verbatim>\<open>toupper\<close> are those of the C locale.
\<close>

section \<open>Strings\<close>

record text_env =
  on_text :: sys_env
  out_malloc :: "nat \<Rightarrow> bool"
  sum_text :: "string list \<Rightarrow> string"
  sum_positive :: "string list \<Rightarrow> bool"

definition newline :: char where "newline = CHR 0x0A"

definition char_code :: "char \<Rightarrow> nat" where "char_code c = of_char c"

definition to_lower :: "char \<Rightarrow> char" where
  "to_lower c = (if 65 \<le> char_code c \<and> char_code c \<le> 90 then char_of (char_code c + 32) else c)"

definition to_upper :: "char \<Rightarrow> char" where
  "to_upper c = (if 97 \<le> char_code c \<and> char_code c \<le> 122 then char_of (char_code c - 32) else c)"

text \<open>The C string a block holds.\<close>

definition block_text :: "u8 list \<Rightarrow> string option" where
  "block_text b = (if 0 \<in> set b then Some (map (\<lambda>c. char_of (unat c)) (takeWhile (\<lambda>c. c \<noteq> 0) b)) else None)"

definition text_bytes :: "string \<Rightarrow> u8 list" where
  "text_bytes s = map of_char s"

definition contains :: "string \<Rightarrow> string \<Rightarrow> bool" where
  "contains s t \<longleftrightarrow> strstr s t \<noteq> None"

definition text_lines :: "string \<Rightarrow> string list" where
  "text_lines s = strtok_all {newline} s"

text \<open>\<^verbatim>\<open>%d\<close>: a number that does not fit is undefined.\<close>

definition scan_d :: "string \<Rightarrow> (int \<times> string) option option" where
  "scan_d s = (case scan_int s of None \<Rightarrow> Some None
     | Some (v, r) \<Rightarrow> if fits_int v then Some (Some (v, r)) else None)"

section \<open>Output buffers\<close>

text \<open>
  Whether nothing has been put out yet, the text so far, and the bytes that remain. A line is
  preceded by a newline unless it is the first, and left out when it does not fit.
\<close>

type_synonym text_out = "bool \<times> string \<times> nat"

definition put_newline :: "string \<times> nat \<Rightarrow> string \<times> nat" where
  "put_newline x = (case x of (out, rem) \<Rightarrow> if 0 < rem then (out @ [newline], rem - 1) else (out, rem))"

definition put_str :: "string \<Rightarrow> string \<times> nat \<Rightarrow> string \<times> nat" where
  "put_str t x = (case x of (out, rem) \<Rightarrow> if length t \<le> rem then (out @ t, rem - length t) else (out, rem))"

definition emit :: "string \<Rightarrow> text_out \<Rightarrow> text_out" where
  "emit t x = (case x of (first, out, rem) \<Rightarrow>
     (False, put_str t (if first then (out, rem) else put_newline (out, rem))))"

definition out_text :: "text_out \<Rightarrow> string" where "out_text x = fst (snd x)"
definition out_left :: "text_out \<Rightarrow> nat" where "out_left x = snd (snd x)"

text \<open>\<^verbatim>\<open>strcpy(output, input)\<close> into a buffer of \<open>cap\<close> bytes.\<close>

definition copy_out :: "nat \<Rightarrow> string \<Rightarrow> string option" where
  "copy_out cap t = (if length t < cap then Some t else None)"

section \<open>Substitution\<close>

definition at_match :: "bool \<Rightarrow> string \<Rightarrow> string \<Rightarrow> bool" where
  "at_match icase pat src =
     (if icase then starts_with (map to_lower pat) (map to_lower src) else starts_with pat src)"

text \<open>
  The loop over one line, with the bytes of the line buffer used: \<open>glob\<close> and \<open>num\<close> are the
  flags, \<open>k\<close> counts the matches. The result is the position where it stops and the output.
\<close>

definition LINE_OUTPUT :: nat where "LINE_OUTPUT = 2048"

partial_function (option) sub_loop ::
  "bool \<Rightarrow> nat \<Rightarrow> bool \<Rightarrow> string \<Rightarrow> string \<Rightarrow> nat \<Rightarrow> string \<Rightarrow> string \<Rightarrow> (string \<times> string) option" where
  "sub_loop glob num icase pat repl k src out =
     (if src = [] \<or> \<not> length out < LINE_OUTPUT - 1 then Some (src, out)
      else if at_match icase pat src then
        (if num = 0 \<or> Suc k = num \<or> glob then
           (if length repl \<le> LINE_OUTPUT - length out - 1 then
              (if \<not> glob \<and> num = 0 \<or> num > 0 \<and> Suc k = num then Some (drop (length pat) src, out @ repl)
               else sub_loop glob num icase pat repl (Suc k) (drop (length pat) src) (out @ repl))
            else Some (src, out))
         else sub_loop glob num icase pat repl (Suc k) (tl src) (out @ [hd src]))
      else sub_loop glob num icase pat repl k (tl src) (out @ [hd src]))"

declare sub_loop.simps [code]

definition sub_line :: "bool \<Rightarrow> nat \<Rightarrow> bool \<Rightarrow> string \<Rightarrow> string \<Rightarrow> string \<Rightarrow> string option" where
  "sub_line glob num icase pat repl line = do {
     (src, out) \<leftarrow> sub_loop glob num icase pat repl 0 line [];
     Some (out @ take (LINE_OUTPUT - 1 - length out) src) }"

fun sub_lines :: "(string \<Rightarrow> string option) \<Rightarrow> string list \<Rightarrow> text_out \<Rightarrow> text_out option" where
  "sub_lines f [] x = Some x"
| "sub_lines f (l # ls) x =
     (if out_left x = 0 then Some x else do { t \<leftarrow> f l; sub_lines f ls (emit t x) })"

definition flag_digit :: "string \<Rightarrow> nat" where
  "flag_digit flags = (case filter is_digit flags of [] \<Rightarrow> 0 | c # cs \<Rightarrow> char_code c - 48)"

definition unix_sed_substitute_enhanced ::
  "string \<Rightarrow> string \<Rightarrow> string \<Rightarrow> string \<Rightarrow> nat \<Rightarrow> string option" where
  "unix_sed_substitute_enhanced pattern replacement flags input output_size =
     (if output_size = 0 then None
      else map_option out_text
        (sub_lines (sub_line (CHR ''g'' \<in> set flags) (flag_digit flags) (CHR ''i'' \<in> set flags) pattern replacement)
           (text_lines input) (True, [], output_size - 1)))"

text \<open>The simple substitution over the whole text.\<close>

partial_function (option) simple_loop :: "string \<Rightarrow> string \<Rightarrow> string \<Rightarrow> string \<times> nat \<Rightarrow> string option" where
  "simple_loop pat repl src x =
     (if src = [] \<or> snd x = 0 then Some (fst x)
      else if starts_with pat src then
        (if length repl \<le> snd x
         then simple_loop pat repl (drop (length pat) src) (fst x @ repl, snd x - length repl)
         else Some (fst x))
      else simple_loop pat repl (tl src) (fst x @ [hd src], snd x - 1))"

declare simple_loop.simps [code]

definition unix_sed_substitute :: "string \<Rightarrow> string \<Rightarrow> string \<Rightarrow> nat \<Rightarrow> string option" where
  "unix_sed_substitute pattern replacement input output_size =
     (if output_size = 0 then None else simple_loop pattern replacement input ([], output_size - 1))"

section \<open>Commands on lines\<close>

fun delete_loop :: "int \<Rightarrow> int \<Rightarrow> int \<Rightarrow> string list \<Rightarrow> text_out \<Rightarrow> text_out" where
  "delete_loop a b n [] x = x"
| "delete_loop a b n (l # ls) x =
     (if out_left x = 0 then x
      else delete_loop a b (n + 1) ls (if n < a \<or> n > b then emit l x else x))"

definition unix_sed_delete_lines :: "string \<Rightarrow> string \<Rightarrow> nat \<Rightarrow> string option" where
  "unix_sed_delete_lines script input output_size =
     (if output_size = 0 then None
      else do {
        first \<leftarrow> scan_d script;
        (case first of
           None \<Rightarrow> copy_out output_size input
         | Some (a, r) \<Rightarrow> do {
             second \<leftarrow> (if r \<noteq> [] \<and> hd r = CHR '','' then scan_d (tl r) else Some None);
             let b = (case second of Some (v, r') \<Rightarrow> v | None \<Rightarrow> a);
             Some (out_text (delete_loop a b 1 (text_lines input) (True, [], output_size - 1))) }) })"

text \<open>\<^verbatim>\<open>%d\<close>, the letter, a backslash and \<^verbatim>\<open>%255s\<close>: a word of at most 255 characters.\<close>

definition scan_text_command :: "char \<Rightarrow> string \<Rightarrow> (int \<times> string) option option" where
  "scan_text_command c script = do {
     first \<leftarrow> scan_d script;
     Some (case first of
        None \<Rightarrow> None
      | Some (n, r) \<Rightarrow>
          if starts_with [c, CHR 0x5C] r
          then (let w = take 255 (takeWhile (\<lambda>x. \<not> is_space x) (dropWhile is_space (drop 2 r)))
                in if w = [] then None else Some (n, w))
          else None) }"

definition append_after :: "string \<Rightarrow> text_out \<Rightarrow> text_out" where
  "append_after t x = (case x of (first, out, rem) \<Rightarrow>
     if 0 < rem then (first, put_str t (put_newline (out, rem))) else x)"

fun append_loop :: "int \<Rightarrow> string \<Rightarrow> int \<Rightarrow> string list \<Rightarrow> text_out \<Rightarrow> text_out" where
  "append_loop k t n [] x = x"
| "append_loop k t n (l # ls) x =
     (if out_left x = 0 then x
      else append_loop k t (n + 1) ls (if n = k then append_after t (emit l x) else emit l x))"

definition unix_sed_append :: "string \<Rightarrow> string \<Rightarrow> nat \<Rightarrow> string option" where
  "unix_sed_append script input output_size =
     (if output_size = 0 then None
      else do {
        cmd \<leftarrow> scan_text_command CHR ''a'' script;
        (case cmd of
           None \<Rightarrow> copy_out output_size input
         | Some (k, t) \<Rightarrow> Some (out_text (append_loop k t 1 (text_lines input) (True, [], output_size - 1)))) })"

definition insert_before :: "string \<Rightarrow> text_out \<Rightarrow> text_out" where
  "insert_before t x = (case emit t x of (first, out, rem) \<Rightarrow> (first, put_newline (out, rem)))"

fun insert_loop :: "int \<Rightarrow> string \<Rightarrow> int \<Rightarrow> string list \<Rightarrow> text_out \<Rightarrow> text_out" where
  "insert_loop k t n [] x = x"
| "insert_loop k t n (l # ls) x =
     (if out_left x = 0 then x
      else insert_loop k t (n + 1) ls (emit l (if n = k then insert_before t x else x)))"

definition unix_sed_insert :: "string \<Rightarrow> string \<Rightarrow> nat \<Rightarrow> string option" where
  "unix_sed_insert script input output_size =
     (if output_size = 0 then None
      else do {
        cmd \<leftarrow> scan_text_command CHR ''i'' script;
        (case cmd of
           None \<Rightarrow> copy_out output_size input
         | Some (k, t) \<Rightarrow> Some (out_text (insert_loop k t 1 (text_lines input) (True, [], output_size - 1)))) })"

section \<open>The stream editor\<close>

definition sample_text :: string where
  "sample_text = concat (map (\<lambda>l. l @ [newline])
     [''Hello World'', ''This is a test'', ''Sed is powerful'', ''Line number four'', ''Another test line''])"

text \<open>
  A script: a success flag and the output. \<open>input\<close> is what reading the data as a string gives,
  \<open>None\<close> where that is undefined.
\<close>

definition sed_script :: "string \<Rightarrow> string option \<Rightarrow> nat \<Rightarrow> (bool \<times> string) option" where
  "sed_script script input cap =
     (if starts_with ''s/'' script then
        (let p = drop 2 script in
         case strchr p CHR ''/'' of
           None \<Rightarrow> Some (False, [])
         | Some i \<Rightarrow>
             (let p2 = drop (Suc i) p;
                  (repl, flags) = (case strchr p2 CHR ''/'' of
                                     Some j \<Rightarrow> (take j p2, drop (Suc j) p2) | None \<Rightarrow> (p2, []))
              in if i < 256 \<and> length repl < 256 \<and> length flags < 16
                 then do { t \<leftarrow> input; out \<leftarrow> unix_sed_substitute_enhanced (take i p) repl flags t cap; Some (True, out) }
                 else None))
      else if script = ''d'' then (if cap = 0 then None else Some (True, []))
      else if script = [] then None
      else if last script = CHR ''d'' then do { t \<leftarrow> input; out \<leftarrow> unix_sed_delete_lines script t cap; Some (True, out) }
      else if starts_with ''p'' script then do { t \<leftarrow> input; out \<leftarrow> copy_out cap (t @ t); Some (True, out) }
      else if contains script [CHR ''a'', CHR 0x5C] then do { t \<leftarrow> input; out \<leftarrow> unix_sed_append script t cap; Some (True, out) }
      else if contains script [CHR ''i'', CHR 0x5C] then do { t \<leftarrow> input; out \<leftarrow> unix_sed_insert script t cap; Some (True, out) }
      else do { t \<leftarrow> input; out \<leftarrow> copy_out cap t; Some (True, out) })"

text \<open>Freeing the data a tool has read: the sample is a block of its own.\<close>

definition free_data :: "dptr option \<Rightarrow> sys_state \<Rightarrow> sys_state option" where
  "free_data ptr s = (case ptr of None \<Rightarrow> Some s
     | Some p \<Rightarrow> if bufs s p = None then None else Some (s\<lparr>bufs := (bufs s)(p := None)\<rparr>))"

definition data_text :: "dptr option \<Rightarrow> string \<Rightarrow> sys_state \<Rightarrow> string option" where
  "data_text ptr sample s = (case ptr of None \<Rightarrow> Some sample | Some p \<Rightarrow> Option.bind (bufs s p) block_text)"

text \<open>The output buffer is a block; the file it is written to takes a copy.\<close>

definition write_output ::
  "text_env \<Rightarrow> string option \<Rightarrow> string \<Rightarrow> sys_state \<Rightarrow> sys_state option" where
  "write_output e output_file out s =
     (case output_file of None \<Rightarrow> Some s
      | Some f \<Rightarrow> do {
          let p = new_block (on_text e) (bufs s);
          (r, s1) \<leftarrow> write_file_ptr (on_text e) f (Some p) (length out)
                       (s\<lparr>bufs := (bufs s)(p \<mapsto> text_bytes out @ [0])\<rparr>);
          Some (s1\<lparr>bufs := (bufs s1)(p := None)\<rparr>) })"

definition unix_sed ::
  "text_env \<Rightarrow> string \<Rightarrow> string option \<Rightarrow> string option \<Rightarrow> sys_state \<Rightarrow> (int \<times> string \<times> sys_state) option" where
  "unix_sed e script input_file output_file s = do {
     (r, (ptr, size), s1) \<leftarrow> (case input_file of
        Some f \<Rightarrow> read_file_ptr (on_text e) f s
      | None \<Rightarrow> Some (0, (None, length sample_text), s));
     (if r \<noteq> 0 then Some (1, [], s1)
      else if \<not> out_malloc e (size * 3) then map_option (\<lambda>s2. (1, [], s2)) (free_data ptr s1)
      else do {
        (ok, out) \<leftarrow> sed_script script (data_text ptr sample_text s1) (size * 3);
        (if \<not> ok then map_option (\<lambda>s2. (1, [], s2)) (free_data ptr s1)
         else do {
           s2 \<leftarrow> write_output e output_file out s1;
           s3 \<leftarrow> free_data ptr s2;
           Some (0, (if output_file = None then out else []), s3) }) }) }"

section \<open>Records and fields\<close>

text \<open>
  The saved position of \<^verbatim>\<open>strtok\<close>: none after it has returned NULL or the last token, the
  text behind the last token otherwise, which may lie in a block that has been freed.
\<close>

datatype strtok_state = TokDone | TokAt string | TokFreed string

definition strtok_from :: "char set \<Rightarrow> string \<Rightarrow> string option \<times> strtok_state" where
  "strtok_from D s =
     (let s1 = dropWhile (\<lambda>c. c \<in> D) s; t = takeWhile (\<lambda>c. c \<notin> D) s1; r = dropWhile (\<lambda>c. c \<notin> D) s1
      in if s1 = [] then (None, TokDone) else (Some t, if r = [] then TokDone else TokAt (tl r)))"

definition strtok_next :: "char set \<Rightarrow> strtok_state \<Rightarrow> (string option \<times> strtok_state) option" where
  "strtok_next D st = (case st of TokDone \<Rightarrow> Some (None, TokDone)
     | TokAt s \<Rightarrow> Some (strtok_from D s) | TokFreed s \<Rightarrow> None)"

definition freed_position :: "strtok_state \<Rightarrow> strtok_state" where
  "freed_position st = (case st of TokAt s \<Rightarrow> TokFreed s | _ \<Rightarrow> st)"

definition field_delims :: "char set" where "field_delims = {CHR '' '', CHR 0x09}"

text \<open>The loop over the fields with room for \<open>k\<close> more of them.\<close>

fun fields_loop :: "nat \<Rightarrow> string option \<Rightarrow> strtok_state \<Rightarrow> string list \<Rightarrow> (string list \<times> strtok_state) option" where
  "fields_loop k None st fs = Some (fs, st)"
| "fields_loop 0 (Some t) st fs = Some (fs, st)"
| "fields_loop (Suc k) (Some t) st fs =
     do { (t1, st1) \<leftarrow> strtok_next field_delims st; fields_loop k t1 st1 (fs @ [t]) }"

definition unix_awk_split_fields_enhanced :: "string \<Rightarrow> nat \<Rightarrow> (string list \<times> strtok_state) option" where
  "unix_awk_split_fields_enhanced line max_fields =
     (if length line \<ge> 256 then None
      else do {
        let (t, st) = strtok_from field_delims line;
        (fs, st1) \<leftarrow> fields_loop (max_fields - 1) t st [line];
        Some (fs, freed_position st1) })"

definition unix_awk_toupper :: "string \<Rightarrow> string" where "unix_awk_toupper s = map to_upper s"
definition unix_awk_tolower :: "string \<Rightarrow> string" where "unix_awk_tolower s = map to_lower s"

definition unix_awk_gsub :: "string \<Rightarrow> string \<Rightarrow> string list" where
  "unix_awk_gsub script line = (if contains script ''gsub''
     then [''GSUB: '' @ line @ '' (substitution not fully implemented in demo)''] else [])"

definition unix_awk_sub :: "string \<Rightarrow> string \<Rightarrow> string list" where
  "unix_awk_sub script line = (if contains script ''sub''
     then [''SUB: '' @ line @ '' (substitution not fully implemented in demo)''] else [])"

definition unix_awk_match_pattern_enhanced :: "string \<Rightarrow> string \<Rightarrow> nat \<Rightarrow> string list" where
  "unix_awk_match_pattern_enhanced script line n =
     (if contains script ''match'' \<and> (contains line ''red'' \<or> contains line ''sweet'' \<or> contains line ''fresh'')
      then [''Line '' @ dec n @ '' matches pattern: '' @ line] else [])"

definition unix_awk_conditional :: "string \<Rightarrow> string list \<Rightarrow> nat \<Rightarrow> string list option" where
  "unix_awk_conditional script fs n =
     (let nf = length fs in
      if contains script ''$2 > '' \<and> nf > 2 then do {
        v \<leftarrow> atoi (fs ! 2);
        Some (if v > 5 then [''Line '' @ dec n @ '': Field 2 ('' @ dec_int v @ '') > 5: '' @ fs ! 0] else []) }
      else Some
        (if contains script ''$3 == '' \<and> nf > 3 then
           (if contains script ''red'' \<and> fs ! 3 = ''red''
            then [''Line '' @ dec n @ '': Field 3 is red: '' @ fs ! 0] else [])
         else if contains script ''NF > '' \<and> nf > 0 then
           (if nf - 1 > 3 then [''Line '' @ dec n @ '': '' @ dec (nf - 1) @ '' fields > 3: '' @ fs ! 0] else [])
         else []))"

definition unix_awk_split_demo :: "string \<Rightarrow> string list" where
  "unix_awk_split_demo line = (''Split demo for: '' @ line) #
     map (\<lambda>(i, t). ''  Field '' @ dec (Suc i) @ '': '' @ t)
       (enumerate 0 (strtok_all {CHR '' ''} line))"

text \<open>
  One record: the lines printed, the position of \<^verbatim>\<open>strtok\<close> and the fields summed so far. The
  sum is a floating point number: its text and whether it is positive are the parameters
  \<open>sum_text\<close> and \<open>sum_positive\<close>. \<^verbatim>\<open>unix_awk_split_demo\<close> uses \<^verbatim>\<open>strtok\<close> to the end, which leaves no position.
\<close>

definition awk_record :: "text_env \<Rightarrow> string \<Rightarrow> string \<Rightarrow> string list \<Rightarrow> nat \<Rightarrow> strtok_state \<Rightarrow> string list \<Rightarrow>
     (string list \<times> strtok_state \<times> string list) option" where
  "awk_record e script line fs n st sums =
     (let nf = length fs; printed = (\<lambda>ls. Some (ls, st, sums)) in
      if script = ''{ print }'' \<or> script = ''{ print $0 }'' then printed [line]
      else if script = ''{ print NR, $0 }'' then printed [dec n @ '' '' @ line]
      else if starts_with ''{ print $'' script then
        (let k = (if length script = 9 then -48 else int (char_code (script ! 9)) - 48)
         in printed (if 0 \<le> k \<and> k < int nf then [fs ! nat k] else []))
      else if contains script ''NF'' then printed [dec (nf - 1)]
      else if contains script ''NR'' \<and> contains script ''print NR'' then printed [dec n]
      else if contains script ''length'' then printed
        (if contains script ''length($0)'' then [dec (length line)]
         else if contains script ''length($1)'' \<and> nf > 1 then [dec (length (fs ! 1))] else [])
      else if contains script ''sum'' \<or> contains script ''$2'' then
        (if nf > 2 \<and> fs ! 2 \<noteq> [] \<and> is_digit (hd (fs ! 2))
         then Some ([''Running sum: '' @ sum_text e (sums @ [fs ! 2])], st, sums @ [fs ! 2]) else printed [])
      else if contains script ''BEGIN'' then printed ((if n = 1 then [''Starting AWK processing...''] else []) @ [line])
      else if contains script ''END'' then printed [line]
      else if contains script ''toupper'' then printed [unix_awk_toupper line]
      else if contains script ''tolower'' then printed [unix_awk_tolower line]
      else if contains script ''gsub'' then printed (unix_awk_gsub script line)
      else if contains script ''sub'' then printed (unix_awk_sub script line)
      else if contains script ''match'' then printed (unix_awk_match_pattern_enhanced script line n)
      else if contains script ''red'' \<or> contains script ''yellow'' \<or> contains script ''green'' then printed
        (if contains line ''red'' \<or> contains line ''yellow'' \<or> contains line ''green'' then [line] else [])
      else if contains script ''>'' \<or> contains script ''<'' \<or> contains script ''==''
        then map_option (\<lambda>ls. (ls, st, sums)) (unix_awk_conditional script fs n)
      else if contains script ''split'' then Some (unix_awk_split_demo line, TokDone, sums)
      else printed [line])"

text \<open>
  The loop over the records: \<^verbatim>\<open>strtok\<close> has one position only, which the splitting of the
  record into fs overwrites. \<open>n\<close> is the number of the record, \<open>out\<close> the lines printed.
\<close>

partial_function (option) awk_loop ::
  "text_env \<Rightarrow> string \<Rightarrow> nat \<Rightarrow> string option \<Rightarrow> string list \<Rightarrow> string list \<Rightarrow>
     (nat \<times> string list \<times> string list) option" where
  "awk_loop e script n line sums out =
     (case line of None \<Rightarrow> Some (n - 1, sums, out)
      | Some l \<Rightarrow> do {
          (fs, st) \<leftarrow> unix_awk_split_fields_enhanced l 10;
          (printed, st1, sums1) \<leftarrow> awk_record e script l fs n st sums;
          (line1, st2) \<leftarrow> strtok_next {newline} st1;
          awk_loop e script (Suc n) line1 sums1 (out @ printed) })"

declare awk_loop.simps [code]

definition awk_sample :: string where
  "awk_sample = concat (map (\<lambda>l. l @ [newline])
     [''apple 5 red fresh'', ''banana 3 yellow ripe'', ''cherry 8 red sweet'', ''orange 6 orange juicy'',
      ''grape 12 purple sweet'', ''kiwi 4 green sour''])"

definition awk_end :: "text_env \<Rightarrow> string \<Rightarrow> nat \<Rightarrow> string list \<Rightarrow> string list" where
  "awk_end e script n sums =
     (if contains script ''END''
      then [''Total records processed: '' @ dec n] @
        (if sum_positive e sums then [''Field sum total: '' @ sum_text e sums] else [])
      else [])"

definition unix_awk ::
  "text_env \<Rightarrow> string \<Rightarrow> string option \<Rightarrow> sys_state \<Rightarrow> (int \<times> string list \<times> sys_state) option" where
  "unix_awk e script input_file s = do {
     (r, (ptr, size), s1) \<leftarrow> (case input_file of
        Some f \<Rightarrow> read_file_ptr (on_text e) f s
      | None \<Rightarrow> Some (0, (None, length awk_sample), s));
     (if r \<noteq> 0 then Some (1, [], s1)
      else do {
        t \<leftarrow> data_text ptr awk_sample s1;
        (n, sums, out) \<leftarrow> awk_loop e script 1 (fst (strtok_from {newline} t)) [] [];
        s2 \<leftarrow> free_data ptr s1;
        Some (0, out @ awk_end e script n sums, s2) }) }"

section \<open>The formatter\<close>

lemma strtok_from_shorter:
  assumes "(Some t, TokAt r) = strtok_from D s"
  shows "length r < length s"
proof -
  define s1 where "s1 = dropWhile (\<lambda>c. c \<in> D) s"
  define r1 where "r1 = dropWhile (\<lambda>c. c \<notin> D) s1"
  have eq: "strtok_from D s = (if s1 = [] then (None, TokDone)
      else (Some (takeWhile (\<lambda>c. c \<notin> D) s1), if r1 = [] then TokDone else TokAt (tl r1)))"
    by (simp only: strtok_from_def Let_def s1_def r1_def)
  have r: "r1 \<noteq> []" "r = tl r1" using assms unfolding eq by (simp_all split: if_splits)
  have "length r1 \<le> length s1" "length s1 \<le> length s" unfolding r1_def s1_def by (rule length_dropWhile_le)+
  moreover have "length r < length r1" using r by (cases r1) simp_all
  ultimately show ?thesis by linarith
qed

text \<open>The lines of a text, each with the bytes that follow its terminator in the block.\<close>

function lines_rest :: "string \<Rightarrow> (string \<times> string option) list" where
  "lines_rest s =
     (case strtok_from {newline} s of
        (None, st) \<Rightarrow> []
      | (Some t, TokAt r) \<Rightarrow> (t, Some r) # lines_rest r
      | (Some t, st) \<Rightarrow> [(t, None)])"
  by pat_completeness auto
termination
  by (relation "measure length", rule wf_measure, simp only: in_measure, erule strtok_from_shorter)

declare lines_rest.simps [simp del]

text \<open>\<^verbatim>\<open>line + k\<close>: one past the terminator the next bytes of the block are read.\<close>

definition line_from :: "nat \<Rightarrow> string \<Rightarrow> string option \<Rightarrow> string option" where
  "line_from k line rest = (if k \<le> length line then Some (drop k line)
     else if k = Suc (length line) then rest else None)"

function unix_format_paragraph :: "int \<Rightarrow> int \<Rightarrow> string \<Rightarrow> string" where
  "unix_format_paragraph width cur [] = []"
| "unix_format_paragraph width cur (c # cs) =
     (if c = CHR '' '' \<and> cur \<ge> width - 10
      then newline # unix_format_paragraph width 0 (dropWhile (\<lambda>x. x = CHR '' '') cs)
      else c # unix_format_paragraph width (cur + 1) cs)"
  by pat_completeness auto
termination
  by (relation "measure (\<lambda>(w, k, s). length s)") (auto simp: le_imp_less_Suc length_dropWhile_le)

definition nroff_line :: "int \<Rightarrow> string \<times> string option \<Rightarrow> string option" where
  "nroff_line width x = (case x of (line, rest) \<Rightarrow>
     if hd line = CHR ''.'' then
       (if starts_with ''.TH'' line then
          map_option (\<lambda>t. ''TITLE: '' @ t @ [newline]) (line_from 4 line rest)
        else if starts_with ''.SH'' line then
          map_option (\<lambda>t. [newline] @ t @ [newline] @ replicate (length t) CHR ''='' @ [newline]) (line_from 4 line rest)
        else if starts_with ''.B'' line then map_option (\<lambda>t. ''**'' @ t @ ''**'') (line_from 3 line rest)
        else if starts_with ''.I'' line then map_option (\<lambda>t. ''*'' @ t @ ''*'') (line_from 3 line rest)
        else Some [])
     else Some (unix_format_paragraph width 0 line @ [newline]))"

record DocFormat =
  page_width :: int
  doc_header :: string
  doc_footer :: string

text \<open>The output buffer has twice the size of the input; the terminator is written last.\<close>

definition nroff_text :: "DocFormat option \<Rightarrow> string \<Rightarrow> nat \<Rightarrow> string option" where
  "nroff_text fmt input cap = do {
     ls \<leftarrow> those (map (nroff_line (case fmt of Some f \<Rightarrow> page_width f | None \<Rightarrow> 80)) (lines_rest input));
     copy_out cap
       ((case fmt of Some f \<Rightarrow> if doc_header f \<noteq> [] then doc_header f @ [newline, newline] else [] | None \<Rightarrow> [])
        @ concat ls
        @ (case fmt of Some f \<Rightarrow> if doc_footer f \<noteq> [] then [newline] @ doc_footer f @ [newline] else [] | None \<Rightarrow> [])) }"

definition unix_nroff ::
  "text_env \<Rightarrow> string \<Rightarrow> string option \<Rightarrow> DocFormat option \<Rightarrow> sys_state \<Rightarrow> (int \<times> string \<times> sys_state) option" where
  "unix_nroff e input_file output_file fmt s = do {
     (r, (ptr, size), s1) \<leftarrow> read_file_ptr (on_text e) input_file s;
     (if r \<noteq> 0 then Some (1, [], s1)
      else if \<not> out_malloc e (size * 2) then map_option (\<lambda>s2. (1, [], s2)) (free_data ptr s1)
      else do {
        t \<leftarrow> data_text ptr [] s1;
        out \<leftarrow> nroff_text fmt t (size * 2);
        s2 \<leftarrow> write_output e output_file out s1;
        s3 \<leftarrow> free_data ptr s2;
        Some (0, (if output_file = None then out else []), s3) }) }"

section \<open>Searching and counting\<close>

definition grep_match :: "string \<Rightarrow> bool \<Rightarrow> bool \<Rightarrow> string \<Rightarrow> bool" where
  "grep_match pattern ignore_case invert line =
     (let found = (if ignore_case then contains (map to_lower line) (map to_lower pattern) else contains line pattern)
      in if invert then \<not> found else found)"

fun grep_loop :: "string \<Rightarrow> bool \<Rightarrow> bool \<Rightarrow> bool \<Rightarrow> nat \<Rightarrow> nat \<Rightarrow> string list \<Rightarrow> string list \<times> nat" where
  "grep_loop pattern nums icase invert n found [] = ([], found)"
| "grep_loop pattern nums icase invert n found (l # ls) =
     (if grep_match pattern icase invert l
      then (let (out, m) = grep_loop pattern nums icase invert (Suc n) (Suc found) ls
            in ((if nums then dec n @ '':'' @ l else l) # out, m))
      else grep_loop pattern nums icase invert (Suc n) found ls)"

definition unix_grep_extended ::
  "text_env \<Rightarrow> string \<Rightarrow> string \<Rightarrow> bool \<Rightarrow> bool \<Rightarrow> bool \<Rightarrow> sys_state \<Rightarrow> (int \<times> string list \<times> sys_state) option" where
  "unix_grep_extended e pattern input_file line_numbers ignore_case invert_match s = do {
     (r, (ptr, size), s1) \<leftarrow> read_file_ptr (on_text e) input_file s;
     (if r \<noteq> 0 then Some (1, [], s1)
      else do {
        t \<leftarrow> data_text ptr [] s1;
        let (out, found) = grep_loop pattern line_numbers ignore_case invert_match 1 0 (text_lines t);
        s2 \<leftarrow> free_data ptr s1;
        Some (0, out @ [''Total matches: '' @ dec found], s2) }) }"

text \<open>Lines, words and characters, with the flag \<^verbatim>\<open>in_word\<close>.\<close>

fun count_loop :: "string \<Rightarrow> bool \<Rightarrow> nat \<times> nat \<times> nat \<Rightarrow> nat \<times> nat \<times> nat" where
  "count_loop [] in_word x = x"
| "count_loop (c # cs) in_word (ls, ws, chs) =
     (let ls1 = (if c = newline then Suc ls else ls)
      in if is_space c then count_loop cs False (ls1, ws, Suc chs)
         else if \<not> in_word then count_loop cs True (ls1, Suc ws, Suc chs)
         else count_loop cs True (ls1, ws, Suc chs))"

definition unix_word_count :: "string \<Rightarrow> nat \<times> nat \<times> nat" where
  "unix_word_count input = count_loop input False (0, 0, 0)"

end
