(* ===== verification/TextProps.thy ===== *)
theory TextProps
  imports TextProc
begin

text \<open>
  Properties of the text tools: what \<^verbatim>\<open>sed\<close> puts out for each of its commands, the word count
  against the list of words, and why \<^verbatim>\<open>awk\<close> sees one line only.
\<close>

section \<open>Joined lines\<close>

fun join_lines :: "string list \<Rightarrow> string" where
  "join_lines [] = []"
| "join_lines [l] = l"
| "join_lines (l # ls) = l @ newline # join_lines ls"

lemma join_Cons: "join_lines (l # ls) = l @ (if ls = [] then [] else newline # join_lines ls)"
  by (cases ls) simp_all

lemma join_snoc: "join_lines (ls @ [t]) = (if ls = [] then t else join_lines ls @ newline # t)"
  by (induction ls) (simp_all add: join_Cons)

lemma join_prefix: "length (join_lines ls) \<le> length (join_lines (ls @ ms))"
proof (induction ms arbitrary: ls)
  case Nil
  then show ?case by simp
next
  case (Cons m ms)
  have "length (join_lines ls) \<le> length (join_lines (ls @ [m]))" by (simp add: join_snoc)
  also have "\<dots> \<le> length (join_lines ((ls @ [m]) @ ms))" by (rule Cons.IH)
  finally show ?case by simp
qed

text \<open>The output after a list of lines has been put into room for \<open>R\<close> bytes.\<close>

definition out_of :: "nat \<Rightarrow> string list \<Rightarrow> text_out" where
  "out_of R ls = (ls = [], join_lines ls, R - length (join_lines ls))"

lemma out_of_start: "(True, [], R) = out_of R []" by (simp add: out_of_def)

lemma out_of_text [simp]: "out_text (out_of R ls) = join_lines ls" by (simp add: out_of_def out_text_def)

lemma emit_out_of:
  assumes "length (join_lines (ls @ [t])) \<le> R"
  shows "emit t (out_of R ls) = out_of R (ls @ [t])"
  using assms by (cases "ls = []") (auto simp: emit_def out_of_def put_newline_def put_str_def join_snoc)

lemma room_left:
  assumes "length (join_lines (ls @ t # ms)) \<le> R" and "0 < R"
  shows "out_left (out_of R ls) \<noteq> 0" "length (join_lines (ls @ [t])) \<le> R"
proof -
  show "length (join_lines (ls @ [t])) \<le> R" using assms(1) join_prefix [of "ls @ [t]" ms] by simp
  then show "out_left (out_of R ls) \<noteq> 0" using assms(2) by (cases "ls = []") (auto simp: out_left_def out_of_def join_snoc)
qed

lemma append_after_out_of:
  assumes "ls \<noteq> []" and "length (join_lines (ls @ [t])) \<le> R"
  shows "append_after t (out_of R ls) = out_of R (ls @ [t])"
  using assms by (auto simp: append_after_def out_of_def put_newline_def put_str_def join_snoc)

text \<open>An inserted text is followed by an empty line.\<close>

lemma insert_before_out_of:
  assumes "length (join_lines (ls @ [t, [], l])) \<le> R"
  shows "emit l (insert_before t (out_of R ls)) = out_of R (ls @ [t, [], l])"
proof -
  have j: "join_lines (ls @ [t, [], l]) = join_lines (ls @ [t]) @ [newline, newline] @ l"
    using join_snoc [of "ls @ [t, []]" l] join_snoc [of "ls @ [t]" "[]"] by simp
  let ?m = "length (join_lines (ls @ [t]))"
  have m: "?m + 2 + length l \<le> R" using assms j by simp
  then have "?m \<le> R" by linarith
  from emit_out_of [OF this] have e: "emit t (out_of R ls) = (False, join_lines (ls @ [t]), R - ?m)" by (simp add: out_of_def)
  have "length l \<le> R - ?m - 1 - 1" "0 < R - ?m" "0 < R - ?m - 1" using m by linarith+
  moreover from this have "insert_before t (out_of R ls) = (False, join_lines (ls @ [t]) @ [newline], R - ?m - 1)"
    by (simp add: insert_before_def e put_newline_def)
  ultimately have "emit l (insert_before t (out_of R ls)) = (False, join_lines (ls @ [t, [], l]), R - ?m - 1 - 1 - length l)"
    by (simp add: emit_def put_newline_def put_str_def j)
  then show ?thesis using j by (simp add: out_of_def)
qed

section \<open>Commands on lines\<close>

lemma delete_loop_out:
  assumes "0 < R" and "length (join_lines (ds @ nths ls {i. n + int i < a \<or> n + int i > b})) \<le> R"
  shows "delete_loop a b n ls (out_of R ds) = out_of R (ds @ nths ls {i. n + int i < a \<or> n + int i > b})"
  using assms(2)
proof (induction ls arbitrary: n ds)
  case Nil
  then show ?case by simp
next
  case (Cons l ls)
  have s: "{j. n + int (Suc j) < a \<or> n + int (Suc j) > b} = {j. (n + 1) + int j < a \<or> (n + 1) + int j > b}" by auto
  let ?rest = "nths ls {j. (n + 1) + int j < a \<or> (n + 1) + int j > b}"
  have split: "nths (l # ls) {i. n + int i < a \<or> n + int i > b} = (if n < a \<or> n > b then [l] else []) @ ?rest"
    unfolding nths_Cons mem_Collect_eq s by simp
  show ?case
  proof (cases "n < a \<or> n > b")
    case True
    with Cons.prems split have len: "length (join_lines (ds @ l # ?rest)) \<le> R" by simp
    from room_left [OF this assms(1)] have r: "out_left (out_of R ds) \<noteq> 0" "length (join_lines (ds @ [l])) \<le> R" by blast+
    from Cons.IH [of "ds @ [l]" "n + 1"] len r emit_out_of [OF r(2)] True split show ?thesis by simp
  next
    case False
    show ?thesis
    proof (cases "out_left (out_of R ds) = 0")
      case zero: True
      have "?rest = []"
      proof (rule ccontr)
        assume "?rest \<noteq> []"
        then obtain x xs where "?rest = x # xs" by (cases ?rest) auto
        with Cons.prems split False have "length (join_lines (ds @ x # xs)) \<le> R" by simp
        from room_left(1) [OF this assms(1)] zero show False by simp
      qed
      with zero False split show ?thesis by simp
    next
      case nz: False
      with Cons.IH [of ds "n + 1"] Cons.prems False split show ?thesis by simp
    qed
  qed
qed

lemma append_loop_out:
  assumes "0 < R"
  shows "k < n \<Longrightarrow> length (join_lines (ds @ ls)) \<le> R \<Longrightarrow> append_loop k t n ls (out_of R ds) = out_of R (ds @ ls)"
    and "n \<le> k \<Longrightarrow> length (join_lines (ds @ take (nat (k - n + 1)) ls @ (if k < n + int (length ls) then [t] else []) @ drop (nat (k - n + 1)) ls)) \<le> R \<Longrightarrow>
      append_loop k t n ls (out_of R ds)
        = out_of R (ds @ take (nat (k - n + 1)) ls @ (if k < n + int (length ls) then [t] else []) @ drop (nat (k - n + 1)) ls)"
proof -
  have after: "append_loop k t n ls (out_of R ds) = out_of R (ds @ ls)"
    if "k < n" "length (join_lines (ds @ ls)) \<le> R" for n ls ds
    using that
  proof (induction ls arbitrary: n ds)
    case Nil
    then show ?case by simp
  next
    case (Cons l ls)
    note r = room_left [OF Cons.prems(2) assms]
    from Cons.IH [of "n + 1" "ds @ [l]"] Cons.prems r emit_out_of [OF r(2)] show ?case by simp
  qed
  then show "k < n \<Longrightarrow> length (join_lines (ds @ ls)) \<le> R \<Longrightarrow> append_loop k t n ls (out_of R ds) = out_of R (ds @ ls)" .
  show "n \<le> k \<Longrightarrow> length (join_lines (ds @ take (nat (k - n + 1)) ls @ (if k < n + int (length ls) then [t] else []) @ drop (nat (k - n + 1)) ls)) \<le> R \<Longrightarrow>
      append_loop k t n ls (out_of R ds)
        = out_of R (ds @ take (nat (k - n + 1)) ls @ (if k < n + int (length ls) then [t] else []) @ drop (nat (k - n + 1)) ls)"
  proof (induction ls arbitrary: n ds)
    case Nil
    then show ?case by simp
  next
    case (Cons l ls)
    obtain m where m: "nat (k - n + 1) = Suc m" "m = nat (k - n)" using Cons.prems(1) by (metis Suc_nat_eq_nat_zadd1 add.commute diff_ge_0_iff_ge)
    show ?case
    proof (cases "k = n")
      case True
      then have m0: "m = 0" using m by simp
      with Cons.prems True m have len: "length (join_lines (ds @ l # t # ls)) \<le> R" by simp
      note r = room_left [OF len assms]
      have len2: "length (join_lines ((ds @ [l]) @ t # ls)) \<le> R" using len by simp
      note r2 = room_left [OF len2 assms]
      have "append_after t (out_of R (ds @ [l])) = out_of R ((ds @ [l]) @ [t])" by (rule append_after_out_of [OF _ r2(2)]) simp
      with True m m0 r emit_out_of [OF r(2)] after [of "n + 1" "ds @ [l, t]" ls] len show ?thesis by simp
    next
      case False
      then have m1: "m = nat (k - (n + 1) + 1)" "n + 1 \<le> k" using Cons.prems(1) m by simp_all
      have c: "k < n + int (length (l # ls)) \<longleftrightarrow> k < (n + 1) + int (length ls)" by auto
      let ?tail = "take m ls @ (if k < (n + 1) + int (length ls) then [t] else []) @ drop m ls"
      from Cons.prems m c have len: "length (join_lines (ds @ l # ?tail)) \<le> R" by (simp only: take_Suc_Cons drop_Suc_Cons append_Cons)
      note r = room_left [OF len assms]
      from Cons.IH [of "n + 1" "ds @ [l]"] m1 len
      have "append_loop k t (n + 1) ls (out_of R (ds @ [l])) = out_of R ((ds @ [l]) @ ?tail)" by (simp only: append_assoc append_Cons append_Nil) 
      with False r emit_out_of [OF r(2)] m c show ?thesis by simp
    qed
  qed
qed

text \<open>A text put before line \<open>k\<close>, in a list whose first line has number \<open>n\<close>.\<close>

lemma insert_loop_after:
  assumes "0 < R" and "k < n" and "length (join_lines (ds @ ls)) \<le> R"
  shows "insert_loop k t n ls (out_of R ds) = out_of R (ds @ ls)"
  using assms(2,3)
proof (induction ls arbitrary: n ds)
  case Nil
  then show ?case by simp
next
  case (Cons l ls)
  note r = room_left [OF Cons.prems(2) assms(1)]
  from Cons.IH [of "n + 1" "ds @ [l]"] Cons.prems r emit_out_of [OF r(2)] show ?case by simp
qed

definition inserted :: "nat \<Rightarrow> string \<Rightarrow> string list \<Rightarrow> string list" where
  "inserted m t ls = take m ls @ (if m < length ls then [t, []] else []) @ drop m ls"

lemma inserted_Cons: "inserted (Suc m) t (l # ls) = l # inserted m t ls"
  by (simp add: inserted_def)

lemma insert_loop_out:
  assumes "0 < R" and "length (join_lines (ds @ inserted m t ls)) \<le> R"
  shows "insert_loop (n + int m) t n ls (out_of R ds) = out_of R (ds @ inserted m t ls)"
  using assms(2)
proof (induction ls arbitrary: n m ds)
  case Nil
  then show ?case by (simp add: inserted_def)
next
  case (Cons l ls)
  show ?case
  proof (cases m)
    case 0
    then have i: "inserted m t (l # ls) = [t, [], l] @ ls" by (simp add: inserted_def)
    have len: "length (join_lines (ds @ t # ([[], l] @ ls))) \<le> R" using Cons.prems i by simp
    have len2: "length (join_lines (ds @ [t, [], l])) \<le> R"
      using Cons.prems i join_prefix [of "ds @ [t, [], l]" ls] by simp
    from room_left(1) [OF len assms(1)] insert_before_out_of [OF len2]
      insert_loop_after [OF assms(1), of "n + int m" "n + 1" "ds @ [t, [], l]" ls t] Cons.prems i 0
    show ?thesis by simp
  next
    case (Suc j)
    with Cons.prems have len: "length (join_lines (ds @ l # inserted j t ls)) \<le> R" by (simp add: inserted_Cons)
    note r = room_left [OF len assms(1)]
    have "insert_loop ((n + 1) + int j) t (n + 1) ls (out_of R (ds @ [l])) = out_of R ((ds @ [l]) @ inserted j t ls)"
      by (rule Cons.IH) (use len in simp)
    with Suc r emit_out_of [OF r(2)] show ?thesis by (simp add: inserted_Cons ac_simps)
  qed
qed

definition appended :: "nat \<Rightarrow> string \<Rightarrow> string list \<Rightarrow> string list" where
  "appended m t ls = take (Suc m) ls @ (if m < length ls then [t] else []) @ drop (Suc m) ls"

lemma append_loop_appended:
  assumes "0 < R" and "length (join_lines (appended m t ls)) \<le> R"
  shows "append_loop (1 + int m) t 1 ls (out_of R []) = out_of R (appended m t ls)"
proof -
  have "nat (1 + int m - 1 + 1) = Suc m" "1 + int m < 1 + int (length ls) \<longleftrightarrow> m < length ls" by simp_all
  with append_loop_out(2) [OF assms(1), of 1 "1 + int m" "[]" ls t] assms(2) show ?thesis by (simp add: appended_def)
qed

text \<open>What \<^verbatim>\<open>sscanf\<close> reads of the commands.\<close>

lemma scan_d_dec: "int n < 2 ^ 31 \<Longrightarrow> r = [] \<or> \<not> is_digit (hd r) \<Longrightarrow> scan_d (dec n @ r) = Some (Some (int n, r))"
  by (simp add: scan_d_def scan_dec fits_int_def)

lemma scan_text_dec:
  assumes "int n < 2 ^ 31" "w \<noteq> []" "\<forall>x \<in> set w. \<not> is_space x" "length w \<le> 255" "\<not> is_digit c"
  shows "scan_text_command c (dec n @ c # CHR 0x5C # w) = Some (Some (int n, w))"
proof -
  obtain x xs where w: "w = x # xs" using assms(2) by (cases w) auto
  have "dropWhile is_space w = w" "takeWhile (\<lambda>x. \<not> is_space x) w = w" using assms(3) w by (auto simp: takeWhile_eq_all_conv)
  with assms scan_d_dec [of n "c # CHR 0x5C # w"] show ?thesis
    by (simp add: scan_text_command_def starts_with_def del: takeWhile_eq_all_conv)
qed


section \<open>Substitution\<close>

definition find_match :: "bool \<Rightarrow> string \<Rightarrow> string \<Rightarrow> nat option" where
  "find_match icase p s = (if icase then strstr (map to_lower s) (map to_lower p) else strstr s p)"

lemma find_match_simps:
  "p \<noteq> [] \<Longrightarrow> find_match ic p [] = None"
  "find_match ic p (c # s) = (if at_match ic p (c # s) then Some 0 else map_option Suc (find_match ic p s))"
  by (simp_all add: find_match_def at_match_def)

lemma find_match_nonempty: "find_match ic p s = Some i \<Longrightarrow> p \<noteq> [] \<Longrightarrow> s \<noteq> []"
  by (auto simp: find_match_simps)

text \<open>The reference: the first or every occurrence replaced, from the left.\<close>

definition subst_first :: "bool \<Rightarrow> string \<Rightarrow> string \<Rightarrow> string \<Rightarrow> string" where
  "subst_first ic p r s = (case find_match ic p s of None \<Rightarrow> s
     | Some i \<Rightarrow> take i s @ r @ drop (i + length p) s)"

function subst_all :: "bool \<Rightarrow> string \<Rightarrow> string \<Rightarrow> string \<Rightarrow> string" where
  "subst_all ic p r s = (case find_match ic p s of None \<Rightarrow> s
     | Some i \<Rightarrow> if p = [] then s else take i s @ r @ subst_all ic p r (drop (i + length p) s))"
  by pat_completeness auto
termination
  by (relation "measure (\<lambda>(ic, p, r, s). length s)") (auto dest!: find_match_nonempty)

declare subst_all.simps [simp del]

lemma sub_none:
  assumes "p \<noteq> []"
  shows "find_match ic p s = None \<Longrightarrow> length out + length s < 2047 \<Longrightarrow>
    sub_loop g 0 ic p r k s out = Some ([], out @ s)"
proof (induction s arbitrary: out)
  case Nil
  show ?case by (subst sub_loop.simps) simp
next
  case (Cons c s)
  then have m: "\<not> at_match ic p (c # s)" "find_match ic p s = None" by (auto simp: find_match_simps split: if_splits)
  with Cons.IH [of "out @ [c]"] Cons.prems show ?case by (subst sub_loop.simps) (simp add: LINE_OUTPUT_def)
qed

lemma sub_upto:
  "find_match ic p s = Some i \<Longrightarrow> p \<noteq> [] \<Longrightarrow> length out + i < 2047 \<Longrightarrow>
    sub_loop g 0 ic p r k s out = sub_loop g 0 ic p r k (drop i s) (out @ take i s) \<and>
    at_match ic p (drop i s) \<and> drop i s \<noteq> [] \<and> i < length s"
proof (induction s arbitrary: i out)
  case Nil
  then show ?case by (simp add: find_match_simps)
next
  case (Cons c s)
  show ?case
  proof (cases "at_match ic p (c # s)")
    case True
    with Cons.prems show ?thesis by (auto simp: find_match_simps)
  next
    case False
    with Cons.prems obtain j where j: "find_match ic p s = Some j" "i = Suc j" by (auto simp: find_match_simps)
    from Cons.IH [OF j(1), of "out @ [c]"] Cons.prems j False show ?thesis
      by (subst sub_loop.simps) (simp add: LINE_OUTPUT_def)
  qed
qed

text \<open>One replacement at a match, when there is room for it.\<close>

lemma sub_at_match:
  assumes "at_match ic p src" "src \<noteq> []" "length out + length r \<le> 2047" "length out < 2047"
  shows "sub_loop g 0 ic p r k src out =
    (if g then sub_loop g 0 ic p r (Suc k) (drop (length p) src) (out @ r) else Some (drop (length p) src, out @ r))"
  using assms by (subst sub_loop.simps) (auto simp: LINE_OUTPUT_def)

lemma sub_line_first:
  assumes "p \<noteq> []" and "length (subst_first ic p r s) < 2047"
  shows "sub_line False 0 ic p r s = Some (subst_first ic p r s)"
proof (cases "find_match ic p s")
  case None
  with assms sub_none [OF assms(1) None, of "[]" False r 0] show ?thesis by (simp add: sub_line_def subst_first_def)
next
  case (Some i)
  then have len: "length (take i s) + length r + length (drop (i + length p) s) < 2047"
    using assms(2) by (simp add: subst_first_def)
  have "i < length s"
  proof -
    have "i < length s" if "find_match ic p s = Some i" for s i
      using that assms(1)
    proof (induction s arbitrary: i)
      case Nil
      then show ?case by (simp add: find_match_simps)
    next
      case (Cons c s)
      then show ?case by (auto simp: find_match_simps split: if_splits)
    qed
    with Some show ?thesis by blast
  qed
  then have i: "i < 2047" "length (take i s) = i" using len by simp_all
  from sub_upto [OF Some assms(1), of "[]" False r 0] i have up:
    "sub_loop False 0 ic p r 0 s [] = sub_loop False 0 ic p r 0 (drop i s) (take i s)"
    "at_match ic p (drop i s)" "drop i s \<noteq> []" by simp_all
  from sub_at_match [OF up(2,3), of "take i s" r False 0] len i
  have "sub_loop False 0 ic p r 0 s [] = Some (drop (i + length p) s, take i s @ r)"
    by (simp add: up(1) add.commute)
  with Some len i show ?thesis by (simp add: sub_line_def subst_first_def LINE_OUTPUT_def)
qed

lemma sub_loop_all:
  assumes "p \<noteq> []"
  shows "length out + length (subst_all ic p r s) < 2047 \<Longrightarrow>
    sub_loop True 0 ic p r k s out = Some ([], out @ subst_all ic p r s)"
proof (induction "length s" arbitrary: s out k rule: less_induct)
  case less
  show ?case
  proof (cases "find_match ic p s")
    case None
    then have "subst_all ic p r s = s" by (subst subst_all.simps) simp
    with sub_none [OF assms None, of out True r k] less.prems show ?thesis by simp
  next
    case (Some i)
    let ?rest = "drop (i + length p) s"
    have sa: "subst_all ic p r s = take i s @ r @ subst_all ic p r ?rest"
      using Some assms by (subst subst_all.simps) simp
    have bound: "length (take i s) \<le> i" by simp
    have ne: "s \<noteq> []" using find_match_nonempty [OF Some assms] .
    have il: "i < length s"
      using Some assms ne
    proof (induction s arbitrary: i)
      case Nil
      then show ?case by simp
    next
      case (Cons c s)
      then show ?case by (cases "s = []") (auto simp: find_match_simps split: if_splits)
    qed
    then have ti: "length (take i s) = i" by simp
    have len: "length out + i + length r + length (subst_all ic p r ?rest) < 2047" using less.prems sa ti by simp
    then have "length out + i < 2047" by simp
    from sub_upto [OF Some assms this, of True r k] have up:
      "sub_loop True 0 ic p r k s out = sub_loop True 0 ic p r k (drop i s) (out @ take i s)"
      "at_match ic p (drop i s)" "drop i s \<noteq> []" by simp_all
    have "length ?rest < length s" using assms ne il by simp
    moreover have "length ((out @ take i s) @ r) + length (subst_all ic p r ?rest) < 2047" using len ti by simp
    ultimately have "sub_loop True 0 ic p r (Suc k) ?rest ((out @ take i s) @ r) = Some ([], ((out @ take i s) @ r) @ subst_all ic p r ?rest)"
      by (rule less.hyps)
    moreover have "sub_loop True 0 ic p r k (drop i s) (out @ take i s)
        = sub_loop True 0 ic p r (Suc k) ?rest ((out @ take i s) @ r)"
      using sub_at_match [OF up(2,3), of "out @ take i s" r True k] len ti by (simp add: add.commute)
    ultimately show ?thesis by (simp add: up(1) sa)
  qed
qed

lemma sub_line_all:
  "p \<noteq> [] \<Longrightarrow> length (subst_all ic p r s) < 2047 \<Longrightarrow> sub_line True 0 ic p r s = Some (subst_all ic p r s)"
  using sub_loop_all [of p "[]" ic r s 0] by (simp add: sub_line_def)

lemma sub_lines_out:
  assumes "0 < R" and "length (join_lines (ds @ map g ls)) \<le> R" and "\<And>l. l \<in> set ls \<Longrightarrow> f l = Some (g l)"
  shows "sub_lines f ls (out_of R ds) = Some (out_of R (ds @ map g ls))"
  using assms(2,3)
proof (induction ls arbitrary: ds)
  case Nil
  then show ?case by simp
next
  case (Cons l ls)
  then have len: "length (join_lines (ds @ g l # map g ls)) \<le> R" by simp
  note r = room_left [OF len assms(1)]
  from Cons.IH [of "ds @ [g l]"] Cons.prems r emit_out_of [OF r(2)] show ?case by simp
qed

text \<open>
  C37: The substitution of \<^verbatim>\<open>sed\<close> equals its reference: for a non-empty pattern, without a
  number among the flags, and as long as each line fits the line buffer and the whole the
  output buffer, every non-empty line of the input has its first occurrence of the pattern
  replaced (with \<^verbatim>\<open>g\<close> every occurrence, from the left and not overlapping; with \<^verbatim>\<open>i\<close>
  without regard to case), and the lines are joined by newlines.
\<close>

theorem sed_substitute_reference:
  fixes input r :: string
  assumes p: "p \<noteq> []" and R: "R = output_size - 1" "0 < R" and flags: "flag_digit flags = 0"
  defines "g \<equiv> (if CHR ''g'' \<in> set flags then subst_all else subst_first) (CHR ''i'' \<in> set flags) p r"
  assumes fits: "\<forall>l \<in> set (text_lines input). length (g l) < 2047"
    "length (join_lines (map g (text_lines input))) \<le> R"
  shows "unix_sed_substitute_enhanced p r flags input output_size = Some (join_lines (map g (text_lines input)))"
proof -
  have os: "output_size \<noteq> 0" "output_size - Suc 0 = R" using R by linarith+
  let ?f = "sub_line (CHR ''g'' \<in> set flags) (flag_digit flags) (CHR ''i'' \<in> set flags) p r"
  have "?f l = Some (g l)" if "l \<in> set (text_lines input)" for l
    using that fits(1) sub_line_first [OF p, of "CHR ''i'' \<in> set flags" r l] sub_line_all [OF p, of "CHR ''i'' \<in> set flags" r l]
    by (auto simp: g_def flags)
  from sub_lines_out [OF R(2) _ this, of "[]"] fits(2) os show ?thesis
    by (simp add: unix_sed_substitute_enhanced_def out_of_start)
qed

text \<open>An empty pattern with an empty replacement never ends, whatever the line.\<close>

lemma sed_empty_pattern_hangs:
  assumes "l \<noteq> []"
  shows "sub_line True 0 ic [] [] l = None"
proof -
  have "sub_loop g num icase pat rp k src out = Some x \<Longrightarrow>
      \<not> (g \<and> num = 0 \<and> pat = [] \<and> rp = [] \<and> src \<noteq> [] \<and> length out < LINE_OUTPUT - 1)"
    for g num icase pat rp k src out x
  proof (rule sub_loop.raw_induct [where P = "\<lambda>g num icase pat rp k src out x.
      \<not> (g \<and> num = 0 \<and> pat = [] \<and> rp = [] \<and> src \<noteq> [] \<and> length out < LINE_OUTPUT - 1)"], goal_cases)
    case (1 f g num icase pat rp k src out x)
    show ?case using 1(2) [of True 0 icase "[]" "[]" "Suc k" src out x] 1(3)
      by (cases "num = 0") (auto simp: at_match_def starts_with_def split: if_splits)
  qed
  from this [of True 0 ic "[]" "[]" 0 l "[]"] assms show ?thesis
    by (cases "sub_loop True 0 ic [] [] 0 l []") (auto simp: sub_line_def LINE_OUTPUT_def)
qed

text \<open>A text to append that ends in \<^verbatim>\<open>d\<close> makes the command a deletion of the line.\<close>

lemma sed_append_d:
  assumes "0 < cap"
  shows "sed_script (dec 2 @ ''a'' @ CHR 0x5C # ''end'') (Some t) cap
    = Some (True, out_text (delete_loop 2 2 1 (text_lines t) (True, [], cap - 1)))"
proof -
  have "char_of (50 :: nat) = CHR ''2''" by code_simp
  then have d: "dec 2 = ''2''" by (subst dec.simps) simp
  have "scan_d (dec 2 @ ''a'' @ CHR 0x5C # ''end'') = Some (Some (2, ''a'' @ CHR 0x5C # ''end''))"
    using scan_d_dec [of 2 "''a'' @ CHR 0x5C # ''end''"] by (simp add: is_digit_def)
  then show ?thesis
    using assms by (simp add: sed_script_def starts_with_def d unix_sed_delete_lines_def)
qed

section \<open>Tokens\<close>

lemma strtok_all_from:
  "strtok_all D s = (case strtok_from D s of (None, st) \<Rightarrow> []
     | (Some t, TokAt r) \<Rightarrow> t # strtok_all D r | (Some t, st) \<Rightarrow> [t])"
proof -
  define s1 where "s1 = dropWhile (\<lambda>c. c \<in> D) s"
  define t where "t = takeWhile (\<lambda>c. c \<notin> D) s1"
  define r1 where "r1 = dropWhile (\<lambda>c. c \<notin> D) s1"
  have eq: "strtok_from D s = (if s1 = [] then (None, TokDone)
      else (Some t, if r1 = [] then TokDone else TokAt (tl r1)))"
    by (simp only: strtok_from_def Let_def s1_def r1_def t_def)
  have s1: "s1 = t @ r1" "\<forall>c \<in> set t. c \<notin> D" by (auto simp: t_def r1_def dest: set_takeWhileD)
  have skip: "strtok_all D s = strtok_all D s1" unfolding s1_def by (rule strtok_all_skip)
  show ?thesis
  proof (cases "s1 = []")
    case True
    then show ?thesis using skip by (simp add: eq strtok_all_def)
  next
    case False
    have "hd s1 \<notin> D" using False hd_dropWhile [of "\<lambda>c. c \<in> D" s] by (simp add: s1_def)
    then have t: "t \<noteq> []" using False by (cases s1) (simp_all add: t_def)
    show ?thesis
    proof (cases r1)
      case Nil
      with s1 t False skip show ?thesis by (simp add: eq strtok_all_def split_at_plain)
    next
      case (Cons d r)
      then have "d \<in> D" using hd_dropWhile [of "\<lambda>c. c \<notin> D" s1] by (simp add: r1_def)
      with Cons s1 t False skip show ?thesis by (simp add: eq strtok_all_def split_at_delim)
    qed
  qed
qed

lemma strtok_from_live: "strtok_from D s = (t, st) \<Longrightarrow> st \<noteq> TokFreed r"
proof -
  assume "strtok_from D s = (t, st)"
  moreover have "snd (if a = [] then (None, TokDone) else (Some t, if b = [] then TokDone else TokAt (tl b))) \<noteq> TokFreed r"
    for a b :: string and t :: string by simp
  then have "snd (strtok_from D s) \<noteq> TokFreed r" unfolding strtok_from_def Let_def .
  ultimately show ?thesis by simp
qed

lemma fields_loop_tokens:
  "strtok_from field_delims s = (t, st) \<Longrightarrow>
    \<exists>st'. fields_loop k t st fs = Some (fs @ take k (strtok_all field_delims s), st') \<and> (\<forall>r. st' \<noteq> TokFreed r)"
proof (induction k arbitrary: s t st fs)
  case 0
  then show ?case using strtok_from_live by (cases t) auto
next
  case (Suc k)
  note all = strtok_all_from [of field_delims s, unfolded Suc.prems]
  show ?case
  proof (cases t)
    case None
    with all strtok_from_live [OF Suc.prems] show ?thesis by simp
  next
    case (Some x)
    show ?thesis
    proof (cases st)
      case TokDone
      have "fields_loop k None TokDone (fs @ [x]) = Some (fs @ [x], TokDone)" by simp
      with all Some TokDone show ?thesis by (simp add: strtok_next_def)
    next
      case (TokAt r)
      obtain t1 st1 where n: "strtok_from field_delims r = (t1, st1)" by (cases "strtok_from field_delims r")
      have "fields_loop (Suc k) t st fs = fields_loop k t1 st1 (fs @ [x])"
        using Some TokAt n by (simp add: strtok_next_def)
      moreover have "take (Suc k) (strtok_all field_delims s) = x # take k (strtok_all field_delims r)"
        using all Some TokAt by simp
      ultimately show ?thesis using Suc.IH [OF n, of "fs @ [x]"] by simp
    next
      case (TokFreed r)
      with Suc.prems strtok_from_live show ?thesis by blast
    qed
  qed
qed

section \<open>Records\<close>

lemma split_fields_tokens:
  assumes "unix_awk_split_fields_enhanced l 10 = Some (fs, st)"
  shows "fs = l # take 9 (strtok_all field_delims l)" "\<And>s. st \<noteq> TokAt s"
proof -
  obtain t st0 where f: "strtok_from field_delims l = (t, st0)" by (cases "strtok_from field_delims l")
  from fields_loop_tokens [OF f, of 9 "[l]"] f assms
  show "fs = l # take 9 (strtok_all field_delims l)" "\<And>s. st \<noteq> TokAt s"
    by (auto simp: unix_awk_split_fields_enhanced_def freed_position_def eval_nat_numeral
        split: if_splits strtok_state.splits)
qed

lemma awk_record_position:
  "awk_record e script l fs n st sums = Some (out, st1, sums1) \<Longrightarrow> st1 = st \<or> st1 = TokDone"
  unfolding awk_record_def Let_def by (simp split: if_split_asm)

text \<open>
  C38: \<^verbatim>\<open>awk\<close> processes the first line only: whatever the script, a run on a file that returns
  has put out what the script does with the first non-empty line and its first nine fields,
  and the summary of one record; the other lines are never read, since splitting a line
  into fields ends the splitting of the file into lines.
\<close>

theorem awk_first_line_only:
  assumes rd: "read_file_ptr (on_text e) f s = Some (0, (Some p, sz), s1)" and t: "data_text (Some p) [] s1 = Some t"
    and l: "text_lines t = l # ls" and run: "unix_awk e script (Some f) s = Some (r, out, s2)"
  shows "\<exists>st printed st1 sums. awk_record e script l (l # take 9 (strtok_all field_delims l)) 1 st [] = Some (printed, st1, sums) \<and>
    r = 0 \<and> out = printed @ awk_end e script 1 sums"
proof -
  have first: "fst (strtok_from {newline} t) = Some l"
    using l strtok_all_from [of "{newline}" t] by (auto simp: text_lines_def split: prod.splits option.splits strtok_state.splits)
  have data: "data_text (Some p) awk_sample s1 = Some t" using t by (simp add: data_text_def)
  from run rd data first obtain n sums o1 where loop: "awk_loop e script 1 (Some l) [] [] = Some (n, sums, o1)"
    "r = 0" "out = o1 @ awk_end e script n sums"
    by (auto simp: unix_awk_def split: bind_splits)
  from loop(1) obtain fs st printed st1 sums1 l1 st2 where b: "unix_awk_split_fields_enhanced l 10 = Some (fs, st)"
    "awk_record e script l fs 1 st [] = Some (printed, st1, sums1)" "strtok_next {newline} st1 = Some (l1, st2)"
    "awk_loop e script 2 l1 sums1 printed = Some (n, sums, o1)"
    by (subst (asm) awk_loop.simps) (auto split: bind_splits simp: eval_nat_numeral)
  have "\<And>x. st1 \<noteq> TokAt x" using awk_record_position [OF b(2)] split_fields_tokens(2) [OF b(1)] by auto
  then have "l1 = None" using b(3) by (auto simp: strtok_next_def split: strtok_state.splits)
  with b(4) have "n = 1" "sums = sums1" "o1 = printed" by (subst (asm) awk_loop.simps, simp)+
  with b(2) split_fields_tokens(1) [OF b(1)] loop(2,3) show ?thesis by auto
qed

text \<open>
  Every tool frees the block the file system handed out, which is the file's own: a second
  \<^verbatim>\<open>grep\<close> of a file reads freed memory.
\<close>

lemma grep_twice_undefined:
  assumes vfs: "vfs_ok (sys_vfs s)" and cp: "coupled s"
    and v: "vfs_view (sys_vfs s) (seen_tokens f) = Some n" "vdata n = Some bytes" "\<not> is_directory n"
    and acc: "may_access (sys_vfs s) n (vfs_current_user (sys_vfs s)) R_OK"
    and run: "unix_grep_extended e pat f nums icase invert s = Some (r, out, s1)"
  shows "unix_grep_extended e pat' f nums' icase' invert' s1 = None"
proof (cases rule: find_node_cases [OF vfs, of f, case_names none found])
  case none
  with v show ?thesis by simp
next
  case (found a m)
  then have m: "vnodes (sys_vfs s) a = Some m" "vdata m = Some bytes" using v by (auto simp: located_def)
  with cp obtain q block where q: "ndata s a = Some q" "bufs s q = Some block" unfolding coupled_def by blast
  have rd: "read_file_ptr (on_text e) f (s\<lparr>bufs := b\<rparr>) = Some (0, (Some q, vsize n), s\<lparr>bufs := b\<rparr>)" for b
    using read_file_loaded [OF vfs v, of "on_vfs (on_text e)"] acc found(1) q by (simp add: read_file_ptr_def)
  from run rd [of "bufs s"] have "s1 = s\<lparr>bufs := (bufs s)(q := None)\<rparr>"
    by (auto simp: unix_grep_extended_def free_data_def split: bind_splits if_splits prod.splits)
  with rd [of "(bufs s)(q := None)"] show ?thesis by (simp add: unix_grep_extended_def data_text_def)
qed

section \<open>Counting\<close>

definition spaces :: "char set" where
  "spaces = {CHR '' '', CHR 0x09, CHR 0x0A, CHR 0x0B, CHR 0x0C, CHR 0x0D}"

lemma is_space_iff: "is_space c \<longleftrightarrow> c \<in> spaces" by (simp add: is_space_def spaces_def)

lemma words_skip: "c \<in> D \<Longrightarrow> strtok_all D (c # s) = strtok_all D s"
  by (simp add: strtok_all_def)

lemma words_Cons:
  assumes "c \<notin> D"
  shows "length (strtok_all D (c # s)) = Suc (length (strtok_all D (dropWhile (\<lambda>x. x \<notin> D) s)))"
proof -
  let ?r = "dropWhile (\<lambda>x. x \<notin> D) s"
  have f: "strtok_from D (c # s) = (Some (c # takeWhile (\<lambda>x. x \<notin> D) s), if ?r = [] then TokDone else TokAt (tl ?r))"
    using assms by (simp add: strtok_from_def Let_def)
  show ?thesis
  proof (cases ?r)
    case Nil
    have "strtok_all D ?r = []" unfolding Nil by (simp add: strtok_all_def)
    moreover have "strtok_all D (c # s) = [c # takeWhile (\<lambda>x. x \<notin> D) s]"
      using strtok_all_from [of D "c # s", unfolded f Nil] by simp
    ultimately show ?thesis by simp
  next
    case (Cons d r)
    then have "d \<in> D" using hd_dropWhile [of "\<lambda>x. x \<notin> D" s] by simp
    with Cons strtok_all_from [of D "c # s", unfolded f] show ?thesis by (simp add: words_skip)
  qed
qed

lemma count_loop_words:
  "count_loop s w (l, n, m) =
    (l + length (filter (\<lambda>c. c = newline) s),
     n + length (strtok_all spaces (if w then dropWhile (\<lambda>x. x \<notin> spaces) s else s)), m + length s)"
proof (induction s arbitrary: w l n m)
  case Nil
  then show ?case by (simp add: strtok_all_def)
next
  case (Cons c s)
  then show ?case by (cases "c \<in> spaces") (simp_all add: Let_def is_space_iff words_skip words_Cons)
qed

text \<open>
  The word count: the numbers returned are those of the newlines, of the maximal runs of
  characters that are not white space, and of all characters.
\<close>

theorem word_count_reference:
  "unix_word_count s = (length (filter (\<lambda>c. c = newline) s), length (strtok_all spaces s), length s)"
  by (simp add: unix_word_count_def count_loop_words)

section \<open>Witnesses\<close>

definition text_demo_env :: text_env where
  "text_demo_env = \<lparr>on_text = sys_demo_env, out_malloc = (\<lambda>_. True), sum_text = (\<lambda>_. ''0.00''), sum_positive = (\<lambda>_. False)\<rparr>"

lemma demo_lines: "text_lines (''ab'' @ newline # ''cd'') = [''ab'', ''cd'']" "text_lines ''hi!'' = [''hi!'']"
  by (simp_all add: text_lines_def strtok_all_def newline_def)


lemma sed_substitute_reference_witness:
  "unix_sed_substitute_enhanced ''b'' ''xy'' [] (''ab'' @ newline # ''cd'') 30 = Some (join_lines [''axy'', ''cd''])"
proof -
  have g: "map (subst_first False ''b'' ''xy'') [''ab'', ''cd''] = [''axy'', ''cd'']"
    by (simp add: subst_first_def find_match_def starts_with_def)
  have "flag_digit [] = 0" by (simp add: flag_digit_def)
  from sed_substitute_reference [OF _ _ _ this, of "''b''" 29 30 "''ab'' @ newline # ''cd''" "''xy''"] show ?thesis
    unfolding demo_lines using g by simp
qed

lemma awk_demo_data:
  "read_file_ptr sys_demo_env ''/f'' sys_demo = Some (0, (Some 9, 3), sys_demo)"
  "data_text (Some 9) [] sys_demo = Some ''hi!''"
proof -
  from read_file_loaded [OF sys_demo_vfs sys_demo_facts(3) sys_demo_fields(4,5), of demo_env] sys_demo_fields(6)
  have "vfs_read_file demo_env (Some ''/f'') (sys_vfs sys_demo) = Some (0, Some (Some [104, 105, 33], 3), sys_vfs sys_demo)" by simp
  then show "read_file_ptr sys_demo_env ''/f'' sys_demo = Some (0, (Some 9, 3), sys_demo)"
    using sys_demo_facts(2) by (simp add: read_file_ptr_def sys_demo_env_def) (simp add: sys_demo_def)
  have "map (char_of :: nat \<Rightarrow> char) [104, 105, 33] = ''hi!''" by code_simp
  then show "data_text (Some 9) [] sys_demo = Some ''hi!''"
    by (simp add: data_text_def sys_demo_def block_text_def)
qed

lemma awk_first_line_only_witness:
  "\<exists>out s2 st printed st1 sums. unix_awk text_demo_env ''{ print }'' (Some ''/f'') sys_demo = Some (0, out, s2) \<and>
     awk_record text_demo_env ''{ print }'' ''hi!'' (''hi!'' # take 9 (strtok_all field_delims ''hi!'')) 1 st [] = Some (printed, st1, sums) \<and>
     out = printed @ awk_end text_demo_env ''{ print }'' 1 sums"
proof -
  have e: "on_text text_demo_env = sys_demo_env" by (simp add: text_demo_env_def)
  have f: "strtok_from {newline} ''hi!'' = (Some ''hi!'', TokDone)" "strtok_from field_delims ''hi!'' = (Some ''hi!'', TokDone)"
    by (simp_all add: strtok_from_def newline_def field_delims_def)
  have sp: "unix_awk_split_fields_enhanced ''hi!'' 10 = Some ([''hi!'', ''hi!''], TokDone)"
    by (simp add: unix_awk_split_fields_enhanced_def f strtok_next_def freed_position_def eval_nat_numeral)
  have "awk_loop text_demo_env ''{ print }'' 1 (Some ''hi!'') [] [] = Some (1, [], [''hi!''])"
    by (subst awk_loop.simps, subst awk_loop.simps) (simp add: sp awk_record_def strtok_next_def Let_def)
  moreover have "data_text (Some 9) awk_sample sys_demo = Some ''hi!''" "bufs sys_demo 9 \<noteq> None"
    using awk_demo_data(2) by (auto simp: data_text_def sys_demo_def)
  ultimately obtain out s2 where run: "unix_awk text_demo_env ''{ print }'' (Some ''/f'') sys_demo = Some (0, out, s2)"
    using awk_demo_data(1) by (auto simp: unix_awk_def e f free_data_def)
  from awk_first_line_only [OF _ awk_demo_data(2) demo_lines(2) run] awk_demo_data(1) run show ?thesis
    by (simp add: e)
qed

end
