(* ===== verification/Spec2Isabelle.thy ===== *)
theory Spec2Isabelle
  imports MerlFileProps Interrupts VfsDemo NetCodec SyscallProps ShellScriptProps UserProps Ipc KernelProps SiliconProps DiskProps EditorProps TextProps
begin

text \<open>
  \<^bold>\<open>ZoraVM: a verification development of its kernel, file system, users and shell scripts.\<close>

  ZoraVM is a program in C that simulates a small operating system inside one host process.
  This development models its components function by function and proves what makes each of
  them correct, or, where the code does something else than it means to, what it does
  instead. Paths are relative to the directory \<^verbatim>\<open>src/\<close> of the repository.

  \<^bold>\<open>The program and its parts.\<close> \<^verbatim>\<open>kernel_init\<close> (\<^verbatim>\<open>src/kernel/kernel.c\<close>) brings up memory, devices,
  the MMU, the interrupt controller, the scheduler and the network in a fixed order and panics
  at the first failure; \<^verbatim>\<open>kernel_run\<close> then steps the processor and polls the system. A timer
  interrupt reaches the scheduler's tick, which rotates the linked ready queues over the
  entries of the process table. System calls enter kernel mode, act on descriptors over
  the virtual file system, on sockets and on processes, and go back to the caller's ring. The
  shell runs scripts, changes users, whose names the file system's permission checks read, and
  shows disk statistics computed over the file system tree. Virtual silicon, devices and the
  UNIX interprocess communication stand beside this core.

  \<^bold>\<open>Theories and sources.\<close>
    \<^item> \<open>Prelude\<close>: C widths (\<open>u8\<close> to \<open>u64\<close>), undefined behaviour as \<open>None\<close> of the option monad,
      bounded string copies, first-match scans over tables. \<open>CLib\<close>: \<^verbatim>\<open>printf\<close>/\<^verbatim>\<open>scanf\<close> of
      decimals, \<^verbatim>\<open>atoi\<close>, \<^verbatim>\<open>strtok\<close>, \<^verbatim>\<open>strstr\<close>, \<^verbatim>\<open>fgets\<close> as the C standard gives them.
    \<^item> \<open>Handles\<close>, \<open>Fifo\<close>: the two interfaces, stated as locales. \<open>Handles\<close> (tables that give out
      handles) is interpreted on process ids, physical frames and sockets; \<open>Fifo\<close>
      on the scheduler's queues and the keyboard ring.
    \<^item> \<open>ProcessTable\<close>: \<^verbatim>\<open>src/system/process.c\<close>. The record \<open>process\<close> has the fields of the struct,
      the table is a list of 256 optional processes, a \<^verbatim>\<open>Process*\<close> is the slot it lies in.
    \<^item> \<open>Privilege\<close>: \<^verbatim>\<open>src/kernel/privilege.c\<close>, its context and its mode transitions.
    \<^item> \<open>ProcQueue\<close>, \<open>Scheduler\<close>: \<^verbatim>\<open>src/kernel/scheduler.c\<close>. The queues are nodes with both links in a
      heap; the scheduler's state is a record over queue, process table and privilege context.
    \<^item> \<open>Frames\<close>, \<open>Mmu\<close>: \<^verbatim>\<open>src/kernel/mmu.c\<close>. The frame bitmap is a list of 512 words; page
      directories and tables live in a map from addresses to 1024 entries.
    \<^item> \<open>Keyboard\<close>, \<open>Interrupts\<close>: \<^verbatim>\<open>src/kernel/interrupts.c\<close>, the tables, dispatch and handlers.
    \<^item> \<open>Memory\<close>, \<open>Cpu\<close>: \<^verbatim>\<open>src/memory/memory.c\<close> and \<^verbatim>\<open>src/cpu/cpu.c\<close>.
    \<^item> \<open>Devices\<close>, \<open>DeviceProps\<close>: \<^verbatim>\<open>src/devices/device.c\<close>; links are indices into the device table.
    \<^item> \<open>NetStack\<close>, \<open>NetProps\<close>, \<open>NetCodec\<close>: \<^verbatim>\<open>src/kernel/network_stack.c\<close>; sockets, interface and
      route tables, then byte order, checksum and address notation.
    \<^item> \<open>VfsPerms\<close>, \<open>VfsNodes\<close>, \<open>VfsTree\<close>, \<open>Vfs\<close>: \<^verbatim>\<open>src/vfs/vfs.c\<close>. A node is an address in a store with
      parent, first child and next sibling as addresses, as in the struct. \<open>VfsSpec\<close> gives the
      abstract file system, a map from paths to what they show; \<open>VfsFiles\<close>, \<open>VfsProps\<close> prove the
      operations against it; \<open>VfsDemo\<close> holds a concrete file system.
    \<^item> \<open>Disk\<close>, \<open>DiskProps\<close>: \<^verbatim>\<open>src/system/disk.c\<close>, recursions over that tree.
    \<^item> \<open>Syscalls\<close>, \<open>SyscallProps\<close>: \<^verbatim>\<open>src/kernel/syscall_table.c\<close>, every handler and the dispatcher.
    \<^item> \<open>Editor\<close>, \<open>EditorProps\<close>: \<^verbatim>\<open>src/editors/zora_editor.c\<close>, line buffers of 1024 bytes and the pointers
      into file data that it frees.
    \<^item> \<open>TextProc\<close>, \<open>TextProps\<close>: \<^verbatim>\<open>src/unix_core/unix_textproc.c\<close>, the stream editor, awk, nroff, grep
      and word count over the same data blocks.
    \<^item> \<open>Users\<close>, \<open>UserProps\<close>: \<^verbatim>\<open>MERL/user.c\<close>, the user list, its file and the session.
    \<^item> \<open>ShellScript\<close>, \<open>ShellScriptProps\<close>: \<^verbatim>\<open>MERL/shell_script.c\<close>, the script context and interpreter.
    \<^item> \<open>Ipc\<close>: \<^verbatim>\<open>src/unix_core/unix_ipc.c\<close>. \<open>Silicon\<close>, \<open>SiliconProps\<close>: \<^verbatim>\<open>src/meisei/virtual_silicon.c\<close>.
    \<^item> \<open>Kernel\<close>, \<open>KernelProps\<close>: \<^verbatim>\<open>src/kernel/kernel.c\<close>, which composes the above.

  \<^bold>\<open>Conventions.\<close> A definition has the name of the C function it translates. Its result is the
  C result with the new state; an early return is a branch. \<open>None\<close> stands for undefined
  behaviour only (a null or dangling pointer, an access out of bounds, a loop that does not
  end), so that \<open>f x = Some y\<close> says that the code is defined and returns \<open>y\<close>. Counters
  and ids are words of their C width and wrap as the code does. Strings are character lists
  without the terminator, and a copy into a buffer cuts where the code cuts. Messages on the
  console have no counterpart. A loop without a bound of its own (the processor, the
  scripts' \<^verbatim>\<open>while\<close>, walks along list links) is \<open>partial_function (option)\<close>, with theorems
  that say when it returns. Recursions over the file system tree take the depth of the C stack
  as fuel; the lemmas on them show that a depth above the number of nodes is enough.

  \<^bold>\<open>What the lemma groups show.\<close> Tables: ids never reused, least free frame, counters equal
  to the bitmap, handles fresh and independent. Control: isolation of the rings, round robin
  and fairness of the scheduler, accounting of interrupts, time for every ready process
  through the interrupt controller and after boot. Data: paging as a map update, file operations
  as updates of the abstract map with their refusals, access control, descriptors that read a
  file in pieces, users that survive saving and loading, expansion of script text equal to
  a reference function, type safety of script variables, codecs and their inverses, disk
  statistics equal to the set of reachable nodes. Termination: queue removal, unmapping,
  symbolic links, the processor and script loops. Errors: refused calls leave the state alone.
  Where the code differs from what it means to do, a theorem states what happens: a write
  through a descriptor never succeeds, two requests of a fast pool share their memory after
  1000 requests, a device registered twice makes a search endless.

  \<^bold>\<open>Parameters and hypotheses.\<close> Host functions are arguments: an allocator \<open>al\<close>, of which the
  theorems assume that what it returns is not null and not in use; the answers of the host
  to file writes and to \<^verbatim>\<open>fopen\<close>; the memory of a caller of a system call; the detector of
  Java. \<^verbatim>\<open>unsigned long\<close> has 32 bits in the password hash, as on Windows, for which
  the program is written. The clock is read as an argument where its value is stored.

  \<^bold>\<open>Not modelled.\<close> Functions that only print (dumps, listings, banners, help). The loading of a
  host directory into the file system: Win32 directory enumeration. \<^verbatim>\<open>MERL/shell.c\<close>: a table of
  printing commands over modelled operations, with console and Win32 calls; \<^verbatim>\<open>src/main.c\<close>. Wrappers of the host:
  \<^verbatim>\<open>src/network/\<close> (Winsock), \<^verbatim>\<open>src/system/process_real.c\<close>, \<^verbatim>\<open>src/sandbox/\<close>, \<^verbatim>\<open>src/binary/\<close>, the
  terminal. \<^verbatim>\<open>src/lua/\<close>: bindings to a library that is not in the repository. Stubs that
  print: compilers, virtualization. Still open: package manager, games. Locks are left out: the program takes them around whole operations.
\<close>

section \<open>Properties across components\<close>

text \<open>
  C10: Timer interrupts share the CPU: with the timer handler registered and preemption on,
  the process at position \<open>k\<close> of the ready queue is the current process after exactly
  \<open>(k + 1) * quantum\<close> timer interrupts dispatched by the interrupt controller, whatever
  privilege ring each of them found; the tick counter advances by their number.
\<close>

theorem timer_interrupts_fair:
  assumes fair: "fair_state (int_sched w) rps bps" and al: "alloc_ok al"
    and pre: "preemption_enabled (sched (int_sched w))"
    and q: "current_quantum_remaining (sched (int_sched w)) = ucast (quantum_ms (sched (int_sched w)))"
    and pos: "0 < quantum_ms (sched (int_sched w))" and k: "k < length rps"
    and h: "handlers (int_controller w) ! 0x20 = Some irq_timer"
  shows "\<exists>w'. dispatch_all al
      (replicate (Suc k * unat (quantum_ms (sched (int_sched w)))) timer_context) w = Some w' \<and>
    current_process (sched (int_sched w')) = Some (rps ! k) \<and>
    system_ticks w' = system_ticks w + of_nat (Suc k * unat (quantum_ms (sched (int_sched w))))"
proof -
  let ?n = "Suc k * unat (quantum_ms (sched (int_sched w)))"
  from ticks_fair [OF fair al pre q pos k] obtain t
    where t: "ticks al ?n (int_sched w) = Some t" "current_process (sched t) = Some (rps ! k)" by blast
  have "same_but_priv (int_sched w) (int_sched w)"
    using same_but_privI [where w = "int_sched w" and x = "priv (int_sched w)"] by simp
  from kernel_ticks_rel [OF this, of al ?n] t(1) obtain s
    where s: "kernel_ticks al ?n (int_sched w) = Some s" "same_but_priv s t"
    by (cases "kernel_ticks al ?n (int_sched w)") auto
  have "current_process (sched s) = Some (rps ! k)" using s(2) t(2) by (auto simp: same_but_priv_def)
  with timer_run [OF h s(1)] show ?thesis by auto
qed

lemma timer_interrupts_fair_witness:
  "\<exists>w'. dispatch_all demo_al (replicate 20 timer_context)
          (int_blank\<lparr>int_controller := zero_controller\<lparr>handlers := (replicate 256 None)[0x20 := Some irq_timer]\<rparr>\<rparr>)
        = Some w' \<and> current_process (sched (int_sched w')) = Some 80"
proof -
  let ?w = "int_blank\<lparr>int_controller := zero_controller\<lparr>handlers := (replicate 256 None)[0x20 := Some irq_timer]\<rparr>\<rparr>"
  have s: "int_sched ?w = demo_world" by (simp add: int_blank_def)
  have q: "quantum_ms (sched demo_world) = 10" "preemption_enabled (sched demo_world)"
    "current_quantum_remaining (sched demo_world) = 10"
    by (simp_all add: demo_world_def demo_sched_def SCHEDULER_QUANTUM_MS_def)
  have "\<exists>w'. dispatch_all demo_al (replicate (Suc 1 * unat (quantum_ms (sched (int_sched ?w)))) timer_context) ?w
        = Some w' \<and> current_process (sched (int_sched w')) = Some ([70, 80] ! 1) \<and>
      system_ticks w' = system_ticks ?w + of_nat (Suc 1 * unat (quantum_ms (sched (int_sched ?w))))"
    by (rule timer_interrupts_fair [where bps = "[]"]) (simp_all add: s q demo_fair demo_al_ok)
  then show ?thesis by (simp add: s q del: dispatch_all.simps replicate.simps) blast
qed

end
